(* ===== verification/Prelude.thy ===== *)
theory Prelude
  imports "HOL-Library.Word" "HOL-Library.Monad_Syntax" "HOL-Library.AList"
begin

text \<open>
  Shared vocabulary of the development.

  \<^item> Rust's fixed-width integers are words of the same width; \<open>+\<close>, \<open>-\<close> and \<open>*\<close> wrap, as they
    do in the release profile (\<^verbatim>\<open>overflow-checks = false\<close> in \<^verbatim>\<open>Cargo.toml\<close>). The checked and
    saturating variants are written out here. A \<^verbatim>\<open>usize\<close> that only counts or indexes a buffer
    in memory is a \<open>nat\<close>.
  \<^item> A panic, or a \<^verbatim>\<open>?\<close> on \<^verbatim>\<open>None\<close>, is the value \<open>None\<close> of an option computation, which is
    written with the do-notation of \<open>Monad_Syntax\<close>; \<^verbatim>\<open>Result\<close> is a sum with \<open>Inl\<close> for the
    error, chained by \<open>and_then\<close>.
  \<^item> Byte buffers are lists of \<open>u8\<close>; \<open>slice_get\<close> and \<open>copy_at\<close> are range indexing and
    \<^verbatim>\<open>copy_from_slice\<close>, and fail where the ranges of the source fail.
  \<^item> A \<^verbatim>\<open>HashMap\<close> is an association list with distinct keys (in some iteration order), and a
    \<^verbatim>\<open>BTreeMap\<close> an association list sorted by key.
\<close>

type_synonym u8 = "8 word"
type_synonym u16 = "16 word"
type_synonym u32 = "32 word"
type_synonym u64 = "64 word"
type_synonym u128 = "128 word"
type_synonym bytes = "u8 list"

text \<open>A public key is its 32 bytes read as one big-endian number, so that the derived
  lexicographic order of \<^verbatim>\<open>[u8; 32]\<close> is the order of the words.\<close>

type_synonym pubkey = "256 word"

named_theorems le_simps \<open>reading and writing little-endian fields\<close>
named_theorems buf_simps \<open>ranges and writes of byte buffers\<close>
named_theorems arith_simps \<open>values of checked, saturating and widening arithmetic\<close>

section \<open>Results\<close>

definition and_then :: "'e + 'a \<Rightarrow> ('a \<Rightarrow> 'e + 'b) \<Rightarrow> 'e + 'b" where
  "and_then r f = (case r of Inl e \<Rightarrow> Inl e | Inr x \<Rightarrow> f x)"

definition ok_or :: "'e \<Rightarrow> 'a option \<Rightarrow> 'e + 'a" where
  "ok_or e x = (case x of None \<Rightarrow> Inl e | Some v \<Rightarrow> Inr v)"

definition guard_or :: "'e \<Rightarrow> bool \<Rightarrow> 'e + unit" where
  "guard_or e b = (if b then Inr () else Inl e)"

lemma and_then_simps [simp]:
  "and_then (Inl e) f = Inl e"
  "and_then (Inr x) f = f x"
  by (simp_all add: and_then_def)

lemma and_then_Inr [simp]: "and_then r f = Inr y \<longleftrightarrow> (\<exists>x. r = Inr x \<and> f x = Inr y)"
  by (cases r) simp_all

lemma ok_or_simps [simp]:
  "ok_or e None = Inl e"
  "ok_or e (Some x) = Inr x"
  by (simp_all add: ok_or_def)

lemma ok_or_Inr [simp]: "ok_or e x = Inr v \<longleftrightarrow> x = Some v"
  by (cases x) simp_all

lemma guard_or_Inr [simp]: "guard_or e b = Inr u \<longleftrightarrow> b"
  by (simp add: guard_or_def)

lemma guard_or_simps [simp]:
  "guard_or e True = Inr ()"
  "guard_or e False = Inl e"
  by (simp_all add: guard_or_def)

text \<open>Rust's \<^verbatim>\<open>iter().map(f).collect::<Result<Vec<_>, _>>()\<close>: the first error wins.\<close>

fun collect_results :: "('a \<Rightarrow> 'e + 'b) \<Rightarrow> 'a list \<Rightarrow> 'e + 'b list" where
  "collect_results f [] = Inr []"
| "collect_results f (x # xs) =
     and_then (f x) (\<lambda>y. and_then (collect_results f xs) (\<lambda>ys. Inr (y # ys)))"

lemma collect_results_Inr:
  "collect_results f xs = Inr ys \<longleftrightarrow> list_all2 (\<lambda>x y. f x = Inr y) xs ys"
  by (induction xs arbitrary: ys) (auto simp: list_all2_Cons1)

text \<open>Where an error comes from.\<close>

lemma and_then_Inl: "and_then r f = Inl e \<longleftrightarrow> r = Inl e \<or> (\<exists>x. r = Inr x \<and> f x = Inl e)"
  by (cases r) simp_all

lemma ok_or_Inl: "ok_or e x = Inl e' \<longleftrightarrow> x = None \<and> e = e'"
  by (cases x) auto

lemma guard_or_Inl: "guard_or e b = Inl e' \<longleftrightarrow> \<not> b \<and> e = e'"
  by (cases b) auto

lemmas error_simps = and_then_Inl ok_or_Inl guard_or_Inl

lemma collect_results_Inl: "collect_results f xs = Inl e \<Longrightarrow> \<exists>x \<in> set xs. f x = Inl e"
  by (induction xs) (auto simp: error_simps)

section \<open>Checked and saturating arithmetic\<close>

definition checked_add :: "'a::len word \<Rightarrow> 'a word \<Rightarrow> 'a word option" where
  "checked_add a b = (if unat a + unat b < 2 ^ LENGTH('a) then Some (a + b) else None)"

definition checked_sub :: "'a::len word \<Rightarrow> 'a word \<Rightarrow> 'a word option" where
  "checked_sub a b = (if b \<le> a then Some (a - b) else None)"

definition checked_mul :: "'a::len word \<Rightarrow> 'a word \<Rightarrow> 'a word option" where
  "checked_mul a b = (if unat a * unat b < 2 ^ LENGTH('a) then Some (a * b) else None)"

definition checked_div :: "'a::len word \<Rightarrow> 'a word \<Rightarrow> 'a word option" where
  "checked_div a b = (if b = 0 then None else Some (a div b))"

definition sat_add :: "'a::len word \<Rightarrow> 'a word \<Rightarrow> 'a word" where
  "sat_add a b = (if unat a + unat b < 2 ^ LENGTH('a) then a + b else - 1)"

definition sat_sub :: "'a::len word \<Rightarrow> 'a word \<Rightarrow> 'a word" where
  "sat_sub a b = (if b \<le> a then a - b else 0)"

definition sat_mul :: "'a::len word \<Rightarrow> 'a word \<Rightarrow> 'a word" where
  "sat_mul a b = (if unat a * unat b < 2 ^ LENGTH('a) then a * b else - 1)"

definition unwrap_or :: "'a \<Rightarrow> 'a option \<Rightarrow> 'a" where
  "unwrap_or d x = (case x of None \<Rightarrow> d | Some v \<Rightarrow> v)"

lemma unwrap_or_simps [simp]:
  "unwrap_or d None = d"
  "unwrap_or d (Some v) = v"
  by (simp_all add: unwrap_or_def)

lemma unat_lt2p: "unat (w :: 'a::len word) < 2 ^ LENGTH('a)"
  by (rule unsigned_less)

lemma unat_max_word: "unat (- 1 :: 'a::len word) = 2 ^ LENGTH('a) - 1"
  by (simp add: unsigned_minus_1_eq_mask mask_eq_exp_minus_1)

lemma unat_add_small:
  "unat a + unat b < 2 ^ LENGTH('a) \<Longrightarrow> unat (a + b :: 'a::len word) = unat a + unat b"
  by (simp add: unat_add_lem [symmetric])

lemma unat_mult_small:
  "unat a * unat b < 2 ^ LENGTH('a) \<Longrightarrow> unat (a * b :: 'a::len word) = unat a * unat b"
  by (simp add: unat_mult_lem [symmetric])

lemma unat_sat_add [arith_simps]:
  "unat (sat_add a b :: 'a::len word) = min (unat a + unat b) (2 ^ LENGTH('a) - 1)"
  by (auto simp: sat_add_def unat_add_small unat_max_word)

lemma unat_sat_sub [arith_simps]: "unat (sat_sub a b :: 'a::len word) = unat a - unat b"
  by (auto simp: sat_sub_def unat_sub word_le_nat_alt)

lemma unat_sat_mul [arith_simps]:
  "unat (sat_mul a b :: 'a::len word) = min (unat a * unat b) (2 ^ LENGTH('a) - 1)"
  by (auto simp: sat_mul_def unat_mult_small unat_max_word)

lemma checked_add_Some:
  "checked_add a b = Some c \<longleftrightarrow> unat c = unat a + unat b"
  for a b c :: "'a::len word"
proof (cases "unat a + unat b < 2 ^ LENGTH('a)")
  case True
  then show ?thesis by (auto simp: checked_add_def unat_add_small word_unat_eq_iff)
next
  case False
  with unat_lt2p [of c] have "unat c \<noteq> unat a + unat b" by linarith
  with False show ?thesis by (simp add: checked_add_def)
qed

lemma checked_add_None:
  "checked_add a b = None \<longleftrightarrow> 2 ^ LENGTH('a) \<le> unat a + unat b" for a b :: "'a::len word"
  by (auto simp: checked_add_def)

lemma checked_mul_Some:
  "checked_mul a b = Some c \<longleftrightarrow> unat c = unat a * unat b"
  for a b c :: "'a::len word"
proof (cases "unat a * unat b < 2 ^ LENGTH('a)")
  case True
  then show ?thesis by (auto simp: checked_mul_def unat_mult_small word_unat_eq_iff)
next
  case False
  with unat_lt2p [of c] have "unat c \<noteq> unat a * unat b" by linarith
  with False show ?thesis by (simp add: checked_mul_def)
qed

lemma checked_sub_Some:
  "checked_sub a b = Some c \<longleftrightarrow> b \<le> a \<and> unat c = unat a - unat b"
  for a b c :: "'a::len word"
  by (auto simp: checked_sub_def unat_sub word_unat_eq_iff)

lemma checked_div_Some:
  "checked_div a b = Some c \<longleftrightarrow> b \<noteq> 0 \<and> c = a div b" for a b c :: "'a::len word"
  by (auto simp: checked_div_def)

text \<open>Widening a \<open>u64\<close> to a \<open>u128\<close> keeps its value, and no product or sum of two widened
  values can wrap.\<close>

abbreviation widen :: "u64 \<Rightarrow> u128" where "widen \<equiv> ucast"
abbreviation narrow :: "u128 \<Rightarrow> u64" where "narrow \<equiv> ucast"

lemma unat_widen [arith_simps, simp]: "unat (widen x) = unat x"
  using unat_lt2p [of x] by (simp add: unsigned_ucast_eq take_bit_eq_mod)

lemma unat_u64_bound [simp]: "unat (x :: u64) < 18446744073709551616"
  using unat_lt2p [of x] by simp

lemma unat_u128_bound [simp]: "unat (x :: u128) < 340282366920938463463374607431768211456"
  using unat_lt2p [of x] by simp

lemma unat_narrow: "unat (narrow x) = unat x mod 18446744073709551616"
  by (simp add: unsigned_ucast_eq take_bit_eq_mod)

lemma unat_narrow_small: "unat x < 18446744073709551616 \<Longrightarrow> unat (narrow x) = unat x"
  by (simp add: unat_narrow)

lemma unat_add_u128:
  "unat a + unat b < 340282366920938463463374607431768211456 \<Longrightarrow> unat (a + b :: u128) = unat a + unat b"
  using unat_add_small [of a b] by simp

lemma unat_mult_u128:
  "unat a * unat b < 340282366920938463463374607431768211456 \<Longrightarrow> unat (a * b :: u128) = unat a * unat b"
  using unat_mult_small [of a b] by simp

section \<open>Little-endian fields\<close>

fun le_nat :: "bytes \<Rightarrow> nat" where
  "le_nat [] = 0"
| "le_nat (b # bs) = unat b + 256 * le_nat bs"

fun nat_le :: "nat \<Rightarrow> nat \<Rightarrow> bytes" where
  "nat_le 0 x = []"
| "nat_le (Suc n) x = word_of_nat x # nat_le n (x div 256)"

lemma length_nat_le [simp, le_simps]: "length (nat_le n x) = n"
  by (induction n arbitrary: x) simp_all

lemma unat_u8_bound [simp]: "unat (b :: u8) < 256"
  using unat_lt2p [of b] by simp

lemma le_nat_bound: "le_nat bs < 256 ^ length bs"
proof (induction bs)
  case (Cons b bs)
  have "unat b < 256" by simp
  with Cons show ?case by (simp del: unat_u8_bound)
qed simp

lemma le_nat_nat_le [le_simps]: "le_nat (nat_le n x) = x mod 256 ^ n"
proof (induction n arbitrary: x)
  case (Suc n)
  have "unat (word_of_nat x :: u8) = x mod 256"
    by (simp add: unat_of_nat)
  with Suc show ?case
    by (simp add: mod_mult2_eq)
qed simp

lemma nat_le_le_nat [le_simps]: "nat_le (length bs) (le_nat bs) = bs"
proof (induction bs)
  case (Cons b bs)
  have b: "unat b < 256" by simp
  have "word_of_nat (unat b + 256 * le_nat bs) = b"
  proof -
    have "unat (word_of_nat (unat b + 256 * le_nat bs) :: u8) = unat b"
      using b by (simp add: unat_of_nat del: of_nat_add of_nat_mult)
    then show ?thesis by (simp only: word_unat_eq_iff)
  qed
  moreover have "(unat b + 256 * le_nat bs) div 256 = le_nat bs"
    using b by simp
  ultimately show ?case using Cons by simp
qed simp

definition u16_of_le :: "bytes \<Rightarrow> u16" where "u16_of_le bs = word_of_nat (le_nat bs)"
definition u32_of_le :: "bytes \<Rightarrow> u32" where "u32_of_le bs = word_of_nat (le_nat bs)"
definition u64_of_le :: "bytes \<Rightarrow> u64" where "u64_of_le bs = word_of_nat (le_nat bs)"
definition u128_of_le :: "bytes \<Rightarrow> u128" where "u128_of_le bs = word_of_nat (le_nat bs)"

definition u16_to_le :: "u16 \<Rightarrow> bytes" where "u16_to_le w = nat_le 2 (unat w)"
definition u32_to_le :: "u32 \<Rightarrow> bytes" where "u32_to_le w = nat_le 4 (unat w)"
definition u64_to_le :: "u64 \<Rightarrow> bytes" where "u64_to_le w = nat_le 8 (unat w)"

lemma length_to_le [simp, le_simps]:
  "length (u16_to_le a) = 2" "length (u32_to_le b) = 4" "length (u64_to_le c) = 8"
  by (simp_all add: u16_to_le_def u32_to_le_def u64_to_le_def)

lemma word_of_nat_mod: "word_of_nat (unat w mod 2 ^ LENGTH('a)) = (w :: 'a::len word)"
  by simp

lemma of_le_to_le [simp, le_simps]:
  "u16_of_le (u16_to_le a) = a" "u32_of_le (u32_to_le b) = b" "u64_of_le (u64_to_le c) = c"
  using word_of_nat_mod [of a] word_of_nat_mod [of b] word_of_nat_mod [of c]
  by (simp_all add: u16_of_le_def u16_to_le_def u32_of_le_def u32_to_le_def
      u64_of_le_def u64_to_le_def le_nat_nat_le)

lemma to_le_of_le:
  "length bs = 2 \<Longrightarrow> u16_to_le (u16_of_le bs) = bs"
  "length cs = 4 \<Longrightarrow> u32_to_le (u32_of_le cs) = cs"
  "length ds = 8 \<Longrightarrow> u64_to_le (u64_of_le ds) = ds"
  using le_nat_bound [of bs] le_nat_bound [of cs] le_nat_bound [of ds]
    nat_le_le_nat [of bs] nat_le_le_nat [of cs] nat_le_le_nat [of ds]
  by (simp_all add: u16_of_le_def u16_to_le_def u32_of_le_def u32_to_le_def
      u64_of_le_def u64_to_le_def unat_of_nat)

text \<open>Big-endian reading of a 32-byte key (\<^verbatim>\<open>Pubkey::new_from_array\<close>, \<^verbatim>\<open>Pubkey::try_from\<close>).\<close>

definition pubkey_of_bytes :: "bytes \<Rightarrow> pubkey" where
  "pubkey_of_bytes bs = word_of_nat (le_nat (rev bs))"

definition pubkey_to_bytes :: "pubkey \<Rightarrow> bytes" where
  "pubkey_to_bytes k = rev (nat_le 32 (unat k))"

lemma length_pubkey_to_bytes [simp, le_simps]: "length (pubkey_to_bytes k) = 32"
  by (simp add: pubkey_to_bytes_def)

lemma pubkey_of_to_bytes [simp, le_simps]: "pubkey_of_bytes (pubkey_to_bytes k) = k"
  using word_of_nat_mod [of k] by (simp add: pubkey_of_bytes_def pubkey_to_bytes_def le_nat_nat_le)

lemma pubkey_to_of_bytes: "length bs = 32 \<Longrightarrow> pubkey_to_bytes (pubkey_of_bytes bs) = bs"
  using le_nat_bound [of "rev bs"] nat_le_le_nat [of "rev bs"]
  by (simp add: pubkey_of_bytes_def pubkey_to_bytes_def unat_of_nat)

section \<open>Ranges and writes of byte buffers\<close>

definition slice_get :: "'a list \<Rightarrow> nat \<Rightarrow> nat \<Rightarrow> 'a list option" where
  "slice_get xs a b = (if a \<le> b \<and> b \<le> length xs then Some (take (b - a) (drop a xs)) else None)"

definition idx :: "'a list \<Rightarrow> nat \<Rightarrow> 'a option" where
  "idx xs i = (if i < length xs then Some (xs ! i) else None)"

definition copy_at :: "nat \<Rightarrow> 'a list \<Rightarrow> 'a list \<Rightarrow> 'a list option" where
  "copy_at off src xs =
     (if off + length src \<le> length xs then Some (take off xs @ src @ drop (off + length src) xs)
      else None)"

lemma slice_get_Some:
  "slice_get xs a b = Some ys \<longleftrightarrow> a \<le> b \<and> b \<le> length xs \<and> ys = take (b - a) (drop a xs)"
  by (auto simp: slice_get_def)

lemma slice_get_length: "slice_get xs a b = Some ys \<Longrightarrow> length ys = b - a"
  by (auto simp: slice_get_Some)

lemma slice_get_in [buf_simps]:
  "a \<le> b \<Longrightarrow> b \<le> length xs \<Longrightarrow> slice_get xs a b = Some (take (b - a) (drop a xs))"
  by (simp add: slice_get_def)

lemma slice_get_eq_None [simp]: "slice_get xs a b = None \<longleftrightarrow> \<not> (a \<le> b \<and> b \<le> length xs)"
  by (simp add: slice_get_def)

lemma idx_Some: "idx xs i = Some x \<longleftrightarrow> i < length xs \<and> x = xs ! i"
  by (auto simp: idx_def)

lemma idx_in [buf_simps]: "i < length xs \<Longrightarrow> idx xs i = Some (xs ! i)"
  by (simp add: idx_def)

lemma copy_at_in [buf_simps]:
  "off + length src \<le> length xs \<Longrightarrow>
   copy_at off src xs = Some (take off xs @ src @ drop (off + length src) xs)"
  by (simp add: copy_at_def)

lemma copy_at_length: "copy_at off src xs = Some ys \<Longrightarrow> length ys = length xs"
  by (auto simp: copy_at_def split: if_splits)

text \<open>Reading back a written field, and reading a field a write did not touch.\<close>

lemma slice_copy_same [buf_simps]:
  "copy_at off src xs = Some ys \<Longrightarrow> slice_get ys off (off + length src) = Some src"
  by (auto simp: copy_at_def slice_get_def split: if_splits)

lemma slice_copy_other:
  assumes "copy_at off src xs = Some ys" and "b \<le> off \<or> off + length src \<le> a"
  shows "slice_get ys a b = slice_get xs a b"
proof (cases "a \<le> b \<and> b \<le> length xs")
  case True
  have len: "length ys = length xs"
    using assms(1) by (rule copy_at_length)
  have ys: "ys = take off xs @ src @ drop (off + length src) xs" and le: "off + length src \<le> length xs"
    using assms(1) by (auto simp: copy_at_def split: if_splits)
  have "take (b - a) (drop a ys) = take (b - a) (drop a xs)"
  proof (rule nth_equalityI)
    show "length (take (b - a) (drop a ys)) = length (take (b - a) (drop a xs))"
      using len by simp
  next
    fix i assume i: "i < length (take (b - a) (drop a ys))"
    with len have "i < b - a" and "a + i < length xs" by auto
    have "ys ! (a + i) = xs ! (a + i)"
    proof (cases "b \<le> off")
      case True
      with \<open>i < b - a\<close> have "a + i < off" by arith
      with le show ?thesis by (simp add: ys nth_append)
    next
      case False
      with assms(2) have "off + length src \<le> a" by simp
      then have "\<not> a + i < off" and "\<not> a + i - off < length src" and
        "off + length src + (a + i - off - length src) = a + i" by arith+
      with le \<open>a + i < length xs\<close> show ?thesis by (simp add: ys nth_append)
    qed
    with \<open>i < b - a\<close> \<open>a + i < length xs\<close> len
    show "take (b - a) (drop a ys) ! i = take (b - a) (drop a xs) ! i" by simp
  qed
  with True len show ?thesis by (simp add: slice_get_def)
next
  case False
  then show ?thesis using copy_at_length [OF assms(1)] by (auto simp: slice_get_def)
qed

section \<open>Association lists\<close>

lemma map_of_update [simp]: "map_of (AList.update k v m) = (map_of m)(k \<mapsto> v)"
  by (rule update_conv')

lemma map_of_delete [simp]: "map_of (AList.delete k m) = (map_of m)(k := None)"
  by (rule delete_conv')

text \<open>Insertion into a \<^verbatim>\<open>BTreeMap\<close>: an existing key keeps its place.\<close>

fun bt_insert :: "'k::linorder \<Rightarrow> 'v \<Rightarrow> ('k \<times> 'v) list \<Rightarrow> ('k \<times> 'v) list" where
  "bt_insert k v [] = [(k, v)]"
| "bt_insert k v ((k', v') # m) =
     (if k < k' then (k, v) # (k', v') # m
      else if k = k' then (k, v) # m
      else (k', v') # bt_insert k v m)"

definition bt_entry_or_insert :: "'k::linorder \<Rightarrow> 'v \<Rightarrow> ('k \<times> 'v) list \<Rightarrow> ('k \<times> 'v) list" where
  "bt_entry_or_insert k v m = (case map_of m k of None \<Rightarrow> bt_insert k v m | Some _ \<Rightarrow> m)"

definition bt_range :: "'k::linorder \<Rightarrow> 'k \<Rightarrow> ('k \<times> 'v) list \<Rightarrow> ('k \<times> 'v) list" where
  "bt_range lo hi m = filter (\<lambda>(k, _). lo \<le> k \<and> k \<le> hi) m"

abbreviation bt_sorted :: "('k::linorder \<times> 'v) list \<Rightarrow> bool" where
  "bt_sorted m \<equiv> sorted_wrt (<) (map fst m)"

lemma fst_set_bt_insert [simp]: "fst ` set (bt_insert k v m) = insert k (fst ` set m)"
  by (induction k v m rule: bt_insert.induct) (auto simp: image_iff)

lemma bt_sorted_insert [simp]: "bt_sorted m \<Longrightarrow> bt_sorted (bt_insert k v m)"
proof (induction k v m rule: bt_insert.induct)
  case (2 k v k' v' m)
  then show ?case
    by (auto simp flip: set_map) (auto simp: less_trans)
qed simp

lemma map_of_bt_insert [simp]: "bt_sorted m \<Longrightarrow> map_of (bt_insert k v m) = (map_of m)(k \<mapsto> v)"
proof (induction k v m rule: bt_insert.induct)
  case (2 k v k' v' m)
  then show ?case by (auto simp: fun_eq_iff)
qed (auto simp: fun_eq_iff)

lemma bt_sorted_filter: "bt_sorted m \<Longrightarrow> bt_sorted (filter P m)"
  by (induction m) auto

lemma bt_sorted_delete [simp]: "bt_sorted m \<Longrightarrow> bt_sorted (AList.delete k m)"
  by (simp add: AList.delete_eq bt_sorted_filter)

lemma bt_sorted_distinct: "bt_sorted m \<Longrightarrow> distinct (map fst m)"
  using strict_sorted_iff by blast

lemma bt_sorted_entry [simp]: "bt_sorted m \<Longrightarrow> bt_sorted (bt_entry_or_insert k v m)"
  by (simp add: bt_entry_or_insert_def split: option.splits)

end
