(* ===== verification/Shred_Layout.thy ===== *)
theory Shred_Layout
  imports Prelude
begin

text \<open>
  The byte layout of shreds as \<^verbatim>\<open>spy-node/src/fec_assembler.rs\<close> uses it for Reed-Solomon
  recovery: the variant byte (\<^verbatim>\<open>RecoveryVariant\<close>), header fields, the part of a payload that
  takes part in erasure coding, the offsets of the chained Merkle root and of the Merkle proof,
  and the rebuilding of a payload from a recovered erasure shard.

  An error string of the source is a constructor of \<open>fec_error\<close>; \<open>Panicked\<close> is a panic of the
  source (an index or a \<^verbatim>\<open>copy_from_slice\<close> out of range), which the lemmas below show the
  operations do not reach on the payloads they are given.
\<close>

section \<open>Constants\<close>

definition SIGNATURE_SIZE :: nat where [simp]: "SIGNATURE_SIZE = 64"
definition SHRED_VARIANT_OFFSET :: nat where [simp]: "SHRED_VARIANT_OFFSET = 64"
definition SLOT_OFFSET :: nat where [simp]: "SLOT_OFFSET = 65"
definition INDEX_OFFSET :: nat where [simp]: "INDEX_OFFSET = 73"
definition VERSION_OFFSET :: nat where [simp]: "VERSION_OFFSET = 77"
definition FEC_SET_INDEX_OFFSET :: nat where [simp]: "FEC_SET_INDEX_OFFSET = 79"
definition CODING_NUM_DATA_OFFSET :: nat where [simp]: "CODING_NUM_DATA_OFFSET = 83"
definition CODING_NUM_CODING_OFFSET :: nat where [simp]: "CODING_NUM_CODING_OFFSET = 85"
definition CODING_POSITION_OFFSET :: nat where [simp]: "CODING_POSITION_OFFSET = 87"
definition LEGACY_PAYLOAD_SIZE :: nat where [simp]: "LEGACY_PAYLOAD_SIZE = 1228"
definition LEGACY_DATA_HEADERS_SIZE :: nat where [simp]: "LEGACY_DATA_HEADERS_SIZE = 88"
definition LEGACY_CODING_HEADERS_SIZE :: nat where [simp]: "LEGACY_CODING_HEADERS_SIZE = 89"
definition LEGACY_ERASURE_SHARD_SIZE :: nat where [simp]: "LEGACY_ERASURE_SHARD_SIZE = 1139"
definition MERKLE_DATA_PAYLOAD_SIZE :: nat where [simp]: "MERKLE_DATA_PAYLOAD_SIZE = 1203"
definition MERKLE_PROOF_ENTRY_SIZE :: nat where [simp]: "MERKLE_PROOF_ENTRY_SIZE = 20"
definition MERKLE_ROOT_SIZE :: nat where [simp]: "MERKLE_ROOT_SIZE = 32"

section \<open>The variant byte\<close>

datatype recovery_variant =
    LegacyData
  | LegacyCode
  | MerkleData u8 bool bool \<comment> \<open>\<^verbatim>\<open>proof_size\<close>, \<^verbatim>\<open>chained\<close>, \<^verbatim>\<open>resigned\<close>\<close>
  | MerkleCode u8 bool bool

definition variant_of_byte :: "u8 \<Rightarrow> recovery_variant option" where
  "variant_of_byte byte =
     (if byte = 0x5a then Some LegacyCode
      else if byte = 0xa5 then Some LegacyData
      else let proof_size = and byte 0x0f; upper = drop_bit 4 byte in
        if upper = 4 then Some (MerkleCode proof_size False False)
        else if upper = 6 then Some (MerkleCode proof_size True False)
        else if upper = 7 then Some (MerkleCode proof_size True True)
        else if upper = 8 then Some (MerkleData proof_size False False)
        else if upper = 9 then Some (MerkleData proof_size True False)
        else if upper = 11 then Some (MerkleData proof_size True True)
        else None)"

definition from_payload :: "bytes \<Rightarrow> recovery_variant option" where
  "from_payload payload = do { byte \<leftarrow> idx payload SHRED_VARIANT_OFFSET; variant_of_byte byte }"

fun is_merkle :: "recovery_variant \<Rightarrow> bool" where
  "is_merkle (MerkleData _ _ _) = True"
| "is_merkle (MerkleCode _ _ _) = True"
| "is_merkle _ = False"

fun is_data :: "recovery_variant \<Rightarrow> bool" where
  "is_data LegacyData = True"
| "is_data (MerkleData _ _ _) = True"
| "is_data _ = False"

fun proof_size :: "recovery_variant \<Rightarrow> u8" where
  "proof_size (MerkleData p _ _) = p"
| "proof_size (MerkleCode p _ _) = p"
| "proof_size _ = 0"

fun chained :: "recovery_variant \<Rightarrow> bool" where
  "chained (MerkleData _ c _) = c"
| "chained (MerkleCode _ c _) = c"
| "chained _ = False"

fun resigned :: "recovery_variant \<Rightarrow> bool" where
  "resigned (MerkleData _ _ r) = r"
| "resigned (MerkleCode _ _ r) = r"
| "resigned _ = False"

text \<open>\<^verbatim>\<open>variant_byte\<close>; the two arms that are \<^verbatim>\<open>unreachable!\<close> in the source are \<open>None\<close>.\<close>

fun variant_byte :: "recovery_variant \<Rightarrow> u8 option" where
  "variant_byte LegacyData = Some 0xa5"
| "variant_byte LegacyCode = Some 0x5a"
| "variant_byte (MerkleCode p False False) = Some (or 0x40 p)"
| "variant_byte (MerkleCode p True False) = Some (or 0x60 p)"
| "variant_byte (MerkleCode p True True) = Some (or 0x70 p)"
| "variant_byte (MerkleData p False False) = Some (or 0x80 p)"
| "variant_byte (MerkleData p True False) = Some (or 0x90 p)"
| "variant_byte (MerkleData p True True) = Some (or 0xb0 p)"
| "variant_byte (MerkleData _ False True) = None"
| "variant_byte (MerkleCode _ False True) = None"

lemma push_bit_drop_bit: "push_bit n (drop_bit n b) = and b (not (mask n))" for b :: "'a::len word"
  by (rule bit_word_eqI) (auto simp: bit_simps)

lemma nibble_mask: "(0x0f :: u8) = mask 4"
  by (simp add: mask_eq_exp_minus_1)

lemma nibbles_join: "or (push_bit 4 (drop_bit 4 b)) (and b 0x0f) = b" for b :: u8
  unfolding nibble_mask push_bit_drop_bit by (rule bit_word_eqI) (auto simp: bit_simps)

lemma low_nibble_bound: "unat (and b 0x0f) < 16" for b :: u8
proof -
  have "unat (and b 0x0f) \<le> unat (0x0f :: u8)"
    by (rule word_and_le1 [THEN word_le_nat_alt [THEN iffD1]])
  then show ?thesis by simp
qed

lemma small_nibble:
  fixes p :: u8
  assumes "unat p < 16"
  shows "drop_bit 4 p = 0" and "and p 0x0f = p"
proof -
  show "drop_bit 4 p = 0"
    using assms by (simp add: word_unat_eq_iff unsigned_drop_bit_eq drop_bit_eq_div unat_div)
  then show "and p 0x0f = p"
    using nibbles_join [of p] by simp
qed

lemma variant_of_byte_Some:
  assumes "variant_of_byte b = Some v"
  shows "variant_byte v = Some b" and "unat (proof_size v) < 16" and "resigned v \<Longrightarrow> chained v"
  using assms nibbles_join [of b] low_nibble_bound [of b]
  by (auto simp: variant_of_byte_def Let_def split: if_splits)

definition merkle_variant_of :: "u8 \<Rightarrow> u8 \<Rightarrow> recovery_variant option" where
  "merkle_variant_of upper p =
     (if upper = 4 then Some (MerkleCode p False False)
      else if upper = 6 then Some (MerkleCode p True False)
      else if upper = 7 then Some (MerkleCode p True True)
      else if upper = 8 then Some (MerkleData p False False)
      else if upper = 9 then Some (MerkleData p True False)
      else if upper = 11 then Some (MerkleData p True True)
      else None)"

lemma variant_of_byte_or:
  assumes "unat p < 16" and "and x 0x0f = 0" and "drop_bit 4 x \<noteq> 5" and "drop_bit 4 x \<noteq> 10"
  shows "variant_of_byte (or x p) = merkle_variant_of (drop_bit 4 x) p"
proof -
  have up: "drop_bit 4 (or x p) = drop_bit 4 x"
    using small_nibble(1) [OF assms(1)] by (simp only: drop_bit_or or.right_neutral)
  have lo: "and (or x p) 0x0f = p"
    using small_nibble(2) [OF assms(1)] assms(2)
    by (simp only: bit.conj_disj_distrib2 or.left_neutral)
  have "drop_bit 4 (0x5a :: u8) = 5" "drop_bit 4 (0xa5 :: u8) = 10" by simp_all
  with assms(3,4) up have "or x p \<noteq> 0x5a" "or x p \<noteq> 0xa5" by metis+
  then show ?thesis
    unfolding variant_of_byte_def merkle_variant_of_def Let_def up lo by (simp only: if_False)
qed

lemma variant_of_byte_encode:
  assumes "unat p < 16" and "r \<longrightarrow> c"
  shows "Option.bind (variant_byte (MerkleData p c r)) variant_of_byte = Some (MerkleData p c r)"
    and "Option.bind (variant_byte (MerkleCode p c r)) variant_of_byte = Some (MerkleCode p c r)"
  using assms(2)
  by (cases c; cases r; simp add: variant_of_byte_or [OF assms(1)] merkle_variant_of_def)+

text \<open>A variant that a payload can carry.\<close>

definition wf_variant :: "recovery_variant \<Rightarrow> bool" where
  "wf_variant v \<longleftrightarrow> unat (proof_size v) < 16 \<and> (resigned v \<longrightarrow> chained v)"

lemma from_payload_wf: "from_payload payload = Some v \<Longrightarrow> wf_variant v"
  by (auto simp: from_payload_def wf_variant_def bind_eq_Some_conv dest: variant_of_byte_Some)

section \<open>Errors and header fields\<close>

datatype fec_error =
    MissingU16 nat | MissingU32 nat | MissingU64 nat
  | UnknownVariant
  | InvalidLegacyDataSize nat | InvalidLegacyCodeSize nat
  | InvalidCodeCapacity | InvalidDataCapacity
  | UnexpectedDataShardSize nat nat | DataShardTooLarge nat
  | UnexpectedCodeShardSize nat nat | CodeShardTooLarge nat
  | InvalidNodeSlice
  | InvalidProofLength nat nat | InvalidProofWriteRange
  | MissingMerkleVariant | MissingCodingMeta | MissingCodingShred | MissingSignature
  | InvalidErasureIndex | ErasureIndexOutOfRange nat nat
  | ReedSolomonInit | ReconstructFailed
  | MissingDataShard | MissingCodingShard
  | ProofBuildFailed | DeserializeFailed
  | Panicked

definition parse_u16 :: "bytes \<Rightarrow> nat \<Rightarrow> fec_error + u16" where
  "parse_u16 payload offset =
     ok_or (MissingU16 offset) (map_option u16_of_le (slice_get payload offset (offset + 2)))"

definition parse_u32 :: "bytes \<Rightarrow> nat \<Rightarrow> fec_error + u32" where
  "parse_u32 payload offset =
     ok_or (MissingU32 offset) (map_option u32_of_le (slice_get payload offset (offset + 4)))"

definition parse_u64 :: "bytes \<Rightarrow> nat \<Rightarrow> fec_error + u64" where
  "parse_u64 payload offset =
     ok_or (MissingU64 offset) (map_option u64_of_le (slice_get payload offset (offset + 8)))"

definition ok :: "'e + 'a \<Rightarrow> 'a option" where
  "ok r = (case r of Inl _ \<Rightarrow> None | Inr x \<Rightarrow> Some x)"

lemma ok_simps [simp]: "ok (Inl e) = None" "ok (Inr x) = Some x"
  by (simp_all add: ok_def)

text \<open>The position of a shred in its erasure set (\<^verbatim>\<open>erasure_shard_index\<close>).\<close>

definition erasure_shard_index :: "bytes \<Rightarrow> nat option" where
  "erasure_shard_index payload = do {
     variant \<leftarrow> from_payload payload;
     if is_data variant then do {
       index \<leftarrow> ok (parse_u32 payload INDEX_OFFSET);
       fec_set_index \<leftarrow> ok (parse_u32 payload FEC_SET_INDEX_OFFSET);
       map_option unat (checked_sub index fec_set_index)
     } else do {
       num_data \<leftarrow> ok (parse_u16 payload CODING_NUM_DATA_OFFSET);
       position \<leftarrow> ok (parse_u16 payload CODING_POSITION_OFFSET);
       Some (unat num_data + unat position)
     }}"

section \<open>Capacities and offsets\<close>

text \<open>The bytes every Merkle variant reserves after its headers: the chained root, the proof
  and the retransmitter signature.\<close>

definition proof_bytes :: "recovery_variant \<Rightarrow> nat" where
  "proof_bytes v = unat (proof_size v) * MERKLE_PROOF_ENTRY_SIZE"

definition root_bytes :: "recovery_variant \<Rightarrow> nat" where
  "root_bytes v = (if chained v then MERKLE_ROOT_SIZE else 0)"

definition resigned_bytes :: "recovery_variant \<Rightarrow> nat" where
  "resigned_bytes v = (if resigned v then SIGNATURE_SIZE else 0)"

definition merkle_code_capacity :: "recovery_variant \<Rightarrow> fec_error + nat" where
  "merkle_code_capacity v =
     (let used = LEGACY_CODING_HEADERS_SIZE + root_bytes v + proof_bytes v + resigned_bytes v in
      if used \<le> LEGACY_PAYLOAD_SIZE then Inr (LEGACY_PAYLOAD_SIZE - used) else Inl InvalidCodeCapacity)"

definition merkle_data_capacity :: "recovery_variant \<Rightarrow> fec_error + nat" where
  "merkle_data_capacity v =
     (let used = LEGACY_DATA_HEADERS_SIZE + root_bytes v + proof_bytes v + resigned_bytes v in
      if used \<le> MERKLE_DATA_PAYLOAD_SIZE then Inr (MERKLE_DATA_PAYLOAD_SIZE - used)
      else Inl InvalidDataCapacity)"

text \<open>The end of the capacity, where a chained shred holds its root.\<close>

definition capacity_end :: "recovery_variant \<Rightarrow> fec_error + nat" where
  "capacity_end v =
     (if is_data v
      then and_then (merkle_data_capacity v) (\<lambda>c. Inr (LEGACY_DATA_HEADERS_SIZE + c))
      else and_then (merkle_code_capacity v) (\<lambda>c. Inr (LEGACY_CODING_HEADERS_SIZE + c)))"

definition merkle_proof_offset :: "recovery_variant \<Rightarrow> fec_error + nat" where
  "merkle_proof_offset v = and_then (capacity_end v) (\<lambda>base. Inr (base + root_bytes v))"

definition extract_chained_merkle_root :: "bytes \<Rightarrow> recovery_variant \<Rightarrow> bytes option" where
  "extract_chained_merkle_root payload v =
     (if \<not> chained v then None
      else do {
        offset \<leftarrow> ok (capacity_end v);
        slice_get payload offset (offset + MERKLE_ROOT_SIZE) })"

text \<open>The bytes of a payload that are erasure coded (\<^verbatim>\<open>erasure_shard_bytes\<close>).\<close>

definition panic_or :: "'a option \<Rightarrow> fec_error + 'a" where
  "panic_or x = ok_or Panicked x"

definition erasure_shard_bytes :: "bytes \<Rightarrow> fec_error + bytes" where
  "erasure_shard_bytes payload =
     and_then (ok_or UnknownVariant (from_payload payload)) (\<lambda>variant.
     (case variant of
        LegacyData \<Rightarrow>
          if length payload \<noteq> LEGACY_PAYLOAD_SIZE then Inl (InvalidLegacyDataSize (length payload))
          else panic_or (slice_get payload 0 LEGACY_ERASURE_SHARD_SIZE)
      | LegacyCode \<Rightarrow>
          if length payload \<noteq> LEGACY_PAYLOAD_SIZE then Inl (InvalidLegacyCodeSize (length payload))
          else panic_or (slice_get payload LEGACY_CODING_HEADERS_SIZE (length payload))
      | MerkleData _ _ _ \<Rightarrow>
          and_then (merkle_proof_offset variant) (\<lambda>offset.
            panic_or (slice_get payload SIGNATURE_SIZE offset))
      | MerkleCode _ _ _ \<Rightarrow>
          and_then (merkle_proof_offset variant) (\<lambda>offset.
            panic_or (slice_get payload LEGACY_CODING_HEADERS_SIZE offset))))"

section \<open>Rebuilding a payload from a recovered erasure shard\<close>

text \<open>\<^verbatim>\<open>Vec::resize\<close>, \<^verbatim>\<open>buf[a..b].copy_from_slice(src)\<close> and \<^verbatim>\<open>buf.copy_within(0..n, dest)\<close>;
  the last two panic where the ranges do not fit.\<close>

definition resize :: "nat \<Rightarrow> bytes \<Rightarrow> bytes" where
  "resize n xs = take n xs @ replicate (n - length xs) 0"

definition copy_range :: "nat \<Rightarrow> nat \<Rightarrow> 'a list \<Rightarrow> 'a list \<Rightarrow> 'a list option" where
  "copy_range a b src xs =
     (if a \<le> b \<and> b \<le> length xs \<and> length src = b - a then copy_at a src xs else None)"

definition copy_within :: "nat \<Rightarrow> nat \<Rightarrow> 'a list \<Rightarrow> 'a list option" where
  "copy_within n dest xs = do { src \<leftarrow> slice_get xs 0 n; copy_at dest src xs }"

definition expected_shard_size :: "recovery_variant \<Rightarrow> nat" where
  "expected_shard_size v =
     LEGACY_PAYLOAD_SIZE - (LEGACY_CODING_HEADERS_SIZE + proof_bytes v + resigned_bytes v)"

definition write_root :: "bytes option \<Rightarrow> fec_error + nat \<Rightarrow> bytes \<Rightarrow> fec_error + bytes" where
  "write_root root offset shard =
     (case root of None \<Rightarrow> Inr shard
      | Some r \<Rightarrow> and_then offset (\<lambda>off. panic_or (copy_range off (off + MERKLE_ROOT_SIZE) r shard)))"

definition build_recovered_merkle_data_payload ::
  "bytes \<Rightarrow> bytes \<Rightarrow> recovery_variant \<Rightarrow> bytes option \<Rightarrow> fec_error + bytes" where
  "build_recovered_merkle_data_payload signature shard variant chained_merkle_root =
     (let shard_size = length shard; expected = expected_shard_size variant in
      if shard_size \<noteq> expected then Inl (UnexpectedDataShardSize shard_size expected)
      else if shard_size + SIGNATURE_SIZE > MERKLE_DATA_PAYLOAD_SIZE then Inl (DataShardTooLarge shard_size)
      else and_then
        (panic_or (do {
           shard \<leftarrow> copy_within shard_size SIGNATURE_SIZE (resize MERKLE_DATA_PAYLOAD_SIZE shard);
           copy_range 0 SIGNATURE_SIZE signature shard }))
        (write_root chained_merkle_root
           (and_then (merkle_data_capacity variant) (\<lambda>c. Inr (LEGACY_DATA_HEADERS_SIZE + c)))))"

definition build_recovered_merkle_code_payload ::
  "bytes \<Rightarrow> u64 \<Rightarrow> u32 \<Rightarrow> u16 \<Rightarrow> u32 \<Rightarrow> u16 \<Rightarrow> u16 \<Rightarrow> u16 \<Rightarrow> bytes \<Rightarrow> recovery_variant
     \<Rightarrow> bytes option \<Rightarrow> fec_error + bytes" where
  "build_recovered_merkle_code_payload signature slot index version fec_set_index num_data_shreds
       num_coding_shreds position shard variant chained_merkle_root =
     (let shard_size = length shard; expected = expected_shard_size variant in
      if shard_size \<noteq> expected then Inl (UnexpectedCodeShardSize shard_size expected)
      else if shard_size + LEGACY_CODING_HEADERS_SIZE > LEGACY_PAYLOAD_SIZE then Inl (CodeShardTooLarge shard_size)
      else and_then
        (panic_or (do {
           s \<leftarrow> copy_within shard_size LEGACY_CODING_HEADERS_SIZE (resize LEGACY_PAYLOAD_SIZE shard);
           s \<leftarrow> copy_range 0 SIGNATURE_SIZE signature s;
           b \<leftarrow> variant_byte variant;
           s \<leftarrow> copy_at SHRED_VARIANT_OFFSET [b] s;
           s \<leftarrow> copy_at SLOT_OFFSET (u64_to_le slot) s;
           s \<leftarrow> copy_at INDEX_OFFSET (u32_to_le index) s;
           s \<leftarrow> copy_at VERSION_OFFSET (u16_to_le version) s;
           s \<leftarrow> copy_at FEC_SET_INDEX_OFFSET (u32_to_le fec_set_index) s;
           s \<leftarrow> copy_at CODING_NUM_DATA_OFFSET (u16_to_le num_data_shreds) s;
           s \<leftarrow> copy_at CODING_NUM_CODING_OFFSET (u16_to_le num_coding_shreds) s;
           copy_at CODING_POSITION_OFFSET (u16_to_le position) s }))
        (write_root chained_merkle_root
           (and_then (merkle_code_capacity variant) (\<lambda>c. Inr (LEGACY_CODING_HEADERS_SIZE + c)))))"

subsection \<open>The sizes agree\<close>

lemmas layout_defs = proof_bytes_def root_bytes_def resigned_bytes_def merkle_code_capacity_def
  merkle_data_capacity_def capacity_end_def merkle_proof_offset_def expected_shard_size_def

definition tail_bytes :: "recovery_variant \<Rightarrow> nat" where
  "tail_bytes v = proof_bytes v + resigned_bytes v"

lemma tail_bytes_bound: "wf_variant v \<Longrightarrow> tail_bytes v \<le> 364"
  by (auto simp: wf_variant_def tail_bytes_def proof_bytes_def resigned_bytes_def)

lemma expected_shard_size_eq: "wf_variant v \<Longrightarrow> expected_shard_size v = 1139 - tail_bytes v"
  by (simp add: expected_shard_size_def tail_bytes_def)

lemma merkle_proof_offset_eq:
  assumes "wf_variant v"
  shows "merkle_proof_offset v = Inr ((if is_data v then 1203 else 1228) - tail_bytes v)"
  using assms tail_bytes_bound [OF assms]
  by (auto simp: layout_defs tail_bytes_def Let_def)

lemma capacity_end_eq:
  assumes "wf_variant v"
  shows "capacity_end v = Inr ((if is_data v then 1203 else 1228) - tail_bytes v - root_bytes v)"
  using assms tail_bytes_bound [OF assms]
  by (auto simp: layout_defs tail_bytes_def Let_def)

lemma root_bytes_bound: "root_bytes v \<le> 32"
  by (simp add: root_bytes_def)

subsection \<open>Rebuilding inverts the erasure slice\<close>

lemma erasure_shard_bytes_data:
  assumes "from_payload payload = Some v" and "is_merkle v" and "is_data v"
    and "length payload = MERKLE_DATA_PAYLOAD_SIZE"
  shows "erasure_shard_bytes payload = Inr (take (1139 - tail_bytes v) (drop 64 payload))"
proof -
  note wf = from_payload_wf [OF assms(1)]
  have "slice_get payload 64 (1203 - tail_bytes v) = Some (take (1139 - tail_bytes v) (drop 64 payload))"
    using tail_bytes_bound [OF wf] assms(4) by (simp add: slice_get_in)
  then show ?thesis
    using assms merkle_proof_offset_eq [OF wf]
    by (cases v) (simp_all add: erasure_shard_bytes_def panic_or_def)
qed

lemma erasure_shard_bytes_code:
  assumes "from_payload payload = Some v" and "is_merkle v" and "\<not> is_data v"
    and "length payload = LEGACY_PAYLOAD_SIZE"
  shows "erasure_shard_bytes payload = Inr (take (1139 - tail_bytes v) (drop 89 payload))"
proof -
  note wf = from_payload_wf [OF assms(1)]
  have "slice_get payload 89 (1228 - tail_bytes v) = Some (take (1139 - tail_bytes v) (drop 89 payload))"
    using tail_bytes_bound [OF wf] assms(4) by (simp add: slice_get_in)
  then show ?thesis
    using assms merkle_proof_offset_eq [OF wf]
    by (cases v) (simp_all add: erasure_shard_bytes_def panic_or_def)
qed

text \<open>Writing bytes where they already are changes nothing, and a prefix determines them.\<close>

lemma copy_range_same: "slice_get xs a b = Some src \<Longrightarrow> copy_range a b src xs = Some xs"
  by (auto simp: slice_get_Some copy_range_def copy_at_def take_drop)
    (metis append_take_drop_id drop_drop le_add_diff_inverse2 take_drop)

lemma slice_get_prefix:
  assumes "take n xs = take n ys" and "b \<le> n" and "n \<le> length xs" and "n \<le> length ys"
  shows "slice_get xs a b = slice_get ys a b"
proof -
  have "take b xs = take b ys"
    using assms(1,2) by (metis min_def take_take)
  then have "take (b - a) (drop a xs) = take (b - a) (drop a ys)"
    by (simp flip: drop_take)
  with assms show ?thesis by (simp add: slice_get_def)
qed

lemma write_root_same:
  assumes "wf_variant v" and "take n buf = take n payload" and "n \<le> length buf" and "n \<le> length payload"
    and "merkle_proof_offset v = Inr n"
    and off: "capacity_end v = off"
  shows "write_root (extract_chained_merkle_root payload v) off buf = Inr buf"
proof (cases "chained v")
  case True
  define e where "e = (if is_data v then 1203 else 1228) - tail_bytes v - root_bytes v"
  have e: "capacity_end v = Inr e" using capacity_end_eq [OF assms(1)] by (simp add: e_def)
  have n: "n = e + 32"
    using assms(5) e True by (simp add: merkle_proof_offset_def root_bytes_def)
  have "slice_get buf e (e + 32) = slice_get payload e (e + 32)"
    using slice_get_prefix [OF assms(2) _ assms(3,4), of "e + 32" e] n by simp
  moreover obtain r where r: "slice_get payload e (e + 32) = Some r"
    using assms(4) n by (auto simp: slice_get_def)
  ultimately have "copy_range e (e + 32) r buf = Some buf"
    by (simp add: copy_range_same)
  with r e True off show ?thesis
    by (auto simp: write_root_def extract_chained_merkle_root_def panic_or_def)
next
  case False
  then show ?thesis by (simp add: write_root_def extract_chained_merkle_root_def)
qed

lemma resize_within:
  assumes "length sh + d \<le> n"
  shows "copy_within (length sh) d (resize n sh) =
    Some (take d (resize n sh) @ sh @ replicate (n - d - length sh) 0)"
proof -
  have rs: "resize n sh = sh @ replicate (n - length sh) 0"
    using assms by (simp add: resize_def)
  have "slice_get (resize n sh) 0 (length sh) = Some sh"
    using assms by (simp add: slice_get_def rs)
  moreover have "drop (d + length sh) (resize n sh) = replicate (n - d - length sh) 0"
    using assms by (simp add: rs)
  ultimately show ?thesis
    using assms by (simp add: copy_within_def copy_at_def rs)
qed

lemma length_resize [simp]: "length (resize n xs) = n"
  by (simp add: resize_def)

lemma rebuild_data:
  assumes "from_payload payload = Some v" and "is_merkle v" and "is_data v"
    and len: "length payload = MERKLE_DATA_PAYLOAD_SIZE"
    and sh: "erasure_shard_bytes payload = Inr sh"
  shows "build_recovered_merkle_data_payload (take 64 payload) sh v (extract_chained_merkle_root payload v)
    = Inr (take (1203 - tail_bytes v) payload @ replicate (tail_bytes v) 0)"
proof -
  note wf = from_payload_wf [OF assms(1)]
  define t where "t = tail_bytes v"
  have t: "t \<le> 364" using tail_bytes_bound [OF wf] by (simp add: t_def)
  have sh_eq: "sh = take (1139 - t) (drop 64 payload)"
    using erasure_shard_bytes_data [OF assms(1-4)] sh by (simp add: t_def)
  then have lsh: "length sh = 1139 - t" using len by simp
  define buf where "buf = take (1203 - t) payload @ replicate t (0 :: u8)"
  have "take 64 payload @ sh = take (1203 - t) payload"
    using t take_add [of 64 "1139 - t" payload] by (simp add: sh_eq)
  moreover have "1203 - 64 - length sh = t" using lsh t by arith
  ultimately have "take 64 payload @ sh @ replicate (1203 - 64 - length sh) 0 = buf"
    by (simp add: buf_def flip: append_assoc)
  moreover have "copy_within (length sh) 64 (resize 1203 sh) =
      Some (take 64 (resize 1203 sh) @ sh @ replicate (1203 - 64 - length sh) 0)"
    using resize_within [of sh 64 1203] lsh by simp
  ultimately have step: "Option.bind (copy_within (length sh) 64 (resize 1203 sh))
      (copy_range 0 64 (take 64 payload)) = Some buf"
    using lsh t len by (simp add: copy_range_def copy_at_def)
  have "capacity_end v = and_then (merkle_data_capacity v) (\<lambda>c. Inr (88 + c))"
    using assms(3) by (simp add: capacity_end_def)
  then have root: "write_root (extract_chained_merkle_root payload v)
      (and_then (merkle_data_capacity v) (\<lambda>c. Inr (88 + c))) buf = Inr buf"
    using len t merkle_proof_offset_eq [OF wf] assms(3)
    by (intro write_root_same [OF wf, of "1203 - t"]) (simp_all add: buf_def t_def)
  show ?thesis
    using lsh t step root expected_shard_size_eq [OF wf]
    by (simp add: build_recovered_merkle_data_payload_def panic_or_def Let_def t_def [symmetric] buf_def)
qed

text \<open>The header of a coding shred is written field by field, each where the last one ended.\<close>

fun write_fields :: "nat \<Rightarrow> bytes list \<Rightarrow> bytes \<Rightarrow> bytes option" where
  "write_fields off [] xs = Some xs"
| "write_fields off (f # fs) xs = do { xs \<leftarrow> copy_at off f xs; write_fields (off + length f) fs xs }"

lemma write_fields_fun:
  "write_fields off [] = Some"
  "write_fields off (f # fs) = (\<lambda>xs. Option.bind (copy_at off f xs) (write_fields (off + length f) fs))"
  by (simp_all add: fun_eq_iff)

lemma write_fields_eq:
  "length old = length (concat fs) \<Longrightarrow>
   write_fields (length a) fs (a @ old @ c) = Some (a @ concat fs @ c)"
proof (induction fs arbitrary: a old)
  case (Cons f fs)
  have "write_fields (length (a @ f)) fs ((a @ f) @ drop (length f) old @ c)
      = Some ((a @ f) @ concat fs @ c)"
    using Cons.prems by (intro Cons.IH) simp
  moreover have "copy_at (length a) f (a @ old @ c) = Some ((a @ f) @ drop (length f) old @ c)"
    using Cons.prems by (simp add: copy_at_def)
  ultimately show ?case by simp
qed simp

lemma parse_to_le:
  "parse_u16 payload off = Inr a \<Longrightarrow> u16_to_le a = take 2 (drop off payload)"
  "parse_u32 payload off = Inr b \<Longrightarrow> u32_to_le b = take 4 (drop off payload)"
  "parse_u64 payload off = Inr c \<Longrightarrow> u64_to_le c = take 8 (drop off payload)"
  by (auto simp: parse_u16_def parse_u32_def parse_u64_def slice_get_Some to_le_of_le)

lemma take_split: "n + m = k \<Longrightarrow> take k xs = take n xs @ take m (drop n xs)"
  by (auto simp: take_add)

lemma code_header_split:
  assumes "89 \<le> length payload" and "b = payload ! 64"
    and "parse_u64 payload 65 = Inr slot" and "parse_u32 payload 73 = Inr index"
    and "parse_u16 payload 77 = Inr version" and "parse_u32 payload 79 = Inr fec_set_index"
    and "parse_u16 payload 83 = Inr num_data" and "parse_u16 payload 85 = Inr num_coding"
    and "parse_u16 payload 87 = Inr position"
  shows "concat [take 64 payload, [b], u64_to_le slot, u32_to_le index, u16_to_le version,
    u32_to_le fec_set_index, u16_to_le num_data, u16_to_le num_coding, u16_to_le position]
    = take 89 payload"
proof -
  have "take 1 (drop 64 payload) = [b]"
    using assms(1,2) by (simp add: take_Suc hd_drop_conv_nth One_nat_def del: One_nat_def [symmetric])
  then show ?thesis
    by (simp add: assms(5,7-9) [THEN parse_to_le(1)] assms(4,6) [THEN parse_to_le(2)]
        assms(3) [THEN parse_to_le(3)] take_split [of 87 2 89] take_split [of 85 2 87] take_split [of 83 2 85]
        take_split [of 79 4 83] take_split [of 77 2 79] take_split [of 73 4 77]
        take_split [of 65 8 73] take_split [of 64 1 65])
qed

definition write_code_header ::
  "bytes \<Rightarrow> u8 option \<Rightarrow> bytes list \<Rightarrow> nat \<Rightarrow> bytes \<Rightarrow> bytes option" where
  "write_code_header signature byte fields n shard = do {
     s \<leftarrow> copy_within n 89 (resize 1228 shard);
     s \<leftarrow> copy_range 0 64 signature s;
     b \<leftarrow> byte;
     write_fields 64 ([b] # fields) s }"

lemma build_recovered_code_eq:
  "build_recovered_merkle_code_payload signature slot index version fec_set_index num_data num_coding
       position shard v root =
     (let n = length shard; expected = expected_shard_size v in
      if n \<noteq> expected then Inl (UnexpectedCodeShardSize n expected)
      else if n + 89 > 1228 then Inl (CodeShardTooLarge n)
      else and_then (panic_or (write_code_header signature (variant_byte v)
             [u64_to_le slot, u32_to_le index, u16_to_le version, u32_to_le fec_set_index,
              u16_to_le num_data, u16_to_le num_coding, u16_to_le position] n shard))
        (write_root root (and_then (merkle_code_capacity v) (\<lambda>c. Inr (89 + c)))))"
  by (simp add: build_recovered_merkle_code_payload_def write_code_header_def Let_def write_fields_fun)

lemma rebuild_code:
  assumes "from_payload payload = Some v" and "is_merkle v" and "\<not> is_data v"
    and len: "length payload = LEGACY_PAYLOAD_SIZE"
    and sh: "erasure_shard_bytes payload = Inr sh"
    and fields: "parse_u64 payload SLOT_OFFSET = Inr slot" "parse_u32 payload INDEX_OFFSET = Inr index"
      "parse_u16 payload VERSION_OFFSET = Inr version"
      "parse_u32 payload FEC_SET_INDEX_OFFSET = Inr fec_set_index"
      "parse_u16 payload CODING_NUM_DATA_OFFSET = Inr num_data"
      "parse_u16 payload CODING_NUM_CODING_OFFSET = Inr num_coding"
      "parse_u16 payload CODING_POSITION_OFFSET = Inr position"
  shows "build_recovered_merkle_code_payload (take 64 payload) slot index version fec_set_index
      num_data num_coding position sh v (extract_chained_merkle_root payload v)
    = Inr (take (1228 - tail_bytes v) payload @ replicate (tail_bytes v) 0)"
proof -
  note wf = from_payload_wf [OF assms(1)]
  define t where "t = tail_bytes v"
  have t: "t \<le> 364" using tail_bytes_bound [OF wf] by (simp add: t_def)
  have sh_eq: "sh = take (1139 - t) (drop 89 payload)"
    using erasure_shard_bytes_code [OF assms(1-4)] sh by (simp add: t_def)
  then have lsh: "length sh = 1139 - t" using len by simp
  have b: "variant_byte v = Some (payload ! 64)"
    using assms(1) len by (auto simp: from_payload_def idx_def dest: variant_of_byte_Some(1))
  define fs where "fs = [[payload ! 64], u64_to_le slot, u32_to_le index, u16_to_le version,
    u32_to_le fec_set_index, u16_to_le num_data, u16_to_le num_coding, u16_to_le position]"
  have head: "take 64 payload @ concat fs = take 89 payload"
    using code_header_split [OF _ refl] fields len by (simp add: fs_def)
  define buf where "buf = take (1228 - t) payload @ replicate t (0 :: u8)"
  have "take 89 payload @ sh = take (1228 - t) payload"
    using t take_add [of 89 "1139 - t" payload] by (simp add: sh_eq)
  moreover have "1228 - 89 - length sh = t" using lsh t by arith
  ultimately have full: "take 89 payload @ sh @ replicate (1228 - 89 - length sh) 0 = buf"
    by (simp add: buf_def flip: append_assoc)
  define old where "old = take 25 (drop 64 (resize 1228 sh))"
  have within: "copy_within (length sh) 89 (resize 1228 sh) =
      Some (take 64 (resize 1228 sh) @ old @ sh @ replicate (1228 - 89 - length sh) 0)"
    using resize_within [of sh 89 1228] lsh take_add [of 64 25 "resize 1228 sh"]
    by (simp add: old_def)
  have "length old = length (concat fs)" by (simp add: old_def fs_def)
  moreover have l64: "length (take 64 payload) = 64" using len by simp
  moreover have "take 64 payload @ concat fs @ sh @ replicate (1228 - 89 - length sh) 0 = buf"
    using head full by (metis append_assoc)
  ultimately have "write_fields 64 fs
      (take 64 payload @ old @ sh @ replicate (1228 - 89 - length sh) 0) = Some buf"
    using write_fields_eq [of old fs "take 64 payload" "sh @ replicate (1228 - 89 - length sh) 0"]
    by simp
  moreover have "copy_range 0 64 (take 64 payload)
      (take 64 (resize 1228 sh) @ old @ sh @ replicate (1228 - 89 - length sh) 0)
      = Some (take 64 payload @ old @ sh @ replicate (1228 - 89 - length sh) 0)"
    using l64 by (simp add: copy_range_def copy_at_def)
  ultimately have step: "Option.bind (copy_within (length sh) 89 (resize 1228 sh)) (\<lambda>s.
      Option.bind (copy_range 0 64 (take 64 payload) s) (\<lambda>s.
      Option.bind (variant_byte v) (\<lambda>b. write_fields 64 ([b] # tl fs) s))) = Some buf"
    using within b by (simp add: fs_def)
  have "capacity_end v = and_then (merkle_code_capacity v) (\<lambda>c. Inr (89 + c))"
    using assms(3) by (simp add: capacity_end_def)
  then have root: "write_root (extract_chained_merkle_root payload v)
      (and_then (merkle_code_capacity v) (\<lambda>c. Inr (89 + c))) buf = Inr buf"
    using len t merkle_proof_offset_eq [OF wf] assms(3)
    by (intro write_root_same [OF wf, of "1228 - t"]) (simp_all add: buf_def t_def)
  show ?thesis
    using lsh t step root expected_shard_size_eq [OF wf]
    by (simp add: build_recovered_code_eq write_code_header_def panic_or_def Let_def t_def [symmetric] buf_def fs_def)
qed

section \<open>The variant a recovery uses\<close>

text \<open>
  \<^verbatim>\<open>maybe_recover_merkle\<close> takes one variant for the whole set, that of the first shred it meets,
  and reads the chained root of a coding shred with it. The offset of the root is that of the
  variant's own kind, so with a data variant the 32 bytes read from a coding shred start 25 bytes
  before the root the shred holds.
\<close>

fun data_of_code :: "recovery_variant \<Rightarrow> recovery_variant" where
  "data_of_code (MerkleCode p c r) = MerkleData p c r"
| "data_of_code v = v"

lemma data_of_code_simps [simp]:
  "is_merkle v \<Longrightarrow> is_data (data_of_code v)"
  "proof_size (data_of_code v) = proof_size v"
  "chained (data_of_code v) = chained v"
  "resigned (data_of_code v) = resigned v"
  "wf_variant (data_of_code v) = wf_variant v"
  "tail_bytes (data_of_code v) = tail_bytes v"
  by (cases v; simp add: wf_variant_def tail_bytes_def proof_bytes_def resigned_bytes_def)+

lemma extract_root_in:
  assumes "wf_variant v" and "chained v"
    and "(if is_data v then 1203 else 1228) \<le> length payload"
  shows "extract_chained_merkle_root payload v =
    Some (take 32 (drop ((if is_data v then 1203 else 1228) - 32 - tail_bytes v) payload))"
proof -
  have "tail_bytes v \<le> 364" using tail_bytes_bound [OF assms(1)] .
  with assms capacity_end_eq [OF assms(1)] show ?thesis
    by (auto simp: extract_chained_merkle_root_def root_bytes_def slice_get_def add.commute)
qed

end
