(* ===== verification/Shred_Parser.thy ===== *)
theory Shred_Parser
  imports Shred_Layout
begin

text \<open>
  The UDP shred parser, \<^verbatim>\<open>spy-node/src/shred_parser.rs\<close>. The typed shred of the Solana ledger
  crate is the record \<open>shred\<close> of the observations the program makes of it, and its deserialiser is
  the parameter \<open>new_shred\<close>.
\<close>

record shred =
  sh_payload :: bytes
  sh_slot :: u64
  sh_index :: u32
  sh_version :: u16
  sh_fec_set_index :: u32
  sh_is_data :: bool
  sh_data_complete :: bool
  sh_last_in_slot :: bool

definition DATA_SIZE_OFFSET :: nat where [simp]: "DATA_SIZE_OFFSET = 86"
definition DATA_PAYLOAD_OFFSET :: nat where [simp]: "DATA_PAYLOAD_OFFSET = 88"
definition CODING_NUM_DATA_SHREDS_OFFSET :: nat where [simp]: "CODING_NUM_DATA_SHREDS_OFFSET = 83"
definition CODING_NUM_CODING_SHREDS_OFFSET :: nat where [simp]: "CODING_NUM_CODING_SHREDS_OFFSET = 85"
definition CODING_HEADER_END_OFFSET :: nat where [simp]: "CODING_HEADER_END_OFFSET = 89"
definition MIN_SHRED_SIZE :: nat where [simp]: "MIN_SHRED_SIZE = DATA_PAYLOAD_OFFSET"

datatype shred_type = DataShred | CodeShred

datatype shred_variant = SLegacyData | SLegacyCode | SMerkleData u8 | SMerkleCode u8

datatype parse_error =
    TooSmall nat nat | Deserialize nat | UnknownVariantByte u8 | ParsePanicked

definition variant_from_byte :: "u8 \<Rightarrow> parse_error + shred_variant" where
  "variant_from_byte byte =
     (if byte = 0x5a then Inr SLegacyCode
      else if byte = 0xa5 then Inr SLegacyData
      else let proof_size = and byte 0x0F in
        if drop_bit 7 byte = 1 then Inr (SMerkleData proof_size)
        else if drop_bit 7 byte = 0 then Inr (SMerkleCode proof_size)
        else Inl (UnknownVariantByte byte))"

fun variant_shred_type :: "shred_variant \<Rightarrow> shred_type" where
  "variant_shred_type SLegacyData = DataShred"
| "variant_shred_type (SMerkleData _) = DataShred"
| "variant_shred_type SLegacyCode = CodeShred"
| "variant_shred_type (SMerkleCode _) = CodeShred"

record coding_meta =
  cm_num_data_shreds :: u16
  cm_num_coding_shreds :: u16
  cm_position :: u16

definition first_coding_index :: "coding_meta \<Rightarrow> u32 \<Rightarrow> u32 option" where
  "first_coding_index m index = checked_sub index (ucast (cm_position m))"

record parsed_shred =
  ps_raw :: bytes
  ps_shred :: shred
  ps_slot :: u64
  ps_index :: u32
  ps_fec_set_index :: u32
  ps_shred_type :: shred_type
  ps_variant :: shred_variant
  ps_shred_version :: u16
  ps_data_complete :: bool
  ps_last_in_slot :: bool
  ps_coding_meta :: "coding_meta option"
  ps_signature :: bytes
  ps_data :: "bytes option"

text \<open>The two bytes \<open>raw[off], raw[off + 1]\<close> read as a \<^verbatim>\<open>u16\<close>; each index can panic.\<close>

definition read_u16_at :: "bytes \<Rightarrow> nat \<Rightarrow> u16 option" where
  "read_u16_at raw off = do { lo \<leftarrow> idx raw off; hi \<leftarrow> idx raw (off + 1); Some (u16_of_le [lo, hi]) }"

definition parse_coding_meta :: "bytes \<Rightarrow> coding_meta option" where
  "parse_coding_meta raw = do {
     num_data \<leftarrow> read_u16_at raw CODING_NUM_DATA_SHREDS_OFFSET;
     num_coding \<leftarrow> read_u16_at raw CODING_NUM_CODING_SHREDS_OFFSET;
     position \<leftarrow> read_u16_at raw CODING_POSITION_OFFSET;
     Some \<lparr>cm_num_data_shreds = num_data, cm_num_coding_shreds = num_coding, cm_position = position\<rparr> }"

text \<open>The entry bytes of a data shred: the outer option is the panic of \<^verbatim>\<open>raw.slice\<close>.\<close>

definition parse_data :: "shred_type \<Rightarrow> bytes \<Rightarrow> bytes option option" where
  "parse_data ty raw =
     (if ty = DataShred \<and> length raw > DATA_PAYLOAD_OFFSET then do {
        payload_end \<leftarrow> (if length raw \<ge> DATA_SIZE_OFFSET + 2
          then do { sz \<leftarrow> read_u16_at raw DATA_SIZE_OFFSET; Some (min (unat sz) (length raw)) }
          else Some (length raw));
        data \<leftarrow> slice_get raw DATA_PAYLOAD_OFFSET payload_end;
        Some (Some data) }
      else Some None)"

definition parse_shred :: "(bytes \<Rightarrow> shred option) \<Rightarrow> bytes \<Rightarrow> parse_error + parsed_shred" where
  "parse_shred new_shred raw =
     (if length raw < MIN_SHRED_SIZE then Inl (TooSmall (length raw) MIN_SHRED_SIZE)
      else and_then (ok_or (Deserialize (length raw)) (new_shred raw)) (\<lambda>shred.
        and_then (ok_or ParsePanicked (slice_get raw 0 SIGNATURE_SIZE)) (\<lambda>signature.
        and_then (ok_or ParsePanicked (idx raw SHRED_VARIANT_OFFSET)) (\<lambda>variant_byte.
        and_then (variant_from_byte variant_byte) (\<lambda>variant.
        (let shred_type = (if sh_is_data shred then DataShred else CodeShred) in
        and_then
          (if shred_type = CodeShred \<and> length raw \<ge> CODING_HEADER_END_OFFSET
           then and_then (ok_or ParsePanicked (parse_coding_meta raw)) (\<lambda>m. Inr (Some m))
           else Inr None) (\<lambda>coding_meta.
        and_then (ok_or ParsePanicked (parse_data shred_type raw)) (\<lambda>data.
        Inr \<lparr>ps_raw = raw, ps_shred = shred, ps_slot = sh_slot shred, ps_index = sh_index shred,
          ps_fec_set_index = sh_fec_set_index shred, ps_shred_type = shred_type,
          ps_variant = variant, ps_shred_version = sh_version shred,
          ps_data_complete = sh_data_complete shred, ps_last_in_slot = sh_last_in_slot shred,
          ps_coding_meta = coding_meta, ps_signature = signature, ps_data = data\<rparr>))))))))"

section \<open>The variant byte\<close>

lemma drop_bit_7: "drop_bit 7 b = 0 \<or> drop_bit 7 b = 1" for b :: u8
proof -
  have eq: "drop_bit 7 b = b div 128" by (simp add: drop_bit_eq_div)
  have "unat b div 128 \<le> 1" using unat_u8_bound [of b] by linarith
  then have "unat (b div 128) \<le> 1" by (simp add: unat_div)
  then consider "unat (b div 128) = 0" | "unat (b div 128) = 1" by linarith
  then show ?thesis unfolding eq by cases (simp_all only: word_unat_eq_iff unsigned_0 unsigned_1 simp_thms)
qed

lemma variant_from_byte_total: "\<exists>v. variant_from_byte b = Inr v"
  using drop_bit_7 [of b] by (auto simp: variant_from_byte_def Let_def)

lemma drop_bit_7_nibble: "drop_bit 4 b = k \<Longrightarrow> drop_bit 7 b = drop_bit 3 k" for b :: u8
  using drop_bit_drop_bit [of 3 4 b] by simp

text \<open>How the two decoders of the variant byte relate: the parser's view of a variant.\<close>

fun parser_view :: "recovery_variant \<Rightarrow> shred_variant" where
  "parser_view LegacyData = SLegacyData"
| "parser_view LegacyCode = SLegacyCode"
| "parser_view (MerkleData p _ _) = SMerkleData p"
| "parser_view (MerkleCode p _ _) = SMerkleCode p"

lemma variant_decoders_agree_aux:
  assumes "variant_of_byte b = Some v"
  shows "variant_from_byte b = Inr (parser_view v)"
  using assms
  by (auto simp: variant_of_byte_def variant_from_byte_def Let_def split: if_splits
      dest!: drop_bit_7_nibble)

section \<open>What a parse returns\<close>

lemma read_u16_at_in: "off + 1 < length raw \<Longrightarrow> read_u16_at raw off = Some (u16_of_le [raw ! off, raw ! (off + 1)])"
  by (simp add: read_u16_at_def idx_in)

definition data_size :: "bytes \<Rightarrow> nat" where
  "data_size raw = unat (u16_of_le [raw ! 86, raw ! 87])"

lemma parse_data_in:
  assumes "88 \<le> length raw"
  shows "parse_data ty raw =
    (if ty = DataShred \<and> 88 < length raw
     then if data_size raw < 88 then None
       else Some (Some (take (min (data_size raw) (length raw) - 88) (drop 88 raw)))
     else Some None)"
  using assms
  by (auto simp: parse_data_def read_u16_at_in slice_get_def data_size_def)

lemma parse_coding_meta_in:
  assumes "89 \<le> length raw"
  shows "parse_coding_meta raw = Some
    \<lparr>cm_num_data_shreds = u16_of_le [raw ! 83, raw ! 84],
     cm_num_coding_shreds = u16_of_le [raw ! 85, raw ! 86],
     cm_position = u16_of_le [raw ! 87, raw ! 88]\<rparr>"
  using assms by (simp add: parse_coding_meta_def read_u16_at_in)

text \<open>
  The two decoders of the shred variant byte agree: whenever the recovery decoder of
  the FEC assembler accepts a byte, the parser accepts it with the same kind and proof size; the
  accepted variant encodes back to the byte it came from.
\<close>

theorem variant_decoders_agree:
  assumes "variant_of_byte b = Some v"
  shows "variant_from_byte b = Inr (parser_view v)
    \<and> variant_shred_type (parser_view v) = (if is_data v then DataShred else CodeShred)
    \<and> variant_byte v = Some b \<and> unat (proof_size v) < 16 \<and> (resigned v \<longrightarrow> chained v)"
  using variant_decoders_agree_aux [OF assms] variant_of_byte_Some [OF assms]
  by (cases v) simp_all

theorem variant_decoders_agree_witness:
  "variant_from_byte 0x96 = Inr (parser_view (MerkleData 6 True False))
   \<and> variant_byte (MerkleData 6 True False) = Some 0x96"
proof -
  have "variant_of_byte 0x96 = Some (MerkleData 6 True False)" by (simp add: variant_of_byte_def)
  from variant_decoders_agree [OF this] show ?thesis by simp
qed

lemma parse_shred_eq:
  assumes "88 \<le> length raw" and "new_shred raw = Some shred"
  shows "parse_shred new_shred raw =
    (if sh_is_data shred \<and> 88 < length raw \<and> data_size raw < 88 then Inl ParsePanicked
     else Inr \<lparr>ps_raw = raw, ps_shred = shred, ps_slot = sh_slot shred, ps_index = sh_index shred,
       ps_fec_set_index = sh_fec_set_index shred,
       ps_shred_type = (if sh_is_data shred then DataShred else CodeShred),
       ps_variant = projr (variant_from_byte (raw ! 64)),
       ps_shred_version = sh_version shred, ps_data_complete = sh_data_complete shred,
       ps_last_in_slot = sh_last_in_slot shred,
       ps_coding_meta =
         (if \<not> sh_is_data shred \<and> 89 \<le> length raw
          then Some \<lparr>cm_num_data_shreds = u16_of_le [raw ! 83, raw ! 84],
                     cm_num_coding_shreds = u16_of_le [raw ! 85, raw ! 86],
                     cm_position = u16_of_le [raw ! 87, raw ! 88]\<rparr>
          else None),
       ps_signature = take 64 raw,
       ps_data =
         (if sh_is_data shred \<and> 88 < length raw
          then Some (take (min (data_size raw) (length raw) - 88) (drop 88 raw)) else None)\<rparr>)"
proof -
  obtain v where v: "variant_from_byte (raw ! 64) = Inr v"
    using variant_from_byte_total by blast
  have "slice_get raw 0 64 = Some (take 64 raw)" "idx raw 64 = Some (raw ! 64)"
    using assms(1) by (simp_all add: slice_get_def idx_def)
  then show ?thesis
    using assms v parse_data_in [OF assms(1)] parse_coding_meta_in [of raw]
    by (auto simp: parse_shred_def Let_def)
qed

text \<open>
  Property C11. The parser on a packet of at least 88 bytes that the ledger crate accepts: the fields
  are those of the ledger's shred, the signature is the first 64 bytes, a coding shred of at least
  89 bytes yields its three coding fields, and the entry bytes of a data shred are those between
  offset 88 and the end its size field gives, cut to the packet. The one way to fail is the panic of
  \<^verbatim>\<open>raw.slice\<close>, for a data shred whose size field is below 88.
\<close>

theorem parse_shred_spec:
  assumes "88 \<le> length raw" and "new_shred raw = Some shred"
  shows "parse_shred new_shred raw =
    (if sh_is_data shred \<and> 88 < length raw \<and> data_size raw < 88 then Inl ParsePanicked
     else Inr \<lparr>ps_raw = raw, ps_shred = shred, ps_slot = sh_slot shred, ps_index = sh_index shred,
       ps_fec_set_index = sh_fec_set_index shred,
       ps_shred_type = (if sh_is_data shred then DataShred else CodeShred),
       ps_variant = projr (variant_from_byte (raw ! 64)),
       ps_shred_version = sh_version shred, ps_data_complete = sh_data_complete shred,
       ps_last_in_slot = sh_last_in_slot shred,
       ps_coding_meta =
         (if \<not> sh_is_data shred \<and> 89 \<le> length raw
          then Some \<lparr>cm_num_data_shreds = u16_of_le [raw ! 83, raw ! 84],
                     cm_num_coding_shreds = u16_of_le [raw ! 85, raw ! 86],
                     cm_position = u16_of_le [raw ! 87, raw ! 88]\<rparr>
          else None),
       ps_signature = take 64 raw,
       ps_data =
         (if sh_is_data shred \<and> 88 < length raw
          then Some (take (min (data_size raw) (length raw) - 88) (drop 88 raw)) else None)\<rparr>)"
  using assms by (rule parse_shred_eq)

definition example_packet :: bytes where
  "example_packet = replicate 64 0 @ [0xa5] @ replicate 21 0 @ [90, 0, 7, 8, 9]"

definition example_shred :: shred where
  "example_shred = \<lparr>sh_payload = example_packet, sh_slot = 42, sh_index = 7, sh_version = 1,
     sh_fec_set_index = 5, sh_is_data = True, sh_data_complete = True, sh_last_in_slot = False\<rparr>"

theorem parse_shred_spec_witness:
  "map_option ps_data (ok (parse_shred (\<lambda>_. Some example_shred) example_packet)) = Some (Some [7, 8])"
proof -
  have len: "88 \<le> length example_packet" by (simp add: example_packet_def)
  have size: "data_size example_packet = 90"
    by (simp add: data_size_def example_packet_def nth_append u16_of_le_def)
  have data: "drop 88 example_packet = [7, 8, 9]" "length example_packet = 91"
    by (simp_all add: example_packet_def)
  show ?thesis
    using parse_shred_spec [OF len, of "\<lambda>_. Some example_shred" example_shred] size data
    by (simp add: example_shred_def)
qed

end
