(* ===== verification/Merkle_Tree.thy ===== *)
theory Merkle_Tree
  imports Shred_Layout
begin

text \<open>
  The Merkle tree over the shreds of an erasure set (\<^verbatim>\<open>merkle_node\<close>, \<^verbatim>\<open>join_nodes\<close>,
  \<^verbatim>\<open>make_merkle_tree\<close>, \<^verbatim>\<open>make_merkle_proof\<close> and \<^verbatim>\<open>set_merkle_proof\<close> of
  \<^verbatim>\<open>spy-node/src/fec_assembler.rs\<close>). A \<^verbatim>\<open>Hash\<close> is its 32 bytes as a word; the hash function
  \<^verbatim>\<open>hashv\<close> of the Solana SDK is the parameter \<open>hashv\<close>. The specification is a tree built level
  by level and a verifier that folds a proof up to the root; the code keeps all levels in one flat
  vector and finds a sibling by index arithmetic.
\<close>

type_synonym hash = "256 word"
type_synonym hashv = "bytes list \<Rightarrow> hash"

definition hash_bytes :: "hash \<Rightarrow> bytes" where "hash_bytes h = pubkey_to_bytes h"

definition MERKLE_HASH_PREFIX_LEAF :: bytes where
  "MERKLE_HASH_PREFIX_LEAF = 0 # map of_char ''SOLANA_MERKLE_SHREDS_LEAF''"

definition MERKLE_HASH_PREFIX_NODE :: bytes where
  "MERKLE_HASH_PREFIX_NODE = 1 # map of_char ''SOLANA_MERKLE_SHREDS_NODE''"

definition merkle_node :: "hashv \<Rightarrow> bytes \<Rightarrow> recovery_variant \<Rightarrow> fec_error + hash" where
  "merkle_node hashv payload variant =
     and_then (merkle_proof_offset variant) (\<lambda>proof_offset.
     and_then (ok_or InvalidNodeSlice (slice_get payload SIGNATURE_SIZE proof_offset)) (\<lambda>node.
       Inr (hashv [MERKLE_HASH_PREFIX_LEAF, node])))"

definition proof_entry :: "hash \<Rightarrow> bytes" where
  "proof_entry h = take MERKLE_PROOF_ENTRY_SIZE (hash_bytes h)"

definition join_nodes :: "hashv \<Rightarrow> hash \<Rightarrow> hash \<Rightarrow> hash" where
  "join_nodes hashv node other = hashv [MERKLE_HASH_PREFIX_NODE, proof_entry node, proof_entry other]"

section \<open>The flat tree\<close>

text \<open>One round of the inner loop: \<^verbatim>\<open>for index in (offset..offset + size).step_by(2)\<close>, pushing onto
  the vector it reads from.\<close>

definition push_level :: "hashv \<Rightarrow> hash list \<Rightarrow> nat \<Rightarrow> nat \<Rightarrow> hash list" where
  "push_level hashv nodes offset sz =
     fold (\<lambda>index nodes. nodes @ [join_nodes hashv (nodes ! index)
                                     (nodes ! min (index + 1) (offset + sz - 1))])
       (map (\<lambda>k. offset + 2 * k) [0..<(sz + 1) div 2]) nodes"

lemma length_push_level [simp]: "length (push_level h nodes offset sz) = length nodes + (sz + 1) div 2"
proof -
  have "length (fold (\<lambda>i ns. ns @ [join_nodes h (ns ! i) (ns ! min (i + 1) e)]) js ns) = length ns + length js"
    for js ns e
    by (induction js arbitrary: ns) auto
  then show ?thesis by (simp add: push_level_def)
qed

function merkle_tree_loop :: "hashv \<Rightarrow> hash list \<Rightarrow> nat \<Rightarrow> hash list" where
  "merkle_tree_loop hashv nodes sz =
     (if sz > 1
      then let offset = length nodes - sz; nodes' = push_level hashv nodes offset sz
           in merkle_tree_loop hashv nodes' (length nodes' - offset - sz)
      else nodes)"
  by pat_completeness auto
termination
  by (relation "measure (\<lambda>(h, nodes, sz). sz)") auto

declare merkle_tree_loop.simps [simp del]

definition make_merkle_tree :: "hashv \<Rightarrow> hash list \<Rightarrow> hash list" where
  "make_merkle_tree hashv nodes = merkle_tree_loop hashv nodes (length nodes)"

function merkle_proof_loop :: "nat \<Rightarrow> nat \<Rightarrow> nat \<Rightarrow> bytes list \<Rightarrow> hash list \<Rightarrow> (bytes list \<times> nat) option" where
  "merkle_proof_loop index sz offset proof tree =
     (if sz > 1
      then do {
        node \<leftarrow> idx tree (offset + min (xor index 1) (sz - 1));
        merkle_proof_loop (index div 2) ((sz + 1) div 2) (offset + sz)
          (proof @ [proof_entry node]) tree }
      else Some (proof, offset))"
  by pat_completeness auto
termination
  by (relation "measure (\<lambda>(i, sz, off, p, t). sz)") auto

declare merkle_proof_loop.simps [simp del]

definition make_merkle_proof :: "nat \<Rightarrow> nat \<Rightarrow> hash list \<Rightarrow> bytes list option" where
  "make_merkle_proof index sz tree =
     (if index \<ge> sz then None
      else do {
        (proof, offset) \<leftarrow> merkle_proof_loop index sz 0 [] tree;
        if offset + 1 = length tree then Some proof else None })"

definition set_merkle_proof :: "bytes \<Rightarrow> recovery_variant \<Rightarrow> bytes list \<Rightarrow> fec_error + bytes" where
  "set_merkle_proof payload variant proof =
     and_then (merkle_proof_offset variant) (\<lambda>proof_offset.
     (let expected_len = unat (proof_size variant) in
      if length proof \<noteq> expected_len then Inl (InvalidProofLength (length proof) expected_len)
      else if proof_offset + length proof * MERKLE_PROOF_ENTRY_SIZE > length payload
        then Inl InvalidProofWriteRange
      else ok_or Panicked (copy_range proof_offset
             (proof_offset + length proof * MERKLE_PROOF_ENTRY_SIZE) (concat proof) payload)))"

section \<open>Specification: levels and a verifier\<close>

fun level :: "hashv \<Rightarrow> hash list \<Rightarrow> hash list" where
  "level h [] = []"
| "level h [x] = [join_nodes h x x]"
| "level h (x # y # xs) = join_nodes h x y # level h xs"

lemma length_level [simp]: "length (level h xs) = (length xs + 1) div 2"
  by (induction h xs rule: level.induct) auto

function levels :: "hashv \<Rightarrow> hash list \<Rightarrow> hash list list" where
  "levels h xs = (if length xs > 1 then xs # levels h (level h xs) else [xs])"
  by pat_completeness auto
termination
  by (relation "measure (\<lambda>(h, xs). length xs)") auto

declare levels.simps [simp del]

definition merkle_root :: "hashv \<Rightarrow> hash list \<Rightarrow> hash" where
  "merkle_root h xs = hd (last (levels h xs))"

text \<open>The verifier: fold the proof entries onto the leaf, left or right by the bits of the index.\<close>

fun root_from_proof :: "hashv \<Rightarrow> nat \<Rightarrow> hash \<Rightarrow> bytes list \<Rightarrow> hash" where
  "root_from_proof h index node [] = node"
| "root_from_proof h index node (e # proof) =
     root_from_proof h (index div 2)
       (if even index then h [MERKLE_HASH_PREFIX_NODE, proof_entry node, e]
        else h [MERKLE_HASH_PREFIX_NODE, e, proof_entry node]) proof"

lemma level_nth:
  "i < (length xs + 1) div 2 \<Longrightarrow>
   level h xs ! i = join_nodes h (xs ! (2 * i)) (xs ! min (2 * i + 1) (length xs - 1))"
proof (induction h xs arbitrary: i rule: level.induct)
  case (3 h x y xs)
  show ?case
  proof (cases i)
    case 0
    then show ?thesis by simp
  next
    case (Suc j)
    with "3.prems" have "j < (length xs + 1) div 2" by simp
    from "3.IH" [OF this] this Suc show ?thesis
      by (cases xs) (auto simp: min_def nth_Cons')
  qed
qed auto

section \<open>The flat tree is the concatenation of the levels\<close>

lemma push_level_eq:
  "push_level h (pre @ xs) (length pre) (length xs) = pre @ xs @ level h xs"
proof -
  let ?f = "\<lambda>index nodes. nodes @ [join_nodes h (nodes ! index)
                 (nodes ! min (index + 1) (length pre + length xs - 1))]"
  have step: "fold ?f (map (\<lambda>k. length pre + 2 * k) [0..<n]) (pre @ xs)
      = pre @ xs @ take n (level h xs)" if "n \<le> (length xs + 1) div 2" for n
    using that
  proof (induction n)
    case (Suc n)
    then have n: "n < (length xs + 1) div 2" and "2 * n < length xs" by auto
    then have "min (length pre + 2 * n + 1) (length pre + length xs - 1)
        = length pre + min (2 * n + 1) (length xs - 1)" and "min (2 * n + 1) (length xs - 1) < length xs"
      by auto
    with Suc n \<open>2 * n < length xs\<close> show ?case
      by (simp add: level_nth nth_append take_Suc_conv_app_nth)
  qed simp
  from step [of "(length xs + 1) div 2"] show ?thesis
    by (simp add: push_level_def)
qed

lemma merkle_tree_loop_levels: "merkle_tree_loop h (pre @ xs) (length xs) = pre @ concat (levels h xs)"
proof (induction h xs arbitrary: pre rule: levels.induct)
  case (1 h xs)
  show ?case
  proof (cases "length xs > 1")
    case True
    have "merkle_tree_loop h (pre @ xs) (length xs) =
        merkle_tree_loop h ((pre @ xs) @ level h xs) (length (level h xs))"
      using True by (subst merkle_tree_loop.simps) (simp add: push_level_eq Let_def)
    also have "\<dots> = (pre @ xs) @ concat (levels h (level h xs))"
      using True by (rule "1.IH")
    also have "\<dots> = pre @ concat (levels h xs)"
      using True by (subst (2) levels.simps) simp
    finally show ?thesis .
  next
    case False
    then show ?thesis by (simp add: merkle_tree_loop.simps levels.simps)
  qed
qed

lemma make_merkle_tree_levels: "make_merkle_tree h xs = concat (levels h xs)"
  using merkle_tree_loop_levels [of h "[]" xs] by (simp add: make_merkle_tree_def)

lemma levels_nonempty [simp]: "levels h xs \<noteq> []"
  by (subst levels.simps) simp

lemma levels_single: "\<not> length xs > 1 \<Longrightarrow> levels h xs = [xs]"
  by (subst levels.simps) simp

lemma levels_step: "length xs > 1 \<Longrightarrow> levels h xs = xs # levels h (level h xs)"
  by (subst levels.simps) simp

section \<open>Proofs lead to the root\<close>

lemma sibling_join:
  assumes "i < length xs" and "length xs > 1"
  defines "sib \<equiv> xs ! min (xor i 1) (length xs - 1)"
  shows "level h xs ! (i div 2) =
     (if even i then h [MERKLE_HASH_PREFIX_NODE, proof_entry (xs ! i), proof_entry sib]
      else h [MERKLE_HASH_PREFIX_NODE, proof_entry sib, proof_entry (xs ! i)])"
proof -
  have i2: "i div 2 < (length xs + 1) div 2" using assms(1) by auto
  show ?thesis
  proof (cases "even i")
    case True
    then have "2 * (i div 2) = i" "xor i 1 = i + 1" by (auto simp: xor_Suc_0_eq)
    with True i2 show ?thesis by (simp add: level_nth join_nodes_def sib_def)
  next
    case False
    then have "2 * (i div 2) = i - 1" "xor i 1 = i - 1" "i \<ge> 1" "min i (length xs - 1) = i"
      using assms(1) by (auto simp: xor_Suc_0_eq elim: oddE)
    with False i2 assms(1) show ?thesis
      by (simp add: level_nth join_nodes_def sib_def)
  qed
qed

lemma merkle_proof_loop_root:
  assumes "i < length xs"
  shows "\<exists>proof. merkle_proof_loop i (length xs) (length pre) acc (pre @ concat (levels h xs))
        = Some (acc @ proof, length (pre @ concat (levels h xs)) - 1)
     \<and> root_from_proof h i (xs ! i) proof = merkle_root h xs
     \<and> length proof = length (levels h xs) - 1 \<and> (\<forall>e \<in> set proof. length e = 20)"
  using assms
proof (induction h xs arbitrary: i pre acc rule: levels.induct)
  case (1 h xs)
  show ?case
  proof (cases "length xs > 1")
    case True
    define j where "j = min (xor i 1) (length xs - 1)"
    define sib where "sib = xs ! j"
    have j: "j < length xs" using True by (auto simp: j_def)
    have lv: "levels h xs = xs # levels h (level h xs)" using True by (rule levels_step)
    have "i div 2 < length (level h xs)" using "1.prems" by auto
    from "1.IH" [OF True this, of "pre @ xs" "acc @ [proof_entry sib]"]
    obtain sibs where sibs: "merkle_proof_loop (i div 2) (length (level h xs)) (length (pre @ xs))
          (acc @ [proof_entry sib]) ((pre @ xs) @ concat (levels h (level h xs)))
        = Some ((acc @ [proof_entry sib]) @ sibs,
            length ((pre @ xs) @ concat (levels h (level h xs))) - 1)"
      and root: "root_from_proof h (i div 2) (level h xs ! (i div 2)) sibs = merkle_root h (level h xs)"
      and len: "length sibs = length (levels h (level h xs)) - 1" "\<forall>e \<in> set sibs. length e = 20"
      by blast
    have "idx (pre @ concat (levels h xs)) (length pre + min (xor i 1) (length xs - 1)) = Some sib"
      unfolding j_def [symmetric] sib_def using j by (simp add: lv idx_def nth_append)
    then have "merkle_proof_loop i (length xs) (length pre) acc (pre @ concat (levels h xs))
        = merkle_proof_loop (i div 2) (length (level h xs)) (length (pre @ xs))
          (acc @ [proof_entry sib]) (pre @ concat (levels h xs))"
      using True by (subst merkle_proof_loop.simps) simp
    then have "merkle_proof_loop i (length xs) (length pre) acc (pre @ concat (levels h xs))
        = Some (acc @ proof_entry sib # sibs, length (pre @ concat (levels h xs)) - 1)"
      using sibs by (simp add: lv)
    moreover have "root_from_proof h i (xs ! i) (proof_entry sib # sibs) = merkle_root h xs"
      using root sibling_join [OF "1.prems" True, of h, folded j_def, folded sib_def]
      by (simp add: merkle_root_def lv)
    moreover have "length (proof_entry sib # sibs) = length (levels h xs) - 1"
      using len(1) by (simp add: lv Suc_diff_le Suc_leI)
    moreover have "\<forall>e \<in> set (proof_entry sib # sibs). length e = 20"
      using len(2) by (simp add: proof_entry_def hash_bytes_def)
    ultimately show ?thesis by blast
  next
    case False
    with "1.prems" obtain x where "xs = [x]" "i = 0" by (cases xs) auto
    then show ?thesis
      by (simp add: merkle_proof_loop.simps levels_single merkle_root_def)
  qed
qed

lemma levels_depth:
  "xs \<noteq> [] \<Longrightarrow> length xs \<le> 2 ^ (length (levels h xs) - 1) \<and> 2 ^ (length (levels h xs) - 1) < 2 * length xs"
proof (induction h xs rule: levels.induct)
  case (1 h xs)
  show ?case
  proof (cases "length xs > 1")
    case True
    define d where "d = length (levels h (level h xs)) - 1"
    have "level h xs \<noteq> []" using True length_level [of h xs] by (auto simp del: length_level)
    with "1.IH" [OF True] have "(length xs + 1) div 2 \<le> 2 ^ d" "2 ^ d < 2 * ((length xs + 1) div 2)"
      by (simp_all add: d_def)
    moreover have "length (levels h xs) - 1 = Suc d"
      using True by (simp add: levels_step d_def Suc_diff_le Suc_leI)
    moreover have "2 ^ d < 2 * ((length xs + 1) div 2) \<Longrightarrow> length xs \<noteq> 2 ^ d" if "odd (length xs)"
      using that True by (cases d) auto
    ultimately show ?thesis using True by (cases "even (length xs)") (auto elim!: evenE oddE)
  next
    case False
    with "1.prems" show ?thesis by (cases xs) (simp_all add: levels_single)
  qed
qed

lemma concat_levels_Nil [simp]: "concat (levels h xs) = [] \<longleftrightarrow> xs = []"
proof (cases "length xs > 1")
  case True
  then have "xs \<noteq> []" by auto
  with levels_step [OF True, of h] show ?thesis by (simp only: concat.simps append_is_Nil_conv) simp
next
  case False
  then show ?thesis by (simp add: levels_single)
qed

lemma last_levels: "xs \<noteq> [] \<Longrightarrow> last (levels h xs) = [merkle_root h xs]"
proof (induction h xs rule: levels.induct)
  case (1 h xs)
  show ?case
  proof (cases "length xs > 1")
    case True
    have "level h xs \<noteq> []" using True length_level [of h xs] by (auto simp del: length_level)
    with "1.IH" [OF True] True show ?thesis by (simp add: levels_step merkle_root_def)
  next
    case False
    with "1.prems" show ?thesis by (cases xs) (simp_all add: levels_single merkle_root_def)
  qed
qed

lemma last_concat_last: "xss \<noteq> [] \<Longrightarrow> last xss \<noteq> [] \<Longrightarrow> last (concat xss) = last (last xss)"
  by (induction xss) (auto simp: last_append)

lemma last_make_merkle_tree: "xs \<noteq> [] \<Longrightarrow> last (make_merkle_tree h xs) = merkle_root h xs"
  by (simp add: make_merkle_tree_levels last_concat_last last_levels)

lemma make_merkle_proof_root:
  assumes "index < length nodes"
  shows "\<exists>proof depth. make_merkle_proof index (length nodes) (make_merkle_tree hashv nodes) = Some proof
    \<and> root_from_proof hashv index (nodes ! index) proof = last (make_merkle_tree hashv nodes)
    \<and> length proof = depth \<and> length nodes \<le> 2 ^ depth \<and> 2 ^ depth < 2 * length nodes"
proof -
  have ne: "nodes \<noteq> []" using assms by auto
  from merkle_proof_loop_root [OF assms, of "[]" "[]" hashv]
  obtain p where p: "merkle_proof_loop index (length nodes) 0 [] (make_merkle_tree hashv nodes)
      = Some (p, length (make_merkle_tree hashv nodes) - 1)"
    and root: "root_from_proof hashv index (nodes ! index) p = merkle_root hashv nodes"
    and len: "length p = length (levels hashv nodes) - 1"
    by (auto simp: make_merkle_tree_levels)
  have "make_merkle_tree hashv nodes \<noteq> []"
    using ne by (simp only: make_merkle_tree_levels concat_levels_Nil) simp
  then have "make_merkle_proof index (length nodes) (make_merkle_tree hashv nodes) = Some p"
    using p assms by (simp add: make_merkle_proof_def)
  with root len levels_depth [OF ne, of hashv] show ?thesis
    by (auto simp: last_make_merkle_tree [OF ne])
qed

text \<open>
  Property C7. For every shred of an erasure set, \<^verbatim>\<open>make_merkle_proof\<close> on the tree that
  \<^verbatim>\<open>make_merkle_tree\<close> built succeeds, and its 20-byte entries lead a verifier from the shred's own
  node to the root of the tree. The proof has the length of the tree's depth, the least power of
  two that covers the set.
\<close>

theorem merkle_proof_verifies:
  assumes "index < length nodes"
  shows "\<exists>proof depth. make_merkle_proof index (length nodes) (make_merkle_tree hashv nodes) = Some proof
    \<and> root_from_proof hashv index (nodes ! index) proof = last (make_merkle_tree hashv nodes)
    \<and> length proof = depth \<and> length nodes \<le> 2 ^ depth \<and> 2 ^ depth < 2 * length nodes"
  using assms by (rule make_merkle_proof_root)

theorem merkle_proof_verifies_witness:
  "\<exists>proof depth. make_merkle_proof 2 (length [10, 11, 12 :: hash])
       (make_merkle_tree (\<lambda>bs. of_nat (le_nat (concat bs))) [10, 11, 12]) = Some proof
    \<and> root_from_proof (\<lambda>bs. of_nat (le_nat (concat bs))) 2 ([10, 11, 12] ! 2) proof
        = last (make_merkle_tree (\<lambda>bs. of_nat (le_nat (concat bs))) [10, 11, 12])
    \<and> length proof = depth \<and> length [10, 11, 12 :: hash] \<le> 2 ^ depth
    \<and> 2 ^ depth < 2 * length [10, 11, 12 :: hash]"
  by (rule merkle_proof_verifies) simp

end
