(* ===== verification/Fec_Set.thy ===== *)
theory Fec_Set
  imports Shred_Parser Merkle_Tree
begin

text \<open>
  One erasure set of \<^verbatim>\<open>spy-node/src/fec_assembler.rs\<close> (\<^verbatim>\<open>FecSet\<close>): its data and coding shreds
  by index, the coding header first observed, the test whether recovery can work, and Merkle
  recovery itself. What the program takes from its libraries is the record \<open>fec_ext\<close>: the hash
  function, Reed-Solomon initialisation and reconstruction, the ledger's shred deserialiser, its
  legacy recovery and \<^verbatim>\<open>deshred\<close>, the text of its errors (\<open>'e\<close>), its constant
  \<^verbatim>\<open>DATA_SHREDS_PER_FEC_BLOCK\<close>, and \<open>x_iter\<close>, the unspecified order in
  which the entries of a hash map are visited.
\<close>

record 'e fec_ext =
  x_hashv :: hashv
  x_iter :: "(u32 \<times> shred) list \<Rightarrow> (u32 \<times> shred) list"
  x_new_shred :: "bytes \<Rightarrow> shred option"
  x_rs_new :: "nat \<Rightarrow> nat \<Rightarrow> bool"
  x_reconstruct :: "nat \<Rightarrow> nat \<Rightarrow> bytes option list \<Rightarrow> bytes option list option"
  x_try_recovery :: "shred list \<Rightarrow> 'e + shred list"
  x_deshred :: "shred list \<Rightarrow> 'e + bytes"
  x_invalid_recovered_shred :: 'e
  x_error_text :: "'e \<Rightarrow> string"
  x_data_shreds_per_fec_block :: nat

record fec_key =
  fk_slot :: u64
  fk_fec_set_index :: u32

record observed_coding_meta =
  om_num_data_shreds :: u16
  om_num_coding_shreds :: u16
  om_first_coding_index :: u32

record fec_set =
  data_shreds :: "(u32 \<times> shred) list"
  coding_shreds :: "(u32 \<times> shred) list"
  coding_meta :: "observed_coding_meta option"

definition new_fec_set :: fec_set where
  "new_fec_set = \<lparr>data_shreds = [], coding_shreds = [], coding_meta = None\<rparr>"

definition add_shred :: "shred \<Rightarrow> fec_set \<Rightarrow> fec_set" where
  "add_shred shred fs =
     (if sh_is_data shred
      then fs\<lparr>data_shreds := AList.update (sh_index shred) shred (data_shreds fs)\<rparr>
      else fs\<lparr>coding_shreds := AList.update (sh_index shred) shred (coding_shreds fs)\<rparr>)"

definition shred_values :: "'e fec_ext \<Rightarrow> (u32 \<times> shred) list \<Rightarrow> shred list" where
  "shred_values ext m = map snd (x_iter ext m)"

definition all_shreds :: "'e fec_ext \<Rightarrow> fec_set \<Rightarrow> shred list" where
  "all_shreds ext fs = shred_values ext (data_shreds fs) @ shred_values ext (coding_shreds fs)"

definition observe_coding_meta ::
  "u32 \<Rightarrow> coding_meta \<Rightarrow> fec_set \<Rightarrow> (observed_coding_meta + unit) \<times> fec_set" where
  "observe_coding_meta index meta fs =
     (case first_coding_index meta index of
        None \<Rightarrow> (Inl \<lparr>om_num_data_shreds = cm_num_data_shreds meta,
                     om_num_coding_shreds = cm_num_coding_shreds meta, om_first_coding_index = 0\<rparr>, fs)
      | Some first \<Rightarrow>
          let observed = \<lparr>om_num_data_shreds = cm_num_data_shreds meta,
                om_num_coding_shreds = cm_num_coding_shreds meta, om_first_coding_index = first\<rparr> in
          (case coding_meta fs of
             None \<Rightarrow> (Inr (), fs\<lparr>coding_meta := Some observed\<rparr>)
           | Some current \<Rightarrow> if current = observed then (Inr (), fs) else (Inl observed, fs)))"

record fec_set_summary =
  sum_data_shreds :: nat
  sum_coding_shreds :: nat
  sum_coding_meta :: "observed_coding_meta option"

definition summary :: "fec_set \<Rightarrow> fec_set_summary" where
  "summary fs = \<lparr>sum_data_shreds = length (data_shreds fs),
     sum_coding_shreds = length (coding_shreds fs), sum_coding_meta = coding_meta fs\<rparr>"

definition can_attempt_recovery :: "fec_set \<Rightarrow> bool" where
  "can_attempt_recovery fs =
     (case coding_meta fs of
        None \<Rightarrow> False
      | Some meta \<Rightarrow>
          if coding_shreds fs = [] then False
          else let num_data_shreds = unat (om_num_data_shreds meta);
                   present = length (data_shreds fs) + length (coding_shreds fs) in
            length (data_shreds fs) < num_data_shreds \<and> present \<ge> num_data_shreds)"

text \<open>The variant of the first shred, data before coding, whose variant byte decodes.\<close>

fun find_map :: "('a \<Rightarrow> 'b option) \<Rightarrow> 'a list \<Rightarrow> 'b option" where
  "find_map f [] = None"
| "find_map f (x # xs) = (case f x of None \<Rightarrow> find_map f xs | Some y \<Rightarrow> Some y)"

definition recovery_variant_of :: "'e fec_ext \<Rightarrow> fec_set \<Rightarrow> recovery_variant option" where
  "recovery_variant_of ext fs = find_map (\<lambda>s. from_payload (sh_payload s)) (all_shreds ext fs)"

section \<open>Merkle recovery\<close>

fun place_shards :: "nat \<Rightarrow> shred list \<Rightarrow> bytes option list \<Rightarrow> bytes option list
    \<Rightarrow> fec_error + (bytes option list \<times> bytes option list)" where
  "place_shards total_shards [] present shards = Inr (present, shards)"
| "place_shards total_shards (s # ss) present shards =
     and_then (ok_or InvalidErasureIndex (erasure_shard_index (sh_payload s))) (\<lambda>index.
       if index \<ge> total_shards then Inl (ErasureIndexOutOfRange index total_shards)
       else and_then (erasure_shard_bytes (sh_payload s)) (\<lambda>b.
         place_shards total_shards ss (present[index := Some (sh_payload s)]) (shards[index := Some b])))"

text \<open>What the coding header and the first coding shred tell about the set.\<close>

record set_header =
  hd_signature :: bytes
  hd_slot :: u64
  hd_version :: u16
  hd_fec_set_index :: u32
  hd_root :: "bytes option"

definition read_set_header :: "recovery_variant \<Rightarrow> bytes \<Rightarrow> shred list \<Rightarrow> fec_error + set_header" where
  "read_set_header variant first_code data =
     and_then (ok_or MissingSignature (slice_get first_code 0 SIGNATURE_SIZE)) (\<lambda>signature.
     and_then (parse_u64 first_code SLOT_OFFSET) (\<lambda>slot.
     and_then (parse_u16 first_code VERSION_OFFSET) (\<lambda>version.
     and_then (parse_u32 first_code FEC_SET_INDEX_OFFSET) (\<lambda>fec_set_index.
     (let root = (case extract_chained_merkle_root first_code variant of
           Some r \<Rightarrow> Some r
         | None \<Rightarrow> find_map (\<lambda>s. extract_chained_merkle_root (sh_payload s) variant) data) in
      Inr \<lparr>hd_signature = signature, hd_slot = slot, hd_version = version,
           hd_fec_set_index = fec_set_index, hd_root = root\<rparr>)))))"

definition rebuild_payload ::
  "recovery_variant \<Rightarrow> observed_coding_meta \<Rightarrow> set_header \<Rightarrow> bytes option list \<Rightarrow> bytes option list
    \<Rightarrow> nat \<Rightarrow> fec_error + bytes" where
  "rebuild_payload variant meta h present shards index =
     (let num_data = unat (om_num_data_shreds meta) in
      case present ! index of
        Some payload \<Rightarrow> Inr payload
      | None \<Rightarrow>
          if index < num_data
          then and_then (ok_or MissingDataShard (shards ! index)) (\<lambda>shard.
            build_recovered_merkle_data_payload (hd_signature h) shard variant (hd_root h))
          else and_then (ok_or MissingCodingShard (shards ! index)) (\<lambda>shard.
            build_recovered_merkle_code_payload (hd_signature h) (hd_slot h)
              (om_first_coding_index meta + word_of_nat (index - num_data)) (hd_version h)
              (hd_fec_set_index h) (om_num_data_shreds meta) (om_num_coding_shreds meta)
              (word_of_nat (index - num_data)) shard variant (hd_root h)))"

definition finish_recovery ::
  "'e fec_ext \<Rightarrow> recovery_variant \<Rightarrow> nat \<Rightarrow> bytes list \<Rightarrow> hash list \<Rightarrow> nat \<Rightarrow> fec_error + shred" where
  "finish_recovery ext variant total_shards payloads tree index =
     and_then (ok_or ProofBuildFailed (make_merkle_proof index total_shards tree)) (\<lambda>proof.
     and_then (set_merkle_proof (payloads ! index) variant proof) (\<lambda>payload.
     ok_or DeserializeFailed (x_new_shred ext payload)))"

definition maybe_recover_merkle :: "'e fec_ext \<Rightarrow> fec_set \<Rightarrow> fec_error + shred list" where
  "maybe_recover_merkle ext fs =
     and_then (ok_or MissingMerkleVariant (recovery_variant_of ext fs)) (\<lambda>variant.
     and_then (ok_or MissingCodingMeta (coding_meta fs)) (\<lambda>meta.
     and_then (ok_or MissingCodingShred (case shred_values ext (coding_shreds fs) of [] \<Rightarrow> None | s # _ \<Rightarrow> Some s)) (\<lambda>first_code.
     and_then (read_set_header variant (sh_payload first_code) (shred_values ext (data_shreds fs))) (\<lambda>header.
     (let num_data = unat (om_num_data_shreds meta);
          num_coding = unat (om_num_coding_shreds meta);
          total_shards = num_data + num_coding in
      and_then (place_shards total_shards (all_shreds ext fs) (replicate total_shards None) (replicate total_shards None))
        (\<lambda>(present, shards).
      and_then (guard_or ReedSolomonInit (x_rs_new ext num_data num_coding)) (\<lambda>_.
      and_then (ok_or ReconstructFailed (x_reconstruct ext num_data num_coding shards)) (\<lambda>shards.
      and_then (collect_results (\<lambda>index.
          and_then (rebuild_payload variant meta header present shards index) (\<lambda>payload.
          and_then (merkle_node (x_hashv ext) payload variant) (\<lambda>node. Inr (payload, node))))
        [0..<total_shards]) (\<lambda>rebuilt.
      (let payloads = map fst rebuilt; tree = make_merkle_tree (x_hashv ext) (map snd rebuilt) in
       collect_results (finish_recovery ext variant total_shards payloads tree)
         (filter (\<lambda>index. present ! index = None) [0..<num_data])))))))))))"

text \<open>\<^verbatim>\<open>maybe_recover\<close>: \<open>None\<close> is a panic inside the recovery.\<close>

fun add_recovered :: "shred list \<Rightarrow> (u32 \<times> shred) list \<Rightarrow> shred list \<times> (u32 \<times> shred) list" where
  "add_recovered [] m = ([], m)"
| "add_recovered (s # ss) m =
     (if sh_is_data s \<and> map_of m (sh_index s) = None
      then (let (new, m') = add_recovered ss (AList.update (sh_index s) s m) in (s # new, m'))
      else add_recovered ss m)"

definition run_recovery :: "'e fec_ext \<Rightarrow> fec_set \<Rightarrow> ('e + shred list) option" where
  "run_recovery ext fs =
     (case recovery_variant_of ext fs of
        Some variant \<Rightarrow>
          if is_merkle variant
          then (case maybe_recover_merkle ext fs of
                  Inl err \<Rightarrow> if err = Panicked then None else Some (Inl (x_invalid_recovered_shred ext))
                | Inr recovered \<Rightarrow> Some (Inr recovered))
          else Some (x_try_recovery ext (all_shreds ext fs))
      | None \<Rightarrow> Some (x_try_recovery ext (all_shreds ext fs)))"

definition maybe_recover :: "'e fec_ext \<Rightarrow> fec_set \<Rightarrow> (('e + shred list) \<times> fec_set) option" where
  "maybe_recover ext fs =
     (if coding_shreds fs = [] then Some (Inr [], fs)
      else do {
        recovered \<leftarrow> run_recovery ext fs;
        (case recovered of
           Inl err \<Rightarrow> Some (Inl err, fs)
         | Inr recovered \<Rightarrow>
             let (new_data, m) = add_recovered recovered (data_shreds fs) in
             Some (Inr new_data, fs\<lparr>data_shreds := m\<rparr>)) })"

section \<open>No recovery panics on shreds of the ledger's sizes\<close>

text \<open>What the program relies on: visiting a hash map yields its entries, in some order.\<close>

definition iter_ok :: "'e fec_ext \<Rightarrow> bool" where
  "iter_ok ext \<longleftrightarrow> (\<forall>m. set (x_iter ext m) = set m)"

definition sized :: "bytes \<Rightarrow> bool" where
  "sized p \<longleftrightarrow> (case from_payload p of None \<Rightarrow> True
     | Some v \<Rightarrow> is_merkle v \<longrightarrow>
         (if is_data v then MERKLE_DATA_PAYLOAD_SIZE else LEGACY_PAYLOAD_SIZE) \<le> length p)"

abbreviation never_panics :: "fec_error + 'a \<Rightarrow> bool" where
  "never_panics r \<equiv> r \<noteq> Inl Panicked"

lemma never_panics_capacity [simp]:
  "never_panics (merkle_data_capacity v)" "never_panics (merkle_code_capacity v)"
  "never_panics (capacity_end v)" "never_panics (merkle_proof_offset v)"
  by (auto simp: merkle_data_capacity_def merkle_code_capacity_def capacity_end_def
      merkle_proof_offset_def Let_def error_simps split: if_splits)

lemma never_panics_erasure_shard_bytes:
  assumes "sized p"
  shows "never_panics (erasure_shard_bytes p)"
proof (cases "from_payload p")
  case None
  then show ?thesis by (simp add: erasure_shard_bytes_def)
next
  case (Some v)
  note wf = from_payload_wf [OF Some]
  from assms Some merkle_proof_offset_eq [OF wf] tail_bytes_bound [OF wf] show ?thesis
    by (cases v) (auto simp: erasure_shard_bytes_def sized_def panic_or_def slice_get_def)
qed

lemma never_panics_place_shards:
  "\<forall>s \<in> set ss. sized (sh_payload s) \<Longrightarrow> never_panics (place_shards n ss present shards)"
  by (induction ss arbitrary: present shards)
    (auto simp: error_simps dest: never_panics_erasure_shard_bytes)

lemma never_panics_parse [simp]:
  "never_panics (parse_u16 p n)" "never_panics (parse_u32 p n)" "never_panics (parse_u64 p n)"
  by (auto simp: parse_u16_def parse_u32_def parse_u64_def error_simps)

lemma extract_root_length:
  "extract_chained_merkle_root p v = Some r \<Longrightarrow> chained v \<and> length r = 32"
  by (auto simp: extract_chained_merkle_root_def slice_get_def split: if_splits bind_splits)

lemma find_map_Some: "find_map f xs = Some y \<Longrightarrow> \<exists>x \<in> set xs. f x = Some y"
  by (induction xs) (auto split: option.splits)

lemma never_panics_read_set_header [simp]: "never_panics (read_set_header v p data)"
  by (auto simp: read_set_header_def error_simps)

lemma read_set_header_Inr:
  assumes "read_set_header v p data = Inr h"
  shows "length (hd_signature h) = 64 \<and> (\<forall>r. hd_root h = Some r \<longrightarrow> chained v \<and> length r = 32)"
  using assms
  by (auto simp: read_set_header_def Let_def slice_get_Some
      dest!: find_map_Some extract_root_length split: option.splits)

lemma copy_range_ok:
  "a \<le> b \<Longrightarrow> b \<le> length xs \<Longrightarrow> length src = b - a \<Longrightarrow>
   \<exists>ys. copy_range a b src xs = Some ys \<and> length ys = length xs"
  by (auto simp: copy_range_def copy_at_def)

lemma write_root_ok:
  assumes "\<forall>r. root = Some r \<longrightarrow> chained v \<and> length r = 32"
    and "chained v \<Longrightarrow> \<exists>e. off = Inr e \<and> e + 32 \<le> length buf"
  shows "\<exists>out. write_root root off buf = Inr out \<and> length out = length buf"
proof (cases root)
  case (Some r)
  then obtain e where "off = Inr e" "e + 32 \<le> length buf" "length r = 32"
    using assms by auto
  then show ?thesis
    using Some copy_range_ok [of e "e + 32" buf r] by (auto simp: write_root_def panic_or_def)
qed (simp add: write_root_def)

lemma proof_bytes_bound: "wf_variant v \<Longrightarrow> proof_bytes v \<le> 300"
  by (simp add: wf_variant_def proof_bytes_def)

lemma root_fits:
  assumes "wf_variant v" and "chained v"
  shows "\<exists>e. and_then (merkle_data_capacity v) (\<lambda>c. Inr (88 + c)) = (Inr e :: fec_error + nat) \<and> e + 32 \<le> 1203"
    and "\<exists>e. and_then (merkle_code_capacity v) (\<lambda>c. Inr (89 + c)) = (Inr e :: fec_error + nat) \<and> e + 32 \<le> 1228"
  using proof_bytes_bound [OF assms(1)] assms(2)
  by (auto simp: merkle_data_capacity_def merkle_code_capacity_def root_bytes_def resigned_bytes_def Let_def)

lemma build_data_ok:
  assumes "wf_variant v" and "length signature = 64"
    and "\<forall>r. root = Some r \<longrightarrow> chained v \<and> length r = 32" and len: "length sh = expected_shard_size v"
  shows "\<exists>out. build_recovered_merkle_data_payload signature sh v root = Inr out \<and> length out = 1203"
proof -
  have "length sh \<le> 1139" using len expected_shard_size_eq [OF assms(1)] by simp
  then have within: "copy_within (length sh) 64 (resize 1203 sh) =
      Some (take 64 (resize 1203 sh) @ sh @ replicate (1203 - 64 - length sh) 0)"
    by (intro resize_within) simp
  obtain buf where buf: "copy_range 0 64 signature
      (take 64 (resize 1203 sh) @ sh @ replicate (1203 - 64 - length sh) 0) = Some buf"
    "length buf = 1203"
    using copy_range_ok [of 0 64 "take 64 (resize 1203 sh) @ sh @ replicate (1203 - 64 - length sh) 0" signature]
      assms(2) \<open>length sh \<le> 1139\<close> by auto
  then obtain out where "write_root root (and_then (merkle_data_capacity v) (\<lambda>c. Inr (88 + c))) buf = Inr out"
    "length out = 1203"
    using write_root_ok [OF assms(3), of "and_then (merkle_data_capacity v) (\<lambda>c. Inr (88 + c))" buf]
      root_fits(1) [OF assms(1)] by auto
  with within buf len \<open>length sh \<le> 1139\<close> show ?thesis
    by (simp add: build_recovered_merkle_data_payload_def Let_def panic_or_def)
qed

lemma build_data_never_panics:
  assumes "wf_variant v" and "length signature = 64"
    and "\<forall>r. root = Some r \<longrightarrow> chained v \<and> length r = 32"
  shows "never_panics (build_recovered_merkle_data_payload signature sh v root)"
proof (cases "length sh = expected_shard_size v")
  case True
  from build_data_ok [OF assms True] show ?thesis by auto
qed (simp add: build_recovered_merkle_data_payload_def Let_def)

lemma write_fields_ok:
  "off + length (concat fs) \<le> length xs \<Longrightarrow>
   \<exists>ys. write_fields off fs xs = Some ys \<and> length ys = length xs"
proof (induction fs arbitrary: off xs)
  case (Cons f fs)
  then have "length (take off xs @ f @ drop (off + length f) xs) = length xs" by simp
  with Cons.IH [of "off + length f" "take off xs @ f @ drop (off + length f) xs"] Cons.prems
  show ?case by (simp add: copy_at_in add.assoc)
qed simp

lemma wf_variant_byte: "wf_variant v \<Longrightarrow> \<exists>b. variant_byte v = Some b"
  by (cases "chained v"; cases "resigned v"; cases v) (auto simp: wf_variant_def)

lemma build_code_ok:
  assumes "wf_variant v" and "length signature = 64"
    and "\<forall>r. root = Some r \<longrightarrow> chained v \<and> length r = 32" and len: "length sh = expected_shard_size v"
  shows "\<exists>out. build_recovered_merkle_code_payload signature slot index version fec_set_index
    num_data num_coding position sh v root = Inr out \<and> length out = 1228"
proof -
  have n: "length sh \<le> 1139" using len expected_shard_size_eq [OF assms(1)] by simp
  define buf where "buf = take 89 (resize 1228 sh) @ sh @ replicate (1228 - 89 - length sh) (0 :: u8)"
  have lbuf: "length buf = 1228" using n by (simp add: buf_def)
  have within: "copy_within (length sh) 89 (resize 1228 sh) = Some buf"
    unfolding buf_def using n by (intro resize_within) simp
  obtain buf2 where buf2: "copy_range 0 64 signature buf = Some buf2" "length buf2 = 1228"
    using copy_range_ok [of 0 64 buf signature] assms(2) lbuf by auto
  obtain b where b: "variant_byte v = Some b" using wf_variant_byte [OF assms(1)] by blast
  define fields where "fields = [u64_to_le slot, u32_to_le index, u16_to_le version,
    u32_to_le fec_set_index, u16_to_le num_data, u16_to_le num_coding, u16_to_le position]"
  obtain buf3 where buf3: "write_fields 64 ([b] # fields) buf2 = Some buf3" "length buf3 = 1228"
    using write_fields_ok [of 64 "[b] # fields" buf2] buf2 by (auto simp: fields_def)
  obtain out where "write_root root (and_then (merkle_code_capacity v) (\<lambda>c. Inr (89 + c))) buf3 = Inr out"
    "length out = 1228"
    using write_root_ok [OF assms(3), of "and_then (merkle_code_capacity v) (\<lambda>c. Inr (89 + c))" buf3]
      root_fits(2) [OF assms(1)] buf3 by auto
  moreover have "write_code_header signature (variant_byte v) fields (length sh) sh = Some buf3"
    using within buf2 buf3 b by (simp add: write_code_header_def)
  ultimately show ?thesis
    using len n by (simp add: build_recovered_code_eq Let_def panic_or_def fields_def)
qed

lemma build_code_never_panics:
  assumes "wf_variant v" and "length signature = 64"
    and "\<forall>r. root = Some r \<longrightarrow> chained v \<and> length r = 32"
  shows "never_panics (build_recovered_merkle_code_payload signature slot index version fec_set_index
    num_data num_coding position sh v root)"
proof (cases "length sh = expected_shard_size v")
  case True
  from build_code_ok [OF assms True, of slot index version fec_set_index num_data num_coding position]
  show ?thesis by auto
qed (simp add: build_recovered_merkle_code_payload_def Let_def)

lemma never_panics_rebuild_payload:
  assumes "wf_variant v" and "length (hd_signature h) = 64"
    and "\<forall>r. hd_root h = Some r \<longrightarrow> chained v \<and> length r = 32"
  shows "never_panics (rebuild_payload v meta h present shards index)"
  using build_data_never_panics [OF assms] build_code_never_panics [OF assms]
  by (auto simp: rebuild_payload_def Let_def error_simps split: option.splits)

lemma length_proof_entry [simp]: "length (proof_entry h) = 20"
  by (simp add: proof_entry_def hash_bytes_def)

lemma merkle_proof_loop_entries:
  "merkle_proof_loop index sz offset acc tree = Some (out, k) \<Longrightarrow>
   \<forall>e \<in> set acc. length e = 20 \<Longrightarrow> \<forall>e \<in> set out. length e = 20"
proof (induction index sz offset acc tree rule: merkle_proof_loop.induct)
  case (1 index sz offset acc tree)
  show ?case
  proof (cases "sz > 1")
    case True
    then show ?thesis
      using 1 by (auto simp: merkle_proof_loop.simps [of index sz] split: bind_splits)
  next
    case False
    then show ?thesis using 1 by (simp add: merkle_proof_loop.simps [of index sz])
  qed
qed

lemma make_merkle_proof_entries:
  assumes "make_merkle_proof index sz tree = Some entries"
  shows "length (concat entries) = length entries * 20"
proof -
  have "\<forall>e \<in> set entries. length e = 20"
    using assms merkle_proof_loop_entries [of index sz 0 "[]" tree]
    by (auto simp: make_merkle_proof_def split: bind_splits if_splits)
  then show ?thesis by (induction entries) auto
qed

lemma never_panics_set_merkle_proof:
  "length (concat entries) = length entries * 20 \<Longrightarrow> never_panics (set_merkle_proof payload v entries)"
  using copy_range_ok
  by (fastforce simp: set_merkle_proof_def Let_def error_simps copy_range_def copy_at_def split: if_splits)

lemma never_panics_finish_recovery: "never_panics (finish_recovery ext v n payloads tree index)"
  by (auto simp: finish_recovery_def error_simps
      dest!: make_merkle_proof_entries dest: never_panics_set_merkle_proof)

lemma shred_values_set: "iter_ok ext \<Longrightarrow> set (shred_values ext m) = snd ` set m"
  by (simp add: shred_values_def iter_ok_def)

lemma all_shreds_set:
  "iter_ok ext \<Longrightarrow> set (all_shreds ext fs) = snd ` set (data_shreds fs) \<union> snd ` set (coding_shreds fs)"
  by (simp add: all_shreds_def shred_values_set)

definition set_sized :: "fec_set \<Rightarrow> bool" where
  "set_sized fs \<longleftrightarrow> (\<forall>s \<in> snd ` set (data_shreds fs) \<union> snd ` set (coding_shreds fs). sized (sh_payload s))"

lemma recovery_variant_wf: "recovery_variant_of ext fs = Some v \<Longrightarrow> wf_variant v"
  by (auto simp: recovery_variant_of_def dest!: find_map_Some intro: from_payload_wf)

lemma never_panics_merkle_node [simp]: "never_panics (merkle_node h p v)"
  by (auto simp: merkle_node_def error_simps)

lemma never_panics_maybe_recover_merkle:
  assumes "iter_ok ext" and "set_sized fs"
  shows "never_panics (maybe_recover_merkle ext fs)"
proof -
  have "\<forall>s \<in> set (all_shreds ext fs). sized (sh_payload s)"
    using assms by (simp add: all_shreds_set set_sized_def)
  from never_panics_place_shards [OF this] show ?thesis
    by (auto simp: maybe_recover_merkle_def Let_def error_simps
        dest!: collect_results_Inl read_set_header_Inr recovery_variant_wf
        simp: never_panics_finish_recovery dest: never_panics_rebuild_payload split: prod.splits)
qed

lemma run_recovery_returns:
  assumes "iter_ok ext" and "set_sized fs"
  shows "\<exists>r. run_recovery ext fs = Some r"
  using never_panics_maybe_recover_merkle [OF assms]
  by (cases "recovery_variant_of ext fs"; cases "maybe_recover_merkle ext fs")
    (auto simp: run_recovery_def)

lemma maybe_recover_returns:
  assumes "iter_ok ext" and "set_sized fs"
  shows "\<exists>r fs'. maybe_recover ext fs = Some (r, fs')"
proof -
  obtain r where "run_recovery ext fs = Some r" using run_recovery_returns [OF assms] by blast
  then show ?thesis by (cases r) (simp_all add: maybe_recover_def split_beta)
qed

end
