(* ===== verification/Machine.thy ===== *)
theory Machine
  imports Prelude
begin

text \<open>
  The components that keep state are machines: a start state, and one step per call, which returns
  the new state or, when the call panics, \<open>None\<close>. A run is the fold of the step over the calls. The
  two locales are the contracts a component proves once, about single steps, and that its runs
  inherit: \<open>invariant_machine\<close> (every admissible call keeps the invariant) and \<open>total_machine\<close>
  (no admissible call panics either).
\<close>

fun run :: "('a \<Rightarrow> 's \<Rightarrow> 's option) \<Rightarrow> 'a list \<Rightarrow> 's \<Rightarrow> 's option" where
  "run step [] s = Some s"
| "run step (a # as) s = do { s' \<leftarrow> step a s; run step as s' }"

lemma run_append: "run step (as @ bs) s = do { s' \<leftarrow> run step as s; run step bs s' }"
  by (induction as arbitrary: s) (auto split: bind_splits)

locale invariant_machine =
  fixes init :: "'s" and step :: "'a \<Rightarrow> 's \<Rightarrow> 's option"
    and admissible :: "'a \<Rightarrow> bool" and inv :: "'s \<Rightarrow> bool"
  assumes inv_init: "inv init"
    and inv_step: "inv s \<Longrightarrow> admissible a \<Longrightarrow> step a s = Some s' \<Longrightarrow> inv s'"
begin

lemma run_inv_from:
  "inv s \<Longrightarrow> \<forall>a \<in> set as. admissible a \<Longrightarrow> run step as s = Some s' \<Longrightarrow> inv s'"
  by (induction as arbitrary: s) (auto intro: inv_step split: bind_splits)

lemma run_inv: "\<forall>a \<in> set as. admissible a \<Longrightarrow> run step as init = Some s \<Longrightarrow> inv s"
  using run_inv_from inv_init by blast

end

locale total_machine = invariant_machine +
  assumes progress: "inv s \<Longrightarrow> admissible a \<Longrightarrow> \<exists>s'. step a s = Some s'"
begin

lemma run_returns_from: "inv s \<Longrightarrow> \<forall>a \<in> set as. admissible a \<Longrightarrow> \<exists>s'. run step as s = Some s' \<and> inv s'"
proof (induction as arbitrary: s)
  case (Cons a as)
  have adm: "admissible a" using Cons.prems(2) by simp
  obtain s' where s': "step a s = Some s'" using progress [OF Cons.prems(1) adm] by blast
  have "inv s'" by (rule inv_step [OF Cons.prems(1) adm s'])
  then obtain s'' where "run step as s' = Some s''" "inv s''"
    using Cons.IH [of s'] Cons.prems(2) by auto
  with s' show ?case by simp
qed simp

lemma run_returns: "\<forall>a \<in> set as. admissible a \<Longrightarrow> \<exists>s. run step as init = Some s \<and> inv s"
  using run_returns_from inv_init by blast

end

end
