(* ===== verification/Fec_Assembler.thy ===== *)
theory Fec_Assembler
  imports Fec_Set Machine
begin

text \<open>
  The assembler of \<^verbatim>\<open>spy-node/src/fec_assembler.rs\<close>: erasure sets by key, one buffer of data shreds
  per slot, the completed blocks, and the counters. \<open>ingest\<close> is the whole handler of a parsed shred;
  its result is \<open>None\<close> when the call panics. The logging of the source is left out except for the
  counters that bound it; \<open>dump_ok\<close> is the outcome of the diagnostic dump of an empty recovery, which
  writes files.
\<close>

record slot_buffer =
  sb_data_shreds :: "(u32 \<times> shred) list"
  sb_completed_data_indexes :: "u32 list"

definition new_slot_buffer :: slot_buffer where
  "new_slot_buffer = \<lparr>sb_data_shreds = [], sb_completed_data_indexes = []\<rparr>"

record fec_assembler =
  fa_sets :: "(fec_key \<times> fec_set) list"
  fa_slots :: "(u64 \<times> slot_buffer) list"
  fa_complete :: "(u64 \<times> u32 \<times> bytes list) list"
  fa_recovery_attempts :: u64
  fa_merkle_recovery_attempts :: u64
  fa_legacy_recovery_attempts :: u64
  fa_recovered_data_shreds :: u64
  fa_recovery_errors :: u64
  fa_recovery_invalid_index :: u64
  fa_recovery_invalid_shard_size :: u64
  fa_recovery_too_few_shards :: u64
  fa_recovery_other_errors :: u64
  fa_recovery_empty_results :: u64
  fa_deshred_attempts :: u64
  fa_deshred_failures :: u64
  fa_code_header_inconsistencies :: u64
  fa_code_header_invalid :: u64
  fa_sampled_recovery_logs :: u64
  fa_sampled_header_logs :: u64
  fa_sampled_empty_recovery_logs :: u64
  fa_sampled_empty_recovery_dumps :: u64

definition new_fec_assembler :: fec_assembler where
  "new_fec_assembler = \<lparr>fa_sets = [], fa_slots = [], fa_complete = [], fa_recovery_attempts = 0,
     fa_merkle_recovery_attempts = 0, fa_legacy_recovery_attempts = 0, fa_recovered_data_shreds = 0,
     fa_recovery_errors = 0, fa_recovery_invalid_index = 0, fa_recovery_invalid_shard_size = 0,
     fa_recovery_too_few_shards = 0, fa_recovery_other_errors = 0, fa_recovery_empty_results = 0,
     fa_deshred_attempts = 0, fa_deshred_failures = 0, fa_code_header_inconsistencies = 0,
     fa_code_header_invalid = 0, fa_sampled_recovery_logs = 0, fa_sampled_header_logs = 0,
     fa_sampled_empty_recovery_logs = 0, fa_sampled_empty_recovery_dumps = 0\<rparr>"

section \<open>Finding a complete block\<close>

text \<open>\<^verbatim>\<open>BTreeMap::range(start..=end)\<close> panics when the range is inverted.\<close>

definition bt_range_checked :: "u32 \<Rightarrow> u32 \<Rightarrow> (u32 \<times> 'v) list \<Rightarrow> (u32 \<times> 'v) list option" where
  "bt_range_checked lo hi m = (if lo \<le> hi then Some (bt_range lo hi m) else None)"

fun find_block_loop :: "(u32 \<times> shred) list \<Rightarrow> u32 \<Rightarrow> u32 \<Rightarrow> u32 list \<Rightarrow> (u32 list \<times> shred list) option option" where
  "find_block_loop buffered first_available start_index [] = Some None"
| "find_block_loop buffered first_available start_index (end_index # ends) =
     (if start_index < first_available
      then find_block_loop buffered first_available (sat_add end_index 1) ends
      else do {
        entries \<leftarrow> bt_range_checked start_index end_index buffered;
        (let count = (word_of_nat (length entries) :: u32);
             expected = sat_add (sat_sub end_index start_index) 1 in
         if count = expected then Some (Some (map fst entries, map snd entries))
         else find_block_loop buffered first_available (sat_add end_index 1) ends) })"

definition find_complete_data_block ::
  "(u32 \<times> shred) list \<Rightarrow> u32 list \<Rightarrow> (u32 list \<times> shred list) option option" where
  "find_complete_data_block buffered completed_data_indexes =
     (case buffered of
        [] \<Rightarrow> Some None
      | (first_available, _) # _ \<Rightarrow>
          find_block_loop buffered first_available 0 completed_data_indexes)"

section \<open>Buffering and emitting\<close>

definition insert_data_shred :: "u64 \<Rightarrow> shred \<Rightarrow> fec_assembler \<Rightarrow> fec_assembler" where
  "insert_data_shred slot shred st =
     (let buf = unwrap_or new_slot_buffer (map_of (fa_slots st) slot);
          buf = (if sh_data_complete shred \<or> sh_last_in_slot shred
                 then buf\<lparr>sb_completed_data_indexes :=
                        insort_insert (sh_index shred) (sb_completed_data_indexes buf)\<rparr>
                 else buf);
          buf = buf\<lparr>sb_data_shreds := bt_entry_or_insert (sh_index shred) shred (sb_data_shreds buf)\<rparr>
      in st\<lparr>fa_slots := AList.update slot buf (fa_slots st)\<rparr>)"

definition remove_indices :: "u32 list \<Rightarrow> (u32 \<times> shred) list \<Rightarrow> (u32 \<times> shred) list" where
  "remove_indices indices data = fold AList.delete indices data"

lemma remove_indices_filter:
  "remove_indices is m = filter (\<lambda>(k, _). k \<notin> set is) m"
  by (induction "is" arbitrary: m)
    (auto simp: remove_indices_def AList.delete_eq split_beta' intro!: filter_cong)

lemma find_block_loop_indices:
  assumes "find_block_loop data first start ends = Some (Some (indices, shreds))"
  shows "indices \<noteq> [] \<and> set indices \<subseteq> fst ` set data"
  using assms
proof (induction data first start ends rule: find_block_loop.induct)
  case (2 data first start e ends)
  show ?case
  proof (cases "start < first")
    case True
    with 2 show ?thesis by simp
  next
    case False
    with 2(3) obtain entries where e: "bt_range_checked start e data = Some entries"
      by (auto split: bind_splits)
    define expected :: u32 where "expected = sat_add (sat_sub e start) 1"
    have nz: "expected \<noteq> 0"
      by (auto simp: expected_def unat_sat_add unat_eq_0 [symmetric])
    show ?thesis
    proof (cases "word_of_nat (length entries) = expected")
      case True
      then have "indices = map fst entries" and "entries \<noteq> []"
        using 2(3) False e nz by (auto simp: expected_def)
      then show ?thesis
        using e by (auto simp: bt_range_checked_def bt_range_def split: if_splits)
    next
      case ne: False
      with 2 False e show ?thesis by (simp add: expected_def)
    qed
  qed
qed simp

lemma find_complete_indices:
  assumes "find_complete_data_block data ends = Some (Some (indices, shreds))"
  shows "indices \<noteq> [] \<and> set indices \<subseteq> fst ` set data"
proof (cases data)
  case Nil
  with assms show ?thesis by (simp add: find_complete_data_block_def)
next
  case (Cons d ds)
  with assms have "find_block_loop data (fst d) 0 ends = Some (Some (indices, shreds))"
    by (simp add: find_complete_data_block_def split_beta)
  then show ?thesis by (rule find_block_loop_indices)
qed

lemma remove_indices_shorter:
  assumes "indices \<noteq> []" and "set indices \<subseteq> fst ` set data"
  shows "length (remove_indices indices data) < length data"
proof -
  have "hd indices \<in> fst ` set data" using assms by auto
  then obtain x where x: "x \<in> set data" "fst x = hd indices" by auto
  have "\<not> (case x of (k, _) \<Rightarrow> k \<notin> set indices)" using x(2) assms(1) by (simp add: split_beta)
  with x(1) show ?thesis unfolding remove_indices_filter by (rule length_filter_less)
qed

text \<open>The loop of \<^verbatim>\<open>emit_ready_blocks\<close>: it removes at least one buffered shred per round.\<close>

function emit_loop :: "'e fec_ext \<Rightarrow> u64 \<Rightarrow> u32 list \<Rightarrow> (u32 \<times> shred) list \<Rightarrow> fec_assembler \<Rightarrow> bool
    \<Rightarrow> ((u32 \<times> shred) list \<times> fec_assembler \<times> bool) option" where
  "emit_loop ext slot ends data st emitted =
     (case find_complete_data_block data ends of
        None \<Rightarrow> None
      | Some None \<Rightarrow> Some (data, st, emitted)
      | Some (Some (indices, shreds)) \<Rightarrow>
          let start_index = hd indices;
              st = st\<lparr>fa_deshred_attempts := sat_add (fa_deshred_attempts st) 1\<rparr>;
              data' = remove_indices indices data in
          (case x_deshred ext shreds of
             Inr payload \<Rightarrow>
               emit_loop ext slot ends data'
                 (st\<lparr>fa_complete := fa_complete st @ [(slot, start_index, [payload])]\<rparr>) True
           | Inl _ \<Rightarrow>
               emit_loop ext slot ends data'
                 (st\<lparr>fa_deshred_failures := sat_add (fa_deshred_failures st) 1\<rparr>) emitted))"
  by pat_completeness auto
termination
  by (relation "measure (\<lambda>(ext, slot, ends, data, st, emitted). length data)")
    (auto dest: find_complete_indices intro: remove_indices_shorter)

declare emit_loop.simps [simp del]

definition emit_ready_blocks :: "'e fec_ext \<Rightarrow> u64 \<Rightarrow> fec_assembler \<Rightarrow> (bool \<times> fec_assembler) option" where
  "emit_ready_blocks ext slot st =
     (case map_of (fa_slots st) slot of
        None \<Rightarrow> Some (False, st)
      | Some buf \<Rightarrow> do {
          (data, st, emitted) \<leftarrow>
            emit_loop ext slot (sb_completed_data_indexes buf) (sb_data_shreds buf) st False;
          Some (emitted,
            st\<lparr>fa_slots := AList.update slot (buf\<lparr>sb_data_shreds := data\<rparr>) (fa_slots st)\<rparr>) })"

section \<open>Accounting of recoveries\<close>

text \<open>\<^verbatim>\<open>str::contains\<close>.\<close>

fun contains :: "string \<Rightarrow> string \<Rightarrow> bool" where
  "contains [] needle = (needle = [])"
| "contains (c # cs) needle = (take (length needle) (c # cs) = needle \<or> contains cs needle)"

definition record_recovery_error :: "string \<Rightarrow> fec_assembler \<Rightarrow> fec_assembler" where
  "record_recovery_error err_text st =
     (let st = st\<lparr>fa_recovery_errors := sat_add (fa_recovery_errors st) 1\<rparr>;
          st =
            (if contains err_text ''InvalidIndex'' \<or> contains err_text ''invalid index''
             then st\<lparr>fa_recovery_invalid_index := sat_add (fa_recovery_invalid_index st) 1\<rparr>
             else if contains err_text ''Too few shards'' \<or> contains err_text ''too few shards''
               \<or> contains err_text ''TooFewShards''
             then st\<lparr>fa_recovery_too_few_shards := sat_add (fa_recovery_too_few_shards st) 1\<rparr>
             else if contains err_text ''Invalid shard size''
             then st\<lparr>fa_recovery_invalid_shard_size := sat_add (fa_recovery_invalid_shard_size st) 1\<rparr>
             else st\<lparr>fa_recovery_other_errors := sat_add (fa_recovery_other_errors st) 1\<rparr>)
      in if fa_sampled_recovery_logs st < 10
         then st\<lparr>fa_sampled_recovery_logs := fa_sampled_recovery_logs st + 1\<rparr> else st)"

record recovery_layout =
  rl_data_expected :: nat
  rl_coding_expected :: nat
  rl_total_expected :: nat
  rl_data_in_range :: nat
  rl_data_out_of_range :: nat
  rl_coding_in_range :: nat
  rl_coding_out_of_range :: nat
  rl_occupied_erasure_slots :: nat
  rl_missing_data_slots :: nat
  rl_min_data_index :: "u32 option"
  rl_max_data_index :: "u32 option"
  rl_min_code_index :: "u32 option"
  rl_max_code_index :: "u32 option"

definition min_key :: "(u32 \<times> 'v) list \<Rightarrow> u32 option" where
  "min_key m = (if m = [] then None else Some (Min (fst ` set m)))"

definition max_key :: "(u32 \<times> 'v) list \<Rightarrow> u32 option" where
  "max_key m = (if m = [] then None else Some (Max (fst ` set m)))"

text \<open>The erasure slots the keys of a map fall on, counted from a first index.\<close>

definition relative_slots :: "u32 \<Rightarrow> nat \<Rightarrow> nat \<Rightarrow> (u32 \<times> 'v) list \<Rightarrow> nat list" where
  "relative_slots first offset bound m =
     filter (\<lambda>r. r < bound) (map (\<lambda>i. offset + unat (i - first)) (filter (\<lambda>i. first \<le> i) (map fst m)))"

definition recovery_layout_of :: "fec_set \<Rightarrow> u32 \<Rightarrow> recovery_layout option" where
  "recovery_layout_of fs fec_set_index = do {
     meta \<leftarrow> coding_meta fs;
     let data_expected = unat (om_num_data_shreds meta);
     let coding_expected = unat (om_num_coding_shreds meta);
     let total_expected = data_expected + coding_expected;
     let data_start = fec_set_index;
     data_end \<leftarrow> checked_add data_start (ucast (sat_sub (om_num_data_shreds meta) 1));
     let code_start = om_first_coding_index meta;
     code_end \<leftarrow> checked_add code_start (ucast (sat_sub (om_num_coding_shreds meta) 1));
     let data_in_range = length (bt_range data_start data_end (data_shreds fs));
     let coding_in_range = length (bt_range code_start code_end (coding_shreds fs));
     let occupied = relative_slots fec_set_index 0 total_expected (data_shreds fs)
       @ relative_slots code_start data_expected total_expected (coding_shreds fs);
     Some \<lparr>rl_data_expected = data_expected, rl_coding_expected = coding_expected,
       rl_total_expected = total_expected, rl_data_in_range = data_in_range,
       rl_data_out_of_range = length (data_shreds fs) - data_in_range,
       rl_coding_in_range = coding_in_range,
       rl_coding_out_of_range = length (coding_shreds fs) - coding_in_range,
       rl_occupied_erasure_slots = length (remdups occupied),
       rl_missing_data_slots = data_expected - data_in_range,
       rl_min_data_index = min_key (data_shreds fs), rl_max_data_index = max_key (data_shreds fs),
       rl_min_code_index = min_key (coding_shreds fs), rl_max_code_index = max_key (coding_shreds fs)\<rparr> }"

definition record_empty_recovery ::
  "bool \<Rightarrow> fec_key \<Rightarrow> recovery_variant option \<Rightarrow> fec_assembler \<Rightarrow> fec_assembler" where
  "record_empty_recovery dump_ok key variant st =
     (let st = st\<lparr>fa_recovery_empty_results := sat_add (fa_recovery_empty_results st) 1\<rparr> in
      case map_of (fa_sets st) key of
        None \<Rightarrow> st
      | Some fs \<Rightarrow>
          let st =
            (if (case variant of Some v \<Rightarrow> is_merkle v | None \<Rightarrow> False)
                  \<and> fa_sampled_empty_recovery_dumps st < 3 \<and> dump_ok
             then st\<lparr>fa_sampled_empty_recovery_dumps := fa_sampled_empty_recovery_dumps st + 1\<rparr>
             else st) in
          if fa_sampled_empty_recovery_logs st \<ge> 10 then st
          else (case recovery_layout_of fs (fk_fec_set_index key) of
              None \<Rightarrow> st
            | Some _ \<Rightarrow> st\<lparr>fa_sampled_empty_recovery_logs := fa_sampled_empty_recovery_logs st + 1\<rparr>))"

section \<open>The handler of a shred\<close>

definition count_attempt :: "recovery_variant option \<Rightarrow> fec_assembler \<Rightarrow> fec_assembler" where
  "count_attempt variant st =
     (let st = st\<lparr>fa_recovery_attempts := sat_add (fa_recovery_attempts st) 1\<rparr> in
      if (case variant of Some v \<Rightarrow> is_merkle v | None \<Rightarrow> False)
      then st\<lparr>fa_merkle_recovery_attempts := sat_add (fa_merkle_recovery_attempts st) 1\<rparr>
      else st\<lparr>fa_legacy_recovery_attempts := sat_add (fa_legacy_recovery_attempts st) 1\<rparr>)"

definition sample_header_log :: "fec_assembler \<Rightarrow> fec_assembler" where
  "sample_header_log st =
     (if fa_sampled_header_logs st < 10
      then st\<lparr>fa_sampled_header_logs := fa_sampled_header_logs st + 1\<rparr> else st)"

definition count_header_problems :: "bool \<Rightarrow> bool \<Rightarrow> fec_assembler \<Rightarrow> fec_assembler" where
  "count_header_problems invalid inconsistent st =
     (let st =
        (if invalid
         then sample_header_log (st\<lparr>fa_code_header_invalid := sat_add (fa_code_header_invalid st) 1\<rparr>)
         else st)
      in if inconsistent
         then sample_header_log
           (st\<lparr>fa_code_header_inconsistencies := sat_add (fa_code_header_inconsistencies st) 1\<rparr>)
         else st)"

text \<open>The first part of \<^verbatim>\<open>ingest\<close>: the coding header is observed, with the two ways it can be wrong.\<close>

definition observe_header :: "parsed_shred \<Rightarrow> fec_set \<Rightarrow> bool \<times> bool \<times> fec_set" where
  "observe_header shred fs =
     (case ps_coding_meta shred of
        None \<Rightarrow> (False, False, fs)
      | Some meta \<Rightarrow>
          (case observe_coding_meta (ps_index shred) meta fs of
             (Inr _, fs) \<Rightarrow> (False, False, fs)
           | (Inl _, fs) \<Rightarrow>
               if first_coding_index meta (ps_index shred) = None then (True, False, fs)
               else (False, True, fs)))"

definition settle_recovery ::
  "'e fec_ext \<Rightarrow> bool \<Rightarrow> fec_key \<Rightarrow> bool \<Rightarrow> recovery_variant option \<Rightarrow> fec_set_summary \<Rightarrow> 'e + shred list
    \<Rightarrow> fec_assembler \<Rightarrow> shred list \<times> fec_assembler" where
  "settle_recovery ext dump_ok key attempted variant sm recovered st =
     (case recovered of
        Inr recovered \<Rightarrow>
          let st = (if attempted \<and> recovered = [] \<and> sum_coding_meta sm \<noteq> None
                    then record_empty_recovery dump_ok key variant st else st) in
          (recovered, st\<lparr>fa_recovered_data_shreds :=
             sat_add (fa_recovered_data_shreds st) (word_of_nat (length recovered))\<rparr>)
      | Inl err \<Rightarrow> ([], record_recovery_error (x_error_text ext err) st))"

definition key_of :: "parsed_shred \<Rightarrow> fec_key" where
  "key_of shred = \<lparr>fk_slot = ps_slot shred, fk_fec_set_index = ps_fec_set_index shred\<rparr>"

text \<open>The shred is filed in its set and recovery is attempted: the block of \<^verbatim>\<open>ingest\<close> that borrows the
  set, with the two header problems it reports.\<close>

definition file_shred :: "'e fec_ext \<Rightarrow> parsed_shred \<Rightarrow> fec_assembler
    \<Rightarrow> (('e + shred list) \<times> fec_set_summary \<times> bool \<times> recovery_variant option \<times> bool \<times> bool \<times> fec_assembler) option" where
  "file_shred ext shred st =
     (let fs = unwrap_or new_fec_set (map_of (fa_sets st) (key_of shred));
          (invalid, inconsistent, fs) = observe_header shred fs;
          fs = add_shred (ps_shred shred) fs;
          attempted = can_attempt_recovery fs;
          variant = recovery_variant_of ext fs;
          st = (if attempted then count_attempt variant st else st) in do {
        (recovered, fs) \<leftarrow> (if attempted then maybe_recover ext fs else Some (Inr [], fs));
        Some (recovered, summary fs, attempted, variant, invalid, inconsistent,
              st\<lparr>fa_sets := AList.update (key_of shred) fs (fa_sets st)\<rparr>) })"

definition ingest :: "'e fec_ext \<Rightarrow> bool \<Rightarrow> parsed_shred \<Rightarrow> fec_assembler \<Rightarrow> (bool \<times> fec_assembler) option" where
  "ingest ext dump_ok shred st = do {
     (recovered, sm, attempted, variant, invalid, inconsistent, st) \<leftarrow> file_shred ext shred st;
     let st = count_header_problems invalid inconsistent st;
     let (recovered, st) = settle_recovery ext dump_ok (key_of shred) attempted variant sm recovered st;
     let st = (if ps_shred_type shred = DataShred
               then insert_data_shred (ps_slot shred) (ps_shred shred) st else st);
     let st = fold (insert_data_shred (ps_slot shred)) recovered st;
     emit_ready_blocks ext (ps_slot shred) st }"

definition drain_complete :: "fec_assembler \<Rightarrow> (u64 \<times> u32 \<times> bytes list) list \<times> fec_assembler" where
  "drain_complete st = (fa_complete st, st\<lparr>fa_complete := []\<rparr>)"

definition prune_old_slots :: "u64 \<Rightarrow> fec_assembler \<Rightarrow> fec_assembler" where
  "prune_old_slots min_slot st =
     st\<lparr>fa_sets := filter (\<lambda>(k, _). fk_slot k \<ge> min_slot) (fa_sets st),
        fa_slots := filter (\<lambda>(slot, _). slot \<ge> min_slot) (fa_slots st)\<rparr>"

section \<open>The statistics snapshot\<close>

record fec_stats =
  st_sets :: nat
  st_slot_buffers :: nat
  st_buffered_data_shreds :: nat
  st_completed_boundaries :: nat
  st_sets_with_coding :: nat
  st_sets_at_data_threshold :: nat
  st_sets_with_coding_meta :: nat
  st_sets_missing_coding_meta :: nat
  st_avg_shreds_per_set_x10 :: nat
  st_max_data_in_set :: nat
  st_sets_all_data_present :: nat
  st_recovery_attempts :: u64
  st_merkle_recovery_attempts :: u64
  st_legacy_recovery_attempts :: u64
  st_recovered_data_shreds :: u64
  st_recovery_errors :: u64
  st_recovery_invalid_index :: u64
  st_recovery_invalid_shard_size :: u64
  st_recovery_too_few_shards :: u64
  st_recovery_other_errors :: u64
  st_recovery_empty_results :: u64
  st_deshred_attempts :: u64
  st_deshred_failures :: u64
  st_code_header_inconsistencies :: u64
  st_code_header_invalid :: u64

definition initial_stats :: "fec_assembler \<Rightarrow> fec_stats" where
  "initial_stats st = \<lparr>st_sets = length (fa_sets st), st_slot_buffers = length (fa_slots st),
     st_buffered_data_shreds = 0, st_completed_boundaries = 0, st_sets_with_coding = 0,
     st_sets_at_data_threshold = 0, st_sets_with_coding_meta = 0, st_sets_missing_coding_meta = 0,
     st_avg_shreds_per_set_x10 = 0, st_max_data_in_set = 0, st_sets_all_data_present = 0,
     st_recovery_attempts = fa_recovery_attempts st,
     st_merkle_recovery_attempts = fa_merkle_recovery_attempts st,
     st_legacy_recovery_attempts = fa_legacy_recovery_attempts st,
     st_recovered_data_shreds = fa_recovered_data_shreds st,
     st_recovery_errors = fa_recovery_errors st,
     st_recovery_invalid_index = fa_recovery_invalid_index st,
     st_recovery_invalid_shard_size = fa_recovery_invalid_shard_size st,
     st_recovery_too_few_shards = fa_recovery_too_few_shards st,
     st_recovery_other_errors = fa_recovery_other_errors st,
     st_recovery_empty_results = fa_recovery_empty_results st,
     st_deshred_attempts = fa_deshred_attempts st, st_deshred_failures = fa_deshred_failures st,
     st_code_header_inconsistencies = fa_code_header_inconsistencies st,
     st_code_header_invalid = fa_code_header_invalid st\<rparr>"

definition count_set :: "'e fec_ext \<Rightarrow> fec_set \<Rightarrow> nat \<times> fec_stats \<Rightarrow> nat \<times> fec_stats" where
  "count_set ext fs = (\<lambda>(total_shreds, stats).
     let data = length (data_shreds fs);
         present = data + length (coding_shreds fs);
         stats = (if data > st_max_data_in_set stats then stats\<lparr>st_max_data_in_set := data\<rparr> else stats);
         stats = (case coding_meta fs of
             Some meta \<Rightarrow>
               let stats = stats\<lparr>st_sets_with_coding_meta := st_sets_with_coding_meta stats + 1\<rparr> in
               if data \<ge> unat (om_num_data_shreds meta)
               then stats\<lparr>st_sets_all_data_present := st_sets_all_data_present stats + 1\<rparr> else stats
           | None \<Rightarrow> stats\<lparr>st_sets_missing_coding_meta := st_sets_missing_coding_meta stats + 1\<rparr>);
         stats = (if coding_shreds fs \<noteq> []
           then let stats = stats\<lparr>st_sets_with_coding := st_sets_with_coding stats + 1\<rparr>;
                    num_data_shreds = unwrap_or (x_data_shreds_per_fec_block ext)
                      (map_option (\<lambda>meta. unat (om_num_data_shreds meta)) (coding_meta fs)) in
             if data < num_data_shreds \<and> present \<ge> num_data_shreds
             then stats\<lparr>st_sets_at_data_threshold := st_sets_at_data_threshold stats + 1\<rparr> else stats
           else stats)
     in (total_shreds + present, stats))"

definition count_slot :: "slot_buffer \<Rightarrow> fec_stats \<Rightarrow> fec_stats" where
  "count_slot buf stats =
     stats\<lparr>st_buffered_data_shreds := st_buffered_data_shreds stats + length (sb_data_shreds buf),
           st_completed_boundaries :=
             st_completed_boundaries stats + length (sb_completed_data_indexes buf)\<rparr>"

definition stats_snapshot :: "'e fec_ext \<Rightarrow> fec_assembler \<Rightarrow> fec_stats" where
  "stats_snapshot ext st =
     (let (total_shreds, stats) = fold (count_set ext) (map snd (fa_sets st)) (0, initial_stats st);
          stats = (if fa_sets st \<noteq> []
            then stats\<lparr>st_avg_shreds_per_set_x10 := total_shreds * 10 div length (fa_sets st)\<rparr>
            else stats)
      in fold count_slot (map snd (fa_slots st)) stats)"

section \<open>Specification of the block search\<close>

text \<open>The batches that the boundaries \<open>ends\<close> cut the slot into, as inclusive index ranges.\<close>

fun batches :: "nat \<Rightarrow> nat list \<Rightarrow> (nat \<times> nat) list" where
  "batches start [] = []"
| "batches start (e # ends) = (start, e) # batches (Suc e) ends"

definition batch_complete :: "(u32 \<times> shred) list \<Rightarrow> nat \<times> nat \<Rightarrow> bool" where
  "batch_complete data b = list_all (\<lambda>i. map_of data (word_of_nat i) \<noteq> None) [fst b..<Suc (snd b)]"

definition batch_indices :: "nat \<times> nat \<Rightarrow> u32 list" where
  "batch_indices b = map word_of_nat [fst b..<Suc (snd b)]"

definition batch_shreds :: "(u32 \<times> shred) list \<Rightarrow> nat \<times> nat \<Rightarrow> shred list" where
  "batch_shreds data b = map (\<lambda>i. the (map_of data i)) (batch_indices b)"

definition slot_batches :: "u32 list \<Rightarrow> (nat \<times> nat) list" where
  "slot_batches ends = batches 0 (map unat ends)"

text \<open>A sorted buffer holds all of a range exactly when its range has that many entries.\<close>

lemma unat_word_of_nat_u32: "n < 4294967296 \<Longrightarrow> unat (word_of_nat n :: u32) = n"
  by (simp add: unat_of_nat)

lemma unat_u32_bound [simp]: "unat (x :: u32) < 4294967296"
  using unat_lt2p [of x] by simp

lemma bt_sorted_range: "bt_sorted m \<Longrightarrow> bt_sorted (bt_range lo hi m)"
  by (simp add: bt_range_def bt_sorted_filter)

lemma keys_bt_range: "fst ` set (bt_range lo hi m) = {k \<in> fst ` set m. lo \<le> k \<and> k \<le> hi}"
  by (force simp: bt_range_def)

lemma range_keys_nat:
  assumes "bt_sorted m"
  shows "sorted_wrt (<) (map (unat \<circ> fst) (bt_range (lo :: u32) hi m))"
    and "set (map (unat \<circ> fst) (bt_range lo hi m)) = {i \<in> {unat lo..unat hi}. word_of_nat i \<in> fst ` set m}"
proof -
  have "sorted_wrt (<) (map fst (bt_range lo hi m))" using bt_sorted_range [OF assms] .
  then show "sorted_wrt (<) (map (unat \<circ> fst) (bt_range lo hi m))"
    by (simp add: sorted_wrt_map word_less_nat_alt)
  have "set (map (unat \<circ> fst) (bt_range lo hi m)) = unat ` {k \<in> fst ` set m. lo \<le> k \<and> k \<le> hi}"
    by (simp add: keys_bt_range [symmetric] image_image)
  also have "\<dots> = {i \<in> {unat lo..unat hi}. word_of_nat i \<in> fst ` set m}"
  proof (rule set_eqI, rule iffI)
    fix i assume "i \<in> {i \<in> {unat lo..unat hi}. word_of_nat i \<in> fst ` set m}"
    then have i: "unat lo \<le> i" "i \<le> unat hi" "word_of_nat i \<in> fst ` set m" by auto
    then have "i < 4294967296" using unat_u32_bound [of hi] by linarith
    then have "unat (word_of_nat i :: u32) = i" by (rule unat_word_of_nat_u32)
    with i show "i \<in> unat ` {k \<in> fst ` set m. lo \<le> k \<and> k \<le> hi}"
      by (intro image_eqI [of _ _ "word_of_nat i"]) (auto simp: word_le_nat_alt)
  qed (auto simp: word_le_nat_alt intro: rev_image_eqI)
  finally show "set (map (unat \<circ> fst) (bt_range lo hi m)) = {i \<in> {unat lo..unat hi}. word_of_nat i \<in> fst ` set m}" .
qed

lemma range_full_iff:
  assumes "bt_sorted m" and "lo \<le> (hi :: u32)"
  shows "length (bt_range lo hi m) = Suc (unat hi) - unat lo
    \<longleftrightarrow> map (unat \<circ> fst) (bt_range lo hi m) = [unat lo..<Suc (unat hi)]"
    and "map (unat \<circ> fst) (bt_range lo hi m) = [unat lo..<Suc (unat hi)]
    \<longleftrightarrow> (\<forall>i \<in> {unat lo..unat hi}. word_of_nat i \<in> fst ` set m)"
    and "length (bt_range lo hi m) \<le> Suc (unat hi) - unat lo"
proof -
  define ks where "ks = map (unat \<circ> fst) (bt_range lo hi m)"
  note r = range_keys_nat [OF assms(1), of lo hi, folded ks_def]
  have dist: "distinct ks" "sorted ks" using r(1) strict_sorted_iff by blast+
  have sub: "set ks \<subseteq> {unat lo..unat hi}" using r(2) by auto
  have card: "length ks = card (set ks)" using dist(1) by (simp add: distinct_card)
  show le: "length (bt_range lo hi m) \<le> Suc (unat hi) - unat lo"
    using card_mono [OF _ sub] card by (simp add: ks_def)
  have eq: "ks = [unat lo..<Suc (unat hi)] \<longleftrightarrow> set ks = {unat lo..unat hi}"
  proof
    assume "set ks = {unat lo..unat hi}"
    with dist show "ks = [unat lo..<Suc (unat hi)]"
      by (intro sorted_distinct_set_unique) (simp_all add: atLeastLessThanSuc_atLeastAtMost del: upt_Suc)
  qed (simp add: atLeastLessThanSuc_atLeastAtMost del: upt_Suc)
  have "set ks = {unat lo..unat hi} \<longleftrightarrow> (\<forall>i \<in> {unat lo..unat hi}. word_of_nat i \<in> fst ` set m)"
    unfolding r(2) by blast
  with eq show "ks = [unat lo..<Suc (unat hi)] \<longleftrightarrow> (\<forall>i \<in> {unat lo..unat hi}. word_of_nat i \<in> fst ` set m)"
    by (simp only:)
  have "length ks = Suc (unat hi) - unat lo \<longleftrightarrow> set ks = {unat lo..unat hi}"
    using card card_subset_eq [OF _ sub] by (metis card_atLeastAtMost finite_atLeastAtMost)
  then show "length (bt_range lo hi m) = Suc (unat hi) - unat lo \<longleftrightarrow> ks = [unat lo..<Suc (unat hi)]"
    unfolding eq by (simp only: ks_def length_map)
qed

lemma batch_complete_iff:
  assumes "bt_sorted m" and "start \<le> e"
  shows "batch_complete m (unat start, unat e)
    \<longleftrightarrow> length (bt_range start e m) = Suc (unat e) - unat start"
  unfolding range_full_iff(1) [OF assms] range_full_iff(2) [OF assms] batch_complete_def fst_conv snd_conv
  by (simp only: list_all_iff set_upt atLeastLessThanSuc_atLeastAtMost map_of_eq_None_iff not_not)

lemma range_of_batch:
  assumes "bt_sorted m" and "start \<le> e" and "batch_complete m (unat start, unat e)"
  shows "map fst (bt_range start e m) = batch_indices (unat start, unat e)"
    and "map snd (bt_range start e m) = batch_shreds m (unat start, unat e)"
proof -
  have eq: "map (unat \<circ> fst) (bt_range start e m) = [unat start..<Suc (unat e)]"
    using assms(3) unfolding batch_complete_iff [OF assms(1,2)] range_full_iff(1) [OF assms(1,2)] .
  have "map fst (bt_range start e m) = map word_of_nat (map (unat \<circ> fst) (bt_range start e m))"
    by (simp add: o_def)
  also have "\<dots> = batch_indices (unat start, unat e)"
    unfolding eq batch_indices_def fst_conv snd_conv ..
  finally show idx: "map fst (bt_range start e m) = batch_indices (unat start, unat e)" .
  have "map snd (bt_range start e m) = map (\<lambda>i. the (map_of m i)) (map fst (bt_range start e m))"
    using bt_sorted_distinct [OF assms(1)] by (auto simp: bt_range_def)
  then show "map snd (bt_range start e m) = batch_shreds m (unat start, unat e)"
    unfolding idx batch_shreds_def .
qed

definition block_of :: "(u32 \<times> shred) list \<Rightarrow> nat \<times> nat \<Rightarrow> u32 list \<times> shred list" where
  "block_of m b = (batch_indices b, batch_shreds m b)"

lemma batch_incomplete_before_first:
  assumes "bt_sorted m" and "m = (first, s) # rest" and "start < first" and "start \<le> e"
  shows "\<not> batch_complete m (unat start, unat e)"
proof -
  have "start \<notin> fst ` set m" using assms by auto
  then have "map_of m (word_of_nat (unat start)) = None" by (simp add: map_of_eq_None_iff)
  moreover have "unat start \<in> set [unat start..<Suc (unat e)]"
    using assms(4) by (simp add: word_le_nat_alt del: upt_Suc)
  ultimately show ?thesis
    unfolding batch_complete_def fst_conv snd_conv list_all_iff by blast
qed

lemma count_expected_iff:
  assumes "bt_sorted m" and "start \<le> e" and "length m < 4294967295"
  shows "(word_of_nat (length (bt_range start e m)) :: u32) = sat_add (sat_sub e start) 1
    \<longleftrightarrow> batch_complete m (unat start, unat e)"
proof -
  define n where "n = length (bt_range start e m)"
  have n: "n < 4294967295" using assms(3) le_less_trans [OF length_filter_le]
    by (auto simp: n_def bt_range_def)
  then have un: "unat (word_of_nat n :: u32) = n" by (simp add: unat_word_of_nat_u32)
  have ue: "unat (sat_add (sat_sub e start) 1) = min (unat e - unat start + 1) 4294967295"
    by (simp add: unat_sat_add unat_sat_sub)
  have "word_of_nat n = sat_add (sat_sub e start) 1 \<longleftrightarrow> n = min (unat e - unat start + 1) 4294967295"
    unfolding word_unat_eq_iff un ue ..
  also have "\<dots> \<longleftrightarrow> n = Suc (unat e) - unat start"
    using n assms(2) unat_u32_bound [of e] by (auto simp: word_le_nat_alt min_def)
  also have "\<dots> \<longleftrightarrow> batch_complete m (unat start, unat e)"
    unfolding batch_complete_iff [OF assms(1,2)] n_def ..
  finally show ?thesis by (simp add: n_def)
qed

lemma find_block_loop_spec:
  assumes "bt_sorted m" and "m = (first, s) # rest" and "length m < 4294967295"
    and "sorted_wrt (<) ends" and "\<forall>e \<in> set ends. start \<le> e"
  shows "find_block_loop m first start ends =
    Some (map_option (block_of m) (find (batch_complete m) (batches (unat start) (map unat ends))))"
  using assms(4,5)
proof (induction ends arbitrary: start)
  case (Cons e ends)
  have e: "start \<le> e" using Cons.prems by simp
  have IH: "find_block_loop m first (sat_add e 1) ends =
    Some (map_option (block_of m) (find (batch_complete m) (batches (Suc (unat e)) (map unat ends))))"
  proof (cases "ends = []")
    case False
    then obtain x where "x \<in> set ends" "e < x" using Cons.prems(1) by (cases ends) auto
    then have "unat e < unat x" by (simp add: word_less_nat_alt)
    then have "unat e < 4294967295" using unat_u32_bound [of x] by linarith
    then have nxt: "unat (sat_add e 1) = Suc (unat e)" by (simp add: unat_sat_add)
    have "\<forall>x \<in> set ends. sat_add e 1 \<le> x"
      using Cons.prems(1) nxt by (auto simp: word_le_nat_alt word_less_nat_alt)
    with Cons show ?thesis by (simp add: nxt)
  qed simp
  show ?case
  proof (cases "start < first")
    case True
    then have "\<not> batch_complete m (unat start, unat e)"
      using batch_incomplete_before_first [OF assms(1,2)] e by blast
    with True IH show ?thesis by simp
  next
    case False
    then show ?thesis
      using IH count_expected_iff [OF assms(1) e assms(3)] range_of_batch [OF assms(1) e] e
      by (simp add: bt_range_checked_def Let_def block_of_def [of m "(unat start, unat e)"])
  qed
qed simp

lemma find_batch_empty:
  "sorted_wrt (<) (es :: u32 list) \<Longrightarrow> \<forall>e \<in> set es. k \<le> unat e \<Longrightarrow>
   find (batch_complete []) (batches k (map unat es)) = None"
proof (induction es arbitrary: k)
  case (Cons e es)
  have "\<not> batch_complete [] (k, unat e)"
    using Cons.prems(2) by (simp add: batch_complete_def)
  moreover have "\<forall>x \<in> set es. Suc (unat e) \<le> unat x"
    using Cons.prems(1) by (simp add: word_less_nat_alt Suc_le_eq)
  ultimately show ?case using Cons by simp
qed simp

lemma find_complete_spec:
  assumes "bt_sorted m" and "length m < 4294967295" and "sorted_wrt (<) ends"
  shows "find_complete_data_block m ends =
    Some (map_option (block_of m) (find (batch_complete m) (slot_batches ends)))"
proof (cases m)
  case Nil
  with find_batch_empty [OF assms(3), of 0] show ?thesis
    by (simp add: find_complete_data_block_def slot_batches_def)
next
  case (Cons d rest)
  then show ?thesis
    using find_block_loop_spec [OF assms(1) _ assms(2,3), of "fst d" "snd d" rest 0]
    by (simp add: find_complete_data_block_def slot_batches_def split_beta)
qed

section \<open>What the emission loop does\<close>

text \<open>All batches that are complete when the loop starts are taken out, in order, and each one is
  deshredded from the shreds it then held.\<close>

definition emit_batch :: "'e fec_ext \<Rightarrow> u64 \<Rightarrow> (u32 \<times> shred) list \<Rightarrow> nat \<times> nat \<Rightarrow> fec_assembler \<Rightarrow> fec_assembler" where
  "emit_batch ext slot data b st =
     (let st = st\<lparr>fa_deshred_attempts := sat_add (fa_deshred_attempts st) 1\<rparr> in
      case x_deshred ext (batch_shreds data b) of
        Inr payload \<Rightarrow> st\<lparr>fa_complete := fa_complete st @ [(slot, word_of_nat (fst b), [payload])]\<rparr>
      | Inl _ \<Rightarrow> st\<lparr>fa_deshred_failures := sat_add (fa_deshred_failures st) 1\<rparr>)"

definition complete_batches :: "u32 list \<Rightarrow> (u32 \<times> shred) list \<Rightarrow> (nat \<times> nat) list" where
  "complete_batches ends data = filter (batch_complete data) (slot_batches ends)"

definition batch_emits :: "'e fec_ext \<Rightarrow> (u32 \<times> shred) list \<Rightarrow> nat \<times> nat \<Rightarrow> bool" where
  "batch_emits ext data b = (case x_deshred ext (batch_shreds data b) of Inr _ \<Rightarrow> True | Inl _ \<Rightarrow> False)"

definition without_batches :: "(nat \<times> nat) list \<Rightarrow> (u32 \<times> shred) list \<Rightarrow> (u32 \<times> shred) list" where
  "without_batches bs data = filter (\<lambda>(k, _). k \<notin> \<Union> (set ` batch_indices ` set bs)) data"

lemma map_of_filter_keys: "map_of (filter (\<lambda>(k, _). P k) m) k = (if P k then map_of m k else None)"
  by (induction m) auto

lemma batches_bounds:
  "sorted_wrt (<) (es :: u32 list) \<Longrightarrow> \<forall>e \<in> set es. k \<le> unat e \<Longrightarrow> b \<in> set (batches k (map unat es)) \<Longrightarrow>
   k \<le> fst b \<and> fst b \<le> snd b \<and> snd b < 4294967296"
proof (induction es arbitrary: k)
  case (Cons e es)
  have "\<forall>x \<in> set es. Suc (unat e) \<le> unat x"
    using Cons.prems(1) by (simp add: word_less_nat_alt Suc_le_eq)
  with Cons show ?case by fastforce
qed simp

lemma batches_disjoint:
  "sorted_wrt (<) (es :: u32 list) \<Longrightarrow> \<forall>e \<in> set es. k \<le> unat e \<Longrightarrow>
   sorted_wrt (\<lambda>a b. snd a < fst b) (batches k (map unat es))"
proof (induction es arbitrary: k)
  case (Cons e es)
  have next_le: "\<forall>x \<in> set es. Suc (unat e) \<le> unat x"
    using Cons.prems(1) by (simp add: word_less_nat_alt Suc_le_eq)
  then have "\<forall>b \<in> set (batches (Suc (unat e)) (map unat es)). unat e < fst b"
    using batches_bounds [of es "Suc (unat e)"] Cons.prems(1) by fastforce
  with Cons next_le show ?case by simp
qed simp

lemma slot_batches_bounds:
  "sorted_wrt (<) ends \<Longrightarrow> b \<in> set (slot_batches ends) \<Longrightarrow> fst b \<le> snd b \<and> snd b < 4294967296"
  using batches_bounds [of ends 0 b] by (simp add: slot_batches_def)

lemma slot_batches_disjoint:
  "sorted_wrt (<) ends \<Longrightarrow> sorted_wrt (\<lambda>a b. snd a < fst b) (slot_batches ends)"
  using batches_disjoint [of ends 0] by (simp add: slot_batches_def)

lemma set_batch_indices:
  assumes "snd b < 4294967296"
  shows "x \<in> set (batch_indices b) \<longleftrightarrow> fst b \<le> unat x \<and> unat x \<le> snd b"
proof
  assume "x \<in> set (batch_indices b)"
  then obtain i where "x = word_of_nat i" "fst b \<le> i" "i < Suc (snd b)"
    unfolding batch_indices_def by (auto simp del: upt_Suc)
  with assms show "fst b \<le> unat x \<and> unat x \<le> snd b"
    by (simp add: unat_word_of_nat_u32)
next
  assume "fst b \<le> unat x \<and> unat x \<le> snd b"
  then have "unat x \<in> set [fst b..<Suc (snd b)]" by (simp del: upt_Suc)
  then have "word_of_nat (unat x) \<in> set (batch_indices b)"
    unfolding batch_indices_def set_map by (rule imageI)
  then show "x \<in> set (batch_indices b)" by simp
qed

lemma batch_complete_indices:
  "batch_complete data b \<longleftrightarrow> (\<forall>x \<in> set (batch_indices b). map_of data x \<noteq> None)"
  by (simp add: batch_complete_def batch_indices_def list_all_iff del: upt_Suc)

lemma removed_batch:
  assumes "data' = remove_indices (batch_indices b) data"
  shows "set (batch_indices b') \<inter> set (batch_indices b) = {} \<Longrightarrow>
      batch_complete data' b' = batch_complete data b' \<and> batch_shreds data' b' = batch_shreds data b'"
    and "fst b \<le> snd b \<Longrightarrow> snd b < 4294967296 \<Longrightarrow> \<not> batch_complete data' b"
proof -
  have m: "map_of data' k = (if k \<notin> set (batch_indices b) then map_of data k else None)" for k
    unfolding assms remove_indices_filter by (rule map_of_filter_keys)
  show "set (batch_indices b') \<inter> set (batch_indices b) = {} \<Longrightarrow>
      batch_complete data' b' = batch_complete data b' \<and> batch_shreds data' b' = batch_shreds data b'"
    by (auto simp: batch_complete_indices batch_shreds_def m)
  assume "fst b \<le> snd b" "snd b < 4294967296"
  then have "word_of_nat (fst b) \<in> set (batch_indices b)"
    by (simp add: set_batch_indices unat_word_of_nat_u32)
  then show "\<not> batch_complete data' b" by (auto simp: batch_complete_indices m)
qed

lemma find_filter_split:
  assumes "find P xs = Some x" and "sorted_wrt R xs" and "\<And>y. R x y \<or> R y x \<Longrightarrow> P' y = P y"
    and "\<not> P' x"
  shows "filter P xs = x # filter P' xs"
  using assms(1,2)
proof (induction xs)
  case (Cons y ys)
  show ?case
  proof (cases "P y")
    case True
    then have "x = y" using Cons.prems by simp
    then have "filter P ys = filter P' ys"
      using Cons.prems(2) assms(3) by (intro filter_cong) auto
    with True \<open>x = y\<close> assms(4) show ?thesis by simp
  next
    case False
    then have fnd: "find P ys = Some x" using Cons.prems by simp
    then have "x \<in> set ys" by (auto simp: find_Some_iff)
    then have "P' y = P y" using Cons.prems(2) assms(3) by auto
    with False fnd Cons show ?thesis by simp
  qed
qed simp

lemma disjoint_batches:
  assumes "snd b < 4294967296" and "snd b' < 4294967296" and "snd b < fst b' \<or> snd b' < fst b"
  shows "set (batch_indices b') \<inter> set (batch_indices b) = {}"
  using assms(3) by (auto simp: set_batch_indices [OF assms(1)] set_batch_indices [OF assms(2)])

lemma first_batch_removed:
  assumes "sorted_wrt (<) ends" and "find (batch_complete data) (slot_batches ends) = Some b"
    and "data' = remove_indices (batch_indices b) data"
  shows "complete_batches ends data = b # complete_batches ends data'"
    and "\<forall>b' \<in> set (complete_batches ends data'). batch_shreds data' b' = batch_shreds data b'"
proof -
  have "b \<in> set (slot_batches ends)" using assms(2) by (auto simp: find_Some_iff)
  note b = slot_batches_bounds [OF assms(1) this]
  define R where "R = (\<lambda>x y. snd x < fst y \<and> x \<in> set (slot_batches ends) \<and> y \<in> set (slot_batches ends))"
  have R: "sorted_wrt R (slot_batches ends)"
    by (rule sorted_wrt_mono_rel [OF _ slot_batches_disjoint [OF assms(1)]]) (simp add: R_def)
  have other: "batch_complete data' y = batch_complete data y \<and> batch_shreds data' y = batch_shreds data y"
    if "R b y \<or> R y b" for y
  proof -
    have "y \<in> set (slot_batches ends)" "snd b < fst y \<or> snd y < fst b" using that by (auto simp: R_def)
    then show ?thesis
      using slot_batches_bounds [OF assms(1), of y] b
      by (intro removed_batch(1) [OF assms(3)] disjoint_batches) auto
  qed
  have gone: "\<not> batch_complete data' b" using b by (intro removed_batch(2) [OF assms(3)]) simp_all
  show split: "complete_batches ends data = b # complete_batches ends data'"
    unfolding complete_batches_def
    using assms(2) R other gone by (intro find_filter_split [where R = R]) simp_all
  show "\<forall>b' \<in> set (complete_batches ends data'). batch_shreds data' b' = batch_shreds data b'"
  proof
    fix y assume "y \<in> set (complete_batches ends data')"
    moreover have "sorted_wrt R (b # complete_batches ends data')"
      using sorted_wrt_filter [OF R, of "batch_complete data"] split by (simp add: complete_batches_def)
    ultimately have "R b y" by simp
    with other show "batch_shreds data' y = batch_shreds data y" by blast
  qed
qed

lemma emit_loop_spec:
  assumes "bt_sorted data" and "length data < 4294967295" and "sorted_wrt (<) ends"
  shows "emit_loop ext slot ends data st emitted = Some
    (without_batches (complete_batches ends data) data,
     fold (emit_batch ext slot data) (complete_batches ends data) st,
     emitted \<or> list_ex (batch_emits ext data) (complete_batches ends data))"
  using assms(1,2)
proof (induction data arbitrary: st emitted rule: measure_induct_rule [where f = length])
  case (less data)
  note found = find_complete_spec [OF less.prems assms(3)]
  show ?case
  proof (cases "find (batch_complete data) (slot_batches ends)")
    case None
    then have "complete_batches ends data = []"
      by (auto simp: complete_batches_def find_None_iff filter_empty_conv)
    with None found show ?thesis
      by (simp add: emit_loop.simps [of ext slot ends data] without_batches_def)
  next
    case (Some b)
    define data' where "data' = remove_indices (batch_indices b) data"
    note first = first_batch_removed [OF assms(3) Some data'_def]
    have res: "find_complete_data_block data ends = Some (Some (batch_indices b, batch_shreds data b))"
      using found Some by (simp add: block_of_def)
    have "length data' < length data"
      unfolding data'_def by (rule remove_indices_shorter) (use find_complete_indices [OF res] in auto)
    moreover have "bt_sorted data'"
      unfolding data'_def remove_indices_filter by (rule bt_sorted_filter [OF less.prems(1)])
    ultimately have IH: "emit_loop ext slot ends data' st emitted = Some
      (without_batches (complete_batches ends data') data',
       fold (emit_batch ext slot data') (complete_batches ends data') st,
       emitted \<or> list_ex (batch_emits ext data') (complete_batches ends data'))" for st emitted
      using less.IH [of data'] less.prems(2) by simp
    have wo: "without_batches (complete_batches ends data') data' = without_batches (complete_batches ends data) data"
      unfolding first(1) by (auto simp: without_batches_def data'_def remove_indices_filter intro!: filter_cong)
    have fld: "fold (emit_batch ext slot data') (complete_batches ends data') st
        = fold (emit_batch ext slot data) (complete_batches ends data') st" for st
      using first(2) by (intro fold_cong) (simp_all add: emit_batch_def fun_eq_iff)
    have ex: "list_ex (batch_emits ext data') (complete_batches ends data')
        = list_ex (batch_emits ext data) (complete_batches ends data')"
      using first(2) by (intro list_ex_cong) (simp_all add: batch_emits_def)
    have hd: "hd (batch_indices b) = word_of_nat (fst b)"
      using slot_batches_bounds [OF assms(3), of b] Some
      by (auto simp: batch_indices_def find_Some_iff upt_conv_Cons simp del: upt_Suc)
    show ?thesis
      using IH wo fld ex res hd
      by (simp add: emit_loop.simps [of ext slot ends data] first(1) data'_def [symmetric]
          emit_batch_def [of ext slot data b] batch_emits_def [of ext data b] Let_def split: sum.split)
  qed
qed

section \<open>The invariant of the assembler\<close>

text \<open>The shreds the ledger crate lets through: payloads of its sizes, and data indexes below its
  \<^verbatim>\<open>MAX_DATA_SHREDS_PER_SLOT\<close>.\<close>

definition MAX_DATA_SHREDS_PER_SLOT :: u32 where [simp]: "MAX_DATA_SHREDS_PER_SLOT = 32768"

definition shred_ok :: "shred \<Rightarrow> bool" where
  "shred_ok s \<longleftrightarrow> sized (sh_payload s) \<and> (sh_is_data s \<longrightarrow> sh_index s < MAX_DATA_SHREDS_PER_SLOT)"

definition slot_ok :: "slot_buffer \<Rightarrow> bool" where
  "slot_ok buf \<longleftrightarrow> bt_sorted (sb_data_shreds buf) \<and> sorted_wrt (<) (sb_completed_data_indexes buf)
     \<and> (\<forall>(i, s) \<in> set (sb_data_shreds buf). sh_index s = i \<and> i < MAX_DATA_SHREDS_PER_SLOT)
     \<and> (\<forall>e \<in> set (sb_completed_data_indexes buf). e < MAX_DATA_SHREDS_PER_SLOT)"

definition filed :: "bool \<Rightarrow> (u32 \<times> shred) list \<Rightarrow> bool" where
  "filed d m \<longleftrightarrow> distinct (map fst m)
     \<and> (\<forall>i s. (i, s) \<in> set m \<longrightarrow> sh_index s = i \<and> sh_is_data s = d \<and> shred_ok s)"

definition set_inv :: "fec_set \<Rightarrow> bool" where
  "set_inv fs \<longleftrightarrow> filed True (data_shreds fs) \<and> filed False (coding_shreds fs)"

definition counters_ok :: "fec_assembler \<Rightarrow> bool" where
  "counters_ok st \<longleftrightarrow>
     unat (fa_recovery_attempts st) =
       min (unat (fa_merkle_recovery_attempts st) + unat (fa_legacy_recovery_attempts st)) (2 ^ 64 - 1)
   \<and> unat (fa_recovery_errors st) =
       min (unat (fa_recovery_invalid_index st) + unat (fa_recovery_too_few_shards st)
          + unat (fa_recovery_invalid_shard_size st) + unat (fa_recovery_other_errors st)) (2 ^ 64 - 1)
   \<and> unat (fa_deshred_failures st) \<le> unat (fa_deshred_attempts st)
   \<and> fa_sampled_recovery_logs st \<le> 10 \<and> fa_sampled_header_logs st \<le> 10
   \<and> fa_sampled_empty_recovery_logs st \<le> 10 \<and> fa_sampled_empty_recovery_dumps st \<le> 3"

definition fec_inv :: "fec_assembler \<Rightarrow> bool" where
  "fec_inv st \<longleftrightarrow> distinct (map fst (fa_sets st)) \<and> distinct (map fst (fa_slots st))
     \<and> (\<forall>(k, fs) \<in> set (fa_sets st). set_inv fs)
     \<and> (\<forall>(k, buf) \<in> set (fa_slots st). slot_ok buf)
     \<and> counters_ok st"

lemma fec_inv_new: "fec_inv new_fec_assembler"
  by (simp add: fec_inv_def new_fec_assembler_def counters_ok_def)

lemma counters_ok_cong:
  "counters_ok (fa_sets_update f st) = counters_ok st"
  "counters_ok (fa_slots_update g st) = counters_ok st"
  "counters_ok (fa_complete_update h st) = counters_ok st"
  "counters_ok (fa_recovered_data_shreds_update k st) = counters_ok st"
  "counters_ok (fa_code_header_invalid_update k st) = counters_ok st"
  "counters_ok (fa_code_header_inconsistencies_update k st) = counters_ok st"
  "counters_ok (fa_recovery_empty_results_update k st) = counters_ok st"
  by (simp_all add: counters_ok_def)

lemma counters_ok_sampled:
  "counters_ok st \<Longrightarrow> a \<le> 10 \<Longrightarrow> counters_ok (fa_sampled_recovery_logs_update (\<lambda>_. a) st)"
  "counters_ok st \<Longrightarrow> a \<le> 10 \<Longrightarrow> counters_ok (fa_sampled_header_logs_update (\<lambda>_. a) st)"
  "counters_ok st \<Longrightarrow> a \<le> 10 \<Longrightarrow> counters_ok (fa_sampled_empty_recovery_logs_update (\<lambda>_. a) st)"
  "counters_ok st \<Longrightarrow> b \<le> 3 \<Longrightarrow> counters_ok (fa_sampled_empty_recovery_dumps_update (\<lambda>_. b) st)"
  by (simp_all add: counters_ok_def)

lemma sat_sum_left: "x = min (a + b) M \<Longrightarrow> min (x + 1) M = min (min (a + 1) M + b) (M :: nat)"
  by (simp add: min_def)

lemma sat_sum_right: "x = min (a + b) M \<Longrightarrow> min (x + 1) M = min (a + min (b + 1) M) (M :: nat)"
  by (simp add: min_def)

lemma counters_ok_count_attempt: "counters_ok st \<Longrightarrow> counters_ok (count_attempt v st)"
  unfolding count_attempt_def Let_def
  by (cases "case v of Some v \<Rightarrow> is_merkle v | None \<Rightarrow> False")
    (simp_all add: counters_ok_def unat_sat_add sat_sum_left [symmetric] sat_sum_right [symmetric])

lemma counters_ok_sample: "counters_ok st \<Longrightarrow> counters_ok (sample_header_log st)"
  by (simp add: sample_header_log_def counters_ok_sampled inc_le)

lemma counters_ok_headers: "counters_ok st \<Longrightarrow> counters_ok (count_header_problems a b st)"
  by (simp add: count_header_problems_def Let_def counters_ok_cong counters_ok_sample)

lemma sat_sum4:
  assumes "x = min (a + b + c + d) (M :: nat)"
  shows "min (x + 1) M = min (min (a + 1) M + b + c + d) M"
    "min (x + 1) M = min (a + min (b + 1) M + c + d) M"
    "min (x + 1) M = min (a + b + min (c + 1) M + d) M"
    "min (x + 1) M = min (a + b + c + min (d + 1) M) M"
  using assms by (simp_all add: min_def)

definition count_error :: "string \<Rightarrow> fec_assembler \<Rightarrow> fec_assembler" where
  "count_error err_text st =
     (let st = st\<lparr>fa_recovery_errors := sat_add (fa_recovery_errors st) 1\<rparr> in
      if contains err_text ''InvalidIndex'' \<or> contains err_text ''invalid index''
      then st\<lparr>fa_recovery_invalid_index := sat_add (fa_recovery_invalid_index st) 1\<rparr>
      else if contains err_text ''Too few shards'' \<or> contains err_text ''too few shards''
        \<or> contains err_text ''TooFewShards''
      then st\<lparr>fa_recovery_too_few_shards := sat_add (fa_recovery_too_few_shards st) 1\<rparr>
      else if contains err_text ''Invalid shard size''
      then st\<lparr>fa_recovery_invalid_shard_size := sat_add (fa_recovery_invalid_shard_size st) 1\<rparr>
      else st\<lparr>fa_recovery_other_errors := sat_add (fa_recovery_other_errors st) 1\<rparr>)"

lemma counters_ok_count_error:
  assumes "counters_ok st"
  shows "counters_ok (count_error t st)"
proof -
  have sum: "unat (fa_recovery_errors st) =
       min (unat (fa_recovery_invalid_index st) + unat (fa_recovery_too_few_shards st)
          + unat (fa_recovery_invalid_shard_size st) + unat (fa_recovery_other_errors st)) (2 ^ 64 - 1)"
    using assms by (simp add: counters_ok_def)
  define st1 where "st1 = st\<lparr>fa_recovery_errors := sat_add (fa_recovery_errors st) 1\<rparr>"
  note upd = st1_def counters_ok_def unat_sat_add
  have "counters_ok (st1\<lparr>fa_recovery_invalid_index := sat_add (fa_recovery_invalid_index st1) 1\<rparr>)"
    using assms sat_sum4(1) [OF sum] by (simp add: upd)
  moreover have "counters_ok (st1\<lparr>fa_recovery_too_few_shards := sat_add (fa_recovery_too_few_shards st1) 1\<rparr>)"
    using assms sat_sum4(2) [OF sum] by (simp add: upd)
  moreover have "counters_ok (st1\<lparr>fa_recovery_invalid_shard_size := sat_add (fa_recovery_invalid_shard_size st1) 1\<rparr>)"
    using assms sat_sum4(3) [OF sum] by (simp add: upd)
  moreover have "counters_ok (st1\<lparr>fa_recovery_other_errors := sat_add (fa_recovery_other_errors st1) 1\<rparr>)"
    using assms sat_sum4(4) [OF sum] by (simp add: upd)
  ultimately show ?thesis
    unfolding count_error_def Let_def st1_def [symmetric] by (simp only: split: if_split) blast
qed

lemma counters_ok_error:
  assumes "counters_ok st"
  shows "counters_ok (record_recovery_error t st)"
proof -
  have "record_recovery_error t st =
      (if fa_sampled_recovery_logs (count_error t st) < 10
       then count_error t st\<lparr>fa_sampled_recovery_logs := fa_sampled_recovery_logs (count_error t st) + 1\<rparr>
       else count_error t st)"
    by (simp only: record_recovery_error_def count_error_def Let_def)
  then show ?thesis
    using counters_ok_count_error [OF assms] by (simp add: counters_ok_sampled inc_le)
qed

lemma counters_ok_empty:
  assumes "counters_ok st"
  shows "counters_ok (record_empty_recovery d k v st)"
proof -
  define st1 where "st1 = st\<lparr>fa_recovery_empty_results := sat_add (fa_recovery_empty_results st) 1\<rparr>"
  have 1: "counters_ok st1" using assms by (simp add: st1_def counters_ok_cong)
  define dumped where "dumped = ((case v of Some v \<Rightarrow> is_merkle v | None \<Rightarrow> False)
    \<and> fa_sampled_empty_recovery_dumps st1 < 3 \<and> d)"
  define st2 where "st2 = (if dumped
    then st1\<lparr>fa_sampled_empty_recovery_dumps := fa_sampled_empty_recovery_dumps st1 + 1\<rparr> else st1)"
  have 2: "counters_ok st2"
    using 1 by (simp add: st2_def dumped_def counters_ok_sampled inc_le)
  then have 3: "fa_sampled_empty_recovery_logs st2 < 10 \<Longrightarrow>
      counters_ok (st2\<lparr>fa_sampled_empty_recovery_logs := fa_sampled_empty_recovery_logs st2 + 1\<rparr>)"
    by (simp add: counters_ok_sampled inc_le)
  show ?thesis
    unfolding record_empty_recovery_def Let_def st1_def [symmetric] dumped_def [symmetric] st2_def [symmetric]
    using 1 2 3 by (auto split: option.splits)
qed

lemma counters_ok_settle:
  assumes "counters_ok st" and "settle_recovery ext d k a v sm r st = (rs, st')"
  shows "counters_ok st'"
  using assms
  by (cases r) (auto simp: settle_recovery_def Let_def counters_ok_cong counters_ok_empty counters_ok_error)

section \<open>Every call keeps the invariant\<close>

text \<open>What the program relies on in its libraries: a hash map visits its entries, and the ledger
  crate only returns shreds within its limits.\<close>

definition ledger_ok :: "'e fec_ext \<Rightarrow> bool" where
  "ledger_ok ext \<longleftrightarrow> iter_ok ext
     \<and> (\<forall>p s. x_new_shred ext p = Some s \<longrightarrow> shred_ok s)
     \<and> (\<forall>ss rs. x_try_recovery ext ss = Inr rs \<longrightarrow> (\<forall>s \<in> set rs. shred_ok s))"

lemma set_update_subset: "set (AList.update k v m) \<subseteq> insert (k, v) (set m)"
  by (induction m) auto

lemma set_bt_insert_subset: "set (bt_insert k v m) \<subseteq> insert (k, v) (set m)"
  by (induction k v m rule: bt_insert.induct) auto

lemma set_bt_entry_subset: "set (bt_entry_or_insert k v m) \<subseteq> insert (k, v) (set m)"
  using set_bt_insert_subset [of k v m] by (auto simp: bt_entry_or_insert_def split: option.splits)

lemma ball_update:
  "\<forall>x \<in> set m. P x \<Longrightarrow> P (k, v) \<Longrightarrow> \<forall>x \<in> set (AList.update k v m). P x"
  using set_update_subset [of k v m] by blast

lemma strict_sorted_insort_insert:
  "sorted_wrt (<) xs \<Longrightarrow> sorted_wrt (<) (insort_insert (x :: u32) xs)"
  by (simp add: strict_sorted_iff sorted_insort_insert distinct_insort_insert)

lemma slot_ok_insert:
  assumes "slot_ok buf" and "sh_index s < MAX_DATA_SHREDS_PER_SLOT"
  shows "slot_ok (buf\<lparr>sb_data_shreds := bt_entry_or_insert (sh_index s) s (sb_data_shreds buf)\<rparr>)"
    and "slot_ok (buf\<lparr>sb_completed_data_indexes := insort_insert (sh_index s) (sb_completed_data_indexes buf)\<rparr>)"
  using assms set_bt_entry_subset [of "sh_index s" s "sb_data_shreds buf"]
  by (auto simp: slot_ok_def strict_sorted_insort_insert set_insort_insert)

lemma slot_ok_new: "slot_ok new_slot_buffer"
  by (simp add: slot_ok_def new_slot_buffer_def)

lemma fec_inv_slot:
  assumes "fec_inv st"
  shows "slot_ok (unwrap_or new_slot_buffer (map_of (fa_slots st) slot))"
  using assms slot_ok_new
  by (auto simp: fec_inv_def unwrap_or_def dest!: map_of_SomeD split: option.splits)

lemma fec_inv_update_slot:
  "fec_inv st \<Longrightarrow> slot_ok buf \<Longrightarrow> fec_inv (st\<lparr>fa_slots := AList.update slot buf (fa_slots st)\<rparr>)"
  using ball_update [of "fa_slots st" "\<lambda>(k, buf). slot_ok buf" slot buf]
  by (simp add: fec_inv_def counters_ok_cong distinct_update)

lemma fec_inv_insert_data_shred:
  "fec_inv st \<Longrightarrow> sh_index s < MAX_DATA_SHREDS_PER_SLOT \<Longrightarrow> fec_inv (insert_data_shred slot s st)"
  using fec_inv_slot [of st slot] slot_ok_insert
  unfolding insert_data_shred_def Let_def by (simp add: fec_inv_update_slot del: MAX_DATA_SHREDS_PER_SLOT_def)

lemma fec_inv_insert_all:
  "fec_inv st \<Longrightarrow> \<forall>s \<in> set ss. sh_index s < MAX_DATA_SHREDS_PER_SLOT \<Longrightarrow>
   fec_inv (fold (insert_data_shred slot) ss st)"
  by (induction ss arbitrary: st) (simp_all add: fec_inv_insert_data_shred)

lemma add_recovered_spec:
  "add_recovered rs m = (new, m') \<Longrightarrow>
   set new \<subseteq> set rs \<and> (\<forall>s \<in> set new. sh_is_data s \<and> map_of m (sh_index s) = None)
   \<and> (\<forall>i v. map_of m i = Some v \<longrightarrow> map_of m' i = Some v)
   \<and> set m' \<subseteq> set m \<union> (\<lambda>s. (sh_index s, s)) ` set new
   \<and> (distinct (map fst m) \<longrightarrow> distinct (map fst m'))"
proof (induction rs m arbitrary: new m' rule: add_recovered.induct)
  case (2 s ss m)
  show ?case
  proof (cases "sh_is_data s \<and> map_of m (sh_index s) = None")
    case True
    obtain new1 where rec: "add_recovered ss (AList.update (sh_index s) s m) = (new1, m')"
      and new: "new = s # new1"
      using 2(3) True by (auto split: prod.splits)
    note IH = 2(1) [OF True rec]
    have keep: "map_of m' i = Some v" if "map_of m i = Some v" for i v
    proof -
      have "i \<noteq> sh_index s" using that True by auto
      with that IH show ?thesis by simp
    qed
    have fresh: "\<forall>x \<in> set new1. sh_is_data x \<and> map_of m (sh_index x) = None"
      using IH by (auto split: if_splits)
    have dist: "distinct (map fst m) \<longrightarrow> distinct (map fst m')"
      using IH by (simp add: distinct_update)
    have sub: "set m' \<subseteq> set m \<union> (\<lambda>s. (sh_index s, s)) ` set new"
      using IH set_update_subset [of "sh_index s" s m] by (auto simp: new)
    show ?thesis using keep fresh dist sub IH True by (auto simp: new)
  next
    case False
    have rec: "add_recovered ss m = (new, m')" using 2(3) False by simp
    from 2(2) [OF False rec] show ?thesis by auto
  qed
qed simp

lemma filed_update:
  "filed d m \<Longrightarrow> sh_is_data s = d \<Longrightarrow> shred_ok s \<Longrightarrow> filed d (AList.update (sh_index s) s m)"
  using set_update_subset [of "sh_index s" s m] by (auto simp: filed_def distinct_update)

lemma set_inv_new: "set_inv new_fec_set"
  by (simp add: set_inv_def filed_def new_fec_set_def)

lemma set_inv_sized: "set_inv fs \<Longrightarrow> set_sized fs"
  by (auto simp: set_inv_def set_sized_def filed_def shred_ok_def)

lemma set_inv_add_shred: "set_inv fs \<Longrightarrow> shred_ok s \<Longrightarrow> set_inv (add_shred s fs)"
  by (simp add: set_inv_def add_shred_def filed_update)

lemma set_inv_meta: "set_inv (fs\<lparr>coding_meta := m\<rparr>) = set_inv fs"
  by (simp add: set_inv_def)

lemma set_inv_observe_header:
  assumes "set_inv fs" and "observe_header shred fs = (a, b, fs')"
  shows "set_inv fs'"
  using assms
  by (auto simp: observe_header_def observe_coding_meta_def Let_def set_inv_meta
      split: option.splits if_splits)

lemma recover_merkle_sized:
  assumes "ledger_ok ext" and "maybe_recover_merkle ext fs = Inr rs"
  shows "\<forall>s \<in> set rs. shred_ok s"
proof -
  obtain v n payloads tree ixs where
    "collect_results (finish_recovery ext v n payloads tree) ixs = Inr rs"
    using assms(2) by (auto simp: maybe_recover_merkle_def Let_def split: prod.splits)
  then have "\<forall>s \<in> set rs. \<exists>i. finish_recovery ext v n payloads tree i = Inr s"
    by (auto simp: collect_results_Inr list_all2_conv_all_nth in_set_conv_nth) blast
  with assms(1) show ?thesis by (fastforce simp: finish_recovery_def ledger_ok_def)
qed

lemma run_recovery_sized:
  assumes "ledger_ok ext" and "run_recovery ext fs = Some (Inr rs)"
  shows "\<forall>s \<in> set rs. shred_ok s"
proof -
  have "maybe_recover_merkle ext fs = Inr rs \<or> x_try_recovery ext (all_shreds ext fs) = Inr rs"
    using assms(2) by (auto simp: run_recovery_def split: option.splits sum.splits if_splits)
  then show ?thesis
    using assms(1) recover_merkle_sized [OF assms(1)] by (auto simp: ledger_ok_def)
qed

lemma filed_add_recovered:
  assumes "add_recovered rs m = (new, m')" and "filed True m" and "\<forall>s \<in> set rs. shred_ok s"
  shows "filed True m'"
  using add_recovered_spec [OF assms(1)] assms(2,3) by (fastforce simp: filed_def)

lemma maybe_recover_cases:
  assumes "maybe_recover ext fs = Some (r, fs')"
  obtains "r = Inr []" "fs' = fs"
  | e where "r = Inl e" "fs' = fs"
  | rs new m where "run_recovery ext fs = Some (Inr rs)" "add_recovered rs (data_shreds fs) = (new, m)"
      "r = Inr new" "fs' = fs\<lparr>data_shreds := m\<rparr>"
proof (cases "coding_shreds fs = []")
  case True
  with assms that(1) show thesis by (simp add: maybe_recover_def)
next
  case False
  with assms obtain recovered where run: "run_recovery ext fs = Some recovered"
    by (cases "run_recovery ext fs") (simp_all add: maybe_recover_def)
  show thesis
  proof (cases recovered)
    case (Inl e)
    with assms False run that(2) [of e] show thesis by (simp add: maybe_recover_def)
  next
    case (Inr rs)
    obtain new m where add: "add_recovered rs (data_shreds fs) = (new, m)" by (cases "add_recovered rs (data_shreds fs)")
    with assms False run Inr have "r = Inr new" "fs' = fs\<lparr>data_shreds := m\<rparr>"
      by (simp_all add: maybe_recover_def)
    with run Inr add that(3) show thesis by blast
  qed
qed

lemma set_inv_maybe_recover:
  assumes "ledger_ok ext" and "set_inv fs" and "maybe_recover ext fs = Some (r, fs')"
  shows "set_inv fs'"
  using assms(3)
proof (cases rule: maybe_recover_cases)
  case (3 rs new m)
  with assms(2) filed_add_recovered [OF 3(2)] run_recovery_sized [OF assms(1) 3(1)]
  show ?thesis by (simp add: set_inv_def)
qed (use assms(2) in simp_all)

text \<open>The emission loop returns whatever the buffer holds, and keeps it sorted.\<close>

lemma find_block_loop_returns:
  "sorted_wrt (<) ends \<Longrightarrow> \<forall>e \<in> set ends. start \<le> e \<Longrightarrow> \<exists>r. find_block_loop m first start ends = Some r"
proof (induction m first start ends rule: find_block_loop.induct)
  case (2 m first start e ends)
  have after: "\<forall>x \<in> set ends. sat_add e 1 \<le> x"
  proof
    fix x assume "x \<in> set ends"
    then have "unat e < unat x" using 2(3) by (simp add: word_less_nat_alt)
    then show "sat_add e 1 \<le> x" by (simp add: word_le_nat_alt unat_sat_add)
  qed
  show ?case
  proof (cases "start < first")
    case True
    with 2(1) [OF True] 2(3) after show ?thesis by simp
  next
    case False
    have "start \<le> e" using 2(4) by simp
    then have e: "bt_range_checked start e m = Some (bt_range start e m)"
      by (simp add: bt_range_checked_def)
    show ?thesis
      using 2(2) [OF False _ refl refl, of "bt_range start e m"] 2(3) after False e
      by (simp add: Let_def)
  qed
qed simp

lemma find_complete_returns:
  "sorted_wrt (<) ends \<Longrightarrow> \<exists>r. find_complete_data_block m ends = Some r"
  by (cases m) (auto simp: find_complete_data_block_def split_beta intro: find_block_loop_returns)

definition emit_frame :: "fec_assembler \<Rightarrow> fec_assembler \<Rightarrow> bool" where
  "emit_frame st st' \<longleftrightarrow> fa_sets st' = fa_sets st \<and> fa_slots st' = fa_slots st
     \<and> (counters_ok st \<longrightarrow> counters_ok st')"

lemma emit_frame_trans: "emit_frame a b \<Longrightarrow> emit_frame b c \<Longrightarrow> emit_frame a c"
  by (simp add: emit_frame_def)

lemma emit_frame_attempt:
  defines "bump st \<equiv> st\<lparr>fa_deshred_attempts := sat_add (fa_deshred_attempts st) 1\<rparr>"
  shows "emit_frame st ((bump st)\<lparr>fa_complete := c\<rparr>)"
    and "emit_frame st ((bump st)\<lparr>fa_deshred_failures := sat_add (fa_deshred_failures (bump st)) 1\<rparr>)"
  using unat_u64_bound [of "fa_deshred_failures st"]
  by (auto simp: bump_def emit_frame_def counters_ok_def unat_sat_add min_def simp del: unat_u64_bound)

lemma emit_loop_returns:
  "sorted_wrt (<) ends \<Longrightarrow> bt_sorted data \<Longrightarrow>
   \<exists>data' st' emitted'. emit_loop ext slot ends data st emitted = Some (data', st', emitted')
     \<and> bt_sorted data' \<and> set data' \<subseteq> set data \<and> emit_frame st st'"
proof (induction data arbitrary: st emitted rule: measure_induct_rule [where f = length])
  case (less data)
  obtain r where r: "find_complete_data_block data ends = Some r"
    using find_complete_returns [OF less.prems(1)] by blast
  show ?case
  proof (cases r)
    case None
    with r less.prems(2) show ?thesis by (simp add: emit_loop.simps [of ext slot ends data] emit_frame_def)
  next
    case (Some b)
    obtain indices shreds where b: "b = (indices, shreds)" by (cases b)
    define data' where "data' = remove_indices indices data"
    have "length data' < length data"
      unfolding data'_def
      by (rule remove_indices_shorter) (use find_complete_indices [of data ends indices shreds] r Some b in auto)
    moreover have data': "bt_sorted data'" "set data' \<subseteq> set data"
      unfolding data'_def remove_indices_filter using bt_sorted_filter [OF less.prems(2)] by auto
    ultimately have IH: "\<exists>data'' st'' emitted''. emit_loop ext slot ends data' st' emitted' = Some (data'', st'', emitted'')
        \<and> bt_sorted data'' \<and> set data'' \<subseteq> set data \<and> emit_frame st st''"
      if "emit_frame st st'" for st' emitted'
      using less.IH [of data' st' emitted'] less.prems(1) emit_frame_trans [OF that] by blast
    define st1 where "st1 = st\<lparr>fa_deshred_attempts := sat_add (fa_deshred_attempts st) 1\<rparr>"
    note frame = emit_frame_attempt [of st, folded st1_def]
    have step: "emit_loop ext slot ends data st emitted =
      (case x_deshred ext shreds of
         Inr payload \<Rightarrow> emit_loop ext slot ends data'
           (st1\<lparr>fa_complete := fa_complete st1 @ [(slot, hd indices, [payload])]\<rparr>) True
       | Inl _ \<Rightarrow> emit_loop ext slot ends data'
           (st1\<lparr>fa_deshred_failures := sat_add (fa_deshred_failures st1) 1\<rparr>) emitted)"
      unfolding data'_def st1_def using r Some b
      by (simp add: emit_loop.simps [of ext slot ends data] Let_def split: sum.split)
    show ?thesis
      unfolding step using IH [OF frame(1)] IH [OF frame(2)] by (simp split: sum.split)
  qed
qed

lemma emit_ready_blocks_returns:
  assumes "fec_inv st"
  shows "\<exists>emitted st'. emit_ready_blocks ext slot st = Some (emitted, st') \<and> fec_inv st'"
proof (cases "map_of (fa_slots st) slot")
  case None
  with assms show ?thesis by (intro exI [of _ False]) (simp add: emit_ready_blocks_def)
next
  case (Some buf)
  have buf: "slot_ok buf" using assms Some by (auto simp: fec_inv_def dest!: map_of_SomeD)
  then obtain data' st' emitted' where loop: "emit_loop ext slot (sb_completed_data_indexes buf)
      (sb_data_shreds buf) st False = Some (data', st', emitted')"
    "bt_sorted data'" "set data' \<subseteq> set (sb_data_shreds buf)" "emit_frame st st'"
    using emit_loop_returns [of "sb_completed_data_indexes buf" "sb_data_shreds buf" ext slot st False]
    by (auto simp: slot_ok_def)
  have "slot_ok (buf\<lparr>sb_data_shreds := data'\<rparr>)"
    using buf loop(2,3) by (auto simp: slot_ok_def)
  moreover have "fec_inv st'" using assms loop(4) by (simp add: fec_inv_def emit_frame_def)
  ultimately show ?thesis
    using Some loop(1) by (simp add: emit_ready_blocks_def fec_inv_update_slot)
qed

lemma fec_inv_set:
  assumes "fec_inv st"
  shows "set_inv (unwrap_or new_fec_set (map_of (fa_sets st) key))"
  using assms set_inv_new
  by (auto simp: fec_inv_def unwrap_or_def dest!: map_of_SomeD split: option.splits)

lemma fec_inv_update_set:
  "fec_inv st \<Longrightarrow> set_inv fs \<Longrightarrow> fec_inv (st\<lparr>fa_sets := AList.update key fs (fa_sets st)\<rparr>)"
  using ball_update [of "fa_sets st" "\<lambda>(k, fs). set_inv fs" key fs]
  by (simp add: fec_inv_def counters_ok_cong distinct_update)

lemma fec_inv_counters:
  "fec_inv st \<Longrightarrow> fa_sets st' = fa_sets st \<Longrightarrow> fa_slots st' = fa_slots st \<Longrightarrow> counters_ok st' \<Longrightarrow> fec_inv st'"
  by (simp add: fec_inv_def)

lemma fec_inv_counters_ok: "fec_inv st \<Longrightarrow> counters_ok st"
  by (simp add: fec_inv_def)

lemma frame_simps [simp]:
  "fa_sets (count_attempt v st) = fa_sets st" "fa_slots (count_attempt v st) = fa_slots st"
  "fa_sets (sample_header_log st) = fa_sets st" "fa_slots (sample_header_log st) = fa_slots st"
  "fa_sets (count_header_problems a b st) = fa_sets st"
  "fa_slots (count_header_problems a b st) = fa_slots st"
  by (simp_all add: count_attempt_def sample_header_log_def count_header_problems_def Let_def)

lemma fec_inv_count_attempt: "fec_inv st \<Longrightarrow> fec_inv (count_attempt v st)"
  by (rule fec_inv_counters [of st]) (simp_all add: counters_ok_count_attempt fec_inv_counters_ok)

lemma fec_inv_headers: "fec_inv st \<Longrightarrow> fec_inv (count_header_problems a b st)"
  by (rule fec_inv_counters [of st]) (simp_all add: counters_ok_headers fec_inv_counters_ok)

lemma settle_frame:
  assumes "settle_recovery ext d k a v sm r st = (rs, st')"
  shows "fa_sets st' = fa_sets st \<and> fa_slots st' = fa_slots st"
  using assms
  by (cases r) (auto simp: settle_recovery_def record_empty_recovery_def record_recovery_error_def Let_def
      split: option.splits if_splits)

lemma fec_inv_settle:
  "fec_inv st \<Longrightarrow> settle_recovery ext d k a v sm r st = (rs, st') \<Longrightarrow> fec_inv st'"
  by (rule fec_inv_counters [of st]) (auto dest: settle_frame intro: counters_ok_settle fec_inv_counters_ok)

definition indexes_ok :: "shred list \<Rightarrow> bool" where
  "indexes_ok ss \<longleftrightarrow> (\<forall>s \<in> set ss. sh_index s < MAX_DATA_SHREDS_PER_SLOT)"

lemma recovered_indexes_ok:
  assumes "ledger_ok ext" and "maybe_recover ext fs = Some (Inr new, fs')"
  shows "indexes_ok new"
  using assms(2)
proof (cases rule: maybe_recover_cases)
  case (3 rs new' m)
  with add_recovered_spec [OF 3(2)] run_recovery_sized [OF assms(1) 3(1)]
  show ?thesis by (fastforce simp: indexes_ok_def shred_ok_def)
qed (simp_all add: indexes_ok_def)

lemma file_shred_returns:
  assumes "ledger_ok ext" and "fec_inv st" and "shred_ok (ps_shred shred)"
  shows "\<exists>r sm a v i j st'. file_shred ext shred st = Some (r, sm, a, v, i, j, st') \<and> fec_inv st'
    \<and> (\<forall>rs. r = Inr rs \<longrightarrow> indexes_ok rs)"
proof -
  obtain i j fs0 where fs0: "observe_header shred (unwrap_or new_fec_set (map_of (fa_sets st) (key_of shred))) = (i, j, fs0)"
    by (cases "observe_header shred (unwrap_or new_fec_set (map_of (fa_sets st) (key_of shred)))")
  define fs1 where "fs1 = add_shred (ps_shred shred) fs0"
  have inv1: "set_inv fs1"
    using set_inv_observe_header [OF fec_inv_set [OF assms(2)] fs0] assms(3) by (simp add: fs1_def set_inv_add_shred)
  then obtain r fs2 where rec: "maybe_recover ext fs1 = Some (r, fs2)" and inv2: "set_inv fs2"
    using maybe_recover_returns [of ext fs1] set_inv_maybe_recover [OF assms(1)] assms(1)
    by (metis ledger_ok_def set_inv_sized)
  define v where "v = recovery_variant_of ext fs1"
  have idx: "\<forall>rs. r = Inr rs \<longrightarrow> indexes_ok rs"
    using recovered_indexes_ok [OF assms(1)] rec by blast
  show ?thesis
  proof (cases "can_attempt_recovery fs1")
    case True
    then have "file_shred ext shred st = Some (r, summary fs2, True, v, i, j,
        (count_attempt v st)\<lparr>fa_sets := AList.update (key_of shred) fs2 (fa_sets (count_attempt v st))\<rparr>)"
      using fs0 rec by (simp add: file_shred_def Let_def fs1_def [symmetric] v_def)
    then show ?thesis
      using fec_inv_update_set [OF fec_inv_count_attempt [OF assms(2)] inv2] idx by blast
  next
    case False
    then have "file_shred ext shred st = Some (Inr [], summary fs1, False, v, i, j,
        st\<lparr>fa_sets := AList.update (key_of shred) fs1 (fa_sets st)\<rparr>)"
      using fs0 by (simp add: file_shred_def Let_def fs1_def [symmetric] v_def)
    moreover have "\<forall>rs. (Inr [] :: 'a + shred list) = Inr rs \<longrightarrow> indexes_ok rs" by (simp add: indexes_ok_def)
    ultimately show ?thesis
      using fec_inv_update_set [OF assms(2) inv1] by blast
  qed
qed

text \<open>The state in which the last step of \<^verbatim>\<open>ingest\<close> runs: everything is buffered, nothing is emitted yet.\<close>

definition ingest_buffered :: "'e fec_ext \<Rightarrow> bool \<Rightarrow> parsed_shred \<Rightarrow> fec_assembler \<Rightarrow> fec_assembler option" where
  "ingest_buffered ext dump_ok shred st = do {
     (recovered, sm, attempted, variant, invalid, inconsistent, st) \<leftarrow> file_shred ext shred st;
     let st = count_header_problems invalid inconsistent st;
     let (recovered, st) = settle_recovery ext dump_ok (key_of shred) attempted variant sm recovered st;
     let st = (if ps_shred_type shred = DataShred
               then insert_data_shred (ps_slot shred) (ps_shred shred) st else st);
     Some (fold (insert_data_shred (ps_slot shred)) recovered st) }"

lemma ingest_buffered_eq:
  "ingest ext d shred st = do { st' \<leftarrow> ingest_buffered ext d shred st; emit_ready_blocks ext (ps_slot shred) st' }"
  by (cases "file_shred ext shred st") (simp_all add: ingest_def ingest_buffered_def Let_def split: prod.split)

definition parsed_ok :: "parsed_shred \<Rightarrow> bool" where
  "parsed_ok shred \<longleftrightarrow> shred_ok (ps_shred shred)
     \<and> (ps_shred_type shred = DataShred \<longrightarrow> sh_is_data (ps_shred shred))"

lemma ingest_buffered_returns:
  assumes "ledger_ok ext" and "fec_inv st" and "parsed_ok shred"
  shows "\<exists>st'. ingest_buffered ext d shred st = Some st' \<and> fec_inv st'"
proof -
  obtain r sm a v i j st1 where filed: "file_shred ext shred st = Some (r, sm, a, v, i, j, st1)" "fec_inv st1"
    "\<forall>rs. r = Inr rs \<longrightarrow> indexes_ok rs"
    using file_shred_returns [OF assms(1,2)] assms(3) by (metis parsed_ok_def)
  obtain rs st2 where settle: "settle_recovery ext d (key_of shred) a v sm r (count_header_problems i j st1) = (rs, st2)"
    by (cases "settle_recovery ext d (key_of shred) a v sm r (count_header_problems i j st1)")
  then have inv2: "fec_inv st2" using fec_inv_settle fec_inv_headers filed(2) by blast
  have rs: "indexes_ok rs"
    using settle filed(3) by (cases r) (auto simp: settle_recovery_def Let_def indexes_ok_def)
  define st3 where "st3 = (if ps_shred_type shred = DataShred
    then insert_data_shred (ps_slot shred) (ps_shred shred) st2 else st2)"
  have "fec_inv st3"
    using inv2 assms(3) by (auto simp: st3_def parsed_ok_def shred_ok_def intro: fec_inv_insert_data_shred)
  then have "fec_inv (fold (insert_data_shred (ps_slot shred)) rs st3)"
    using rs by (simp add: fec_inv_insert_all indexes_ok_def)
  then show ?thesis
    using filed(1) settle by (simp add: ingest_buffered_def Let_def st3_def)
qed

lemma ingest_returns:
  assumes "ledger_ok ext" and "fec_inv st" and "parsed_ok shred"
  shows "\<exists>emitted st'. ingest ext d shred st = Some (emitted, st') \<and> fec_inv st'"
  using ingest_buffered_returns [OF assms, of d] emit_ready_blocks_returns
  by (fastforce simp: ingest_buffered_eq)

lemma fec_inv_drain: "fec_inv st \<Longrightarrow> fec_inv (snd (drain_complete st))"
  by (simp add: drain_complete_def fec_inv_def counters_ok_cong)

lemma distinct_keys_filter: "distinct (map fst m) \<Longrightarrow> distinct (map fst (filter P m))"
  by (induction m) auto

lemma fec_inv_prune: "fec_inv st \<Longrightarrow> fec_inv (prune_old_slots m st)"
  by (auto simp: prune_old_slots_def fec_inv_def counters_ok_cong distinct_keys_filter)

section \<open>Runs of the assembler\<close>

datatype fec_call = Ingest bool parsed_shred | Drain | Prune u64

fun fec_step :: "'e fec_ext \<Rightarrow> fec_call \<Rightarrow> fec_assembler \<Rightarrow> fec_assembler option" where
  "fec_step ext (Ingest dump_ok shred) st = map_option snd (ingest ext dump_ok shred st)"
| "fec_step ext Drain st = Some (snd (drain_complete st))"
| "fec_step ext (Prune min_slot) st = Some (prune_old_slots min_slot st)"

text \<open>The calls the node makes: the shreds it ingests are those its parser returned.\<close>

fun fec_admissible :: "'e fec_ext \<Rightarrow> fec_call \<Rightarrow> bool" where
  "fec_admissible ext (Ingest _ shred) \<longleftrightarrow>
     ledger_ok ext \<and> parse_shred (x_new_shred ext) (ps_raw shred) = Inr shred"
| "fec_admissible ext _ \<longleftrightarrow> True"

lemma parsed_shred_ok:
  assumes "ledger_ok ext" and "parse_shred (x_new_shred ext) raw = Inr shred"
  shows "parsed_ok shred"
proof -
  have "x_new_shred ext raw = Some (ps_shred shred)"
    "ps_shred_type shred = (if sh_is_data (ps_shred shred) then DataShred else CodeShred)"
    using assms(2) by (auto simp: parse_shred_def Let_def split: if_splits)
  with assms(1) show ?thesis by (auto simp: ledger_ok_def parsed_ok_def)
qed

interpretation fec: total_machine new_fec_assembler "fec_step ext" "fec_admissible ext" fec_inv for ext
proof unfold_locales
  show "fec_inv new_fec_assembler" by (rule fec_inv_new)
next
  fix s s' and c :: fec_call
  assume inv: "fec_inv s" and adm: "fec_admissible ext c" and step: "fec_step ext c s = Some s'"
  show "fec_inv s'"
  proof (cases c)
    case (Ingest d shred)
    with inv adm step show ?thesis
      using ingest_returns [of ext s shred d] parsed_shred_ok [of ext "ps_raw shred" shred] by auto
  qed (use inv step fec_inv_drain fec_inv_prune in auto)
next
  fix s and c :: fec_call
  assume inv: "fec_inv s" and adm: "fec_admissible ext c"
  show "\<exists>s'. fec_step ext c s = Some s'"
  proof (cases c)
    case (Ingest d shred)
    with inv adm show ?thesis
      using ingest_returns [of ext s shred d] parsed_shred_ok [of ext "ps_raw shred" shred] by auto
  qed simp_all
qed

end
