(* ===== verification/Fec_Safety.thy ===== *)
theory Fec_Safety
  imports Fec_Assembler
begin

text \<open>
  What the assembler promises: it never panics and keeps its invariant, it emits exactly the batches
  that are complete, the first coding header of a set and the first shred of an index win, and
  pruning forgets old slots only.
\<close>

lemma card_below: "distinct xs \<Longrightarrow> \<forall>x \<in> set xs. (x :: u32) < 32768 \<Longrightarrow> length xs \<le> 32768"
proof -
  assume d: "distinct xs" and b: "\<forall>x \<in> set xs. x < 32768"
  have "inj_on unat (set xs)" by (simp add: inj_on_def word_unat_eq_iff)
  then have "length xs = card (unat ` set xs)"
    using d by (simp add: card_image distinct_card)
  also have "\<dots> \<le> card {..<32768 :: nat}"
    by (rule card_mono) (use b in \<open>auto simp: word_less_nat_alt\<close>)
  finally show ?thesis by simp
qed

lemma slot_ok_length:
  assumes "slot_ok buf"
  shows "length (sb_data_shreds buf) < 4294967295"
proof -
  have "length (map fst (sb_data_shreds buf)) \<le> 32768"
    using assms by (intro card_below bt_sorted_distinct) (auto simp: slot_ok_def)
  then show ?thesis by simp
qed

section \<open>No panic, and the invariant\<close>

text \<open>
  Property C3. Whatever packets the parser accepted and in whatever order they are ingested, with
  drains and prunes in between, the assembler of \<^verbatim>\<open>fec_assembler.rs\<close> never panics, and every state it
  reaches satisfies its invariant: buffers sorted, shreds filed under their own index and kind, the
  recovery counters add up, sampled logs within their limits.
\<close>

theorem assembler_never_panics:
  assumes "\<forall>c \<in> set calls. fec_admissible ext c"
  shows "\<exists>st. run (fec_step ext) calls new_fec_assembler = Some st \<and> fec_inv st"
  using assms by (rule fec.run_returns)

definition example_ext :: "string fec_ext" where
  "example_ext = \<lparr>x_hashv = (\<lambda>_. 0), x_iter = (\<lambda>m. m),
     x_new_shred = (\<lambda>p. if p = example_packet then Some example_shred else None),
     x_rs_new = (\<lambda>_ _. True), x_reconstruct = (\<lambda>_ _ _. None), x_try_recovery = (\<lambda>_. Inl ''TooFewShards''),
     x_deshred = (\<lambda>ss. Inr (concat (map (drop 88 \<circ> sh_payload) ss))),
     x_invalid_recovered_shred = ''InvalidRecoveredShred'', x_error_text = (\<lambda>e. e),
     x_data_shreds_per_fec_block = 32\<rparr>"

definition example_parsed :: parsed_shred where
  "example_parsed = \<lparr>ps_raw = example_packet, ps_shred = example_shred, ps_slot = 42, ps_index = 7,
     ps_fec_set_index = 5, ps_shred_type = DataShred, ps_variant = SLegacyData, ps_shred_version = 1,
     ps_data_complete = True, ps_last_in_slot = False, ps_coding_meta = None,
     ps_signature = replicate 64 0, ps_data = Some [7, 8]\<rparr>"

lemma example_ext_ok: "ledger_ok example_ext"
  by (auto simp: ledger_ok_def iter_ok_def example_ext_def shred_ok_def sized_def example_shred_def
      from_payload_def idx_def variant_of_byte_def example_packet_def nth_append)

lemma example_parsed_ok: "parse_shred (x_new_shred example_ext) (ps_raw example_parsed) = Inr example_parsed"
proof -
  have len: "88 \<le> length example_packet" and nth: "example_packet ! 64 = 0xa5"
    and size: "data_size example_packet = 90" and data: "drop 88 example_packet = [7, 8, 9]"
    and sig: "take 64 example_packet = replicate 64 0" and len': "length example_packet = 91"
    by (simp_all add: data_size_def example_packet_def nth_append u16_of_le_def)
  have "x_new_shred example_ext example_packet = Some example_shred" by (simp add: example_ext_def)
  from parse_shred_eq [of example_packet "x_new_shred example_ext" example_shred, OF len this] show ?thesis
    by (simp add: example_parsed_def example_shred_def size data sig len' nth variant_from_byte_def)
qed

theorem assembler_never_panics_witness:
  "\<exists>st. run (fec_step example_ext) [Ingest True example_parsed, Drain, Prune 43] new_fec_assembler = Some st
     \<and> fec_inv st"
  by (rule assembler_never_panics) (simp add: example_ext_ok example_parsed_ok)

section \<open>Exactly the complete batches are emitted\<close>

text \<open>
  Property C6. \<^verbatim>\<open>find_complete_data_block\<close> never panics and returns the first batch, in the order of the
  boundaries, all of whose indices are buffered, with its indices in order and the shreds stored under
  them; it returns nothing only when no batch is complete. The arithmetic of the source on start, end and
  count (saturating, truncated to 32 bits) never misleads it.
\<close>

theorem block_search_correct:
  assumes "bt_sorted m" and "length m < 4294967295" and "sorted_wrt (<) ends"
  shows "find_complete_data_block m ends =
    Some (map_option (\<lambda>b. (batch_indices b, batch_shreds m b)) (find (batch_complete m) (slot_batches ends)))"
  using find_complete_spec [OF assms] unfolding block_of_def [abs_def] .

theorem block_search_correct_witness:
  "find_complete_data_block [(3, example_shred), (4, example_shred), (6, example_shred)] [2, 4, 6]
   = Some (Some ([3, 4], [example_shred, example_shred]))"
proof -
  let ?m = "[(3, example_shred), (4, example_shred), (6, example_shred)] :: (u32 \<times> shred) list"
  have s: "bt_sorted ?m" "length ?m < 4294967295" "sorted_wrt (<) [2, 4, 6 :: u32]" by simp_all
  have "slot_batches [2, 4, 6] = [(0, 2), (3, 4), (5, 6)]" by (simp add: slot_batches_def)
  moreover have "\<not> batch_complete ?m (0, 2)" "batch_complete ?m (3, 4)"
    by (simp_all add: batch_complete_def upt_conv_Cons)
  ultimately show ?thesis
    using block_search_correct [OF s] by (simp add: batch_indices_def batch_shreds_def upt_conv_Cons)
qed

lemma no_batch_left:
  assumes "sorted_wrt (<) ends"
  shows "complete_batches ends (without_batches (complete_batches ends data) data) = []"
proof -
  have m: "map_of (without_batches bs data) k =
      (if k \<notin> \<Union> (set ` batch_indices ` set bs) then map_of data k else None)" for bs k
    unfolding without_batches_def by (rule map_of_filter_keys)
  have "\<not> batch_complete (without_batches (complete_batches ends data) data) b"
    if b: "b \<in> set (slot_batches ends)" for b
  proof (cases "batch_complete data b")
    case True
    note bb = slot_batches_bounds [OF assms b]
    then have "word_of_nat (fst b) \<in> set (batch_indices b)"
      by (simp add: set_batch_indices unat_word_of_nat_u32)
    moreover have "b \<in> set (complete_batches ends data)"
      using True b by (simp add: complete_batches_def)
    ultimately show ?thesis unfolding batch_complete_indices m by auto
  next
    case False
    then show ?thesis unfolding batch_complete_indices m by auto
  qed
  then show ?thesis by (simp add: complete_batches_def filter_empty_conv)
qed

text \<open>
  Property C5. The last step of \<^verbatim>\<open>ingest\<close> on any reachable buffer: every batch that is complete is taken
  out, in order, deshredded once, and pushed with its first index when the ledger's \<^verbatim>\<open>deshred\<close> accepts it
  (counted as a failure when not); nothing else leaves the buffer; the result says whether anything was
  emitted; and no complete batch is left behind.
\<close>

theorem emission_complete:
  assumes "fec_inv st" and "map_of (fa_slots st) slot = Some buf"
  shows "emit_ready_blocks ext slot st =
    (let ends = sb_completed_data_indexes buf; data = sb_data_shreds buf;
         bs = complete_batches ends data; st' = fold (emit_batch ext slot data) bs st in
     Some (list_ex (batch_emits ext data) bs,
       st'\<lparr>fa_slots := AList.update slot (buf\<lparr>sb_data_shreds := without_batches bs data\<rparr>) (fa_slots st')\<rparr>))
    \<and> complete_batches (sb_completed_data_indexes buf) (without_batches
        (complete_batches (sb_completed_data_indexes buf) (sb_data_shreds buf)) (sb_data_shreds buf)) = []"
proof -
  have buf: "slot_ok buf" using assms by (auto simp: fec_inv_def dest!: map_of_SomeD)
  then have s: "bt_sorted (sb_data_shreds buf)" "sorted_wrt (<) (sb_completed_data_indexes buf)"
    by (simp_all add: slot_ok_def)
  show ?thesis
    using emit_loop_spec [OF s(1) slot_ok_length [OF buf] s(2), of ext slot st False] no_batch_left [OF s(2)] assms(2)
    by (simp add: emit_ready_blocks_def Let_def)
qed

definition example_buffer :: slot_buffer where
  "example_buffer = \<lparr>sb_data_shreds = [(7, example_shred)], sb_completed_data_indexes = [6, 7]\<rparr>"

theorem emission_complete_witness:
  "map_option (\<lambda>(e, st). (e, fa_complete st, map_of (fa_slots st) 42))
     (emit_ready_blocks example_ext 42 (new_fec_assembler\<lparr>fa_slots := [(42, example_buffer)]\<rparr>))
   = Some (True, [(42, 7, [[7, 8, 9]])], Some (example_buffer\<lparr>sb_data_shreds := []\<rparr>))"
proof -
  let ?st = "new_fec_assembler\<lparr>fa_slots := [(42, example_buffer)]\<rparr>"
  have inv: "fec_inv ?st"
    by (simp add: fec_inv_def counters_ok_def new_fec_assembler_def slot_ok_def example_buffer_def example_shred_def)
  have buf: "map_of (fa_slots ?st) 42 = Some example_buffer" by simp
  have data: "sb_data_shreds example_buffer = [(7, example_shred)]"
    and ends: "sb_completed_data_indexes example_buffer = [6, 7]" by (simp_all add: example_buffer_def)
  have bs: "complete_batches [6, 7] [(7, example_shred)] = [(7, 7)]"
    by (simp add: complete_batches_def slot_batches_def batch_complete_def upt_conv_Cons)
  have "batch_indices (7, 7) = [7]" by (simp add: batch_indices_def)
  then have shreds: "batch_shreds [(7, example_shred)] (7, 7) = [example_shred]"
    and left: "without_batches [(7, 7)] [(7, example_shred)] = []"
    by (simp_all add: batch_shreds_def without_batches_def)
  have "drop 88 example_packet = [7, 8, 9]" by (simp add: example_packet_def)
  then have payload: "x_deshred example_ext [example_shred] = Inr [7, 8, 9]"
    by (simp add: example_ext_def example_shred_def)
  have "fa_complete (emit_batch example_ext 42 [(7, example_shred)] (7, 7) ?st) = [(42, 7, [[7, 8, 9]])]"
    by (simp add: emit_batch_def shreds payload Let_def new_fec_assembler_def)
  then show ?thesis
    using emission_complete [OF inv buf, of example_ext]
    by (simp add: data ends bs left Let_def batch_emits_def shreds payload)
qed

section \<open>Who wins\<close>

text \<open>
  The coding header of an erasure set is the first one observed with a position not above
  the shred's index: filing a shred into a set that has one never changes it, and reports the shred's
  own header as invalid when its position exceeds its index, and as inconsistent exactly when it is
  valid and differs.
\<close>

theorem coding_header_pinned:
  assumes "file_shred ext shred st = Some (r, sm, attempted, v, invalid, inconsistent, st')"
    and "map_of (fa_sets st) (key_of shred) = Some fs" and "coding_meta fs = Some om"
  shows "map_option coding_meta (map_of (fa_sets st') (key_of shred)) = Some (Some om)
    \<and> invalid = (case ps_coding_meta shred of None \<Rightarrow> False
        | Some cm \<Rightarrow> unat (ps_index shred) < unat (cm_position cm))
    \<and> inconsistent = (case ps_coding_meta shred of None \<Rightarrow> False
        | Some cm \<Rightarrow> unat (cm_position cm) \<le> unat (ps_index shred)
            \<and> om \<noteq> \<lparr>om_num_data_shreds = cm_num_data_shreds cm, om_num_coding_shreds = cm_num_coding_shreds cm,
                     om_first_coding_index = ps_index shred - ucast (cm_position cm)\<rparr>)"
proof -
  obtain fs0 where fs0: "observe_header shred fs = (invalid, inconsistent, fs0)"
    and fin: "\<exists>fs2. (fs2 = add_shred (ps_shred shred) fs0 \<or> (\<exists>r. maybe_recover ext (add_shred (ps_shred shred) fs0) = Some (r, fs2)))
      \<and> map_of (fa_sets st') (key_of shred) = Some fs2"
    using assms(1,2)
    by (auto simp: file_shred_def Let_def split: prod.splits if_splits bind_splits)
  have unat_position: "unat (ucast p :: u32) = unat (p :: u16)" for p
    using unat_lt2p [of p] by (simp add: unsigned_ucast_eq take_bit_eq_mod)
  have flags: "coding_meta fs0 = Some om
    \<and> invalid = (case ps_coding_meta shred of None \<Rightarrow> False
        | Some cm \<Rightarrow> unat (ps_index shred) < unat (cm_position cm))
    \<and> inconsistent = (case ps_coding_meta shred of None \<Rightarrow> False
        | Some cm \<Rightarrow> unat (cm_position cm) \<le> unat (ps_index shred)
            \<and> om \<noteq> \<lparr>om_num_data_shreds = cm_num_data_shreds cm, om_num_coding_shreds = cm_num_coding_shreds cm,
                     om_first_coding_index = ps_index shred - ucast (cm_position cm)\<rparr>)"
    using fs0 assms(3)
    by (auto simp: observe_header_def observe_coding_meta_def first_coding_index_def checked_sub_def
        word_le_nat_alt unat_position Let_def split: option.splits if_splits prod.splits)
  have "coding_meta fs2 = coding_meta fs0"
    if "fs2 = add_shred (ps_shred shred) fs0 \<or> (\<exists>r. maybe_recover ext (add_shred (ps_shred shred) fs0) = Some (r, fs2))" for fs2
    using that
  proof
    assume "fs2 = add_shred (ps_shred shred) fs0"
    then show ?thesis by (simp add: add_shred_def)
  next
    assume "\<exists>r. maybe_recover ext (add_shred (ps_shred shred) fs0) = Some (r, fs2)"
    then obtain r where "maybe_recover ext (add_shred (ps_shred shred) fs0) = Some (r, fs2)" ..
    then show ?thesis by (cases rule: maybe_recover_cases) (simp_all add: add_shred_def)
  qed
  with fin flags show ?thesis by auto
qed

definition header_state :: fec_assembler where
  "header_state = new_fec_assembler\<lparr>fa_sets := [(key_of example_parsed, new_fec_set\<lparr>coding_meta :=
     Some \<lparr>om_num_data_shreds = 32, om_num_coding_shreds = 32, om_first_coding_index = 5\<rparr>\<rparr>)]\<rparr>"

definition other_header :: parsed_shred where
  "other_header = example_parsed\<lparr>ps_coding_meta :=
     Some \<lparr>cm_num_data_shreds = 32, cm_num_coding_shreds = 32, cm_position = 1\<rparr>\<rparr>"

theorem coding_header_pinned_witness:
  "map_option (\<lambda>(r, sm, attempted, v, invalid, inconsistent, st').
       (invalid, inconsistent, map_option coding_meta (map_of (fa_sets st') (key_of other_header))))
     (file_shred example_ext other_header header_state)
   = Some (False, True, Some (Some \<lparr>om_num_data_shreds = 32, om_num_coding_shreds = 32, om_first_coding_index = 5\<rparr>))"
proof -
  let ?fs = "new_fec_set\<lparr>coding_meta :=
     Some \<lparr>om_num_data_shreds = 32, om_num_coding_shreds = 32, om_first_coding_index = 5\<rparr>\<rparr>"
  have key: "key_of other_header = key_of example_parsed" by (simp add: key_of_def other_header_def)
  have held: "map_of (fa_sets header_state) (key_of other_header) = Some ?fs"
    by (simp add: header_state_def key)
  have inv: "fec_inv header_state"
    by (simp add: fec_inv_def counters_ok_def header_state_def new_fec_assembler_def set_inv_def filed_def new_fec_set_def)
  have "shred_ok (ps_shred other_header)"
    using example_ext_ok by (auto simp: ledger_ok_def example_ext_def other_header_def example_parsed_def split: if_splits)
  then obtain r sm a v i j st' where
    filed: "file_shred example_ext other_header header_state = Some (r, sm, a, v, i, j, st')"
    using file_shred_returns [OF example_ext_ok inv] by blast
  have "ps_coding_meta other_header = Some \<lparr>cm_num_data_shreds = 32, cm_num_coding_shreds = 32, cm_position = 1\<rparr>"
    "ps_index other_header = 7" by (simp_all add: other_header_def example_parsed_def)
  with coding_header_pinned [OF filed held] filed show ?thesis by simp
qed

text \<open>The shred buffered for a slot and an index.\<close>

definition buffered_shred :: "fec_assembler \<Rightarrow> u64 \<Rightarrow> u32 \<Rightarrow> shred option" where
  "buffered_shred st slot i =
     map_of (sb_data_shreds (unwrap_or new_slot_buffer (map_of (fa_slots st) slot))) i"

lemma map_of_bt_entry:
  "bt_sorted m \<Longrightarrow> map_of (bt_entry_or_insert k v m) i =
     (if i = k \<and> map_of m k = None then Some v else map_of m i)"
  by (auto simp: bt_entry_or_insert_def split: option.splits)

lemma buffered_insert:
  assumes "fec_inv st"
  shows "buffered_shred (insert_data_shred slot s st) slot' i =
    (if slot' = slot \<and> i = sh_index s \<and> buffered_shred st slot i = None then Some s
     else buffered_shred st slot' i)"
  using fec_inv_slot [OF assms, of slot]
  by (auto simp: buffered_shred_def insert_data_shred_def Let_def map_of_bt_entry slot_ok_def)

lemma buffered_frame: "fa_slots st' = fa_slots st \<Longrightarrow> buffered_shred st' = buffered_shred st"
  by (simp add: buffered_shred_def fun_eq_iff)

lemma file_shred_frame:
  assumes "file_shred ext shred st = Some (r, sm, a, v, i, j, st')"
  shows "fa_slots st' = fa_slots st"
  using assms by (auto simp: file_shred_def Let_def split: prod.splits if_splits bind_splits)

lemma buffered_fold:
  assumes "fec_inv st" and "indexes_ok rs"
  shows "buffered_shred (fold (insert_data_shred slot) rs st) slot' i =
    (case buffered_shred st slot' i of Some s \<Rightarrow> Some s
     | None \<Rightarrow> if slot' = slot then find (\<lambda>s. sh_index s = i) rs else None)"
  using assms
proof (induction rs arbitrary: st)
  case (Cons s rs)
  then have "fec_inv (insert_data_shred slot s st)"
    by (intro fec_inv_insert_data_shred) (simp_all add: indexes_ok_def)
  with Cons.IH [of "insert_data_shred slot s st"] Cons.prems buffered_insert [OF Cons.prems(1), of slot s slot' i]
  show ?case by (auto simp: indexes_ok_def split: option.splits)
qed (simp split: option.splits)

text \<open>
  The first shred buffered for an index stays: an ingest never replaces a buffered shred of
  any slot (before the emission step), and it touches only the slot of the ingested shred, where every
  new entry is the ingested data shred or one just recovered, filed under its own index.
\<close>

theorem first_shred_wins:
  assumes "ledger_ok ext" and "fec_inv st" and "parsed_ok shred"
    and "ingest_buffered ext d shred st = Some st'"
  shows "(buffered_shred st slot i = Some s \<longrightarrow> buffered_shred st' slot i = Some s)
    \<and> (slot \<noteq> ps_slot shred \<longrightarrow> buffered_shred st' slot i = buffered_shred st slot i)
    \<and> (buffered_shred st slot i = None \<and> buffered_shred st' slot i = Some s \<longrightarrow> sh_index s = i)"
proof -
  obtain r sm a v k j st1 where filed: "file_shred ext shred st = Some (r, sm, a, v, k, j, st1)" "fec_inv st1"
    "\<forall>rs. r = Inr rs \<longrightarrow> indexes_ok rs"
    using file_shred_returns [OF assms(1,2)] assms(3) by (metis parsed_ok_def)
  obtain rs st2 where settle: "settle_recovery ext d (key_of shred) a v sm r (count_header_problems k j st1) = (rs, st2)"
    by (cases "settle_recovery ext d (key_of shred) a v sm r (count_header_problems k j st1)")
  have rs: "indexes_ok rs"
    using settle filed(3) by (cases r) (auto simp: settle_recovery_def Let_def indexes_ok_def)
  have inv2: "fec_inv st2" using fec_inv_settle fec_inv_headers filed(2) settle by blast
  have same: "buffered_shred st2 = buffered_shred st"
    using settle_frame [OF settle] file_shred_frame [OF filed(1)] by (intro buffered_frame) simp
  define st3 where "st3 = (if ps_shred_type shred = DataShred
    then insert_data_shred (ps_slot shred) (ps_shred shred) st2 else st2)"
  have inv3: "fec_inv st3"
    using inv2 assms(3) by (auto simp: st3_def parsed_ok_def shred_ok_def intro: fec_inv_insert_data_shred)
  have st': "st' = fold (insert_data_shred (ps_slot shred)) rs st3"
    using assms(4) filed(1) settle by (simp add: ingest_buffered_def Let_def st3_def)
  have st3: "buffered_shred st3 slot i =
    (if ps_shred_type shred = DataShred \<and> slot = ps_slot shred \<and> i = sh_index (ps_shred shred)
       \<and> buffered_shred st slot i = None then Some (ps_shred shred) else buffered_shred st slot i)"
    using buffered_insert [OF inv2, of "ps_slot shred" "ps_shred shred" slot i] same by (auto simp: st3_def)
  show ?thesis
    unfolding st' buffered_fold [OF inv3 rs] st3 by (auto split: option.splits simp: find_Some_iff)
qed

lemma example_shred_ok: "shred_ok example_shred"
  using example_ext_ok by (auto simp: ledger_ok_def example_ext_def split: if_splits)

definition example_state :: fec_assembler where
  "example_state = insert_data_shred 42 (example_shred\<lparr>sh_version := 9\<rparr>) new_fec_assembler"

theorem first_shred_wins_witness:
  "map_option (\<lambda>st'. buffered_shred st' 42 7) (ingest_buffered example_ext True example_parsed example_state)
   = Some (Some (example_shred\<lparr>sh_version := 9\<rparr>))"
proof -
  have inv: "fec_inv example_state"
    unfolding example_state_def
    by (intro fec_inv_insert_data_shred fec_inv_new) (simp add: example_shred_def)
  have parsed: "parsed_ok example_parsed"
    using example_shred_ok by (simp add: parsed_ok_def example_parsed_def example_shred_def)
  have old: "buffered_shred example_state 42 7 = Some (example_shred\<lparr>sh_version := 9\<rparr>)"
    unfolding example_state_def using buffered_insert [OF fec_inv_new, of 42 "example_shred\<lparr>sh_version := 9\<rparr>" 42 7]
    by (simp add: buffered_shred_def new_fec_assembler_def new_slot_buffer_def example_shred_def)
  obtain st' where st': "ingest_buffered example_ext True example_parsed example_state = Some st'"
    using ingest_buffered_returns [OF example_ext_ok inv parsed] by blast
  with first_shred_wins [OF example_ext_ok inv parsed st'] old show ?thesis by simp
qed

text \<open>
  \<^verbatim>\<open>prune_old_slots\<close> drops exactly the erasure sets and slot buffers of slots below the
  limit: a lookup at or above it is unchanged, one below it finds nothing, and no counter or completed
  block is touched.
\<close>

theorem prune_exact:
  "map_of (fa_slots (prune_old_slots m st)) slot = (if m \<le> slot then map_of (fa_slots st) slot else None)
   \<and> map_of (fa_sets (prune_old_slots m st)) k = (if m \<le> fk_slot k then map_of (fa_sets st) k else None)
   \<and> fa_complete (prune_old_slots m st) = fa_complete st
   \<and> (prune_old_slots m st)\<lparr>fa_sets := [], fa_slots := []\<rparr> = st\<lparr>fa_sets := [], fa_slots := []\<rparr>"
  by (simp add: prune_old_slots_def map_of_filter_keys)

section \<open>The snapshot\<close>

definition present_in :: "fec_set \<Rightarrow> nat" where
  "present_in fs = length (data_shreds fs) + length (coding_shreds fs)"

definition expected_in :: "'e fec_ext \<Rightarrow> fec_set \<Rightarrow> nat" where
  "expected_in ext fs = (case coding_meta fs of None \<Rightarrow> x_data_shreds_per_fec_block ext
     | Some meta \<Rightarrow> unat (om_num_data_shreds meta))"

lemma count_set_step:
  fixes n stats fs ext
  defines "after \<equiv> snd (count_set ext fs (n, stats))"
  shows "fst (count_set ext fs (n, stats)) = n + present_in fs"
    and "st_max_data_in_set after = max (st_max_data_in_set stats) (length (data_shreds fs))"
    and "st_sets_with_coding_meta after = st_sets_with_coding_meta stats + of_bool (coding_meta fs \<noteq> None)"
    and "st_sets_missing_coding_meta after = st_sets_missing_coding_meta stats + of_bool (coding_meta fs = None)"
    and "st_sets_with_coding after = st_sets_with_coding stats + of_bool (coding_shreds fs \<noteq> [])"
    and "st_sets_at_data_threshold after = st_sets_at_data_threshold stats
      + of_bool (coding_shreds fs \<noteq> [] \<and> length (data_shreds fs) < expected_in ext fs \<and> expected_in ext fs \<le> present_in fs)"
    and "st_sets after = st_sets stats \<and> st_slot_buffers after = st_slot_buffers stats
      \<and> st_buffered_data_shreds after = st_buffered_data_shreds stats"
  unfolding after_def
  by (cases "coding_meta fs"; simp add: count_set_def Let_def present_in_def expected_in_def max_def)+

definition how_many :: "('a \<Rightarrow> bool) \<Rightarrow> 'a list \<Rightarrow> nat" where
  "how_many P xs = length (filter P xs)"

lemma how_many_Nil [simp]: "how_many P [] = 0"
  by (simp add: how_many_def)

lemma count_sets:
  "fst (fold (count_set ext) fss (n, stats)) = n + sum_list (map present_in fss)
   \<and> st_sets_with_coding_meta (snd (fold (count_set ext) fss (n, stats)))
       = st_sets_with_coding_meta stats + how_many (\<lambda>fs. coding_meta fs \<noteq> None) fss
   \<and> st_sets_missing_coding_meta (snd (fold (count_set ext) fss (n, stats)))
       = st_sets_missing_coding_meta stats + how_many (\<lambda>fs. coding_meta fs = None) fss
   \<and> st_sets_at_data_threshold (snd (fold (count_set ext) fss (n, stats)))
       = st_sets_at_data_threshold stats + how_many (\<lambda>fs. coding_shreds fs \<noteq> []
           \<and> length (data_shreds fs) < expected_in ext fs \<and> expected_in ext fs \<le> present_in fs) fss
   \<and> st_sets (snd (fold (count_set ext) fss (n, stats))) = st_sets stats
   \<and> st_buffered_data_shreds (snd (fold (count_set ext) fss (n, stats))) = st_buffered_data_shreds stats"
proof (induction fss arbitrary: n stats)
  case (Cons fs fss)
  obtain n1 stats1 where step: "count_set ext fs (n, stats) = (n1, stats1)" by (cases "count_set ext fs (n, stats)")
  note one = count_set_step [of ext fs n stats, unfolded step fst_conv snd_conv]
  show ?case
    using Cons.IH [of n1 stats1] by (auto simp: step one how_many_def)
qed (simp add: how_many_def)

lemma count_slots:
  "st_buffered_data_shreds (fold count_slot bufs stats)
     = st_buffered_data_shreds stats + sum_list (map (length \<circ> sb_data_shreds) bufs)
   \<and> st_sets (fold count_slot bufs stats) = st_sets stats
   \<and> st_sets_with_coding_meta (fold count_slot bufs stats) = st_sets_with_coding_meta stats
   \<and> st_sets_missing_coding_meta (fold count_slot bufs stats) = st_sets_missing_coding_meta stats
   \<and> st_sets_at_data_threshold (fold count_slot bufs stats) = st_sets_at_data_threshold stats
   \<and> st_avg_shreds_per_set_x10 (fold count_slot bufs stats) = st_avg_shreds_per_set_x10 stats"
  by (induction bufs arbitrary: stats) (simp_all add: count_slot_def)

text \<open>
  The statistics snapshot counts what it says: the sets with and without a coding header
  partition the sets, the sets at the data threshold are those with coding shreds, too little data and
  enough shreds in all (for the count of the header, or the ledger's default block size), the average
  is ten times the shreds held per set, and the buffered shreds are summed over all slots.
\<close>

theorem snapshot_counts:
  "let stats = stats_snapshot ext st; fss = map snd (fa_sets st) in
   st_sets stats = length fss
   \<and> st_sets_with_coding_meta stats + st_sets_missing_coding_meta stats = st_sets stats
   \<and> st_sets_with_coding_meta stats = how_many (\<lambda>fs. coding_meta fs \<noteq> None) fss
   \<and> st_sets_at_data_threshold stats = how_many (\<lambda>fs. coding_shreds fs \<noteq> []
        \<and> length (data_shreds fs) < expected_in ext fs \<and> expected_in ext fs \<le> present_in fs) fss
   \<and> st_avg_shreds_per_set_x10 stats = 10 * sum_list (map present_in fss) div length fss
   \<and> st_buffered_data_shreds stats = sum_list (map (length \<circ> sb_data_shreds) (map snd (fa_slots st)))"
proof -
  obtain n stats where folded: "fold (count_set ext) (map snd (fa_sets st)) (0, initial_stats st) = (n, stats)"
    by (cases "fold (count_set ext) (map snd (fa_sets st)) (0, initial_stats st)")
  note c = count_sets [of ext "map snd (fa_sets st)" 0 "initial_stats st", unfolded folded fst_conv snd_conv]
  have parts: "how_many (\<lambda>fs. coding_meta fs \<noteq> None) fss + how_many (\<lambda>fs. coding_meta fs = None) fss = length fss" for fss
    using sum_length_filter_compl [of "\<lambda>fs. coding_meta fs \<noteq> None" fss] by (simp add: how_many_def)
  have init: "st_sets (initial_stats st) = length (fa_sets st)" "st_sets_with_coding_meta (initial_stats st) = 0"
    "st_sets_missing_coding_meta (initial_stats st) = 0" "st_sets_at_data_threshold (initial_stats st) = 0"
    "st_buffered_data_shreds (initial_stats st) = 0" "st_avg_shreds_per_set_x10 (initial_stats st) = 0"
    by (simp_all add: initial_stats_def)
  define stats' where "stats' = (if fa_sets st \<noteq> []
    then stats\<lparr>st_avg_shreds_per_set_x10 := n * 10 div length (fa_sets st)\<rparr> else stats)"
  have snap: "stats_snapshot ext st = fold count_slot (map snd (fa_slots st)) stats'"
    by (simp add: stats_snapshot_def folded stats'_def)
  have avg: "st_avg_shreds_per_set_x10 stats' = 10 * sum_list (map present_in (map snd (fa_sets st))) div length (fa_sets st)"
    using c init(6) folded by (cases "fa_sets st = []") (auto simp: stats'_def mult.commute)
  show ?thesis
    using c parts [of "map snd (fa_sets st)"] avg
    by (simp add: snap Let_def count_slots init) (simp add: stats'_def)
qed

end
