(* ===== verification/Fec_Recovery.thy ===== *)
theory Fec_Recovery
  imports Fec_Set
begin

text \<open>
  Merkle recovery (\<^verbatim>\<open>maybe_recover_merkle\<close>) against the shreds the leader made: what it reproduces
  when Reed-Solomon gives back the erasure shards, and two situations in which it goes wrong.
\<close>

section \<open>The erasure set as the leader made it\<close>

fun code_of :: "recovery_variant \<Rightarrow> recovery_variant" where
  "code_of (MerkleData p c r) = MerkleCode p c r"
| "code_of v = v"

lemma code_of_simps [simp]:
  "tail_bytes (code_of v) = tail_bytes v"
  by (cases v) (simp_all add: tail_bytes_def proof_bytes_def resigned_bytes_def)

lemma code_of_merkle: "is_merkle v \<Longrightarrow> is_data v \<Longrightarrow> is_merkle (code_of v) \<and> \<not> is_data (code_of v)"
  by (cases v) simp_all

text \<open>\<open>orig i\<close> is the payload of the shred at erasure position \<open>i\<close> of a set with \<open>nd\<close> data shreds.\<close>

definition original :: "recovery_variant \<Rightarrow> bytes \<Rightarrow> nat \<Rightarrow> nat \<Rightarrow> bytes \<Rightarrow> bool" where
  "original v signature nd i p \<longleftrightarrow> take SIGNATURE_SIZE p = signature \<and> erasure_shard_index p = Some i
     \<and> (if i < nd then from_payload p = Some v \<and> length p = MERKLE_DATA_PAYLOAD_SIZE
        else from_payload p = Some (code_of v) \<and> length p = LEGACY_PAYLOAD_SIZE)"

definition shard_of :: "bytes \<Rightarrow> bytes" where
  "shard_of p = projr (erasure_shard_bytes p)"

definition present_at :: "'e fec_ext \<Rightarrow> fec_set \<Rightarrow> nat \<Rightarrow> bool" where
  "present_at ext fs i \<longleftrightarrow> (\<exists>s \<in> set (all_shreds ext fs). erasure_shard_index (sh_payload s) = Some i)"

text \<open>What Reed-Solomon promises: from the shards that are present it gives back all of them.\<close>

definition reconstructs :: "'e fec_ext \<Rightarrow> nat \<Rightarrow> nat \<Rightarrow> (nat \<Rightarrow> bytes) \<Rightarrow> (nat \<Rightarrow> bool) \<Rightarrow> bool" where
  "reconstructs ext nd nc orig present \<longleftrightarrow>
     x_reconstruct ext nd nc
       (map (\<lambda>i. if present i then Some (shard_of (orig i)) else None) [0..<nd + nc])
     = Some (map (\<lambda>i. Some (shard_of (orig i))) [0..<nd + nc])"

lemma original_shard:
  assumes "original v sig nd i p" and "is_merkle v" and "is_data v"
  shows "erasure_shard_bytes p = Inr (shard_of p)"
    and "length (shard_of p) = 1139 - tail_bytes v"
proof -
  have code: "is_merkle (code_of v)" "\<not> is_data (code_of v)" using code_of_merkle assms(2,3) by auto
  have "\<exists>sh. erasure_shard_bytes p = Inr sh \<and> length sh = 1139 - tail_bytes v"
  proof (cases "i < nd")
    case True
    then have p: "from_payload p = Some v" "length p = 1203" using assms(1) by (simp_all add: original_def)
    then show ?thesis
      using erasure_shard_bytes_data [OF p(1) assms(2,3)] by simp
  next
    case False
    then have p: "from_payload p = Some (code_of v)" "length p = 1228" using assms(1) by (simp_all add: original_def)
    then show ?thesis
      using erasure_shard_bytes_code [OF p(1) code] by simp
  qed
  then show "erasure_shard_bytes p = Inr (shard_of p)" "length (shard_of p) = 1139 - tail_bytes v"
    by (auto simp: shard_of_def)
qed

lemma place_shards_originals:
  assumes "\<forall>s \<in> set ss. \<exists>i < n. sh_payload s = orig i"
    and "\<forall>i < n. erasure_shard_index (orig i) = Some i \<and> erasure_shard_bytes (orig i) = Inr (sh i)"
    and "length present = n" and "length shards = n"
  shows "place_shards n ss present shards = Inr
    (map (\<lambda>i. if \<exists>s \<in> set ss. sh_payload s = orig i then Some (orig i) else present ! i) [0..<n],
     map (\<lambda>i. if \<exists>s \<in> set ss. sh_payload s = orig i then Some (sh i) else shards ! i) [0..<n])"
  using assms(1,3,4)
proof (induction ss arbitrary: present shards)
  case Nil
  then show ?case using map_nth [of present] map_nth [of shards] by auto
next
  case (Cons s ss)
  then obtain k where k: "k < n" "sh_payload s = orig k" by auto
  have inj: "orig k = orig i \<longleftrightarrow> k = i" if "i < n" for i
    using assms(2) k(1) that by (metis option.inject)
  have "place_shards n (s # ss) present shards =
      place_shards n ss (present[k := Some (orig k)]) (shards[k := Some (sh k)])"
    using k assms(2) by simp
  also have "\<dots> = Inr
    (map (\<lambda>i. if \<exists>s \<in> set ss. sh_payload s = orig i then Some (orig i) else present[k := Some (orig k)] ! i) [0..<n],
     map (\<lambda>i. if \<exists>s \<in> set ss. sh_payload s = orig i then Some (sh i) else shards[k := Some (sh k)] ! i) [0..<n])"
    using Cons.prems by (intro Cons.IH) simp_all
  also have "map (\<lambda>i. if \<exists>s \<in> set ss. sh_payload s = orig i then Some (orig i) else present[k := Some (orig k)] ! i) [0..<n]
    = map (\<lambda>i. if \<exists>s \<in> set (s # ss). sh_payload s = orig i then Some (orig i) else present ! i) [0..<n]"
    using k Cons.prems(2) inj by (intro map_cong) (auto simp: nth_list_update)
  also have "map (\<lambda>i. if \<exists>s \<in> set ss. sh_payload s = orig i then Some (sh i) else shards[k := Some (sh k)] ! i) [0..<n]
    = map (\<lambda>i. if \<exists>s \<in> set (s # ss). sh_payload s = orig i then Some (sh i) else shards ! i) [0..<n]"
    using k Cons.prems(3) inj by (intro map_cong) (auto simp: nth_list_update)
  finally show ?case .
qed

lemma collect_results_map: "(\<And>x. x \<in> set xs \<Longrightarrow> f x = Inr (g x)) \<Longrightarrow> collect_results f xs = Inr (map g xs)"
  by (induction xs) simp_all

lemma merkle_depth_unique: "n \<le> 2 ^ a \<Longrightarrow> 2 ^ a < 2 * n \<Longrightarrow> n \<le> 2 ^ b \<Longrightarrow> 2 ^ b < 2 * n \<Longrightarrow> a = b" for n a b :: nat
proof (rule ccontr)
  assume n: "n \<le> 2 ^ a" "2 ^ a < 2 * n" "n \<le> 2 ^ b" "2 ^ b < 2 * n" and "a \<noteq> b"
  then consider "Suc a \<le> b" | "Suc b \<le> a" by linarith
  then show False
  proof cases
    case 1
    then have "2 ^ Suc a \<le> (2 :: nat) ^ b" by (intro power_increasing) simp_all
    with n show False by simp
  next
    case 2
    then have "2 ^ Suc b \<le> (2 :: nat) ^ a" by (intro power_increasing) simp_all
    with n show False by simp
  qed
qed

text \<open>The last step on a payload of the right size: only the proof is written.\<close>

lemma finish_recovery_ok:
  assumes wf: "wf_variant v" "is_data v"
    and n: "index < length nodes" "length nodes \<le> 2 ^ unat (proof_size v)" "2 ^ unat (proof_size v) < 2 * length nodes"
    and len: "length (payloads ! index) = 1203"
  shows "\<exists>out. finish_recovery ext v (length nodes) payloads (make_merkle_tree (x_hashv ext) nodes) index
      = ok_or DeserializeFailed (x_new_shred ext out)
    \<and> length out = 1203 \<and> take (1203 - tail_bytes v) out = take (1203 - tail_bytes v) (payloads ! index)"
proof -
  obtain entries where entries: "make_merkle_proof index (length nodes) (make_merkle_tree (x_hashv ext) nodes) = Some entries"
    "length nodes \<le> 2 ^ length entries" "2 ^ length entries < 2 * length nodes"
    using make_merkle_proof_root [OF n(1), of "x_hashv ext"] by blast
  then have d: "length entries = unat (proof_size v)" using n(2,3) merkle_depth_unique by blast
  have c: "length (concat entries) = length entries * 20"
    using make_merkle_proof_entries [OF entries(1)] .
  define t where "t = tail_bytes v"
  have t: "unat (proof_size v) * 20 \<le> t" "t \<le> 364"
    using tail_bytes_bound [OF wf(1)] by (simp_all add: t_def tail_bytes_def proof_bytes_def)
  have fits: "1203 - t \<le> 1203 - t + length entries * 20" "1203 - t + length entries * 20 \<le> 1203"
    using t unfolding d by linarith+
  define out where "out = take (1203 - t) (payloads ! index) @ concat entries
    @ drop (1203 - t + length (concat entries)) (payloads ! index)"
  have "copy_range (1203 - t) (1203 - t + length entries * 20) (concat entries) (payloads ! index) = Some out"
    using fits c len by (simp add: copy_range_def copy_at_def out_def)
  then have "set_merkle_proof (payloads ! index) v entries = Inr out"
    using fits d len merkle_proof_offset_eq [OF wf(1)] wf(2)
    by (simp add: set_merkle_proof_def t_def)
  moreover have "length out = 1203" "take (1203 - t) out = take (1203 - t) (payloads ! index)"
    using fits c len by (simp_all add: out_def)
  ultimately show ?thesis
    using entries(1) by (auto simp: finish_recovery_def t_def)
qed

section \<open>What recovery reproduces\<close>

definition leader_set ::
  "'e fec_ext \<Rightarrow> fec_set \<Rightarrow> observed_coding_meta \<Rightarrow> recovery_variant \<Rightarrow> bytes \<Rightarrow> (nat \<Rightarrow> bytes) \<Rightarrow> bool" where
  "leader_set ext fs meta v signature orig \<longleftrightarrow>
     (let nd = unat (om_num_data_shreds meta); nc = unat (om_num_coding_shreds meta) in
      iter_ok ext \<and> coding_meta fs = Some meta \<and> is_merkle v \<and> is_data v
      \<and> (\<forall>i < nd + nc. original v signature nd i (orig i))
      \<and> data_shreds fs \<noteq> [] \<and> (\<forall>s \<in> snd ` set (data_shreds fs). \<exists>i < nd. sh_payload s = orig i)
      \<and> coding_shreds fs \<noteq> []
      \<and> (\<forall>s \<in> snd ` set (coding_shreds fs). \<exists>i < nc. sh_payload s = orig (nd + i))
      \<and> x_rs_new ext nd nc \<and> reconstructs ext nd nc orig (present_at ext fs)
      \<and> nd + nc \<le> 2 ^ unat (proof_size v) \<and> 2 ^ unat (proof_size v) < 2 * (nd + nc))"

lemma find_map_first: "f x = Some y \<Longrightarrow> find_map f (x # xs) = Some y"
  by simp

lemma leader_set_variant:
  assumes "leader_set ext fs meta v signature orig"
  shows "recovery_variant_of ext fs = Some v" and "wf_variant v"
proof -
  have it: "set (shred_values ext (data_shreds fs)) = snd ` set (data_shreds fs)"
    using assms by (simp add: leader_set_def Let_def shred_values_set)
  moreover have "data_shreds fs \<noteq> []" using assms by (simp add: leader_set_def Let_def)
  ultimately obtain s ss where vals: "shred_values ext (data_shreds fs) = s # ss"
    by (cases "shred_values ext (data_shreds fs)") auto
  then have "s \<in> snd ` set (data_shreds fs)" using it by auto
  then have "from_payload (sh_payload s) = Some v"
    using assms by (fastforce simp: leader_set_def Let_def original_def)
  then show "recovery_variant_of ext fs = Some v"
    by (simp add: recovery_variant_of_def all_shreds_def vals)
  then show "wf_variant v" by (rule recovery_variant_wf)
qed

lemma parse_fields_ok:
  assumes "1200 \<le> length p"
  shows "\<exists>slot version index. parse_u64 p 65 = Inr slot \<and> parse_u16 p 77 = Inr version \<and> parse_u32 p 79 = Inr index"
  using assms by (simp add: parse_u64_def parse_u16_def parse_u32_def slice_get_def)

lemma leader_set_header:
  assumes "leader_set ext fs meta v signature orig" and "\<not> chained v"
  shows "\<exists>first_code header. (case shred_values ext (coding_shreds fs) of [] \<Rightarrow> None | s # _ \<Rightarrow> Some s) = Some first_code
    \<and> read_set_header v (sh_payload first_code) (shred_values ext (data_shreds fs)) = Inr header
    \<and> hd_signature header = signature \<and> hd_root header = None \<and> length signature = 64"
proof -
  have it: "set (shred_values ext (coding_shreds fs)) = snd ` set (coding_shreds fs)"
    using assms by (simp add: leader_set_def Let_def shred_values_set)
  moreover have "coding_shreds fs \<noteq> []" using assms by (simp add: leader_set_def Let_def)
  ultimately obtain s ss where vals: "shred_values ext (coding_shreds fs) = s # ss"
    by (cases "shred_values ext (coding_shreds fs)") auto
  then have "s \<in> snd ` set (coding_shreds fs)" using it by auto
  then have p: "take 64 (sh_payload s) = signature" "length (sh_payload s) = 1228"
    using assms by (fastforce simp: leader_set_def Let_def original_def)+
  obtain slot version index where "parse_u64 (sh_payload s) 65 = Inr slot"
    "parse_u16 (sh_payload s) 77 = Inr version" "parse_u32 (sh_payload s) 79 = Inr index"
    using parse_fields_ok [of "sh_payload s"] p(2) by auto
  moreover have "extract_chained_merkle_root q v = None" for q
    using assms(2) by (simp add: extract_chained_merkle_root_def)
  moreover have "find_map (\<lambda>s. None :: bytes option) xs = None" for xs :: "shred list" by (induction xs) simp_all
  moreover have "slice_get (sh_payload s) 0 64 = Some signature" "length signature = 64"
    using p by (auto simp: slice_get_def)
  ultimately show ?thesis using vals by (simp add: read_set_header_def)
qed

lemma rebuild_originals:
  assumes v: "wf_variant v" "is_merkle v" "is_data v" "\<not> chained v"
    and orig: "original v signature nd i p" and nd: "nd = unat (om_num_data_shreds meta)"
    and h: "hd_signature h = signature" "hd_root h = None" "length signature = 64"
    and at: "present ! i = None \<or> present ! i = Some p" "shards ! i = Some (shard_of p)"
  shows "\<exists>out node. rebuild_payload v meta h present shards i = Inr out \<and> merkle_node hv out v = Inr node
    \<and> (i < nd \<longrightarrow> length out = 1203 \<and> take (1203 - tail_bytes v) out = take (1203 - tail_bytes v) p)"
proof -
  have node: "\<exists>node. merkle_node hv out v = Inr node" if "1203 \<le> length out" for out
    using that merkle_proof_offset_eq [OF v(1)] v(3) tail_bytes_bound [OF v(1)]
    by (auto simp: merkle_node_def slice_get_def)
  have lenp: "i < nd \<longrightarrow> length p = 1203" "1203 \<le> length p"
    using orig by (auto simp: original_def split: if_splits)
  have sh: "length (shard_of p) = expected_shard_size v"
    using original_shard(2) [OF orig v(2,3)] expected_shard_size_eq [OF v(1)] by simp
  consider (there) "present ! i = Some p" | (data) "present ! i = None" "i < nd" | (code) "present ! i = None" "\<not> i < nd"
    using at(1) by (cases "i < nd") auto
  then show ?thesis
  proof cases
    case there
    then show ?thesis using node [OF lenp(2)] lenp(1) by (simp add: rebuild_payload_def Let_def)
  next
    case data
    have p: "from_payload p = Some v" "length p = 1203" "take 64 p = signature"
      using orig data by (simp_all add: original_def)
    have "extract_chained_merkle_root p v = None" using v(4) by (simp add: extract_chained_merkle_root_def)
    with rebuild_data [OF p(1) v(2,3) _ original_shard(1) [OF orig v(2,3)]] p
    have "build_recovered_merkle_data_payload signature (shard_of p) v None
        = Inr (take (1203 - tail_bytes v) p @ replicate (tail_bytes v) 0)" by simp
    then have "rebuild_payload v meta h present shards i = Inr (take (1203 - tail_bytes v) p @ replicate (tail_bytes v) 0)"
      using data at(2) h nd by (simp add: rebuild_payload_def Let_def)
    moreover have "length (take (1203 - tail_bytes v) p @ replicate (tail_bytes v) 0) = 1203"
      using p(2) tail_bytes_bound [OF v(1)] by simp
    ultimately show ?thesis using node [of "take (1203 - tail_bytes v) p @ replicate (tail_bytes v) 0"] p(2) by simp
  next
    case code
    obtain out where "rebuild_payload v meta h present shards i = Inr out" "length out = 1228"
      using build_code_ok [OF v(1) h(3) _ sh, of None "hd_slot h"
          "om_first_coding_index meta + word_of_nat (i - nd)" "hd_version h" "hd_fec_set_index h"
          "om_num_data_shreds meta" "om_num_coding_shreds meta" "word_of_nat (i - nd)"] code at(2) h nd
      by (auto simp: rebuild_payload_def Let_def)
    with node [of out] code show ?thesis by simp
  qed
qed

lemma collect_results_exists:
  assumes "\<forall>x \<in> set xs. \<exists>y. f x = Inr y \<and> P x y"
  shows "\<exists>g. collect_results f xs = Inr (map g xs) \<and> (\<forall>x \<in> set xs. f x = Inr (g x) \<and> P x (g x))"
proof -
  obtain g where g: "\<forall>x \<in> set xs. f x = Inr (g x) \<and> P x (g x)" using bchoice [OF assms] by blast
  then have "collect_results f xs = Inr (map g xs)" by (intro collect_results_map) simp
  with g show ?thesis by blast
qed

lemma collect_results_cong:
  "(\<And>x. x \<in> set xs \<Longrightarrow> f x = g x) \<Longrightarrow> collect_results f xs = collect_results g xs"
  by (induction xs) simp_all

lemma leader_set_places:
  fixes ext fs meta
  defines "nd \<equiv> unat (om_num_data_shreds meta)" and "n \<equiv> unat (om_num_data_shreds meta) + unat (om_num_coding_shreds meta)"
  assumes "leader_set ext fs meta v signature orig"
  shows "place_shards n (all_shreds ext fs) (replicate n None) (replicate n None) = Inr
    (map (\<lambda>i. if present_at ext fs i then Some (orig i) else None) [0..<n],
     map (\<lambda>i. if present_at ext fs i then Some (shard_of (orig i)) else None) [0..<n])"
proof -
  have orig: "\<forall>i < n. original v signature nd i (orig i)" and v: "is_merkle v" "is_data v" and "iter_ok ext"
    using assms(3) by (simp_all add: leader_set_def Let_def nd_def n_def)
  have in_n: "\<forall>s \<in> set (all_shreds ext fs). \<exists>i < n. sh_payload s = orig i"
  proof
    fix s assume "s \<in> set (all_shreds ext fs)"
    then consider "s \<in> snd ` set (data_shreds fs)" | "s \<in> snd ` set (coding_shreds fs)"
      using \<open>iter_ok ext\<close> by (auto simp: all_shreds_set)
    then show "\<exists>i < n. sh_payload s = orig i"
    proof cases
      case 1
      then obtain i where "i < nd" "sh_payload s = orig i"
        using assms(3) by (fastforce simp: leader_set_def Let_def nd_def)
      then show ?thesis by (intro exI [of _ i]) (simp add: n_def nd_def)
    next
      case 2
      then obtain i where "i < unat (om_num_coding_shreds meta)" "sh_payload s = orig (nd + i)"
        using assms(3) by (fastforce simp: leader_set_def Let_def nd_def)
      then show ?thesis by (intro exI [of _ "nd + i"]) (simp add: n_def nd_def)
    qed
  qed
  have idx: "\<forall>i < n. erasure_shard_index (orig i) = Some i \<and> erasure_shard_bytes (orig i) = Inr (shard_of (orig i))"
    using orig original_shard(1) v by (auto simp: original_def)
  have iff: "(\<exists>s \<in> set (all_shreds ext fs). sh_payload s = orig i) \<longleftrightarrow> present_at ext fs i" if "i < n" for i
    using in_n idx that by (metis option.inject present_at_def)
  show ?thesis
    unfolding place_shards_originals [OF in_n idx length_replicate length_replicate]
    by (auto intro!: map_cong simp: iff)
qed

lemma recovery_exact:
  assumes set: "leader_set ext fs meta v signature orig" and "\<not> chained v"
    and nd: "nd = unat (om_num_data_shreds meta)"
  shows "\<exists>payload. maybe_recover_merkle ext fs =
      collect_results (\<lambda>i. ok_or DeserializeFailed (x_new_shred ext (payload i)))
        (filter (\<lambda>i. \<not> present_at ext fs i) [0..<nd])
    \<and> (\<forall>i < nd. length (payload i) = MERKLE_DATA_PAYLOAD_SIZE
        \<and> take (1203 - tail_bytes v) (payload i) = take (1203 - tail_bytes v) (orig i))"
proof -
  define nc where "nc = unat (om_num_coding_shreds meta)"
  define n where "n = nd + nc"
  note wf = leader_set_variant(2) [OF set]
  have v: "is_merkle v" "is_data v" and meta: "coding_meta fs = Some meta"
    and orig: "\<forall>i < n. original v signature nd i (orig i)" and rs: "x_rs_new ext nd nc"
    and rec: "reconstructs ext nd nc orig (present_at ext fs)"
    and depth: "n \<le> 2 ^ unat (proof_size v)" "2 ^ unat (proof_size v) < 2 * n"
    using set nd by (simp_all add: leader_set_def Let_def nc_def n_def)
  define present where "present = map (\<lambda>i. if present_at ext fs i then Some (orig i) else None) [0..<n]"
  define shards where "shards = map (\<lambda>i. Some (shard_of (orig i))) [0..<n]"
  obtain first_code h where first: "(case shred_values ext (coding_shreds fs) of [] \<Rightarrow> None | s # _ \<Rightarrow> Some s) = Some first_code"
    and header: "read_set_header v (sh_payload first_code) (shred_values ext (data_shreds fs)) = Inr h"
    and h: "hd_signature h = signature" "hd_root h = None" "length signature = 64"
    using leader_set_header [OF set assms(2)] by blast
  have "\<forall>i \<in> set [0..<n]. \<exists>out. and_then (rebuild_payload v meta h present shards i) (\<lambda>payload.
      and_then (merkle_node (x_hashv ext) payload v) (\<lambda>node. Inr (payload, node))) = Inr out
    \<and> (i < nd \<longrightarrow> length (fst out) = 1203 \<and> take (1203 - tail_bytes v) (fst out) = take (1203 - tail_bytes v) (orig i))"
  proof
    fix i assume "i \<in> set [0..<n]"
    then have i: "i < n" by simp
    from rebuild_originals [OF wf v assms(2) orig [rule_format, OF i] nd h, of present shards "x_hashv ext"] i
    show "\<exists>out. and_then (rebuild_payload v meta h present shards i) (\<lambda>payload.
      and_then (merkle_node (x_hashv ext) payload v) (\<lambda>node. Inr (payload, node))) = Inr out
    \<and> (i < nd \<longrightarrow> length (fst out) = 1203 \<and> take (1203 - tail_bytes v) (fst out) = take (1203 - tail_bytes v) (orig i))"
      by (force simp: present_def shards_def)
  qed
  from collect_results_exists [OF this] obtain g where g:
    "collect_results (\<lambda>i. and_then (rebuild_payload v meta h present shards i) (\<lambda>payload.
      and_then (merkle_node (x_hashv ext) payload v) (\<lambda>node. Inr (payload, node)))) [0..<n] = Inr (map g [0..<n])"
    "\<forall>i \<in> set [0..<n]. i < nd \<longrightarrow> length (fst (g i)) = 1203
      \<and> take (1203 - tail_bytes v) (fst (g i)) = take (1203 - tail_bytes v) (orig i)"
    by blast
  define payloads where "payloads = map fst (map g [0..<n])"
  define nodes where "nodes = map snd (map g [0..<n])"
  have nn: "length nodes = n" by (simp add: nodes_def)
  have "\<forall>i \<in> set [0..<nd]. \<exists>out. finish_recovery ext v n payloads (make_merkle_tree (x_hashv ext) nodes) i
      = ok_or DeserializeFailed (x_new_shred ext out)
    \<and> length out = 1203 \<and> take (1203 - tail_bytes v) out = take (1203 - tail_bytes v) (orig i)"
  proof
    fix i assume "i \<in> set [0..<nd]"
    then have i: "i < nd" "i < n" by (simp_all add: n_def)
    then have pi: "length (payloads ! i) = 1203"
      "take (1203 - tail_bytes v) (payloads ! i) = take (1203 - tail_bytes v) (orig i)"
      using g(2) by (simp_all add: payloads_def)
    from finish_recovery_ok [OF wf v(2), of i nodes payloads ext, unfolded nn, OF i(2) depth pi(1)] pi(2)
    show "\<exists>out. finish_recovery ext v n payloads (make_merkle_tree (x_hashv ext) nodes) i
        = ok_or DeserializeFailed (x_new_shred ext out)
      \<and> length out = 1203 \<and> take (1203 - tail_bytes v) out = take (1203 - tail_bytes v) (orig i)" by simp
  qed
  from bchoice [OF this] obtain payload where payload:
    "\<forall>i \<in> set [0..<nd]. finish_recovery ext v n payloads (make_merkle_tree (x_hashv ext) nodes) i
        = ok_or DeserializeFailed (x_new_shred ext (payload i))
      \<and> length (payload i) = 1203 \<and> take (1203 - tail_bytes v) (payload i) = take (1203 - tail_bytes v) (orig i)"
    by blast
  have missing: "filter (\<lambda>i. present ! i = None) [0..<nd] = filter (\<lambda>i. \<not> present_at ext fs i) [0..<nd]"
    by (rule filter_cong) (simp_all add: present_def n_def)
  have "maybe_recover_merkle ext fs =
      collect_results (finish_recovery ext v n payloads (make_merkle_tree (x_hashv ext) nodes))
        (filter (\<lambda>i. present ! i = None) [0..<nd])"
    using leader_set_variant(1) [OF set] meta first header rs rec g(1)
      leader_set_places [OF set]
    by (simp add: maybe_recover_merkle_def Let_def nd [symmetric] nc_def [symmetric] n_def [symmetric]
        present_def [symmetric] reconstructs_def shards_def [symmetric] payloads_def nodes_def)
  also have "\<dots> = collect_results (\<lambda>i. ok_or DeserializeFailed (x_new_shred ext (payload i)))
      (filter (\<lambda>i. \<not> present_at ext fs i) [0..<nd])"
    unfolding missing by (rule collect_results_cong) (use payload in auto)
  finally show ?thesis using payload by auto
qed


text \<open>A set of two data shreds and one coding shred, of which the second data shred is missing.\<close>

definition example_orig :: "nat \<Rightarrow> bytes" where
  "example_orig i =
     (if i < 2 then replicate 64 0 @ [0x82] @ replicate 8 0 @ [word_of_nat i, 0, 0, 0] @ [0, 0] @ [0, 0, 0, 0] @ replicate 1120 7
      else replicate 64 0 @ [0x42] @ replicate 8 0 @ [0, 0, 0, 0] @ [0, 0] @ [0, 0, 0, 0] @ [2, 0] @ [1, 0] @ [0, 0] @ replicate 1139 9)"

definition example_entry :: "nat \<Rightarrow> shred" where
  "example_entry i = example_shred\<lparr>sh_payload := example_orig i, sh_index := word_of_nat i, sh_is_data := (i < 2)\<rparr>"

definition example_meta :: observed_coding_meta where
  "example_meta = \<lparr>om_num_data_shreds = 2, om_num_coding_shreds = 1, om_first_coding_index = 2\<rparr>"

definition example_set :: fec_set where
  "example_set = \<lparr>data_shreds = [(0, example_entry 0)], coding_shreds = [(2, example_entry 2)],
     coding_meta = Some example_meta\<rparr>"

definition recovery_ext :: "string fec_ext" where
  "recovery_ext = \<lparr>x_hashv = (\<lambda>bs. of_nat (length (concat bs))), x_iter = (\<lambda>m. m),
     x_new_shred = (\<lambda>p. Some (example_shred\<lparr>sh_payload := p\<rparr>)), x_rs_new = (\<lambda>_ _. True),
     x_reconstruct = (\<lambda>nd nc _. Some (map (\<lambda>i. Some (shard_of (example_orig i))) [0..<nd + nc])),
     x_try_recovery = (\<lambda>_. Inl []), x_deshred = (\<lambda>_. Inl []), x_invalid_recovered_shred = [],
     x_error_text = (\<lambda>e. e), x_data_shreds_per_fec_block = 32\<rparr>"

lemma example_index:
  "i < 2 \<Longrightarrow> erasure_shard_index (example_orig i) = Some i"
  "erasure_shard_index (example_orig 2) = Some 2"
proof -
  show "i < 2 \<Longrightarrow> erasure_shard_index (example_orig i) = Some i"
    by (cases "i = 0"; cases "i = 1")
      (simp_all add: erasure_shard_index_def from_payload_def idx_def example_orig_def variant_of_byte_def
        parse_u32_def slice_get_def u32_of_le_def checked_sub_def nth_append)
  show "erasure_shard_index (example_orig 2) = Some 2"
    by (simp add: erasure_shard_index_def from_payload_def idx_def example_orig_def variant_of_byte_def
        parse_u16_def slice_get_def u16_of_le_def nth_append)
qed

lemma example_original: "i < 3 \<Longrightarrow> original (MerkleData 2 False False) (replicate 64 0) 2 i (example_orig i)"
proof -
  assume "i < 3"
  then consider "i < 2" | "i = 2" by linarith
  then show ?thesis
  proof cases
    case 1
    with example_index(1) [OF 1] show ?thesis
      by (simp add: original_def from_payload_def idx_def example_orig_def variant_of_byte_def nth_append)
  next
    case 2
    with example_index(2) show ?thesis
      by (simp add: original_def from_payload_def idx_def example_orig_def variant_of_byte_def nth_append)
  qed
qed

lemma example_leader_set:
  "leader_set recovery_ext example_set example_meta (MerkleData 2 False False) (replicate 64 0) example_orig"
proof -
  have orig: "\<forall>i < 3. original (MerkleData 2 False False) (replicate 64 0) 2 i (example_orig i)"
    using example_original by blast
  show ?thesis
    by (simp add: leader_set_def Let_def iter_ok_def reconstructs_def recovery_ext_def example_set_def
        example_meta_def example_entry_def orig eval_nat_numeral(2) [symmetric])
      (use orig in \<open>auto simp: numeral_eq_Suc\<close>)
qed


section \<open>Where recovery goes wrong\<close>

text \<open>
  \<^verbatim>\<open>maybe_recover_merkle\<close> reads the chained root of the first coding shred with the variant
  of the set's first shred. When that is a data variant, the 32 bytes it reads from a coding shred of a
  chained set are not the chained root: they start 25 bytes before it (the two payload sizes differ by
  25). These bytes are then written over the root of every recovered shred.
\<close>

theorem chained_root_misread:
  assumes "from_payload code = Some (MerkleCode p True r)" and "length code = LEGACY_PAYLOAD_SIZE"
  shows "extract_chained_merkle_root code (MerkleCode p True r)
      = Some (take 32 (drop (1196 - tail_bytes (MerkleCode p True r)) code))
    \<and> extract_chained_merkle_root code (MerkleData p True r)
      = Some (take 32 (drop (1171 - tail_bytes (MerkleCode p True r)) code))"
proof -
  have wf: "wf_variant (MerkleCode p True r)" using assms(1) by (rule from_payload_wf)
  then have wf': "wf_variant (MerkleData p True r)" by (simp add: wf_variant_def)
  have "tail_bytes (MerkleData p True r) = tail_bytes (MerkleCode p True r)"
    by (simp add: tail_bytes_def proof_bytes_def resigned_bytes_def)
  with extract_root_in [OF wf, of code] extract_root_in [OF wf', of code] assms(2) show ?thesis by simp
qed

definition chained_code :: bytes where
  "chained_code = replicate 64 0 @ [0x61] @ replicate 1106 0 @ replicate 25 1 @ replicate 32 2"

theorem chained_root_misread_witness:
  "extract_chained_merkle_root chained_code (MerkleCode 1 True False) = Some (replicate 20 1 @ replicate 12 2)
   \<and> extract_chained_merkle_root chained_code (MerkleData 1 True False) = Some (replicate 20 0 @ replicate 12 1)"
proof -
  have "from_payload chained_code = Some (MerkleCode 1 True False)"
    by (simp add: from_payload_def idx_def chained_code_def variant_of_byte_def nth_append)
  moreover have "length chained_code = LEGACY_PAYLOAD_SIZE" by (simp add: chained_code_def)
  ultimately show ?thesis
    using chained_root_misread [of chained_code 1 False]
    by (simp add: tail_bytes_def proof_bytes_def resigned_bytes_def) (simp add: chained_code_def)
qed

lemma collect_results_each: "collect_results f xs = Inr ys \<Longrightarrow> x \<in> set xs \<Longrightarrow> \<exists>y. f x = Inr y"
  by (induction xs arbitrary: ys) auto

lemma maybe_recover_merkle_Inr:
  assumes "maybe_recover_merkle ext fs = Inr recovered" and "coding_meta fs = Some meta"
  obtains v and first_code :: shred and h present shards shards' rebuilt where
    "recovery_variant_of ext fs = Some v"
    "read_set_header v (sh_payload first_code) (shred_values ext (data_shreds fs)) = Inr h"
    "place_shards (unat (om_num_data_shreds meta) + unat (om_num_coding_shreds meta)) (all_shreds ext fs)
       (replicate (unat (om_num_data_shreds meta) + unat (om_num_coding_shreds meta)) None)
       (replicate (unat (om_num_data_shreds meta) + unat (om_num_coding_shreds meta)) None) = Inr (present, shards)"
    "collect_results (\<lambda>index.
          and_then (rebuild_payload v meta h present shards' index) (\<lambda>payload.
          and_then (merkle_node (x_hashv ext) payload v) (\<lambda>node. Inr (payload, node))))
       [0..<unat (om_num_data_shreds meta) + unat (om_num_coding_shreds meta)] = Inr rebuilt"
    "collect_results (finish_recovery ext v (unat (om_num_data_shreds meta) + unat (om_num_coding_shreds meta))
         (map fst rebuilt) (make_merkle_tree (x_hashv ext) (map snd rebuilt)))
       (filter (\<lambda>index. present ! index = None) [0..<unat (om_num_data_shreds meta)]) = Inr recovered"
proof -
  note run = assms(1) [unfolded maybe_recover_merkle_def Let_def and_then_Inr ok_or_Inr guard_or_Inr
      assms(2) option.inject split_paired_Ex prod.case]
  show thesis using run by (elim exE conjE) (hypsubst, rule that, assumption+)
qed

lemma place_shards_keeps:
  assumes "place_shards n ss present shards = Inr (present', shards')"
    and "\<forall>s \<in> set ss. \<forall>i. erasure_shard_index (sh_payload s) = Some i \<longrightarrow> k \<le> i" and "j < k"
  shows "present' ! j = present ! j"
  using assms(1,2)
proof (induction ss arbitrary: present shards)
  case (Cons s ss)
  then obtain i b where "erasure_shard_index (sh_payload s) = Some i"
    "place_shards n ss (present[i := Some (sh_payload s)]) (shards[i := Some b]) = Inr (present', shards')"
    by (auto split: if_splits)
  with Cons assms(3) show ?case by fastforce
qed simp

lemma build_data_length:
  assumes "wf_variant v" and "length signature = 64"
    and "\<forall>r. root = Some r \<longrightarrow> chained v \<and> length r = 32"
    and "build_recovered_merkle_data_payload signature sh v root = Inr out"
  shows "length out = 1203"
proof (cases "length sh = expected_shard_size v")
  case True
  from build_data_ok [OF assms(1-3) True] assms(4) show ?thesis by simp
next
  case False
  with assms(4) show ?thesis by (simp add: build_recovered_merkle_data_payload_def Let_def)
qed

text \<open>
  A Merkle set of which no data shred has arrived is never recovered, however many of its
  coding shreds have: recovery then runs with the coding variant, whose proof lies beyond the end of a
  data payload, and fails on the first missing data shred.
\<close>

theorem no_recovery_without_data:
  assumes "iter_ok ext" and "data_shreds fs = []" and "coding_meta fs = Some meta"
    and "0 < unat (om_num_data_shreds meta)"
    and "\<forall>s \<in> snd ` set (coding_shreds fs). from_payload (sh_payload s) = Some (MerkleCode p c False)
      \<and> (\<forall>i. erasure_shard_index (sh_payload s) = Some i \<longrightarrow> unat (om_num_data_shreds meta) \<le> i)"
  shows "maybe_recover_merkle ext fs \<noteq> Inr recovered"
proof
  assume run: "maybe_recover_merkle ext fs = Inr recovered"
  define v where "v = MerkleCode p c False"
  define nd where "nd = unat (om_num_data_shreds meta)"
  define n where "n = nd + unat (om_num_coding_shreds meta)"
  have shreds: "set (all_shreds ext fs) = snd ` set (coding_shreds fs)"
    using assms(1,2) by (simp add: all_shreds_set)
  have only: "w = v" if "recovery_variant_of ext fs = Some w" for w
  proof -
    have "find_map (\<lambda>s. from_payload (sh_payload s)) (all_shreds ext fs) = Some w"
      using that by (simp add: recovery_variant_of_def)
    from find_map_Some [OF this] show ?thesis using assms(5) shreds by (auto simp: v_def)
  qed
  obtain w and first_code :: shred and h present shards shards' rebuilt where
    w: "recovery_variant_of ext fs = Some w"
    and header: "read_set_header w (sh_payload first_code) (shred_values ext (data_shreds fs)) = Inr h"
    and place: "place_shards n (all_shreds ext fs) (replicate n None) (replicate n None) = Inr (present, shards)"
    and rebuilt: "collect_results (\<lambda>index.
          and_then (rebuild_payload w meta h present shards' index) (\<lambda>payload.
          and_then (merkle_node (x_hashv ext) payload w) (\<lambda>node. Inr (payload, node)))) [0..<n] = Inr rebuilt"
    and finish: "collect_results (finish_recovery ext w n (map fst rebuilt) (make_merkle_tree (x_hashv ext) (map snd rebuilt)))
         (filter (\<lambda>index. present ! index = None) [0..<nd]) = Inr recovered"
    by (rule maybe_recover_merkle_Inr [OF run assms(3), folded nd_def, folded n_def]) blast
  note variant = w [unfolded only [OF w]] and header = header [unfolded only [OF w]]
    and rebuilt = rebuilt [unfolded only [OF w]] and finish = finish [unfolded only [OF w]]
  have wf: "wf_variant v" using recovery_variant_wf [OF variant] .
  have none: "present ! 0 = None"
    using place_shards_keeps [OF place, of nd 0] assms(4,5) shreds by (auto simp: nd_def n_def)
  have n: "0 < nd" "0 < n" using assms(4) by (simp_all add: nd_def n_def)
  have l: "length rebuilt = n" and at: "\<forall>i < n. and_then (rebuild_payload v meta h present shards' i) (\<lambda>payload.
          and_then (merkle_node (x_hashv ext) payload v) (\<lambda>node. Inr (payload, node))) = Inr (rebuilt ! i)"
    using rebuilt by (auto simp: collect_results_Inr list_all2_conv_all_nth simp del: and_then_Inr)
  obtain x node where x: "rebuild_payload v meta h present shards' 0 = Inr x" "(x, node) = rebuilt ! 0"
    using at n(2) by auto
  then have "rebuild_payload v meta h present shards' 0 = Inr (fst (rebuilt ! 0))"
    by (metis fst_conv)
  then obtain sh where "build_recovered_merkle_data_payload (hd_signature h) sh v (hd_root h) = Inr (fst (rebuilt ! 0))"
    using none n(1) by (auto simp: rebuild_payload_def Let_def nd_def)
  then have "length (fst (rebuilt ! 0)) = 1203"
    using build_data_length [OF wf] read_set_header_Inr [OF header] by blast
  then have len: "length (map fst rebuilt ! 0) = 1203" using l n(2) by simp
  have "0 \<in> set (filter (\<lambda>index. present ! index = None) [0..<nd])" using none n(1) by simp
  from collect_results_each [OF finish this]
  obtain s where "finish_recovery ext v n (map fst rebuilt) (make_merkle_tree (x_hashv ext) (map snd rebuilt)) 0 = Inr s" ..
  then obtain entries out where "set_merkle_proof (map fst rebuilt ! 0) v entries = Inr out"
    by (auto simp: finish_recovery_def)
  then have "1228 - tail_bytes v + unat (proof_size v) * 20 \<le> 1203"
    using len merkle_proof_offset_eq [OF wf] by (auto simp: set_merkle_proof_def Let_def v_def split: if_splits)
  moreover have "tail_bytes v = unat (proof_size v) * 20"
    by (simp add: tail_bytes_def proof_bytes_def resigned_bytes_def v_def)
  moreover have "tail_bytes v \<le> 364" by (rule tail_bytes_bound [OF wf])
  ultimately show False by linarith
qed

theorem no_recovery_without_data_witness:
  "maybe_recover_merkle recovery_ext (example_set\<lparr>data_shreds := []\<rparr>) \<noteq> Inr [example_shred]"
proof (rule no_recovery_without_data [where meta = example_meta and p = 2 and c = False])
  show "\<forall>s \<in> snd ` set (coding_shreds (example_set\<lparr>data_shreds := []\<rparr>)).
      from_payload (sh_payload s) = Some (MerkleCode 2 False False)
      \<and> (\<forall>i. erasure_shard_index (sh_payload s) = Some i \<longrightarrow> unat (om_num_data_shreds example_meta) \<le> i)"
    using example_original [of 2] example_index(2)
    by (simp add: example_set_def example_entry_def original_def example_meta_def)
qed (simp_all add: example_set_def example_meta_def iter_ok_def recovery_ext_def)

end
