(* ===== verification/Onchain.thy ===== *)
theory Onchain
  imports Prelude
begin

text \<open>
  What the on-chain programs and the executor share: the program ids and mints the source names
  (\<^verbatim>\<open>market-engine/src/types.rs\<close>, \<^verbatim>\<open>executor/src/flash_loans.rs\<close>), the Solana instruction and account
  views, and the runtime. The runtime is a parameter: \<open>rt_invoke\<close> runs an instruction on the ledger
  state \<open>'w\<close> and may fail with an error \<open>'e\<close>, \<open>rt_data\<close> reads an account's bytes and \<open>rt_token\<close> its
  owner and amount as a token account.
\<close>

definition RAYDIUM_AMM_V4 :: pubkey where \<comment> \<open>675kPX9MHTjS2zt1qfr1NYHuzeLXfQM9H24wFSUt1Mp8\<close>
  [simp]: "RAYDIUM_AMM_V4 = 0x4BD949C43602C33F207790ED16A3524CA1B9975CF121A2A90CFFEC7DF8B68ACD"

definition RAYDIUM_CLMM :: pubkey where \<comment> \<open>CAMMCzo5YL8w4VFF8KVHrK22GGUsp5VTaW7grrKgrWqK\<close>
  [simp]: "RAYDIUM_CLMM = 0xA5D5CA9E04CF5DB590B714BA2FE32CB159133FC1C192B72257FD07D39CB0401E"

definition ORCA_WHIRLPOOL :: pubkey where \<comment> \<open>whirLbMiicVdio4qvUfM5KAg6Ct8VwpYzGff3uctyCc\<close>
  [simp]: "ORCA_WHIRLPOOL = 0x0E03685F8E909053E458121C66F5A76AEDC7706AA11C82F8AA952A8F2B7879A9"

definition METEORA_DLMM :: pubkey where \<comment> \<open>LBUZKhRxPF3XUpBCjp4YzTKgLccjZhTSDM9YuVaPwxo\<close>
  [simp]: "METEORA_DLMM = 0x04E9E12FBC84E826C932CCE9E2640CCE15590C1C6273B0925708BA3B8520B0BC"

definition PUMPSWAP :: pubkey where \<comment> \<open>pAMMBay6oceH9fJKBRHGP5D4bD4sWpmSwMn52FMfXEA\<close>
  [simp]: "PUMPSWAP = 0x0C14DEFC825EC67694250818BB654065F4298D3156D571B4D4F8090C18E9A863"

definition FLUXBEAM :: pubkey where \<comment> \<open>FLUXubRmkEi2q6K3Y9kBPg9248ggaZVsoSFhtJHSR1X4\<close>
  [simp]: "FLUXBEAM = 0xD500C8AB3FFAD0A86BAB5F536531C6DD5E62B0626D33CDEDDF82EAD7EE7864DF"

definition SABER :: pubkey where \<comment> \<open>SSwpkEEcbUqx4vtoEByFjSkhKdCT862DNVb52nZg1UZ\<close>
  [simp]: "SABER = 0x0684DB496CFADFE7D5A1D18CD39B96CD3C88DB6484C1BC75681839119B6AFFB6"

definition RAYDIUM_CPMM :: pubkey where \<comment> \<open>CPMMoo8L3F4NbTegBCKVNunggL7H1ZpdTHKxQB5qKP1C\<close>
  [simp]: "RAYDIUM_CPMM = 0xA92A5A8B4F295952842550AA93FD5B95B5ACE6A8EB920C93942E43690C20EC73"

definition PUMPFUN_BONDING :: pubkey where \<comment> \<open>6EF8rrecthR5Dkzon8Nwu78hRvfCKubJ14M5uBEwF6P\<close>
  [simp]: "PUMPFUN_BONDING = 0x0156E0F693665ACF44DB1568BF175BAA5189CB97F5D2FF3B655D2BB6FD6D18B0"

definition JUPITER_V6 :: pubkey where \<comment> \<open>JUP6LkbZbjS1jKKwapdHNy74zcZ3tLUZoi5QNyVTaV4\<close>
  [simp]: "JUPITER_V6 = 0x0479D55BF231C06EEE74C56ECE681507FDB1B2DEA3F48E5102B1CDA256BC138F"

definition METEORA_DYNAMIC_AMM :: pubkey where \<comment> \<open>Eo7WjKq67rjJQSZxS6z3YkapzY3eMj6Xy8X5EQVn5UaB\<close>
  [simp]: "METEORA_DYNAMIC_AMM = 0xCCF802D4CCCC84D7FB21B5F73B49D81A16C5B4C88EE32394E1C91D3588CC4080"

definition RAYDIUM_LAUNCHLAB :: pubkey where \<comment> \<open>LanMV9sAd7wArD4vJFi2qDdfnVhFxYSUg6eADduJ3uj\<close>
  [simp]: "RAYDIUM_LAUNCHLAB = 0x05043B954DCA26E1EF91B52C4F8F89AF8A6F5AC8C62156F171CF0F21AC51C922"

definition MOONSHOT :: pubkey where \<comment> \<open>MoonCVVNZFSYkqNXP6bxHLPL6QQJiMagDL3qcqUQTrG\<close>
  [simp]: "MOONSHOT = 0x05548A5E7B7840913BCC877470FC78E4B2FB4D174218D1AECAE5EBBCEA4BC3D9"

definition TOKEN_PROGRAM_ID :: pubkey where \<comment> \<open>TokenkegQfeZyiNwAJbNbGKPFXCWuBvf9Ss623VQ5DA\<close>
  [simp]: "TOKEN_PROGRAM_ID = 0x06DDF6E1D765A193D9CBE146CEEB79AC1CB485ED5F5B37913A8CF5857EFF00A9"

definition SOL_MINT :: pubkey where \<comment> \<open>So11111111111111111111111111111111111111112\<close>
  [simp]: "SOL_MINT = 0x069B8857FEAB8184FB687F634618C035DAC439DC1AEB3B5598A0F00000000001"

definition USDC_MINT :: pubkey where \<comment> \<open>EPjFWdd5AufqSSqeM2qN1xzybapC8G4wEGGkZwyTDt1v\<close>
  [simp]: "USDC_MINT = 0xC6FA7AF3BEDBAD3A3D65F36AABC97431B1BBE4C2D2F6E0E47CA60203452F5D61"

definition MARGINFI_PROGRAM_ID :: pubkey where \<comment> \<open>MFv2hWf31Z9kbCa1snEPYctwafyhdvnV7FZnsebVacA\<close>
  [simp]: "MARGINFI_PROGRAM_ID = 0x05307AD6454BBC5E1E4E92059253A18BB8C8868C58A6312EC86A39E6224E373B"

definition PORT_PROGRAM_ID :: pubkey where \<comment> \<open>Port7uDYB3wk6GJAw4KT1WpTeMtSu9bTcChBHkX2LfR\<close>
  [simp]: "PORT_PROGRAM_ID = 0x05D7C339907A50E443DA90DFA1409EF7EBCA3B0CA695A31F1DDB3C5C265ED548"

definition SOLEND_PROGRAM_ID :: pubkey where \<comment> \<open>So1endDq2YkqhipRh3WViPa8hdiSpxWy6z3Z6tMCpAo\<close>
  [simp]: "SOLEND_PROGRAM_ID = 0x069B8B985AAB532A45090DE8557FCDDCBE6CB7EFC73A0A65B06F92035DB73EEC"

definition KAMINO_PROGRAM_ID :: pubkey where \<comment> \<open>KLend2g3cP87fffoy8q1mQqGKjrxjC8boSyAYavgmjD\<close>
  [simp]: "KAMINO_PROGRAM_ID = 0x04B2ACB11258CCE3682C418BA872FF3DF91102712F15AF12B6BE69B3435B0008"

definition PORT_FLASH_RECEIVER_PROGRAM_ID :: pubkey where \<comment> \<open>Hwrv5nizU3MWRbmDswt1Z2uwbGjhoJbz88chJnsyHDVi\<close>
  [simp]: "PORT_FLASH_RECEIVER_PROGRAM_ID = 0xFBC8CB383DE42436DE1D528EF8C33C8595E3B0153C659D710B090890C11F2131"

definition SYSVAR_INSTRUCTIONS_ID :: pubkey where \<comment> \<open>Sysvar1nstructions1111111111111111111111111\<close>
  [simp]: "SYSVAR_INSTRUCTIONS_ID = 0x06A7D517187BD16635DAD40455FDC2C0C124C68F215675A5DBBACB5F08000000"

record account_info =
  ai_key :: pubkey
  ai_is_signer :: bool
  ai_is_writable :: bool
  ai_executable :: bool

record account_meta =
  am_pubkey :: pubkey
  am_is_signer :: bool
  am_is_writable :: bool

record instruction =
  ix_program_id :: pubkey
  ix_accounts :: "account_meta list"
  ix_data :: bytes

text \<open>\<^verbatim>\<open>AccountMeta::new\<close> and \<^verbatim>\<open>AccountMeta::new_readonly\<close>.\<close>

definition meta_new :: "pubkey \<Rightarrow> bool \<Rightarrow> account_meta" where
  "meta_new key signer = \<lparr>am_pubkey = key, am_is_signer = signer, am_is_writable = True\<rparr>"

definition meta_readonly :: "pubkey \<Rightarrow> bool \<Rightarrow> account_meta" where
  "meta_readonly key signer = \<lparr>am_pubkey = key, am_is_signer = signer, am_is_writable = False\<rparr>"

lemma meta_simps [simp]:
  "am_pubkey (meta_new k s) = k" "am_is_signer (meta_new k s) = s" "am_is_writable (meta_new k s)"
  "am_pubkey (meta_readonly k s) = k" "am_is_signer (meta_readonly k s) = s"
  "\<not> am_is_writable (meta_readonly k s)"
  by (simp_all add: meta_new_def meta_readonly_def)

definition meta_of_account :: "account_info \<Rightarrow> account_meta" where
  "meta_of_account a = \<lparr>am_pubkey = ai_key a, am_is_signer = ai_is_signer a, am_is_writable = ai_is_writable a\<rparr>"

record token_account =
  ta_owner :: pubkey
  ta_amount :: u64

record ('w, 'e) runtime =
  rt_invoke :: "instruction \<Rightarrow> account_info list \<Rightarrow> 'w \<Rightarrow> 'e + 'w"
  rt_data :: "pubkey \<Rightarrow> 'w \<Rightarrow> bytes option"
  rt_token :: "pubkey \<Rightarrow> 'w \<Rightarrow> token_account option"

end
