(* ===== verification/Helios_Arb.thy ===== *)
theory Helios_Arb
  imports Onchain Machine
begin

text \<open>
  The on-chain arbitrage program \<^verbatim>\<open>programs/helios-arb/src/lib.rs\<close>: its configuration and the two
  handlers that run a route of swaps. The account constraints of the source's attributes
  (\<^verbatim>\<open>has_one = authority\<close>, \<^verbatim>\<open>user_token_account.owner == payer.key()\<close>) are guards of the handlers; a
  handler that fails changes nothing, as the runtime reverts the transaction.
\<close>

datatype 'e helios_error =
    UnauthorizedDex | InsufficientProfit | InvalidRoutePlan | InvalidDexProgram
  | WhitelistTooLarge | ArithmeticOverflow
  | ConstraintHasOne | ConstraintRaw | AccountNotSigner | AccountInvalid | InvokeFailed 'e | HopPanicked

definition MAX_DEX_WHITELIST :: nat where "MAX_DEX_WHITELIST = 10"
definition CONFIG_SPACE :: nat where "CONFIG_SPACE = 8 + 32 + 4 + 32 * MAX_DEX_WHITELIST"

record helios_config =
  hc_authority :: pubkey
  hc_dex_whitelist :: "pubkey list"

definition default_whitelist :: "pubkey list" where
  "default_whitelist = [RAYDIUM_AMM_V4, RAYDIUM_CLMM, ORCA_WHIRLPOOL, METEORA_DLMM, PUMPSWAP]"

definition initialize :: "pubkey \<Rightarrow> 'e helios_error + helios_config" where
  "initialize authority =
     and_then (guard_or WhitelistTooLarge (length default_whitelist \<le> MAX_DEX_WHITELIST)) (\<lambda>_.
       Inr \<lparr>hc_authority = authority, hc_dex_whitelist = default_whitelist\<rparr>)"

definition update_config ::
  "account_info \<Rightarrow> pubkey option \<Rightarrow> pubkey list option \<Rightarrow> helios_config \<Rightarrow> 'e helios_error + helios_config" where
  "update_config authority new_authority new_whitelist config =
     and_then (guard_or AccountNotSigner (ai_is_signer authority)) (\<lambda>_.
     and_then (guard_or ConstraintHasOne (hc_authority config = ai_key authority)) (\<lambda>_.
     (let config = (case new_authority of None \<Rightarrow> config | Some auth \<Rightarrow> config\<lparr>hc_authority := auth\<rparr>) in
      case new_whitelist of
        None \<Rightarrow> Inr config
      | Some whitelist \<Rightarrow>
          and_then (guard_or WhitelistTooLarge (length whitelist \<le> MAX_DEX_WHITELIST)) (\<lambda>_.
            Inr (config\<lparr>hc_dex_whitelist := whitelist\<rparr>)))))"

section \<open>The hops of a route\<close>

definition run_hop :: "('w, 'e) runtime \<Rightarrow> helios_config \<Rightarrow> account_info list \<Rightarrow> bytes \<Rightarrow> 'w \<Rightarrow> 'e helios_error + 'w" where
  "run_hop rt config accounts data w =
     (case accounts of
        [] \<Rightarrow> Inl HopPanicked
      | dex # rest \<Rightarrow>
          and_then (guard_or UnauthorizedDex (ai_key dex \<in> set (hc_dex_whitelist config))) (\<lambda>_.
          and_then (guard_or InvalidDexProgram (ai_executable dex)) (\<lambda>_.
          (case rt_invoke rt
                  \<lparr>ix_program_id = ai_key dex, ix_accounts = map meta_of_account rest, ix_data = data\<rparr> accounts w of
             Inl e \<Rightarrow> Inl (InvokeFailed e)
           | Inr w' \<Rightarrow> Inr w'))))"

fun hops_loop :: "('w, 'e) runtime \<Rightarrow> helios_config \<Rightarrow> account_info list \<Rightarrow> nat \<Rightarrow> (u8 \<times> bytes) list \<Rightarrow> 'w
    \<Rightarrow> 'e helios_error + 'w" where
  "hops_loop rt config remaining current [] w =
     and_then (guard_or InvalidRoutePlan (current = length remaining)) (\<lambda>_. Inr w)"
| "hops_loop rt config remaining current ((count, data) # hops) w =
     and_then (guard_or InvalidRoutePlan (count > 0)) (\<lambda>_.
     (let nxt = current + unat count in
      and_then (guard_or InvalidRoutePlan (nxt \<le> length remaining)) (\<lambda>_.
      and_then (ok_or HopPanicked (slice_get remaining current nxt)) (\<lambda>accounts.
      and_then (run_hop rt config accounts data w) (\<lambda>w'.
        hops_loop rt config remaining nxt hops w')))))"

definition execute_hops ::
  "('w, 'e) runtime \<Rightarrow> helios_config \<Rightarrow> account_info list \<Rightarrow> u8 list \<Rightarrow> bytes list \<Rightarrow> 'w \<Rightarrow> 'e helios_error + 'w" where
  "execute_hops rt config remaining hop_account_counts hop_data w =
     and_then (guard_or InvalidRoutePlan (length hop_account_counts = length hop_data)) (\<lambda>_.
       hops_loop rt config remaining 0 (zip hop_account_counts hop_data) w)"

section \<open>The two handlers\<close>

record flash_accounts =
  fa_payer :: account_info
  fa_user_token_account :: pubkey
  fa_config :: helios_config
  fa_remaining :: "account_info list"

definition load_user_token :: "('w, 'e) runtime \<Rightarrow> flash_accounts \<Rightarrow> 'w \<Rightarrow> 'e helios_error + token_account" where
  "load_user_token rt accs w = ok_or AccountInvalid (rt_token rt (fa_user_token_account accs) w)"

definition check_accounts :: "('w, 'e) runtime \<Rightarrow> flash_accounts \<Rightarrow> 'w \<Rightarrow> 'e helios_error + token_account" where
  "check_accounts rt accs w =
     and_then (guard_or AccountNotSigner (ai_is_signer (fa_payer accs))) (\<lambda>_.
     and_then (load_user_token rt accs w) (\<lambda>token.
     and_then (guard_or ConstraintRaw (ta_owner token = ai_key (fa_payer accs))) (\<lambda>_. Inr token)))"

text \<open>Both handlers return the new state and the profit they log.\<close>

definition execute_flash_arb ::
  "('w, 'e) runtime \<Rightarrow> flash_accounts \<Rightarrow> u64 \<Rightarrow> u64 \<Rightarrow> u8 list \<Rightarrow> bytes list \<Rightarrow> 'w \<Rightarrow> 'e helios_error + (u64 \<times> 'w)" where
  "execute_flash_arb rt accs borrow_amount min_profit hop_account_counts hop_data w =
     and_then (check_accounts rt accs w) (\<lambda>token.
     (let balance_before = ta_amount token in
      and_then (execute_hops rt (fa_config accs) (fa_remaining accs) hop_account_counts hop_data w) (\<lambda>w'.
      and_then (load_user_token rt accs w') (\<lambda>reloaded.
      (let balance_after = ta_amount reloaded in
       and_then (ok_or ArithmeticOverflow (checked_add balance_before min_profit)) (\<lambda>required_after.
       and_then (guard_or InsufficientProfit (balance_after \<ge> required_after)) (\<lambda>_.
         Inr (sat_sub balance_after balance_before, w'))))))))"

definition execute_route_only ::
  "('w, 'e) runtime \<Rightarrow> flash_accounts \<Rightarrow> u64 \<Rightarrow> u8 list \<Rightarrow> bytes list \<Rightarrow> 'w \<Rightarrow> 'e helios_error + (u64 \<times> 'w)" where
  "execute_route_only rt accs required_balance_increase hop_account_counts hop_data w =
     and_then (check_accounts rt accs w) (\<lambda>token.
     (let balance_before = ta_amount token in
      and_then (execute_hops rt (fa_config accs) (fa_remaining accs) hop_account_counts hop_data w) (\<lambda>w'.
      and_then (load_user_token rt accs w') (\<lambda>reloaded.
      (let balance_after = ta_amount reloaded in
       and_then (ok_or ArithmeticOverflow (checked_add balance_before required_balance_increase)) (\<lambda>required_after.
       and_then (guard_or InsufficientProfit (balance_after \<ge> required_after)) (\<lambda>_.
         Inr (sat_sub balance_after balance_before, w'))))))))"

section \<open>Specification of a route\<close>

text \<open>The accounts of a route cut into hops, and the calls a route stands for.\<close>

fun cut_hops :: "'a list \<Rightarrow> nat list \<Rightarrow> 'a list list" where
  "cut_hops xs [] = []"
| "cut_hops xs (n # ns) = take n xs # cut_hops (drop n xs) ns"

definition hop_call :: "account_info list \<Rightarrow> bytes \<Rightarrow> instruction \<times> account_info list" where
  "hop_call accounts data =
     (\<lparr>ix_program_id = ai_key (hd accounts), ix_accounts = map meta_of_account (tl accounts), ix_data = data\<rparr>,
      accounts)"

fun invoke_all :: "('w, 'e) runtime \<Rightarrow> (instruction \<times> account_info list) list \<Rightarrow> 'w \<Rightarrow> 'e + 'w" where
  "invoke_all rt [] w = Inr w"
| "invoke_all rt ((ix, accs) # calls) w = and_then (rt_invoke rt ix accs w) (invoke_all rt calls)"

definition trusted_hop :: "helios_config \<Rightarrow> account_info list \<Rightarrow> bool" where
  "trusted_hop config accounts \<longleftrightarrow> accounts \<noteq> [] \<and> ai_key (hd accounts) \<in> set (hc_dex_whitelist config)
     \<and> ai_executable (hd accounts)"

definition well_formed_route :: "helios_config \<Rightarrow> account_info list \<Rightarrow> nat list \<Rightarrow> bool" where
  "well_formed_route config accounts counts \<longleftrightarrow>
     list_all (\<lambda>n. 0 < n) counts \<and> sum_list counts = length accounts
     \<and> list_all (trusted_hop config) (cut_hops accounts counts)"

lemma concat_cut_hops: "sum_list ns = length xs \<Longrightarrow> concat (cut_hops xs ns) = xs"
proof (induction ns arbitrary: xs)
  case (Cons n ns)
  then have "sum_list ns = length (drop n xs)" by simp
  from Cons.IH [OF this] show ?case by simp
qed simp

lemma length_cut_hops [simp]: "length (cut_hops xs ns) = length ns"
  by (induction ns arbitrary: xs) simp_all

lemma run_hop_Inr:
  "run_hop rt config accounts data w = Inr w' \<longleftrightarrow>
     trusted_hop config accounts \<and> rt_invoke rt (fst (hop_call accounts data)) accounts w = Inr w'"
  by (cases accounts) (auto simp: run_hop_def trusted_hop_def hop_call_def split: sum.splits)

lemma hops_loop_spec:
  "current \<le> length remaining \<Longrightarrow>
   hops_loop rt config remaining current hops w = Inr w' \<longleftrightarrow>
     well_formed_route config (drop current remaining) (map (unat \<circ> fst) hops)
     \<and> invoke_all rt (map2 hop_call (cut_hops (drop current remaining) (map (unat \<circ> fst) hops)) (map snd hops)) w = Inr w'"
proof (induction rt config remaining current hops w rule: hops_loop.induct)
  case (1 rt config remaining current w)
  then show ?case by (auto simp: well_formed_route_def)
next
  case (2 rt config remaining current count data hops w)
  define nxt where "nxt = current + unat count"
  have pos: "count > 0 \<longleftrightarrow> 0 < unat count" by (simp add: word_less_nat_alt)
  show ?case
  proof (cases "0 < unat count \<and> nxt \<le> length remaining")
    case True
    then have slice: "slice_get remaining current nxt = Some (take (unat count) (drop current remaining))"
      by (simp add: slice_get_def nxt_def)
    have drop: "drop (unat count) (drop current remaining) = drop nxt remaining"
      by (simp add: nxt_def add.commute)
    have IH: "hops_loop rt config remaining nxt hops w1 = Inr w' \<longleftrightarrow>
        well_formed_route config (drop nxt remaining) (map (unat \<circ> fst) hops)
        \<and> invoke_all rt (map2 hop_call (cut_hops (drop nxt remaining) (map (unat \<circ> fst) hops)) (map snd hops)) w1 = Inr w'" for w1
      using 2(1) True nxt_def by blast
    have wf: "well_formed_route config (drop current remaining) (unat count # map (unat \<circ> fst) hops)
        \<longleftrightarrow> trusted_hop config (take (unat count) (drop current remaining))
          \<and> well_formed_route config (drop nxt remaining) (map (unat \<circ> fst) hops)"
      using True drop by (auto simp: well_formed_route_def nxt_def)
    have calls: "map2 hop_call (cut_hops (drop current remaining) (map (unat \<circ> fst) ((count, data) # hops))) (map snd ((count, data) # hops))
        = hop_call (take (unat count) (drop current remaining)) data
          # map2 hop_call (cut_hops (drop nxt remaining) (map (unat \<circ> fst) hops)) (map snd hops)"
      using drop by simp
    define accs where "accs = take (unat count) (drop current remaining)"
    have loop: "hops_loop rt config remaining current ((count, data) # hops) w = Inr w'
        \<longleftrightarrow> (\<exists>w1. run_hop rt config accs data w = Inr w1 \<and> hops_loop rt config remaining nxt hops w1 = Inr w')"
      using True slice pos by (simp add: Let_def nxt_def [symmetric] accs_def)
    have inv: "invoke_all rt (hop_call accs data # cs) w = Inr w'
        \<longleftrightarrow> (\<exists>w1. rt_invoke rt (fst (hop_call accs data)) accs w = Inr w1 \<and> invoke_all rt cs w1 = Inr w')" for cs
      by (simp add: hop_call_def)
    have counts: "map (unat \<circ> fst) ((count, data) # hops) = unat count # map (unat \<circ> fst) hops" by simp
    show ?thesis
      unfolding loop calls accs_def [symmetric] inv
      unfolding counts wf [folded accs_def] run_hop_Inr IH by blast
  next
    case False
    then have "\<not> well_formed_route config (drop current remaining) (map (unat \<circ> fst) ((count, data) # hops))"
      using 2(2) by (auto simp: well_formed_route_def nxt_def)
    moreover have "hops_loop rt config remaining current ((count, data) # hops) w \<noteq> Inr w'"
      using False pos by (auto simp: Let_def nxt_def)
    ultimately show ?thesis by blast
  qed
qed

lemma execute_hops_spec:
  "execute_hops rt config remaining counts data w = Inr w' \<longleftrightarrow>
     length counts = length data \<and> well_formed_route config remaining (map unat counts)
     \<and> invoke_all rt (map2 hop_call (cut_hops remaining (map unat counts)) data) w = Inr w'"
proof (cases "length counts = length data")
  case True
  then have "map (unat \<circ> fst) (zip counts data) = map unat counts" "map snd (zip counts data) = data"
    by (simp_all add: map_map [symmetric] del: map_map)
  with True hops_loop_spec [of 0 remaining rt config "zip counts data" w w'] show ?thesis
    by (simp add: execute_hops_def)
qed (simp add: execute_hops_def)

text \<open>
  Property C2. \<^verbatim>\<open>execute_hops\<close> of the on-chain program succeeds exactly on well-formed routes whose calls
  succeed: the account counts are positive and cut the remaining accounts into the hops without rest, the
  first account of every hop is executable and its key is in the whitelist of the configuration, and the
  state is the one reached by invoking, in order, the program of each hop on its other accounts with the
  hop's data. No other program is ever invoked.
\<close>

theorem hops_only_whitelisted:
  "execute_hops rt config remaining counts data w = Inr w' \<longleftrightarrow>
     length counts = length data
     \<and> list_all (\<lambda>n. 0 < n) (map unat counts) \<and> concat (cut_hops remaining (map unat counts)) = remaining
     \<and> sum_list (map unat counts) = length remaining
     \<and> list_all (\<lambda>accs. ai_executable (hd accs) \<and> ai_key (hd accs) \<in> set (hc_dex_whitelist config))
         (cut_hops remaining (map unat counts))
     \<and> invoke_all rt (map2 hop_call (cut_hops remaining (map unat counts)) data) w = Inr w'"
proof -
  have ne: "list_all (\<lambda>accs. accs \<noteq> []) (cut_hops xs ns)"
    if "list_all (\<lambda>n. 0 < n) ns" "sum_list ns = length xs" for xs :: "account_info list" and ns
    using that by (induction ns arbitrary: xs) (auto simp: diff_add_inverse)
  have "well_formed_route config remaining ns \<longleftrightarrow> list_all (\<lambda>n. 0 < n) ns
      \<and> concat (cut_hops remaining ns) = remaining \<and> sum_list ns = length remaining
      \<and> list_all (\<lambda>accs. ai_executable (hd accs) \<and> ai_key (hd accs) \<in> set (hc_dex_whitelist config))
         (cut_hops remaining ns)" for ns
    using ne [of ns remaining] concat_cut_hops [of ns remaining]
    by (auto simp: well_formed_route_def trusted_hop_def list_all_iff)
  then show ?thesis by (auto simp: execute_hops_spec)
qed

section \<open>Profit\<close>

lemma execute_flash_arb_Inr:
  "execute_flash_arb rt accs b p counts data w = Inr (profit, w') \<longleftrightarrow>
     ai_is_signer (fa_payer accs)
     \<and> (\<exists>before after. rt_token rt (fa_user_token_account accs) w = Some before
        \<and> ta_owner before = ai_key (fa_payer accs)
        \<and> execute_hops rt (fa_config accs) (fa_remaining accs) counts data w = Inr w'
        \<and> rt_token rt (fa_user_token_account accs) w' = Some after
        \<and> unat (ta_amount before) + unat p \<le> unat (ta_amount after)
        \<and> unat profit = unat (ta_amount after) - unat (ta_amount before))"
proof -
  have req: "(\<exists>r. checked_add a p = Some r \<and> r \<le> b) \<longleftrightarrow> unat a + unat p \<le> unat b" for a b :: u64
    using unat_u64_bound [of b]
    by (auto simp: checked_add_def word_le_nat_alt unat_add_small simp del: unat_u64_bound)
  have prof: "sat_sub b a = profit \<longleftrightarrow> unat profit = unat b - unat a" for a b :: u64
    by (auto simp: word_unat_eq_iff unat_sat_sub)
  show ?thesis
    by (auto simp: execute_flash_arb_def check_accounts_def load_user_token_def Let_def
        req [symmetric] prof [symmetric])
qed

lemma route_only_profit:
  assumes "execute_route_only rt accs p counts data w = Inr (profit, w')"
  shows "\<exists>before after. rt_token rt (fa_user_token_account accs) w = Some before
      \<and> rt_token rt (fa_user_token_account accs) w' = Some after
      \<and> ta_owner before = ai_key (fa_payer accs) \<and> ai_is_signer (fa_payer accs)
      \<and> unat (ta_amount after) = unat (ta_amount before) + unat profit \<and> p \<le> profit
      \<and> execute_hops rt (fa_config accs) (fa_remaining accs) counts data w = Inr w'"
proof -
  have "execute_route_only rt accs p counts data w = execute_flash_arb rt accs 0 p counts data w"
    by (simp only: execute_route_only_def execute_flash_arb_def)
  with assms obtain before after where "ai_is_signer (fa_payer accs)"
    "rt_token rt (fa_user_token_account accs) w = Some before" "ta_owner before = ai_key (fa_payer accs)"
    "execute_hops rt (fa_config accs) (fa_remaining accs) counts data w = Inr w'"
    "rt_token rt (fa_user_token_account accs) w' = Some after"
    "unat (ta_amount before) + unat p \<le> unat (ta_amount after)"
    "unat profit = unat (ta_amount after) - unat (ta_amount before)"
    using execute_flash_arb_Inr by metis
  then show ?thesis by (simp add: word_le_nat_alt)
qed

text \<open>
  Property C1. A flash arbitrage that succeeds has made its profit: the route ran on the whitelist, the
  payer signed and owns the token account, and the account's amount rose by at least the requested
  profit, computed without wrap-around; the logged profit is the exact increase. \<^verbatim>\<open>execute_route_only\<close>
  behaves the same with its required increase.
\<close>

theorem profit_enforced:
  assumes "execute_flash_arb rt accs borrow_amount min_profit counts data w = Inr (profit, w')"
  shows "(\<exists>before after. rt_token rt (fa_user_token_account accs) w = Some before
      \<and> rt_token rt (fa_user_token_account accs) w' = Some after
      \<and> ta_owner before = ai_key (fa_payer accs) \<and> ai_is_signer (fa_payer accs)
      \<and> unat (ta_amount after) = unat (ta_amount before) + unat profit \<and> min_profit \<le> profit
      \<and> execute_hops rt (fa_config accs) (fa_remaining accs) counts data w = Inr w')
    \<and> execute_route_only rt accs min_profit counts data w = Inr (profit, w')"
proof -
  have "execute_route_only rt accs min_profit counts data w = execute_flash_arb rt accs borrow_amount min_profit counts data w"
    by (simp only: execute_route_only_def execute_flash_arb_def)
  with assms have "execute_route_only rt accs min_profit counts data w = Inr (profit, w')" by simp
  with route_only_profit [OF this] show ?thesis by blast
qed

definition example_runtime :: "(u64, string) runtime" where
  "example_runtime = \<lparr>rt_invoke = (\<lambda>ix accs w. Inr (w + 7)), rt_data = (\<lambda>_ _. None),
     rt_token = (\<lambda>key w. Some \<lparr>ta_owner = 1, ta_amount = w\<rparr>)\<rparr>"

definition example_accounts :: flash_accounts where
  "example_accounts = \<lparr>fa_payer = \<lparr>ai_key = 1, ai_is_signer = True, ai_is_writable = True, ai_executable = False\<rparr>,
     fa_user_token_account = 2, fa_config = \<lparr>hc_authority = 1, hc_dex_whitelist = [9]\<rparr>,
     fa_remaining = [\<lparr>ai_key = 9, ai_is_signer = False, ai_is_writable = False, ai_executable = True\<rparr>]\<rparr>"

theorem profit_enforced_witness:
  "execute_route_only example_runtime example_accounts 5 [1] [[42]] 100 = Inr (7, 107)"
proof -
  have "execute_flash_arb example_runtime example_accounts 100 5 [1] [[42]] 100 = Inr (7, 107)"
    by (simp add: execute_flash_arb_def check_accounts_def load_user_token_def execute_hops_def run_hop_def
        example_runtime_def example_accounts_def slice_get_def checked_add_def sat_sub_def Let_def)
  from profit_enforced [OF this] show ?thesis by blast
qed

section \<open>The configuration over time\<close>

record update_call =
  uc_authority :: account_info
  uc_new_authority :: "pubkey option"
  uc_new_whitelist :: "pubkey list option"

definition config_step :: "update_call \<Rightarrow> helios_config \<Rightarrow> helios_config option" where
  "config_step call config =
     (case (update_config (uc_authority call) (uc_new_authority call) (uc_new_whitelist call) config
            :: unit helios_error + helios_config) of
        Inl _ \<Rightarrow> Some config
      | Inr config' \<Rightarrow> Some config')"

definition initial_config :: "pubkey \<Rightarrow> helios_config" where
  "initial_config authority = \<lparr>hc_authority = authority, hc_dex_whitelist = default_whitelist\<rparr>"

definition config_fits :: "helios_config \<Rightarrow> bool" where
  "config_fits c \<longleftrightarrow> 8 + 32 + 4 + 32 * length (hc_dex_whitelist c) \<le> CONFIG_SPACE"

definition signed_by :: "pubkey \<Rightarrow> update_call \<Rightarrow> bool" where
  "signed_by k call \<longleftrightarrow> ai_is_signer (uc_authority call) \<and> ai_key (uc_authority call) = k"

lemma update_config_Inr:
  "update_config a na nw c = Inr c' \<longleftrightarrow> ai_is_signer a \<and> hc_authority c = ai_key a
     \<and> (\<forall>wl. nw = Some wl \<longrightarrow> length wl \<le> 10)
     \<and> c' = c\<lparr>hc_authority := unwrap_or (hc_authority c) na, hc_dex_whitelist := unwrap_or (hc_dex_whitelist c) nw\<rparr>"
  by (auto simp: update_config_def Let_def MAX_DEX_WHITELIST_def split: option.splits)

lemma initialize_ok: "initialize authority = Inr (initial_config authority)"
  by (simp add: initialize_def initial_config_def default_whitelist_def MAX_DEX_WHITELIST_def)

interpretation config: total_machine "initial_config authority" config_step "\<lambda>_. True" config_fits for authority
proof unfold_locales
  show "config_fits (initial_config authority)"
    by (simp add: config_fits_def initial_config_def default_whitelist_def CONFIG_SPACE_def MAX_DEX_WHITELIST_def)
next
  fix s s' and c :: update_call
  assume "config_fits s" "config_step c s = Some s'"
  then show "config_fits s'"
    by (auto simp: config_step_def config_fits_def CONFIG_SPACE_def MAX_DEX_WHITELIST_def update_config_Inr
        unwrap_or_def split: sum.splits option.splits)
next
  fix s and c :: update_call
  show "\<exists>s'. config_step c s = Some s'" by (simp add: config_step_def split: sum.split)
qed

interpretation frozen: invariant_machine "initial_config authority" config_step
    "\<lambda>call. \<not> signed_by authority call" "\<lambda>c. c = initial_config authority" for authority
proof unfold_locales
  fix s s' and c :: update_call
  assume s: "s = initial_config authority" and unsigned: "\<not> signed_by authority c" and step: "config_step c s = Some s'"
  show "s' = initial_config authority"
  proof (cases "update_config (uc_authority c) (uc_new_authority c) (uc_new_whitelist c) s :: unit helios_error + helios_config")
    case (Inl e)
    with s step show ?thesis by (simp add: config_step_def)
  next
    case (Inr c')
    then show ?thesis using s unsigned by (auto simp: update_config_Inr signed_by_def initial_config_def)
  qed
qed simp

text \<open>
  Property C10. The configuration always fits the account allocated for it: after \<^verbatim>\<open>initialize\<close> and any
  sequence of \<^verbatim>\<open>update_config\<close> calls, accepted or rejected, the whitelist has at most ten entries and
  the stored bytes are at most \<^verbatim>\<open>CONFIG_SPACE\<close>; and as long as no call is signed by the authority, the
  configuration stays the initial one.
\<close>

theorem config_guarded:
  assumes "initialize authority = (Inr c0 :: unit helios_error + helios_config)"
  shows "\<exists>c. run config_step calls c0 = Some c \<and> length (hc_dex_whitelist c) \<le> MAX_DEX_WHITELIST
    \<and> 8 + 32 + 4 + 32 * length (hc_dex_whitelist c) \<le> CONFIG_SPACE
    \<and> (list_all (\<lambda>call. \<not> signed_by authority call) calls \<longrightarrow> c = c0)"
proof -
  have c0: "c0 = initial_config authority" using assms by (simp add: initialize_ok)
  obtain c where c: "run config_step calls (initial_config authority) = Some c" "config_fits c"
    using config.run_returns [of calls] by blast
  moreover have "c = initial_config authority" if "list_all (\<lambda>call. \<not> signed_by authority call) calls"
    using frozen.run_inv [of calls authority c] that c(1) by (simp add: list_all_iff)
  ultimately show ?thesis
    by (auto simp: c0 config_fits_def CONFIG_SPACE_def MAX_DEX_WHITELIST_def)
qed

theorem config_guarded_witness:
  "\<exists>c. run config_step [\<lparr>uc_authority = \<lparr>ai_key = 5, ai_is_signer = True, ai_is_writable = False, ai_executable = False\<rparr>,
       uc_new_authority = Some 5, uc_new_whitelist = None\<rparr>] (initial_config 7) = Some c \<and> c = initial_config 7"
  using config_guarded [OF initialize_ok, where authority = 7 and calls = "[\<lparr>uc_authority = \<lparr>ai_key = 5, ai_is_signer = True, ai_is_writable = False,
       ai_executable = False\<rparr>, uc_new_authority = Some 5, uc_new_whitelist = None\<rparr>]"]
  by (simp add: signed_by_def)

end
