(* ===== verification/Port_Receiver.thy ===== *)
theory Port_Receiver
  imports Helios_Arb
begin

text \<open>
  The on-chain receiver of Port Finance flash loans, \<^verbatim>\<open>programs/port-flash-receiver/src/lib.rs\<close>. Borsh,
  the hash and the instructions sysvar are the record \<open>receiver_ext\<close>; the runtime and the accounts are
  those of \<open>Onchain\<close>.
\<close>

datatype receiver_instruction =
    ReceiveFlashLoan u64
  | CarryPlan u64 "u8 list" "bytes list"

record route_only_args =
  roa_required_balance_increase :: u64
  roa_hop_account_counts :: "u8 list"
  roa_hop_data :: "bytes list"

record receiver_ext =
  rx_try_from_slice :: "bytes \<Rightarrow> receiver_instruction option"
  rx_serialize_args :: "route_only_args \<Rightarrow> bytes"
  rx_hash :: "bytes \<Rightarrow> bytes"
  rx_current_index :: "u16 option"
  rx_instruction_at :: "nat \<Rightarrow> instruction option"

datatype 'e program_error =
    InvalidInstructionData | InvalidAccountData | MissingRequiredSignature | NotEnoughAccountKeys
  | SysvarFailed | AccountBorrowFailed | CpiFailed 'e

definition bytes_of_string :: "string \<Rightarrow> bytes" where
  "bytes_of_string s = map of_char s"

definition anchor_discriminator :: "receiver_ext \<Rightarrow> string \<Rightarrow> bytes" where
  "anchor_discriminator rx name = take 8 (rx_hash rx (bytes_of_string ''global:'' @ bytes_of_string name))"

definition build_helios_route_only_ix ::
  "receiver_ext \<Rightarrow> pubkey \<Rightarrow> pubkey \<Rightarrow> pubkey \<Rightarrow> pubkey \<Rightarrow> pubkey \<Rightarrow> route_only_args \<Rightarrow> account_info list \<Rightarrow> instruction" where
  "build_helios_route_only_ix rx helios_program payer user_token_account helios_config token_program args remaining =
     \<lparr>ix_program_id = helios_program,
      ix_accounts = [meta_new payer True, meta_new user_token_account False,
          meta_readonly helios_config False, meta_readonly token_program False] @ map meta_of_account remaining,
      ix_data = anchor_discriminator rx ''execute_route_only'' @ rx_serialize_args rx args\<rparr>"

definition build_spl_token_transfer_ix :: "pubkey \<Rightarrow> pubkey \<Rightarrow> pubkey \<Rightarrow> pubkey \<Rightarrow> u64 \<Rightarrow> instruction" where
  "build_spl_token_transfer_ix token_program source destination authority amount =
     \<lparr>ix_program_id = token_program,
      ix_accounts = [meta_new source False, meta_new destination False, meta_readonly authority True],
      ix_data = 3 # u64_to_le amount\<rparr>"

definition read_token_amount :: "('w, 'e) runtime \<Rightarrow> pubkey \<Rightarrow> 'w \<Rightarrow> 'e program_error + u64" where
  "read_token_amount rt key w =
     and_then (ok_or AccountBorrowFailed (rt_data rt key w)) (\<lambda>data.
       if length data < 72 then Inl InvalidAccountData
       else Inr (u64_of_le (take 8 (drop 64 data))))"

definition cpi :: "('w, 'e) runtime \<Rightarrow> instruction \<Rightarrow> account_info list \<Rightarrow> 'w \<Rightarrow> 'e program_error + 'w" where
  "cpi rt ix infos w = (case rt_invoke rt ix infos w of Inl e \<Rightarrow> Inl (CpiFailed e) | Inr w' \<Rightarrow> Inr w')"

text \<open>The plan that the instruction after the current one carries.\<close>

definition load_plan :: "receiver_ext \<Rightarrow> pubkey \<Rightarrow> 'e program_error + route_only_args" where
  "load_plan rx program_id =
     and_then (ok_or SysvarFailed (rx_current_index rx)) (\<lambda>current_index.
     and_then (ok_or SysvarFailed (rx_instruction_at rx (unat current_index + 1))) (\<lambda>carrier_ix.
       if ix_program_id carrier_ix \<noteq> program_id then Inl InvalidInstructionData
       else (case rx_try_from_slice rx (ix_data carrier_ix) of
           Some (CarryPlan min_profit hop_account_counts hop_data) \<Rightarrow>
             Inr \<lparr>roa_required_balance_increase = min_profit, roa_hop_account_counts = hop_account_counts,
                  roa_hop_data = hop_data\<rparr>
         | _ \<Rightarrow> Inl InvalidInstructionData)))"

fun process_receive_flash_loan ::
  "receiver_ext \<Rightarrow> ('w, 'e) runtime \<Rightarrow> pubkey \<Rightarrow> account_info list \<Rightarrow> u64 \<Rightarrow> 'w \<Rightarrow> 'e program_error + 'w" where
  "process_receive_flash_loan rx rt program_id
     (user_token_account # reserve_liquidity_supply # token_program # payer # helios_program # helios_config
      # instructions_sysvar # remaining) repay_amount w =
     and_then (guard_or InvalidAccountData (ai_key instructions_sysvar = SYSVAR_INSTRUCTIONS_ID)) (\<lambda>_.
     and_then (guard_or MissingRequiredSignature (ai_is_signer payer)) (\<lambda>_.
     and_then (load_plan rx program_id) (\<lambda>plan.
     and_then (read_token_amount rt (ai_key user_token_account) w) (\<lambda>receiver_balance_before.
     and_then (cpi rt
         (build_helios_route_only_ix rx (ai_key helios_program) (ai_key payer) (ai_key user_token_account)
            (ai_key helios_config) (ai_key token_program) plan remaining)
         ([helios_program, payer, user_token_account, helios_config, token_program] @ remaining) w) (\<lambda>w1.
     and_then (read_token_amount rt (ai_key user_token_account) w1) (\<lambda>receiver_balance_after_helios.
     and_then (cpi rt
         (build_spl_token_transfer_ix (ai_key token_program) (ai_key user_token_account)
            (ai_key reserve_liquidity_supply) (ai_key payer) repay_amount)
         [user_token_account, reserve_liquidity_supply, payer, token_program] w1) (\<lambda>w2.
     and_then (read_token_amount rt (ai_key user_token_account) w2) (\<lambda>receiver_balance_after_repay.
       Inr w2))))))))"
| "process_receive_flash_loan rx rt program_id accounts repay_amount w = Inl NotEnoughAccountKeys"

definition process_instruction ::
  "receiver_ext \<Rightarrow> ('w, 'e) runtime \<Rightarrow> pubkey \<Rightarrow> account_info list \<Rightarrow> bytes \<Rightarrow> 'w \<Rightarrow> 'e program_error + 'w" where
  "process_instruction rx rt program_id accounts instruction_data w =
     (case rx_try_from_slice rx instruction_data of
        None \<Rightarrow> Inl InvalidInstructionData
      | Some (ReceiveFlashLoan repay_amount) \<Rightarrow>
          process_receive_flash_loan rx rt program_id accounts repay_amount w
      | Some (CarryPlan _ _ _) \<Rightarrow> Inr w)"

section \<open>What a received loan does\<close>

fun_cases process_receive_Inr: "process_receive_flash_loan rx rt program_id accounts repay_amount w = Inr w'"

lemma cpi_Inr [simp]: "cpi rt ix infos w = Inr w' \<longleftrightarrow> rt_invoke rt ix infos w = Inr w'"
  by (simp add: cpi_def split: sum.split)

lemma load_plan_Inr:
  "load_plan rx program_id = Inr plan \<longleftrightarrow>
     (\<exists>i carrier. rx_current_index rx = Some i \<and> rx_instruction_at rx (Suc (unat i)) = Some carrier
        \<and> ix_program_id carrier = program_id
        \<and> rx_try_from_slice rx (ix_data carrier) =
            Some (CarryPlan (roa_required_balance_increase plan) (roa_hop_account_counts plan) (roa_hop_data plan)))"
proof (cases "rx_current_index rx")
  case (Some i)
  show ?thesis
  proof (cases "rx_instruction_at rx (Suc (unat i))")
    case (Some carrier)
    with \<open>rx_current_index rx = Some i\<close> show ?thesis
      by (cases "rx_try_from_slice rx (ix_data carrier)" rule: option.exhaust; cases plan)
        (auto simp: load_plan_def split: receiver_instruction.splits)
  qed (use Some in \<open>simp add: load_plan_def\<close>)
qed (simp add: load_plan_def)

text \<open>How the deployed arbitrage program answers a call: as \<^verbatim>\<open>execute_route_only\<close> on the accounts
  and the arguments of the instruction.\<close>

definition helios_answers ::
  "('w, 'e) runtime \<Rightarrow> instruction \<Rightarrow> account_info list \<Rightarrow> flash_accounts \<Rightarrow> route_only_args \<Rightarrow> bool" where
  "helios_answers rt ix infos accs args \<longleftrightarrow>
     (\<forall>w w1. rt_invoke rt ix infos w = Inr w1 \<longrightarrow>
        (\<exists>profit. execute_route_only rt accs (roa_required_balance_increase args) (roa_hop_account_counts args)
           (roa_hop_data args) w = Inr (profit, w1)))"

lemma receive_flash_loan_spec:
  fixes rt :: "('w, 'e) runtime"
  assumes "process_receive_flash_loan rx rt program_id accounts repay_amount w = Inr w'"
  shows "\<exists>user reserve token payer helios config sysvar remaining plan w1.
    accounts = user # reserve # token # payer # helios # config # sysvar # remaining
    \<and> ai_key sysvar = SYSVAR_INSTRUCTIONS_ID \<and> ai_is_signer payer
    \<and> load_plan rx program_id = (Inr plan :: 'e program_error + route_only_args)
    \<and> rt_invoke rt (build_helios_route_only_ix rx (ai_key helios) (ai_key payer) (ai_key user) (ai_key config)
        (ai_key token) plan remaining) ([helios, payer, user, config, token] @ remaining) w = Inr w1
    \<and> rt_invoke rt (build_spl_token_transfer_ix (ai_key token) (ai_key user) (ai_key reserve) (ai_key payer) repay_amount)
        [user, reserve, payer, token] w1 = Inr w'"
  using assms by (elim process_receive_Inr) (auto simp: eq_commute [of "Inr w'"])


definition account :: "pubkey \<Rightarrow> bool \<Rightarrow> account_info" where
  "account key signer = \<lparr>ai_key = key, ai_is_signer = signer, ai_is_writable = False, ai_executable = (key = 9)\<rparr>"

definition example_plan :: route_only_args where
  "example_plan = \<lparr>roa_required_balance_increase = 5, roa_hop_account_counts = [1], roa_hop_data = [[42]]\<rparr>"

definition example_rx :: receiver_ext where
  "example_rx = \<lparr>rx_try_from_slice = (\<lambda>_. Some (CarryPlan 5 [1] [[42]])), rx_serialize_args = (\<lambda>_. []),
     rx_hash = (\<lambda>_. []), rx_current_index = Some 3,
     rx_instruction_at = (\<lambda>_. Some \<lparr>ix_program_id = 77, ix_accounts = [], ix_data = []\<rparr>)\<rparr>"

text \<open>A ledger whose state is the user's balance: program 9 is an exchange that earns 7, program 8 the
  arbitrage program, and the token program takes the repayment of 107.\<close>

definition loan_runtime :: "(u64, string) runtime" where
  "loan_runtime = \<lparr>rt_invoke = (\<lambda>ix accs w.
       if ix_program_id ix = 9 then Inr (w + 7)
       else if ix_program_id ix = 8 then (if w = 100 then Inr 107 else Inl ''unexpected'')
       else if w < 107 then Inl ''insufficient'' else Inr (w - 107)),
     rt_data = (\<lambda>_ _. Some (replicate 72 0)), rt_token = (\<lambda>key w. Some \<lparr>ta_owner = 1, ta_amount = w\<rparr>)\<rparr>"

lemma loan_runtime_answers:
  "helios_answers loan_runtime
      (build_helios_route_only_ix example_rx 8 1 2 4 5 example_plan [account 9 False])
      ([account 8 False, account 1 True, account 2 False, account 4 False, account 5 False] @ [account 9 False])
      \<lparr>fa_payer = account 1 True, fa_user_token_account = 2,
       fa_config = \<lparr>hc_authority = 1, hc_dex_whitelist = [9]\<rparr>, fa_remaining = [account 9 False]\<rparr> example_plan"
proof -
  have "execute_route_only loan_runtime \<lparr>fa_payer = account 1 True, fa_user_token_account = 2,
       fa_config = \<lparr>hc_authority = 1, hc_dex_whitelist = [9]\<rparr>, fa_remaining = [account 9 False]\<rparr> 5 [1] [[42]] 100
     = Inr (7, 107)"
    by (simp add: execute_route_only_def check_accounts_def load_user_token_def execute_hops_def run_hop_def
        loan_runtime_def account_def slice_get_def checked_add_def sat_sub_def Let_def)
  then show ?thesis
    by (auto simp: helios_answers_def example_plan_def build_helios_route_only_ix_def)
      (auto simp: loan_runtime_def split: if_splits)
qed


end
