(* ===== verification/Flash_Provider.thy ===== *)
theory Flash_Provider
  imports Onchain "HOL-Library.Product_Lexorder"
begin

text \<open>
  Flash-loan providers (\<^verbatim>\<open>FlashProvider\<close> of \<^verbatim>\<open>market-engine/src/types.rs\<close>) and their selection
  (\<^verbatim>\<open>market-engine/src/flash_selector.rs\<close>, \<^verbatim>\<open>fallback_candidates\<close> of \<^verbatim>\<open>executor/src/flash_loans.rs\<close>).
\<close>

datatype flash_provider = MarginFi | PortFinance | Solend | Kamino

fun fee_bps :: "flash_provider \<Rightarrow> u64" where
  "fee_bps MarginFi = 0"
| "fee_bps PortFinance = 9"
| "fee_bps Solend = 30"
| "fee_bps Kamino = 1"

fun provider_program_id :: "flash_provider \<Rightarrow> pubkey" where
  "provider_program_id MarginFi = MARGINFI_PROGRAM_ID"
| "provider_program_id PortFinance = PORT_PROGRAM_ID"
| "provider_program_id Solend = SOLEND_PROGRAM_ID"
| "provider_program_id Kamino = KAMINO_PROGRAM_ID"

fun priority :: "flash_provider \<Rightarrow> u8" where
  "priority MarginFi = 0"
| "priority PortFinance = 1"
| "priority Solend = 2"
| "priority Kamino = 3"

text \<open>\<^verbatim>\<open>Vec::dedup\<close> removes consecutive repetitions, as \<open>remdups_adj\<close> does.\<close>

definition fallback_order :: "flash_provider \<Rightarrow> flash_provider list" where
  "fallback_order preferred = remdups_adj [preferred, MarginFi, PortFinance, Solend, Kamino]"

definition fallback_candidates :: "flash_provider \<Rightarrow> flash_provider list" where
  "fallback_candidates preferred =
     fold (\<lambda>provider providers. if provider \<in> set providers then providers else providers @ [provider])
       [preferred, MarginFi, Solend, Kamino, PortFinance] []"

section \<open>The selector\<close>

record flash_provider_info =
  fpi_provider :: flash_provider
  fpi_available_lamports :: u64
  fpi_healthy :: bool

type_synonym flash_selector = "flash_provider_info list"

definition new_flash_selector :: flash_selector where
  "new_flash_selector =
     [\<lparr>fpi_provider = MarginFi, fpi_available_lamports = 10000000000000, fpi_healthy = True\<rparr>,
      \<lparr>fpi_provider = PortFinance, fpi_available_lamports = 5000000000000, fpi_healthy = False\<rparr>,
      \<lparr>fpi_provider = Solend, fpi_available_lamports = 8000000000000, fpi_healthy = True\<rparr>,
      \<lparr>fpi_provider = Kamino, fpi_available_lamports = 15000000000000, fpi_healthy = True\<rparr>]"

definition provider_rank :: "flash_provider \<Rightarrow> u64 \<times> u8" where
  "provider_rank p = (fee_bps p, priority p)"

definition select_provider :: "u64 \<Rightarrow> flash_selector \<Rightarrow> flash_provider option" where
  "select_provider borrow_amount providers =
     (let candidates = filter (\<lambda>p. fpi_healthy p \<and> fpi_available_lamports p \<ge> borrow_amount) providers in
      case sort_key (\<lambda>p. provider_rank (fpi_provider p)) candidates of
        [] \<Rightarrow> None
      | best # _ \<Rightarrow> Some (fpi_provider best))"

text \<open>\<^verbatim>\<open>iter_mut().find(..)\<close>: the first entry of the provider is changed.\<close>

fun update_first :: "('a \<Rightarrow> bool) \<Rightarrow> ('a \<Rightarrow> 'a) \<Rightarrow> 'a list \<Rightarrow> 'a list" where
  "update_first P f [] = []"
| "update_first P f (x # xs) = (if P x then f x # xs else x # update_first P f xs)"

definition mark_unhealthy :: "flash_provider \<Rightarrow> flash_selector \<Rightarrow> flash_selector" where
  "mark_unhealthy provider =
     update_first (\<lambda>p. fpi_provider p = provider) (\<lambda>p. p\<lparr>fpi_healthy := False\<rparr>)"

definition update_liquidity :: "flash_provider \<Rightarrow> u64 \<Rightarrow> flash_selector \<Rightarrow> flash_selector" where
  "update_liquidity provider available =
     update_first (\<lambda>p. fpi_provider p = provider)
       (\<lambda>p. p\<lparr>fpi_available_lamports := available, fpi_healthy := True\<rparr>)"

definition flash_fee :: "flash_provider \<Rightarrow> u64 \<Rightarrow> u64" where
  "flash_fee provider borrow_amount = narrow (widen borrow_amount * widen (fee_bps provider) div 10000)"

section \<open>Properties\<close>

lemma fee_exact: "unat (flash_fee p b) = unat b * unat (fee_bps p) div 10000"
proof -
  have f: "unat (fee_bps p) \<le> 30" by (cases p) simp_all
  have b: "unat b < 18446744073709551616" by simp
  have le: "unat b * unat (fee_bps p) \<le> unat b * 30" using f by simp
  then have "unat b * unat (fee_bps p) < 340282366920938463463374607431768211456" using b by linarith
  then have prod: "unat (widen b * widen (fee_bps p)) = unat b * unat (fee_bps p)"
    by (simp add: unat_mult_u128)
  then have q: "unat (widen b * widen (fee_bps p) div 10000) = unat b * unat (fee_bps p) div 10000"
    by (simp add: unat_div)
  have "unat b * unat (fee_bps p) div 10000 < 18446744073709551616"
    using le b by linarith
  then show ?thesis
    unfolding flash_fee_def using q by (simp add: unat_narrow_small)
qed

lemma select_in_providers:
  assumes "select_provider b ps = Some p"
  obtains i where "i \<in> set ps" "fpi_provider i = p" "fpi_healthy i" "b \<le> fpi_available_lamports i"
    "\<forall>j \<in> set ps. fpi_healthy j \<and> b \<le> fpi_available_lamports j \<longrightarrow>
       provider_rank (fpi_provider i) \<le> provider_rank (fpi_provider j)"
proof -
  define cs where "cs = filter (\<lambda>p. fpi_healthy p \<and> fpi_available_lamports p \<ge> b) ps"
  define rank where "rank = (\<lambda>i :: flash_provider_info. provider_rank (fpi_provider i))"
  obtain i rest where sorted: "sort_key rank cs = i # rest" and p: "fpi_provider i = p"
    using assms by (auto simp: select_provider_def cs_def rank_def split: list.splits)
  have set: "set cs = insert i (set rest)" using sorted by (metis list.simps(15) set_sort)
  have "sorted (map rank (i # rest))" using sorted by (metis sorted_sort_key)
  then have "\<forall>j \<in> set cs. rank i \<le> rank j" using set by auto
  moreover have "i \<in> set cs" using set by simp
  ultimately show thesis
    using p by (intro that [of i]) (auto simp: cs_def rank_def)
qed

lemma select_None:
  "select_provider b ps = None \<longleftrightarrow> \<not> (\<exists>i \<in> set ps. fpi_healthy i \<and> b \<le> fpi_available_lamports i)"
proof -
  define cs where "cs = filter (\<lambda>p. fpi_healthy p \<and> fpi_available_lamports p \<ge> b) ps"
  have "select_provider b ps = None \<longleftrightarrow> sort_key (\<lambda>p. provider_rank (fpi_provider p)) cs = []"
    by (simp add: select_provider_def cs_def split: list.split)
  also have "\<dots> \<longleftrightarrow> cs = []" by (metis set_empty set_sort)
  finally show ?thesis by (simp add: cs_def filter_empty_conv)
qed

lemma fee_monotone: "provider_rank p \<le> provider_rank q \<Longrightarrow> flash_fee p b \<le> flash_fee q b"
proof -
  assume "provider_rank p \<le> provider_rank q"
  then have "fee_bps p \<le> fee_bps q" by (auto simp: provider_rank_def)
  then have "unat b * unat (fee_bps p) div 10000 \<le> unat b * unat (fee_bps q) div 10000"
    by (intro div_le_mono mult_le_mono) (simp_all add: word_le_nat_alt)
  then show ?thesis by (simp only: word_le_nat_alt fee_exact)
qed

text \<open>
  Property C12. The selector returns a healthy provider that can lend the amount and charges the least
  fee of all that can; it returns nothing exactly when no healthy provider has the liquidity. The fee is
  the floor of amount times basis points over 10000, without wrap-around.
\<close>

theorem cheapest_provider_selected:
  "(select_provider b ps = None \<longleftrightarrow> \<not> (\<exists>i \<in> set ps. fpi_healthy i \<and> b \<le> fpi_available_lamports i))
   \<and> (case select_provider b ps of None \<Rightarrow> True | Some p \<Rightarrow>
        \<exists>i \<in> set ps. fpi_provider i = p \<and> fpi_healthy i \<and> b \<le> fpi_available_lamports i
          \<and> list_all (\<lambda>j. flash_fee p b \<le> flash_fee (fpi_provider j) b)
              (filter (\<lambda>j. fpi_healthy j \<and> b \<le> fpi_available_lamports j) ps)
          \<and> unat (flash_fee p b) = unat b * unat (fee_bps p) div 10000)"
proof (cases "select_provider b ps")
  case None
  then show ?thesis using select_None [of b ps] by simp
next
  case (Some p)
  then obtain i where i: "i \<in> set ps" "fpi_provider i = p" "fpi_healthy i" "b \<le> fpi_available_lamports i"
    "\<forall>j \<in> set ps. fpi_healthy j \<and> b \<le> fpi_available_lamports j \<longrightarrow>
       provider_rank (fpi_provider i) \<le> provider_rank (fpi_provider j)"
    by (rule select_in_providers)
  then have "list_all (\<lambda>j. flash_fee p b \<le> flash_fee (fpi_provider j) b)
              (filter (\<lambda>j. fpi_healthy j \<and> b \<le> fpi_available_lamports j) ps)"
    using fee_monotone by (auto simp: list_all_iff)
  then show ?thesis using Some i select_None [of b ps] fee_exact by auto
qed

text \<open>
  \<^verbatim>\<open>fallback_candidates\<close> of the executor tries the preferred provider first and every
  provider exactly once, while \<^verbatim>\<open>FlashProvider::fallback_order\<close>, which relies on \<^verbatim>\<open>Vec::dedup\<close>, repeats
  the preferred provider for every preference other than \<^verbatim>\<open>MarginFi\<close>.
\<close>

theorem fallback_lists:
  "hd (fallback_candidates p) = p \<and> distinct (fallback_candidates p)
   \<and> set (fallback_candidates p) = {MarginFi, PortFinance, Solend, Kamino}
   \<and> hd (fallback_order p) = p \<and> set (fallback_order p) = {MarginFi, PortFinance, Solend, Kamino}
   \<and> (distinct (fallback_order p) \<longleftrightarrow> p = MarginFi)"
  by (cases p) (auto simp: fallback_candidates_def fallback_order_def)

end
