(* ===== verification/Flash_Config.thy ===== *)
theory Flash_Config
  imports Flash_Provider Port_Receiver
begin

text \<open>
  The configuration half of the executor's \<^verbatim>\<open>executor/src/flash_loans.rs\<close>: the look-up of a key in the
  process environment and in the configuration files, the account sets it yields for each provider, and
  the health accounts of the MarginFi account. The outside is the record \<open>flash_env\<close>: \<open>fe_var\<close> is
  \<^verbatim>\<open>std::env::var(..).ok()\<close>, \<open>fe_read_file\<close> \<^verbatim>\<open>std::fs::read_to_string(..).ok()\<close>, \<open>fe_parse\<close> the parser of
  base58 keys, \<open>fe_find_program_address\<close> the address derivation, and borsh decodes and encodes the
  arguments. Strings are ASCII.
\<close>

datatype supported_mint = SolMint | UsdcMint

datatype flash_error =
    MissingEnv "string list" | InvalidPubkey string | UnsupportedMint | PayloadTooShort | DecodeFailed
  | ZeroBorrow | ConfigAccountMissing | DirectUnsupported flash_provider | MissingOracle pubkey

record flash_arb_args =
  faa_borrow_amount :: u64
  faa_min_profit :: u64
  faa_hop_account_counts :: "u8 list"
  faa_hop_data :: "bytes list"

record flash_env =
  fe_var :: "string \<Rightarrow> string option"
  fe_read_file :: "string \<Rightarrow> string option"
  fe_parse :: "string \<Rightarrow> pubkey option"
  fe_find_program_address :: "bytes list \<Rightarrow> pubkey \<Rightarrow> pubkey"
  fe_decode_args :: "bytes \<Rightarrow> flash_arb_args option"
  fe_encode_receiver :: "receiver_instruction \<Rightarrow> bytes"

record marginfi_config =
  mc_group :: pubkey
  mc_marginfi_account :: pubkey
  mc_bank :: pubkey
  mc_liquidity_vault :: pubkey
  mc_oracle :: pubkey

record lending_config =
  lc_reserve :: pubkey
  lc_liquidity_supply :: pubkey
  lc_fee_receiver :: pubkey
  lc_host_fee_receiver :: "pubkey option"
  lc_lending_market :: pubkey

record kamino_config =
  kc_reserve :: pubkey
  kc_liquidity_supply :: pubkey
  kc_fee_vault :: pubkey
  kc_lending_market :: pubkey

record port_config =
  pc_reserve :: pubkey
  pc_liquidity_supply :: pubkey
  pc_fee_receiver :: pubkey
  pc_host_fee_receiver :: "pubkey option"
  pc_lending_market :: pubkey
  pc_receiver_program :: pubkey

section \<open>Looking a key up\<close>

text \<open>\<^verbatim>\<open>str::split(c)\<close> and \<^verbatim>\<open>str::trim\<close>, \<^verbatim>\<open>str::trim_matches(c)\<close>, \<^verbatim>\<open>str::split_once(c)\<close> and \<^verbatim>\<open>str::lines\<close>
  (whose last empty piece and carriage returns the callers drop).\<close>

fun split_on :: "char \<Rightarrow> string \<Rightarrow> string list" where
  "split_on c [] = [[]]"
| "split_on c (x # xs) =
     (case split_on c xs of
        [] \<Rightarrow> []
      | part # parts \<Rightarrow> if x = c then [] # part # parts else (x # part) # parts)"

definition is_space :: "char \<Rightarrow> bool" where
  "is_space c = (c = CHR '' '' \<or> (of_char c :: nat) \<in> {9, 10, 11, 12, 13})"

definition trim_while :: "(char \<Rightarrow> bool) \<Rightarrow> string \<Rightarrow> string" where
  "trim_while P s = rev (dropWhile P (rev (dropWhile P s)))"

abbreviation trim :: "string \<Rightarrow> string" where
  "trim \<equiv> trim_while is_space"

definition newline :: char where "newline = char_of (10 :: nat)"
definition quote :: char where "quote = char_of (34 :: nat)"

fun split_once :: "char \<Rightarrow> string \<Rightarrow> (string \<times> string) option" where
  "split_once c [] = None"
| "split_once c (x # xs) =
     (if x = c then Some ([], xs) else map_option (\<lambda>(a, b). (x # a, b)) (split_once c xs))"

text \<open>One line of a configuration file, when it sets the key to a non-empty value.\<close>

definition value_on_line :: "string \<Rightarrow> string \<Rightarrow> string option" where
  "value_on_line key raw =
     (let line = trim raw in
      if line = [] \<or> take 1 line = ''#'' then None
      else case split_once (CHR ''='') line of
        None \<Rightarrow> None
      | Some (k, v) \<Rightarrow>
          if trim k = key
          then (let val = trim_while (\<lambda>c. c = quote) (trim v) in if val = [] then None else Some val)
          else None)"

fun first_on_lines :: "string \<Rightarrow> string list \<Rightarrow> string option" where
  "first_on_lines key [] = None"
| "first_on_lines key (line # lines) =
     (case value_on_line key line of Some v \<Rightarrow> Some v | None \<Rightarrow> first_on_lines key lines)"

fun first_in_files :: "flash_env \<Rightarrow> string \<Rightarrow> string list \<Rightarrow> string option" where
  "first_in_files env key [] = None"
| "first_in_files env key (path # paths) =
     (case fe_read_file env path of
        None \<Rightarrow> first_in_files env key paths
      | Some content \<Rightarrow>
          (case first_on_lines key (split_on newline content) of
             Some v \<Rightarrow> Some v
           | None \<Rightarrow> first_in_files env key paths))"

definition config_files :: "flash_env \<Rightarrow> string list" where
  "config_files env =
     (case fe_var env ''FLASH_ACCOUNT_ENV_FILE'' of None \<Rightarrow> [] | Some path \<Rightarrow> [path])
     @ [''/root/spy_node/flash_accounts.env'', ''/root/spy_node/.env.flash_loans'']"

definition lookup_config_value :: "flash_env \<Rightarrow> string \<Rightarrow> string option" where
  "lookup_config_value env key =
     (case fe_var env key of
        Some v \<Rightarrow> if trim v \<noteq> [] then Some v else first_in_files env key (config_files env)
      | None \<Rightarrow> first_in_files env key (config_files env))"

section \<open>Configuration\<close>

definition classify_mint :: "pubkey \<Rightarrow> flash_error + supported_mint" where
  "classify_mint mint =
     (if mint = SOL_MINT then Inr SolMint
      else if mint = USDC_MINT then Inr UsdcMint
      else Inl UnsupportedMint)"

definition mint_env_suffix :: "pubkey \<Rightarrow> flash_error + string" where
  "mint_env_suffix mint =
     and_then (classify_mint mint) (\<lambda>m. Inr (case m of SolMint \<Rightarrow> ''SOL'' | UsdcMint \<Rightarrow> ''USDC''))"

definition parse_pubkey :: "flash_env \<Rightarrow> string \<Rightarrow> string \<Rightarrow> flash_error + pubkey" where
  "parse_pubkey env key raw = ok_or (InvalidPubkey key) (fe_parse env raw)"

definition parse_env_pubkey :: "flash_env \<Rightarrow> string \<Rightarrow> flash_error + pubkey" where
  "parse_env_pubkey env key =
     and_then (ok_or (MissingEnv [key]) (lookup_config_value env key)) (parse_pubkey env key)"

fun parse_first_alias :: "flash_env \<Rightarrow> string list \<Rightarrow> string list \<Rightarrow> flash_error + pubkey" where
  "parse_first_alias env keys [] = Inl (MissingEnv keys)"
| "parse_first_alias env keys (key # rest) =
     (case lookup_config_value env key of
        Some raw \<Rightarrow> parse_pubkey env key raw
      | None \<Rightarrow> parse_first_alias env keys rest)"

definition parse_env_pubkey_aliases :: "flash_env \<Rightarrow> string list \<Rightarrow> flash_error + pubkey" where
  "parse_env_pubkey_aliases env keys = parse_first_alias env keys keys"

definition parse_optional_env_pubkey :: "flash_env \<Rightarrow> string \<Rightarrow> flash_error + pubkey option" where
  "parse_optional_env_pubkey env key =
     (case lookup_config_value env key of
        None \<Rightarrow> Inr None
      | Some raw \<Rightarrow> and_then (parse_pubkey env key raw) (\<lambda>k. Inr (Some k)))"

definition parse_env_pubkeys_csv :: "flash_env \<Rightarrow> string \<Rightarrow> flash_error + pubkey list" where
  "parse_env_pubkeys_csv env key =
     (case lookup_config_value env key of
        None \<Rightarrow> Inr []
      | Some raw \<Rightarrow>
          collect_results (parse_pubkey env key) (filter (\<lambda>v. v \<noteq> []) (map trim (split_on (CHR '','') raw))))"

definition resolve_marginfi_config :: "flash_env \<Rightarrow> pubkey \<Rightarrow> flash_error + marginfi_config" where
  "resolve_marginfi_config env mint =
     and_then (mint_env_suffix mint) (\<lambda>suffix.
     and_then (parse_env_pubkey_aliases env [''MARGINFI_GROUP'', ''MARGINFI_MAIN_GROUP'']) (\<lambda>group.
     and_then (parse_env_pubkey env ''MARGINFI_ACCOUNT'') (\<lambda>account.
     and_then (parse_env_pubkey env (''MARGINFI_'' @ suffix @ ''_BANK'')) (\<lambda>bank.
     and_then (parse_env_pubkey env (''MARGINFI_'' @ suffix @ ''_LIQUIDITY_VAULT'')) (\<lambda>vault.
     and_then (parse_env_pubkey env (''MARGINFI_'' @ suffix @ ''_ORACLE'')) (\<lambda>oracle.
       Inr \<lparr>mc_group = group, mc_marginfi_account = account, mc_bank = bank, mc_liquidity_vault = vault,
            mc_oracle = oracle\<rparr>))))))"

definition resolve_solend_config :: "flash_env \<Rightarrow> pubkey \<Rightarrow> flash_error + lending_config" where
  "resolve_solend_config env mint =
     and_then (mint_env_suffix mint) (\<lambda>suffix.
     and_then (parse_env_pubkey env (''SOLEND_'' @ suffix @ ''_RESERVE'')) (\<lambda>reserve.
     and_then (parse_env_pubkey env (''SOLEND_'' @ suffix @ ''_LIQUIDITY_SUPPLY'')) (\<lambda>liquidity.
     and_then (parse_env_pubkey env (''SOLEND_'' @ suffix @ ''_FEE_RECEIVER'')) (\<lambda>fee.
     and_then (parse_optional_env_pubkey env (''SOLEND_'' @ suffix @ ''_HOST_FEE_RECEIVER'')) (\<lambda>host.
     and_then (parse_env_pubkey env (''SOLEND_'' @ suffix @ ''_LENDING_MARKET'')) (\<lambda>market.
       Inr \<lparr>lc_reserve = reserve, lc_liquidity_supply = liquidity, lc_fee_receiver = fee,
            lc_host_fee_receiver = host, lc_lending_market = market\<rparr>))))))"

definition resolve_kamino_config :: "flash_env \<Rightarrow> pubkey \<Rightarrow> flash_error + kamino_config" where
  "resolve_kamino_config env mint =
     and_then (mint_env_suffix mint) (\<lambda>suffix.
     and_then (parse_env_pubkey env (''KAMINO_'' @ suffix @ ''_RESERVE'')) (\<lambda>reserve.
     and_then (parse_env_pubkey_aliases env
         [''KAMINO_'' @ suffix @ ''_LIQUIDITY_SUPPLY'', ''KAMINO_'' @ suffix @ ''_LIQUIDITY_VAULT'']) (\<lambda>liquidity.
     and_then (parse_env_pubkey env (''KAMINO_'' @ suffix @ ''_FEE_VAULT'')) (\<lambda>fee.
     and_then (parse_env_pubkey_aliases env
         [''KAMINO_'' @ suffix @ ''_LENDING_MARKET'', ''KAMINO_MAIN_MARKET'']) (\<lambda>market.
       Inr \<lparr>kc_reserve = reserve, kc_liquidity_supply = liquidity, kc_fee_vault = fee,
            kc_lending_market = market\<rparr>)))))"

definition resolve_port_config :: "flash_env \<Rightarrow> pubkey \<Rightarrow> flash_error + port_config" where
  "resolve_port_config env mint =
     and_then (mint_env_suffix mint) (\<lambda>suffix.
     and_then (parse_env_pubkey env (''PORT_'' @ suffix @ ''_RESERVE'')) (\<lambda>reserve.
     and_then (parse_env_pubkey env (''PORT_'' @ suffix @ ''_LIQUIDITY_SUPPLY'')) (\<lambda>liquidity.
     and_then (parse_env_pubkey env (''PORT_'' @ suffix @ ''_FEE_RECEIVER'')) (\<lambda>fee.
     and_then (parse_optional_env_pubkey env (''PORT_'' @ suffix @ ''_HOST_FEE_RECEIVER'')) (\<lambda>host.
     and_then (parse_env_pubkey_aliases env [''PORT_'' @ suffix @ ''_LENDING_MARKET'', ''PORT_MAIN_MARKET'']) (\<lambda>market.
     (let receiver = (case parse_env_pubkey_aliases env [''PORT_FLASH_RECEIVER_PROGRAM'', ''PORT_RECEIVER_PROGRAM''] of
          Inr k \<Rightarrow> k | Inl _ \<Rightarrow> PORT_FLASH_RECEIVER_PROGRAM_ID) in
       Inr \<lparr>pc_reserve = reserve, pc_liquidity_supply = liquidity, pc_fee_receiver = fee,
            pc_host_fee_receiver = host, pc_lending_market = market, pc_receiver_program = receiver\<rparr>)))))))"

section \<open>Health accounts of the MarginFi account\<close>

record health_bank =
  hb_bank :: pubkey
  hb_oracle :: pubkey

definition resolve_marginfi_oracle :: "flash_env \<Rightarrow> pubkey \<Rightarrow> flash_error + pubkey" where
  "resolve_marginfi_oracle env bank =
     and_then (parse_env_pubkey env ''MARGINFI_SOL_BANK'') (\<lambda>sol_bank.
       if bank = sol_bank then parse_env_pubkey env ''MARGINFI_SOL_ORACLE''
       else and_then (parse_env_pubkey env ''MARGINFI_USDC_BANK'') (\<lambda>usdc_bank.
         if bank = usdc_bank then parse_env_pubkey env ''MARGINFI_USDC_ORACLE''
         else Inl (MissingOracle bank)))"

definition parse_marginfi_active_banks :: "flash_env \<Rightarrow> flash_error + health_bank list" where
  "parse_marginfi_active_banks env =
     and_then (parse_env_pubkeys_csv env ''MARGINFI_ACTIVE_BANKS'')
       (collect_results (\<lambda>bank. and_then (resolve_marginfi_oracle env bank) (\<lambda>oracle.
          Inr \<lparr>hb_bank = bank, hb_oracle = oracle\<rparr>)))"

definition marginfi_projected_active_banks :: "flash_env \<Rightarrow> pubkey \<Rightarrow> pubkey \<Rightarrow> flash_error + health_bank list" where
  "marginfi_projected_active_banks env borrow_bank borrow_oracle =
     and_then (parse_marginfi_active_banks env) (\<lambda>banks.
       if borrow_bank \<in> hb_bank ` set banks then Inr banks
       else Inr (banks @ [\<lparr>hb_bank = borrow_bank, hb_oracle = borrow_oracle\<rparr>]))"

text \<open>\<^verbatim>\<open>sort_by(|a, b| b[0].cmp(a[0]))\<close> is a stable sort by descending key.\<close>

definition compose_marginfi_health_accounts :: "health_bank list \<Rightarrow> pubkey list" where
  "compose_marginfi_health_accounts banks =
     concat (map (\<lambda>b. [hb_bank b, hb_oracle b]) (sort_key (\<lambda>b. - uint (hb_bank b)) banks))"


end
