(* ===== verification/Flash_Loans.thy ===== *)
theory Flash_Loans
  imports Flash_Config
begin

text \<open>
  The instruction builders of \<^verbatim>\<open>executor/src/flash_loans.rs\<close>: the lists that put a swap between the borrow
  and the repay of each provider, and the Port Finance pair of flash instruction and carrier. The payer is
  its public key; the configuration comes from \<open>Flash_Config\<close>.
\<close>

section \<open>Wrapping a swap\<close>

definition marginfi_start_flashloan_data :: "u64 \<Rightarrow> bytes" where
  "marginfi_start_flashloan_data end_index = [14, 131, 33, 220, 81, 186, 180, 107] @ u64_to_le end_index"

definition marginfi_borrow_data :: "u64 \<Rightarrow> bytes" where
  "marginfi_borrow_data amount = [4, 126, 116, 53, 48, 5, 212, 31] @ u64_to_le amount"

definition marginfi_end_flashloan_data :: bytes where
  "marginfi_end_flashloan_data = [105, 124, 201, 106, 153, 2, 8, 156]"

definition liquidity_vault_authority :: "flash_env \<Rightarrow> marginfi_config \<Rightarrow> pubkey" where
  "liquidity_vault_authority env cfg =
     fe_find_program_address env [bytes_of_string ''liquidity_vault_auth'', pubkey_to_bytes (mc_bank cfg)]
       MARGINFI_PROGRAM_ID"

definition marginfi_begin_ix :: "marginfi_config \<Rightarrow> pubkey \<Rightarrow> u64 \<Rightarrow> instruction" where
  "marginfi_begin_ix cfg payer end_index =
     \<lparr>ix_program_id = MARGINFI_PROGRAM_ID,
      ix_accounts = [meta_new (mc_marginfi_account cfg) False, meta_readonly payer True,
        meta_readonly SYSVAR_INSTRUCTIONS_ID False],
      ix_data = marginfi_start_flashloan_data end_index\<rparr>"

definition marginfi_borrow_ix :: "flash_env \<Rightarrow> marginfi_config \<Rightarrow> pubkey \<Rightarrow> pubkey \<Rightarrow> u64 \<Rightarrow> instruction" where
  "marginfi_borrow_ix env cfg payer user_token_account borrow_amount =
     \<lparr>ix_program_id = MARGINFI_PROGRAM_ID,
      ix_accounts = [meta_readonly (mc_group cfg) False, meta_new (mc_marginfi_account cfg) False,
        meta_readonly payer True, meta_new (mc_bank cfg) False, meta_new user_token_account False,
        meta_readonly (liquidity_vault_authority env cfg) False, meta_new (mc_liquidity_vault cfg) False,
        meta_readonly TOKEN_PROGRAM_ID False],
      ix_data = marginfi_borrow_data borrow_amount\<rparr>"

definition marginfi_end_ix :: "marginfi_config \<Rightarrow> pubkey \<Rightarrow> pubkey list \<Rightarrow> instruction" where
  "marginfi_end_ix cfg payer extra =
     \<lparr>ix_program_id = MARGINFI_PROGRAM_ID,
      ix_accounts = [meta_new (mc_marginfi_account cfg) False, meta_readonly payer True]
        @ map (\<lambda>k. meta_readonly k False) extra,
      ix_data = marginfi_end_flashloan_data\<rparr>"

definition build_marginfi_wrapped_instructions ::
  "flash_env \<Rightarrow> pubkey \<Rightarrow> pubkey \<Rightarrow> u64 \<Rightarrow> pubkey \<Rightarrow> instruction \<Rightarrow> nat \<Rightarrow> flash_error + instruction list" where
  "build_marginfi_wrapped_instructions env payer borrow_mint borrow_amount user_token_account helios_ix preceding_ix_count =
     and_then (resolve_marginfi_config env borrow_mint) (\<lambda>cfg.
     (let end_index = word_of_nat (preceding_ix_count + 3);
          begin_ix = marginfi_begin_ix cfg payer end_index;
          borrow_ix = marginfi_borrow_ix env cfg payer user_token_account borrow_amount in
      and_then (marginfi_projected_active_banks env (mc_bank cfg) (mc_oracle cfg)) (\<lambda>projected_banks.
        Inr [begin_ix, borrow_ix, helios_ix,
             marginfi_end_ix cfg payer (compose_marginfi_health_accounts projected_banks)])))"

definition solend_data :: "u8 \<Rightarrow> u64 \<Rightarrow> bytes" where
  "solend_data tag amount = tag # u64_to_le amount"

definition build_solend_wrapped_instructions ::
  "flash_env \<Rightarrow> pubkey \<Rightarrow> pubkey \<Rightarrow> u64 \<Rightarrow> pubkey \<Rightarrow> instruction \<Rightarrow> nat \<Rightarrow> flash_error + instruction list" where
  "build_solend_wrapped_instructions env payer borrow_mint borrow_amount user_token_account helios_ix preceding_ix_count =
     and_then (resolve_solend_config env borrow_mint) (\<lambda>cfg.
     (let host_fee_receiver = unwrap_or user_token_account (lc_host_fee_receiver cfg);
          market_authority = fe_find_program_address env [take 32 (pubkey_to_bytes (lc_lending_market cfg))] SOLEND_PROGRAM_ID;
          borrow_ix = \<lparr>ix_program_id = SOLEND_PROGRAM_ID,
            ix_accounts = [meta_new (lc_liquidity_supply cfg) False, meta_new user_token_account False,
              meta_new (lc_reserve cfg) False, meta_readonly (lc_lending_market cfg) False,
              meta_readonly market_authority False, meta_readonly SYSVAR_INSTRUCTIONS_ID False,
              meta_readonly TOKEN_PROGRAM_ID False],
            ix_data = solend_data 19 borrow_amount\<rparr>;
          borrow_ix_index = word_of_nat preceding_ix_count;
          repay_ix = \<lparr>ix_program_id = SOLEND_PROGRAM_ID,
            ix_accounts = [meta_new user_token_account False, meta_new (lc_liquidity_supply cfg) False,
              meta_new (lc_fee_receiver cfg) False, meta_new host_fee_receiver False, meta_new (lc_reserve cfg) False,
              meta_readonly (lc_lending_market cfg) False, meta_readonly payer True,
              meta_readonly SYSVAR_INSTRUCTIONS_ID False, meta_readonly TOKEN_PROGRAM_ID False],
            ix_data = solend_data 20 borrow_amount @ [borrow_ix_index]\<rparr>
      in Inr [borrow_ix, helios_ix, repay_ix]))"

definition kamino_accounts :: "flash_env \<Rightarrow> kamino_config \<Rightarrow> pubkey \<Rightarrow> pubkey \<Rightarrow> pubkey \<Rightarrow> account_meta list" where
  "kamino_accounts env cfg payer borrow_mint user_token_account =
     (let market_authority =
        fe_find_program_address env [bytes_of_string ''lma'', pubkey_to_bytes (kc_lending_market cfg)] KAMINO_PROGRAM_ID in
      [meta_readonly payer True, meta_readonly market_authority False, meta_readonly (kc_lending_market cfg) False,
       meta_new (kc_reserve cfg) False, meta_readonly borrow_mint False, meta_new (kc_liquidity_supply cfg) False,
       meta_new user_token_account False, meta_new (kc_fee_vault cfg) False, meta_readonly KAMINO_PROGRAM_ID False,
       meta_readonly KAMINO_PROGRAM_ID False, meta_readonly SYSVAR_INSTRUCTIONS_ID False,
       meta_readonly TOKEN_PROGRAM_ID False])"

definition kamino_repay_data :: "u64 \<Rightarrow> nat \<Rightarrow> bytes" where
  "kamino_repay_data amount preceding_ix_count =
     [185, 117, 0, 203, 96, 245, 180, 186] @ u64_to_le amount @ [word_of_nat preceding_ix_count]"

definition build_kamino_wrapped_instructions ::
  "flash_env \<Rightarrow> pubkey \<Rightarrow> pubkey \<Rightarrow> u64 \<Rightarrow> pubkey \<Rightarrow> instruction \<Rightarrow> nat \<Rightarrow> flash_error + instruction list" where
  "build_kamino_wrapped_instructions env payer borrow_mint borrow_amount user_token_account helios_ix preceding_ix_count =
     and_then (resolve_kamino_config env borrow_mint) (\<lambda>cfg.
     (let accounts = kamino_accounts env cfg payer borrow_mint user_token_account;
          borrow_ix = \<lparr>ix_program_id = KAMINO_PROGRAM_ID, ix_accounts = accounts,
            ix_data = [135, 231, 52, 167, 7, 52, 212, 193] @ u64_to_le borrow_amount\<rparr>;
          repay_ix = \<lparr>ix_program_id = KAMINO_PROGRAM_ID, ix_accounts = accounts,
            ix_data = kamino_repay_data borrow_amount preceding_ix_count\<rparr>
      in Inr [borrow_ix, helios_ix, repay_ix]))"

definition decode_helios_flash_arb_args :: "flash_env \<Rightarrow> instruction \<Rightarrow> flash_error + flash_arb_args" where
  "decode_helios_flash_arb_args env helios_ix =
     (if length (ix_data helios_ix) < 8 then Inl PayloadTooShort
      else and_then (ok_or DecodeFailed (fe_decode_args env (drop 8 (ix_data helios_ix)))) (\<lambda>args.
        if faa_borrow_amount args = 0 then Inl ZeroBorrow else Inr args))"

definition build_port_wrapped_instructions ::
  "flash_env \<Rightarrow> pubkey \<Rightarrow> pubkey \<Rightarrow> u64 \<Rightarrow> pubkey \<Rightarrow> instruction \<Rightarrow> flash_error + instruction list" where
  "build_port_wrapped_instructions env payer borrow_mint borrow_amount user_token_account helios_ix =
     and_then (resolve_port_config env borrow_mint) (\<lambda>cfg.
     (let host_fee_receiver = unwrap_or user_token_account (pc_host_fee_receiver cfg);
          market_authority = fe_find_program_address env [take 32 (pubkey_to_bytes (pc_lending_market cfg))] PORT_PROGRAM_ID in
      and_then (decode_helios_flash_arb_args env helios_ix) (\<lambda>helios_plan.
      and_then (ok_or ConfigAccountMissing (idx (ix_accounts helios_ix) 2)) (\<lambda>config_meta.
      (let callback_accounts =
             [meta_readonly payer True, meta_readonly (ix_program_id helios_ix) False,
              meta_readonly (am_pubkey config_meta) False, meta_readonly SYSVAR_INSTRUCTIONS_ID False]
             @ drop 4 (ix_accounts helios_ix);
           flash_ix = \<lparr>ix_program_id = PORT_PROGRAM_ID,
             ix_accounts = [meta_new (pc_liquidity_supply cfg) False, meta_new user_token_account False,
               meta_new (pc_reserve cfg) False, meta_new (pc_fee_receiver cfg) False, meta_new host_fee_receiver False,
               meta_readonly (pc_lending_market cfg) False, meta_readonly market_authority False,
               meta_readonly TOKEN_PROGRAM_ID False, meta_readonly (pc_receiver_program cfg) False] @ callback_accounts,
             ix_data = 13 # u64_to_le borrow_amount\<rparr>;
           carrier_ix = \<lparr>ix_program_id = pc_receiver_program cfg, ix_accounts = [],
             ix_data = fe_encode_receiver env (CarryPlan (faa_min_profit helios_plan)
               (faa_hop_account_counts helios_plan) (faa_hop_data helios_plan))\<rparr>
       in Inr [flash_ix, carrier_ix])))))"

definition build_wrapped_instructions ::
  "flash_env \<Rightarrow> flash_provider \<Rightarrow> pubkey \<Rightarrow> pubkey \<Rightarrow> u64 \<Rightarrow> pubkey \<Rightarrow> instruction \<Rightarrow> nat \<Rightarrow> flash_error + instruction list" where
  "build_wrapped_instructions env provider payer borrow_mint borrow_amount user_token_account helios_ix preceding_ix_count =
     (case provider of
        MarginFi \<Rightarrow> build_marginfi_wrapped_instructions env payer borrow_mint borrow_amount user_token_account helios_ix preceding_ix_count
      | Solend \<Rightarrow> build_solend_wrapped_instructions env payer borrow_mint borrow_amount user_token_account helios_ix preceding_ix_count
      | Kamino \<Rightarrow> build_kamino_wrapped_instructions env payer borrow_mint borrow_amount user_token_account helios_ix preceding_ix_count
      | PortFinance \<Rightarrow> build_port_wrapped_instructions env payer borrow_mint borrow_amount user_token_account helios_ix)"

definition build_wrapped_instructions_direct ::
  "flash_env \<Rightarrow> flash_provider \<Rightarrow> pubkey \<Rightarrow> pubkey \<Rightarrow> u64 \<Rightarrow> pubkey \<Rightarrow> instruction list \<Rightarrow> nat \<Rightarrow> flash_error + instruction list" where
  "build_wrapped_instructions_direct env provider payer borrow_mint borrow_amount user_token_account swap_ixs preceding_ix_count =
     (case provider of
        MarginFi \<Rightarrow>
          and_then (resolve_marginfi_config env borrow_mint) (\<lambda>cfg.
          (let end_index = word_of_nat (preceding_ix_count + 2 + length swap_ixs) in
           Inr ([marginfi_begin_ix cfg payer end_index, marginfi_borrow_ix env cfg payer user_token_account borrow_amount]
             @ swap_ixs @ [marginfi_end_ix cfg payer [SYSVAR_INSTRUCTIONS_ID]])))
      | Kamino \<Rightarrow>
          and_then (resolve_kamino_config env borrow_mint) (\<lambda>cfg.
          (let accounts = [meta_new (kc_reserve cfg) False, meta_readonly (kc_lending_market cfg) False,
                 meta_new (kc_liquidity_supply cfg) False, meta_new (kc_fee_vault cfg) False,
                 meta_new user_token_account False, meta_readonly SYSVAR_INSTRUCTIONS_ID False];
               borrow_ix = \<lparr>ix_program_id = KAMINO_PROGRAM_ID, ix_accounts = accounts,
                 ix_data = [2, 218, 138, 235, 79, 201, 25, 102] @ u64_to_le borrow_amount\<rparr>;
               repay_ix = \<lparr>ix_program_id = KAMINO_PROGRAM_ID, ix_accounts = accounts,
                 ix_data = kamino_repay_data borrow_amount preceding_ix_count\<rparr>
           in Inr ([borrow_ix] @ swap_ixs @ [repay_ix])))
      | _ \<Rightarrow> Inl (DirectUnsupported provider))"

section \<open>The indices the wrappers embed\<close>

lemma marginfi_wrapped_Inr:
  assumes "build_marginfi_wrapped_instructions env payer mint amount user helios pre = Inr ixs"
  shows "\<exists>cfg extra. ixs = [marginfi_begin_ix cfg payer (word_of_nat (pre + 3)), marginfi_borrow_ix env cfg payer user amount,
      helios, marginfi_end_ix cfg payer extra]"
  using assms by (auto simp: build_marginfi_wrapped_instructions_def Let_def)

lemma marginfi_direct_Inr:
  assumes "build_wrapped_instructions_direct env MarginFi payer mint amount user swaps pre = Inr ixs"
  shows "\<exists>cfg extra. ixs = [marginfi_begin_ix cfg payer (word_of_nat (pre + 2 + length swaps)),
      marginfi_borrow_ix env cfg payer user amount] @ swaps @ [marginfi_end_ix cfg payer extra]"
  using assms by (auto simp: build_wrapped_instructions_direct_def Let_def)

text \<open>The end index a MarginFi begin instruction declares, and the borrow index a repay names.\<close>

definition declared_end :: "instruction \<Rightarrow> nat" where
  "declared_end ix = unat (u64_of_le (drop 8 (ix_data ix)))"

definition named_borrow :: "instruction \<Rightarrow> nat" where
  "named_borrow ix = unat (last (ix_data ix))"

lemma declared_end_begin:
  "n < 18446744073709551616 \<Longrightarrow> declared_end (marginfi_begin_ix cfg payer (word_of_nat n)) = n"
  by (simp add: declared_end_def marginfi_begin_ix_def marginfi_start_flashloan_data_def unat_of_nat)

lemma nth_middle: "length before = n \<Longrightarrow> i < length xs \<Longrightarrow> (before @ xs @ after) ! (n + i) = xs ! i"
  by (simp add: nth_append)

lemma wrapped_positions:
  assumes "build_wrapped_instructions env provider payer mint amount user helios pre = Inr ixs"
    and "length before = pre" and "pre < 256"
  shows "let tx = before @ ixs @ after in
    case provider of
      MarginFi \<Rightarrow> declared_end (tx ! pre) = pre + 3
        \<and> ix_data (tx ! (pre + 1)) = marginfi_borrow_data amount \<and> tx ! (pre + 2) = helios
        \<and> ix_data (tx ! declared_end (tx ! pre)) = marginfi_end_flashloan_data
        \<and> ix_program_id (tx ! declared_end (tx ! pre)) = MARGINFI_PROGRAM_ID
    | PortFinance \<Rightarrow> length ixs = 2
    | Solend \<Rightarrow> named_borrow (tx ! (pre + 2)) = pre \<and> tx ! (pre + 1) = helios
        \<and> ix_data (tx ! pre) = solend_data 19 amount
        \<and> butlast (ix_data (tx ! (pre + 2))) = solend_data 20 amount
    | Kamino \<Rightarrow> named_borrow (tx ! (pre + 2)) = pre \<and> tx ! (pre + 1) = helios
        \<and> drop 8 (ix_data (tx ! pre)) = u64_to_le amount
        \<and> take 8 (drop 8 (ix_data (tx ! (pre + 2)))) = u64_to_le amount"
proof -
  have at: "(before @ ixs @ after) ! (pre + i) = ixs ! i" if "i < length ixs" for i
    using nth_middle [OF assms(2) that] .
  have at0: "(before @ ixs @ after) ! pre = ixs ! 0" if "0 < length ixs"
    using at [OF that] by simp
  show ?thesis
  proof (cases provider)
    case MarginFi
    with assms(1) obtain cfg extra where ixs: "ixs = [marginfi_begin_ix cfg payer (word_of_nat (pre + 3)),
        marginfi_borrow_ix env cfg payer user amount, helios, marginfi_end_ix cfg payer extra]"
      using marginfi_wrapped_Inr by (fastforce simp: build_wrapped_instructions_def)
    have "declared_end (marginfi_begin_ix cfg payer (word_of_nat (pre + 3))) = pre + 3"
      using assms(3) by (intro declared_end_begin) simp
    then show ?thesis
      using MarginFi at [of 1] at [of 2] at [of 3] at0
      by (simp add: Let_def ixs marginfi_borrow_ix_def marginfi_end_ix_def del: of_nat_add)
  next
    case PortFinance
    with assms(1) show ?thesis
      by (auto simp: build_wrapped_instructions_def build_port_wrapped_instructions_def Let_def)
  next
    case Solend
    with assms(1,3) at [of 1] at [of 2] at0 show ?thesis
      by (auto simp: build_wrapped_instructions_def build_solend_wrapped_instructions_def Let_def
          named_borrow_def solend_data_def unat_of_nat butlast_append)
  next
    case Kamino
    with assms(1,3) at [of 1] at [of 2] at0 show ?thesis
      by (auto simp: build_wrapped_instructions_def build_kamino_wrapped_instructions_def Let_def
          named_borrow_def kamino_repay_data_def unat_of_nat)
  qed
qed

text \<open>
  The absolute indices in the flash-loan instructions are right: in a transaction that puts the
  wrapped instructions after \<open>pre\<close> others (fewer than 256), the MarginFi begin instruction declares the index
  at which the end instruction stands, with the borrow right after the begin and the arbitrage call just
  before the end; and the Solend and Kamino repay, which closes the group, names the index of its borrow.
\<close>

theorem wrapped_indices:
  assumes "build_wrapped_instructions env provider payer mint amount user helios pre = Inr ixs"
    and "length before = pre" and "pre < 256"
  shows "let tx = before @ ixs @ after in
    case provider of
      MarginFi \<Rightarrow> declared_end (tx ! pre) = pre + 3
        \<and> ix_data (tx ! (pre + 1)) = marginfi_borrow_data amount \<and> tx ! (pre + 2) = helios
        \<and> ix_data (tx ! declared_end (tx ! pre)) = marginfi_end_flashloan_data
        \<and> ix_program_id (tx ! declared_end (tx ! pre)) = MARGINFI_PROGRAM_ID
    | PortFinance \<Rightarrow> length ixs = 2
    | Solend \<Rightarrow> named_borrow (tx ! (pre + 2)) = pre \<and> tx ! (pre + 1) = helios
        \<and> ix_data (tx ! pre) = solend_data 19 amount
        \<and> butlast (ix_data (tx ! (pre + 2))) = solend_data 20 amount
    | Kamino \<Rightarrow> named_borrow (tx ! (pre + 2)) = pre \<and> tx ! (pre + 1) = helios
        \<and> drop 8 (ix_data (tx ! pre)) = u64_to_le amount
        \<and> take 8 (drop 8 (ix_data (tx ! (pre + 2)))) = u64_to_le amount"
  using assms by (rule wrapped_positions)

definition example_env :: flash_env where
  "example_env = \<lparr>fe_var = (\<lambda>key. if key = ''MARGINFI_ACTIVE_BANKS'' then None else Some key),
     fe_read_file = (\<lambda>_. None),
     fe_parse = (\<lambda>s. Some (of_nat (length s))), fe_find_program_address = (\<lambda>_ _. 4),
     fe_decode_args = (\<lambda>_. Some \<lparr>faa_borrow_amount = 10, faa_min_profit = 5, faa_hop_account_counts = [1],
        faa_hop_data = [[42]]\<rparr>), fe_encode_receiver = (\<lambda>_. [])\<rparr>"

lemma example_lookup:
  "key \<noteq> ''MARGINFI_ACTIVE_BANKS'' \<Longrightarrow> lookup_config_value example_env key =
     (if trim key = [] then first_in_files example_env key (config_files example_env) else Some key)"
  by (simp add: lookup_config_value_def example_env_def)

lemma example_lookup_value:
  "c # cs \<noteq> ''MARGINFI_ACTIVE_BANKS'' \<Longrightarrow> \<not> is_space c \<Longrightarrow> lookup_config_value example_env (c # cs) = Some (c # cs)"
  by (simp add: example_lookup trim_while_def dropWhile_append)

lemma example_env_simps:
  "fe_parse example_env s = Some (of_nat (length s))" "fe_find_program_address example_env seeds prog = 4"
  "fe_decode_args example_env b = Some \<lparr>faa_borrow_amount = 10, faa_min_profit = 5, faa_hop_account_counts = [1],
     faa_hop_data = [[42]]\<rparr>" "fe_encode_receiver example_env r = []"
  by (simp_all add: example_env_def)

lemmas example_env_rules = example_env_simps example_lookup_value is_space_def

definition example_helios_ix :: instruction where
  "example_helios_ix = \<lparr>ix_program_id = 8, ix_accounts = replicate 4 (meta_new 2 False), ix_data = replicate 8 0\<rparr>"

lemma example_solend:
  "\<exists>ixs. build_wrapped_instructions example_env Solend 1 SOL_MINT 1000 2 example_helios_ix 3 = Inr ixs"
  by (simp add: build_wrapped_instructions_def build_solend_wrapped_instructions_def resolve_solend_config_def
      mint_env_suffix_def classify_mint_def parse_env_pubkey_def parse_optional_env_pubkey_def parse_pubkey_def
      example_env_rules Let_def)

theorem wrapped_indices_witness:
  "\<exists>ixs. build_wrapped_instructions example_env Solend 1 SOL_MINT 1000 2 example_helios_ix 3 = Inr ixs
     \<and> named_borrow ((replicate 3 example_helios_ix @ ixs @ []) ! 5) = 3"
proof -
  obtain ixs where ixs: "build_wrapped_instructions example_env Solend 1 SOL_MINT 1000 2 example_helios_ix 3 = Inr ixs"
    using example_solend by blast
  from wrapped_indices [OF ixs, of "replicate 3 example_helios_ix" "[]"] ixs show ?thesis by (simp add: Let_def)
qed

text \<open>
  The direct wrappers put all swaps strictly between borrow and repay: a MarginFi group declares
  as its end the absolute index of its last instruction, whatever the number of swaps; a Kamino repay names
  the index of the borrow that opens the group; for the two other providers nothing is built.
\<close>

theorem direct_indices:
  assumes "length before = pre" and "pre < 256" and "length swaps < 1000"
  shows "(case build_wrapped_instructions_direct env provider payer mint amount user swaps pre of
      Inl _ \<Rightarrow> True
    | Inr ixs \<Rightarrow>
        let tx = before @ ixs @ after; fin = pre + length ixs - 1 in
        (provider = MarginFi \<and> declared_end (tx ! pre) = fin \<and> ix_data (tx ! fin) = marginfi_end_flashloan_data
           \<and> ix_data (tx ! (pre + 1)) = marginfi_borrow_data amount
           \<and> take (length swaps) (drop (pre + 2) tx) = swaps)
      \<or> (provider = Kamino \<and> named_borrow (tx ! fin) = pre
           \<and> drop 8 (ix_data (tx ! pre)) = u64_to_le amount \<and> take 8 (drop 8 (ix_data (tx ! fin))) = u64_to_le amount
           \<and> take (length swaps) (drop (pre + 1) tx) = swaps))"
proof (cases "build_wrapped_instructions_direct env provider payer mint amount user swaps pre")
  case (Inr ixs)
  then consider "provider = MarginFi" | "provider = Kamino"
    by (cases provider) (simp_all add: build_wrapped_instructions_direct_def)
  then show ?thesis
  proof cases
    case 1
    obtain cfg extra where ixs: "ixs = [marginfi_begin_ix cfg payer (word_of_nat (pre + 2 + length swaps)),
      marginfi_borrow_ix env cfg payer user amount] @ swaps @ [marginfi_end_ix cfg payer extra]"
      using marginfi_direct_Inr Inr 1 by blast
    have "declared_end (marginfi_begin_ix cfg payer (word_of_nat (pre + 2 + length swaps))) = pre + 2 + length swaps"
      using assms(2,3) by (intro declared_end_begin) simp
    then show ?thesis
      using 1 assms(1) Inr
      by (simp add: Let_def ixs nth_append marginfi_borrow_ix_def marginfi_end_ix_def del: of_nat_add)
  next
    case 2
    with Inr assms(1,2) show ?thesis
      by (auto simp: build_wrapped_instructions_direct_def Let_def nth_append named_borrow_def kamino_repay_data_def
          unat_of_nat)
  qed
qed simp

theorem direct_indices_witness:
  "\<exists>ixs. build_wrapped_instructions_direct example_env Kamino 1 SOL_MINT 1000 2 [example_helios_ix] 0 = Inr ixs
     \<and> named_borrow (ixs ! 2) = 0"
proof -
  have "\<exists>a b. build_wrapped_instructions_direct example_env Kamino 1 SOL_MINT 1000 2 [example_helios_ix] 0
      = Inr [a, example_helios_ix, b]"
    by (simp add: build_wrapped_instructions_direct_def resolve_kamino_config_def mint_env_suffix_def classify_mint_def
        parse_env_pubkey_def parse_env_pubkey_aliases_def parse_pubkey_def example_env_rules Let_def)
  then obtain a b where ixs: "build_wrapped_instructions_direct example_env Kamino 1 SOL_MINT 1000 2 [example_helios_ix] 0
      = Inr [a, example_helios_ix, b]" by blast
  with direct_indices [where before = "[]" and pre = 0 and swaps = "[example_helios_ix]" and env = example_env
      and provider = Kamino and payer = 1 and mint = SOL_MINT and amount = 1000 and user = 2] show ?thesis
    by (auto simp: Let_def)
qed

section \<open>The Port Finance carrier\<close>

text \<open>
  Property C9. The two halves of a Port Finance loan fit: in a transaction with the flash instruction at
  index \<open>pre\<close>, the on-chain receiver, running inside it, finds the carrier at the next index, recognises its
  own program id and reads exactly the plan of the arbitrage instruction the executor wrapped; and the
  accounts the executor appends for the callback are, in order, the ones the receiver expects after the
  three that Port Finance passes. Borsh is assumed to decode what it encoded.
\<close>

theorem carrier_delivers_plan:
  assumes "build_port_wrapped_instructions env payer mint amount user helios_ix = Inr ixs"
    and "rx_current_index rx = Some k" and "unat k = length before"
    and "rx_instruction_at rx (Suc (unat k)) = idx (before @ ixs @ after) (Suc (unat k))"
    and "\<And>args. fe_decode_args env (drop 8 (ix_data helios_ix)) = Some args \<Longrightarrow>
      (let plan = CarryPlan (faa_min_profit args) (faa_hop_account_counts args) (faa_hop_data args) in
       rx_try_from_slice rx (fe_encode_receiver env plan) = Some plan)"
  shows "\<exists>cfg args config_meta. resolve_port_config env mint = Inr cfg
    \<and> fe_decode_args env (drop 8 (ix_data helios_ix)) = Some args
    \<and> load_plan rx (pc_receiver_program cfg) = (Inr \<lparr>roa_required_balance_increase = faa_min_profit args,
        roa_hop_account_counts = faa_hop_account_counts args, roa_hop_data = faa_hop_data args\<rparr> :: 'e program_error + route_only_args)
    \<and> idx (ix_accounts helios_ix) 2 = Some config_meta
    \<and> drop 9 (ix_accounts (hd ixs)) = [meta_readonly payer True, meta_readonly (ix_program_id helios_ix) False,
        meta_readonly (am_pubkey config_meta) False, meta_readonly SYSVAR_INSTRUCTIONS_ID False]
        @ drop 4 (ix_accounts helios_ix)"
proof -
  from assms(1) obtain cfg args config_meta flash where cfg: "resolve_port_config env mint = Inr cfg"
    and dec: "decode_helios_flash_arb_args env helios_ix = Inr args" and cm: "idx (ix_accounts helios_ix) 2 = Some config_meta"
    and ixs: "ixs = [flash, \<lparr>ix_program_id = pc_receiver_program cfg, ix_accounts = [],
        ix_data = fe_encode_receiver env (CarryPlan (faa_min_profit args) (faa_hop_account_counts args) (faa_hop_data args))\<rparr>]"
    and accounts: "drop 9 (ix_accounts flash) = [meta_readonly payer True, meta_readonly (ix_program_id helios_ix) False,
        meta_readonly (am_pubkey config_meta) False, meta_readonly SYSVAR_INSTRUCTIONS_ID False]
        @ drop 4 (ix_accounts helios_ix)"
    by (auto simp: build_port_wrapped_instructions_def Let_def)
  have "rx_instruction_at rx (Suc (unat k)) = Some (ixs ! 1)"
    using assms(3,4) by (simp add: ixs idx_def nth_append)
  moreover have args: "fe_decode_args env (drop 8 (ix_data helios_ix)) = Some args"
    using dec by (auto simp: decode_helios_flash_arb_args_def split: if_splits)
  ultimately have "load_plan rx (pc_receiver_program cfg) = Inr \<lparr>roa_required_balance_increase = faa_min_profit args,
        roa_hop_account_counts = faa_hop_account_counts args, roa_hop_data = faa_hop_data args\<rparr>"
    using assms(2) assms(5) [OF args] by (simp add: load_plan_Inr ixs Let_def)
  then show ?thesis using args cfg cm accounts by (auto simp: ixs)
qed

theorem carrier_delivers_plan_witness:
  "\<exists>ixs. build_port_wrapped_instructions example_env 1 SOL_MINT 1000 2 example_helios_ix = Inr ixs
     \<and> load_plan (example_rx\<lparr>rx_current_index := Some 0, rx_instruction_at := idx ixs\<rparr>) 27
       = (Inr example_plan :: string program_error + route_only_args)"
proof -
  have "\<exists>ixs. build_port_wrapped_instructions example_env 1 SOL_MINT 1000 2 example_helios_ix = Inr ixs"
    by (simp add: build_port_wrapped_instructions_def resolve_port_config_def mint_env_suffix_def classify_mint_def
        parse_env_pubkey_def parse_optional_env_pubkey_def parse_env_pubkey_aliases_def parse_pubkey_def
        decode_helios_flash_arb_args_def example_env_rules example_helios_ix_def idx_def Let_def)
  then obtain ixs where ixs: "build_port_wrapped_instructions example_env 1 SOL_MINT 1000 2 example_helios_ix = Inr ixs" ..
  have dec: "fe_decode_args example_env b = Some args \<longleftrightarrow> args = \<lparr>faa_borrow_amount = 10, faa_min_profit = 5,
      faa_hop_account_counts = [1], faa_hop_data = [[42]]\<rparr>" for b args
    by (auto simp: example_env_simps)
  have recv: "pc_receiver_program cfg = 27" if "resolve_port_config example_env SOL_MINT = Inr cfg" for cfg
    using that by (auto simp: resolve_port_config_def parse_env_pubkey_aliases_def parse_pubkey_def example_env_rules)
  from carrier_delivers_plan [OF ixs, of "example_rx\<lparr>rx_current_index := Some 0, rx_instruction_at := idx ixs\<rparr>" 0 "[]" "[]"]
  show ?thesis using ixs recv by (auto simp: dec example_rx_def example_plan_def Let_def)
qed

end
