(* ===== verification/Account_Data.thy ===== *)
theory Account_Data
  imports Prelude
begin

text \<open>
  Fields of on-chain account data, as the pool decoders of \<^verbatim>\<open>market-engine\<close> read them. A range outside
  the data is \<open>None\<close>: a panic where the source indexes (\<^verbatim>\<open>data[a..b]\<close>), a returned \<^verbatim>\<open>None\<close> where it uses
  \<^verbatim>\<open>get(..)?\<close>. A signed field is the word of its bits.
\<close>

definition read_u8 :: "bytes \<Rightarrow> nat \<Rightarrow> u8 option" where
  "read_u8 data off = idx data off"

definition read_u16 :: "bytes \<Rightarrow> nat \<Rightarrow> u16 option" where
  "read_u16 data off = map_option u16_of_le (slice_get data off (off + 2))"

definition read_u32 :: "bytes \<Rightarrow> nat \<Rightarrow> u32 option" where
  "read_u32 data off = map_option u32_of_le (slice_get data off (off + 4))"

definition read_u64 :: "bytes \<Rightarrow> nat \<Rightarrow> u64 option" where
  "read_u64 data off = map_option u64_of_le (slice_get data off (off + 8))"

definition read_u128 :: "bytes \<Rightarrow> nat \<Rightarrow> u128 option" where
  "read_u128 data off = map_option u128_of_le (slice_get data off (off + 16))"

text \<open>A signed integer is an \<open>int\<close>; \<open>wrap64\<close> and \<open>wrap32\<close> bring a result of wrapping arithmetic back into range.\<close>

definition read_i32 :: "bytes \<Rightarrow> nat \<Rightarrow> int option" where
  "read_i32 data off = map_option sint (read_u32 data off)"

definition read_i64 :: "bytes \<Rightarrow> nat \<Rightarrow> int option" where
  "read_i64 data off = map_option sint (read_u64 data off)"

definition wrap64 :: "int \<Rightarrow> int" where "wrap64 x = signed_take_bit 63 x"
definition wrap32 :: "int \<Rightarrow> int" where "wrap32 x = signed_take_bit 31 x"

definition wrap128 :: "int \<Rightarrow> int" where "wrap128 x = signed_take_bit 127 x"

lemma wrap64_in [arith_simps]: "- 9223372036854775808 \<le> x \<Longrightarrow> x < 9223372036854775808 \<Longrightarrow> wrap64 x = x"
  by (simp add: wrap64_def signed_take_bit_int_eq_self)

lemma wrap32_in [arith_simps]: "- 2147483648 \<le> x \<Longrightarrow> x < 2147483648 \<Longrightarrow> wrap32 x = x"
  by (simp add: wrap32_def signed_take_bit_int_eq_self)

lemma sint_small: "uint (a :: u64) < 2 ^ 63 \<Longrightarrow> sint a = uint a"
proof -
  assume "uint a < 2 ^ 63"
  moreover have "- (2 ^ 63) \<le> uint a" by (rule order_trans [OF _ uint_ge_0]) simp
  ultimately show ?thesis by (simp add: sint_uint signed_take_bit_int_eq_self)
qed

definition read_pubkey :: "bytes \<Rightarrow> nat \<Rightarrow> pubkey option" where
  "read_pubkey data off = map_option pubkey_of_bytes (slice_get data off (off + 32))"

lemmas read_defs = read_u8_def read_u16_def read_i32_def read_i64_def read_u32_def read_u64_def read_u128_def read_pubkey_def

lemma read_in [buf_simps]:
  "off < length data \<Longrightarrow> read_u8 data off = Some (data ! off)"
  "off + 2 \<le> length data \<Longrightarrow> read_u16 data off = Some (u16_of_le (take 2 (drop off data)))"
  "off + 4 \<le> length data \<Longrightarrow> read_u32 data off = Some (u32_of_le (take 4 (drop off data)))"
  "off + 8 \<le> length data \<Longrightarrow> read_u64 data off = Some (u64_of_le (take 8 (drop off data)))"
  "off + 4 \<le> length data \<Longrightarrow> read_i32 data off = Some (sint (u32_of_le (take 4 (drop off data))))"
  "off + 8 \<le> length data \<Longrightarrow> read_i64 data off = Some (sint (u64_of_le (take 8 (drop off data))))"
  "off + 16 \<le> length data \<Longrightarrow> read_u128 data off = Some (u128_of_le (take 16 (drop off data)))"
  "off + 32 \<le> length data \<Longrightarrow> read_pubkey data off = Some (pubkey_of_bytes (take 32 (drop off data)))"
  by (simp_all add: read_defs buf_simps)

text \<open>The fields of account data that is long enough, read without the option.\<close>

definition key_at :: "bytes \<Rightarrow> nat \<Rightarrow> pubkey" where
  "key_at data off = pubkey_of_bytes (take 32 (drop off data))"

definition word_at :: "bytes \<Rightarrow> nat \<Rightarrow> u64" where
  "word_at data off = u64_of_le (take 8 (drop off data))"

end
