(* ===== verification/Amm.thy ===== *)
theory Amm
  imports Account_Data
begin

text \<open>
  The constant-product pools: \<^verbatim>\<open>market-engine/src/raydium_cpmm.rs\<close>, \<^verbatim>\<open>market-engine/src/fluxbeam.rs\<close> and
  the XY=K branch of \<^verbatim>\<open>DexPool::quote_a_to_b\<close> in \<^verbatim>\<open>market-engine/src/pool_state.rs\<close>. The contract of a
  constant-product quote is the locale \<open>swap_curve\<close>; what a trader may rely on is proved there once.
  A decoder returns \<open>None\<close> when it would panic, \<open>Some None\<close> when it rejects the account.
\<close>

section \<open>Raydium CPMM\<close>

definition RAYDIUM_CPMM_DEFAULT_FEE_BPS :: u64 where "RAYDIUM_CPMM_DEFAULT_FEE_BPS = 25"

record cpmm_pool_info =
  cp_token_0 :: pubkey
  cp_token_1 :: pubkey
  cp_vault_0 :: pubkey
  cp_vault_1 :: pubkey
  cp_token_0_program :: pubkey
  cp_token_1_program :: pubkey
  cp_fee_bps :: u64

definition decode_cpmm_pool :: "bytes \<Rightarrow> cpmm_pool_info option option" where
  "decode_cpmm_pool data =
     (if length data < 381 then Some None
      else do {
        status \<leftarrow> read_u8 data 329;
        if status \<noteq> 1 then Some None
        else do {
          vault_0 \<leftarrow> read_pubkey data 72;
          vault_1 \<leftarrow> read_pubkey data 104;
          token_0 \<leftarrow> read_pubkey data 168;
          token_1 \<leftarrow> read_pubkey data 200;
          token_0_program \<leftarrow> read_pubkey data 232;
          token_1_program \<leftarrow> read_pubkey data 264;
          if token_0 = 0 \<or> token_1 = 0 \<or> vault_0 = 0 \<or> vault_1 = 0 then Some None
          else Some (Some \<lparr>cp_token_0 = token_0, cp_token_1 = token_1, cp_vault_0 = vault_0,
            cp_vault_1 = vault_1, cp_token_0_program = token_0_program,
            cp_token_1_program = token_1_program, cp_fee_bps = RAYDIUM_CPMM_DEFAULT_FEE_BPS\<rparr>) } })"

definition quote_cpmm :: "u64 \<Rightarrow> u64 \<Rightarrow> u64 \<Rightarrow> u64 \<Rightarrow> u64" where
  "quote_cpmm reserve_in reserve_out amount_in fee_bps =
     (if reserve_in = 0 \<or> reserve_out = 0 \<or> amount_in = 0 \<or> fee_bps \<ge> 10000 then 0
      else let fee_numerator = unwrap_or 0 (checked_sub 10000 (widen fee_bps));
               amount_in_with_fee = unwrap_or 0 (checked_mul (widen amount_in) fee_numerator);
               numerator = unwrap_or 0 (checked_mul amount_in_with_fee (widen reserve_out));
               denominator = unwrap_or 0 (checked_add
                 (unwrap_or 0 (checked_mul (widen reserve_in) 10000)) amount_in_with_fee) in
        if denominator = 0 then 0 else narrow (numerator div denominator))"

section \<open>FluxBeam\<close>

definition FLUXBEAM_DEFAULT_FEE_BPS :: u64 where "FLUXBEAM_DEFAULT_FEE_BPS = 30"

record fluxbeam_pool_info =
  fb_token_a :: pubkey
  fb_token_b :: pubkey
  fb_vault_a :: pubkey
  fb_vault_b :: pubkey
  fb_fee_bps :: u64

definition decode_fluxbeam_pool :: "bytes \<Rightarrow> fluxbeam_pool_info option option" where
  "decode_fluxbeam_pool data =
     (if length data < 389 then Some None
      else do {
        status \<leftarrow> read_u64 data 8;
        if status = 0 then Some None
        else do {
          token_a \<leftarrow> read_pubkey data 261;
          token_b \<leftarrow> read_pubkey data 293;
          vault_a \<leftarrow> read_pubkey data 325;
          vault_b \<leftarrow> read_pubkey data 357;
          if token_a = 0 \<or> token_b = 0 \<or> vault_a = 0 \<or> vault_b = 0 then Some None
          else Some (Some \<lparr>fb_token_a = token_a, fb_token_b = token_b, fb_vault_a = vault_a,
            fb_vault_b = vault_b, fb_fee_bps = FLUXBEAM_DEFAULT_FEE_BPS\<rparr>) } })"

definition quote_fluxbeam :: "u64 \<Rightarrow> u64 \<Rightarrow> u64 \<Rightarrow> u64 \<Rightarrow> u64" where
  "quote_fluxbeam reserve_in reserve_out amount_in fee_bps =
     (if reserve_in = 0 \<or> reserve_out = 0 \<or> amount_in = 0 \<or> fee_bps \<ge> 10000 then 0
      else let fee_numerator = unwrap_or 0 (checked_sub 10000 (widen fee_bps));
               amount_in_with_fee = unwrap_or 0 (checked_mul (widen amount_in) fee_numerator);
               numerator = unwrap_or 0 (checked_mul amount_in_with_fee (widen reserve_out));
               denominator = unwrap_or 0 (checked_add
                 (unwrap_or 0 (checked_mul (widen reserve_in) 10000)) amount_in_with_fee) in
        if denominator = 0 then 0 else narrow (numerator div denominator))"

section \<open>The XY=K branch of a cached pool\<close>

text \<open>Plain \<^verbatim>\<open>u128\<close> arithmetic, which wraps; a zero denominator panics.\<close>

definition xyk_quote :: "u64 \<Rightarrow> u64 \<Rightarrow> u64 \<Rightarrow> u64 \<Rightarrow> u64 option" where
  "xyk_quote reserve_in reserve_out amount_in fee_bps =
     (let fee_numerator = 10000 - widen fee_bps;
          amount_in_with_fee = widen amount_in * fee_numerator;
          numerator = amount_in_with_fee * widen reserve_out;
          denominator = widen reserve_in * 10000 + amount_in_with_fee in
      if denominator = 0 then None else Some (narrow (numerator div denominator)))"

section \<open>The contract of a constant-product quote\<close>

text \<open>The output of a constant-product pool on unbounded integers, rounded down.\<close>

definition ideal_out :: "nat \<Rightarrow> nat \<Rightarrow> nat \<Rightarrow> nat \<Rightarrow> nat" where
  "ideal_out ri ro a f = a * (10000 - f) * ro div (ri * 10000 + a * (10000 - f))"

lemma ideal_out_less: "0 < ri \<Longrightarrow> 0 < ro \<Longrightarrow> ideal_out ri ro a f < ro"
  unfolding ideal_out_def by (simp add: div_less_iff_less_mult algebra_simps)

lemma ideal_out_product:
  assumes "0 < ri" and "0 < ro"
  shows "ri * ro \<le> (ri + a) * (ro - ideal_out ri ro a f)"
proof -
  define n where "n = a * (10000 - f)"
  define d where "d = ri * 10000 + n"
  define q where "q = ideal_out ri ro a f"
  have "q * d \<le> n * ro"
    unfolding q_def ideal_out_def d_def n_def by (simp add: mult.commute mult.left_commute)
  moreover have "q < ro" using ideal_out_less [OF assms] by (simp add: q_def)
  ultimately have "10000 * (ri * ro) \<le> (ro - q) * d"
    by (simp add: d_def algebra_simps diff_mult_distrib)
  also have "\<dots> \<le> (ro - q) * (10000 * (ri + a))"
    by (intro mult_le_mono2) (simp add: d_def n_def)
  also have "\<dots> = 10000 * ((ri + a) * (ro - q))" by (simp only: ac_simps)
  finally show ?thesis by (simp add: q_def)
qed

lemma ideal_out_back:
  fixes ri ro a f :: nat
  assumes "0 < ri" and "0 < ro"
  defines "q \<equiv> ideal_out ri ro a f"
  shows "ideal_out (ro - q) (ri + a) q f \<le> a"
proof -
  define b where "b = ideal_out (ro - q) (ri + a) q f"
  have q: "q < ro" using ideal_out_less [OF assms(1,2)] by (simp add: q_def)
  have b: "b < ri + a" using ideal_out_less [of "ro - q" "ri + a"] assms(1) q by (simp add: b_def)
  have "ri * ro \<le> (ri + a) * (ro - q)" using ideal_out_product [OF assms(1,2)] by (simp add: q_def)
  also have "\<dots> \<le> ro * (ri + a - b)"
    using ideal_out_product [of "ro - q" "ri + a" q f] assms(1) q by (simp add: b_def mult.commute)
  finally have "ri \<le> ri + a - b" using assms(2) by (simp add: mult.commute)
  with b show ?thesis by (simp add: b_def)
qed

lemma ideal_out_mono:
  assumes "a \<le> b" and "0 < ri"
  shows "ideal_out ri ro a f \<le> ideal_out ri ro b f"
proof -
  define m n where "m = a * (10000 - f)" and "n = b * (10000 - f)"
  have le: "m \<le> n" using assms(1) by (simp add: m_def n_def)
  define q where "q = m * ro div (ri * 10000 + m)"
  have q: "q * (ri * 10000 + m) \<le> m * ro" by (simp add: q_def)
  have "q \<le> ro"
  proof (cases "m = 0")
    case False
    have "m * ro \<le> ro * (ri * 10000 + m)" by (simp add: algebra_simps)
    with q have "q * (ri * 10000 + m) \<le> ro * (ri * 10000 + m)" by (rule le_trans)
    with assms(2) show ?thesis by simp
  qed (simp add: q_def)
  moreover obtain k where k: "n = m + k" using le le_Suc_ex by blast
  ultimately have "q * k \<le> ro * k" by simp
  moreover have "q * (ri * 10000 + n) = q * (ri * 10000 + m) + q * k" and "n * ro = m * ro + ro * k"
    by (simp_all add: k algebra_simps)
  ultimately have "q * (ri * 10000 + n) \<le> n * ro" using q by linarith
  then have "q \<le> n * ro div (ri * 10000 + n)"
    using assms(2) by (simp add: less_eq_div_iff_mult_less_eq)
  then show ?thesis by (simp add: ideal_out_def q_def m_def n_def)
qed

locale swap_curve =
  fixes quote :: "u64 \<Rightarrow> u64 \<Rightarrow> u64 \<Rightarrow> u64 \<Rightarrow> u64"
    and fits :: "u64 \<Rightarrow> u64 \<Rightarrow> u64 \<Rightarrow> u64 \<Rightarrow> bool"
  assumes fits_reserves: "fits ri ro a f \<Longrightarrow> 0 < unat ri \<and> 0 < unat ro"
    and exact: "fits ri ro a f \<Longrightarrow> unat (quote ri ro a f) = ideal_out (unat ri) (unat ro) (unat a) (unat f)"
begin

lemma out_below_reserve: "fits ri ro a f \<Longrightarrow> quote ri ro a f < ro"
  using fits_reserves exact ideal_out_less by (simp add: word_less_nat_alt)

lemma product_kept:
  "fits ri ro a f \<Longrightarrow> unat ri * unat ro \<le> (unat ri + unat a) * (unat ro - unat (quote ri ro a f))"
  using fits_reserves exact ideal_out_product by simp

lemma monotone: "fits ri ro a f \<Longrightarrow> fits ri ro b f \<Longrightarrow> a \<le> b \<Longrightarrow> quote ri ro a f \<le> quote ri ro b f"
  using fits_reserves [of ri ro a f] exact ideal_out_mono [of "unat a" "unat b" "unat ri" "unat ro" "unat f"]
  by (simp add: word_le_nat_alt)

text \<open>Swapping the output back into the pool it left never returns more than was put in.\<close>

lemma there_and_back:
  assumes "fits ri ro a f" and "unat ri + unat a < 2 ^ 64"
    and "fits (ro - quote ri ro a f) (ri + a) (quote ri ro a f) f"
  shows "quote (ro - quote ri ro a f) (ri + a) (quote ri ro a f) f \<le> a"
proof -
  let ?q = "quote ri ro a f"
  have "unat (ro - ?q) = unat ro - unat ?q"
    using out_below_reserve [OF assms(1)] by (simp add: unat_sub)
  moreover have "unat (ri + a) = unat ri + unat a"
    using assms(2) by (simp add: unat_add_small)
  ultimately show ?thesis
    using exact [OF assms(1)] exact [OF assms(3)] fits_reserves [OF assms(1)]
      ideal_out_back [of "unat ri" "unat ro" "unat a" "unat f"]
    by (simp add: word_le_nat_alt)
qed

end

text \<open>A quote that answers zero whenever it cannot be exact needs no side condition.\<close>

locale guarded_curve = swap_curve +
  assumes refuses: "\<not> fits ri ro a f \<Longrightarrow> quote ri ro a f = 0"
begin

lemma out_bound: "ro \<noteq> 0 \<Longrightarrow> quote ri ro a f < ro"
  using out_below_reserve refuses [of ri ro a f] word_greater_zero_iff [of ro] by (cases "fits ri ro a f") metis+

lemma product_kept_always:
  "unat ri * unat ro \<le> (unat ri + unat a) * (unat ro - unat (quote ri ro a f))"
proof (cases "fits ri ro a f")
  case False
  then show ?thesis by (simp add: refuses)
qed (rule product_kept)

lemma no_profit_back:
  assumes "unat ri + unat a < 2 ^ 64"
  shows "quote (ro - quote ri ro a f) (ri + a) (quote ri ro a f) f \<le> a"
proof (cases "fits (ro - quote ri ro a f) (ri + a) (quote ri ro a f) f")
  case returned: True
  show ?thesis
  proof (cases "fits ri ro a f")
    case True
    then show ?thesis using there_and_back assms returned by blast
  next
    case False
    then have zero: "quote ri ro a f = 0" by (rule refuses)
    with returned have "unat (quote (ro - quote ri ro a f) (ri + a) (quote ri ro a f) f) = 0"
      by (simp add: exact ideal_out_def)
    then show ?thesis by (simp add: unat_eq_0)
  qed
qed (simp add: refuses)

end

section \<open>The three quotes meet it\<close>

definition product_fits :: "u64 \<Rightarrow> u64 \<Rightarrow> u64 \<Rightarrow> bool" where
  "product_fits ro a f \<longleftrightarrow> unat a * (10000 - unat f) * unat ro < 2 ^ 128"

definition guarded_fits :: "u64 \<Rightarrow> u64 \<Rightarrow> u64 \<Rightarrow> u64 \<Rightarrow> bool" where
  "guarded_fits ri ro a f \<longleftrightarrow> ri \<noteq> 0 \<and> ro \<noteq> 0 \<and> f < 10000 \<and> product_fits ro a f"

lemma fee_numerator_exact:
  assumes "f \<le> (10000 :: u64)"
  shows "widen f \<le> 10000" and "unat (10000 - widen f) = 10000 - unat f"
proof -
  show le: "widen f \<le> 10000" using assms by (simp add: word_le_nat_alt)
  show "unat (10000 - widen f) = 10000 - unat f" using le by (simp add: unat_sub)
qed

lemma curve_words:
  assumes "f \<le> (10000 :: u64)" and "product_fits ro a f"
  shows "unat (widen a * (10000 - widen f)) = unat a * (10000 - unat f)"
    and "unat (widen a * (10000 - widen f) * widen ro) = unat a * (10000 - unat f) * unat ro"
    and "unat (widen ri * 10000 + widen a * (10000 - widen f)) = unat ri * 10000 + unat a * (10000 - unat f)"
    and "unat (widen ri * 10000) = unat ri * 10000"
proof -
  have a: "unat a * (10000 - unat f) \<le> 18446744073709551615 * 10000"
    by (intro mult_le_mono) (use unat_u64_bound [of a] in linarith, simp)
  have r: "unat ri * 10000 \<le> 18446744073709551615 * 10000"
    by (intro mult_le_mono) (use unat_u64_bound [of ri] in linarith, simp)
  show one: "unat (widen a * (10000 - widen f)) = unat a * (10000 - unat f)"
    using a fee_numerator_exact [OF assms(1)] by (simp add: unat_mult_u128)
  show "unat (widen a * (10000 - widen f) * widen ro) = unat a * (10000 - unat f) * unat ro"
    using assms(2) one by (simp add: unat_mult_u128 product_fits_def)
  show two: "unat (widen ri * 10000) = unat ri * 10000"
    using r by (simp add: unat_mult_u128)
  show "unat (widen ri * 10000 + widen a * (10000 - widen f)) = unat ri * 10000 + unat a * (10000 - unat f)"
    using a r one two by (simp add: unat_add_u128)
qed

lemma xyk_quote_exact:
  assumes "ri \<noteq> 0" and "ro \<noteq> 0" and "f \<le> 10000" and "product_fits ro a f"
  shows "\<exists>q. xyk_quote ri ro a f = Some q \<and> unat q = ideal_out (unat ri) (unat ro) (unat a) (unat f)"
proof -
  note w = curve_words [OF assms(3,4)]
  have ri: "0 < unat ri" and ro: "0 < unat ro" using assms(1,2) by (simp_all add: unat_gt_0)
  have d: "widen ri * 10000 + widen a * (10000 - widen f) \<noteq> 0"
    using w(3) [of ri] ri by (metis add_is_0 mult_is_0 neq0_conv unat_0 zero_neq_numeral)
  have q: "unat (widen a * (10000 - widen f) * widen ro div (widen ri * 10000 + widen a * (10000 - widen f)))
      = ideal_out (unat ri) (unat ro) (unat a) (unat f)"
    by (simp only: unat_div w ideal_out_def)
  then have "unat (widen a * (10000 - widen f) * widen ro div (widen ri * 10000 + widen a * (10000 - widen f)))
      < 18446744073709551616"
    using ideal_out_less [OF ri ro, of "unat a" "unat f"] unat_u64_bound [of ro] by linarith
  with q d show ?thesis by (simp add: xyk_quote_def Let_def unat_narrow_small)
qed

lemma quote_cpmm_fits:
  assumes "guarded_fits ri ro a f"
  shows "Some (quote_cpmm ri ro a f) = xyk_quote ri ro a f"
proof -
  have f: "f \<le> 10000" and p: "product_fits ro a f" and r: "ri \<noteq> 0" "ro \<noteq> 0"
    using assms by (auto simp: guarded_fits_def less_imp_le)
  note w = curve_words [OF f p] and fee = fee_numerator_exact [OF f]
  obtain q where q: "xyk_quote ri ro a f = Some q" "unat q = ideal_out (unat ri) (unat ro) (unat a) (unat f)"
    using xyk_quote_exact [OF r f p] by blast
  show ?thesis
  proof (cases "a = 0")
    case True
    then have "q = 0" using q(2) by (simp add: ideal_out_def unat_eq_0)
    with True q(1) show ?thesis by (simp add: quote_cpmm_def)
  next
    case False
    have "checked_sub 10000 (widen f) = Some (10000 - widen f)" using fee by (simp add: checked_sub_def)
    moreover have "checked_mul (widen a) (10000 - widen f) = Some (widen a * (10000 - widen f))"
      using w(1) fee by (simp add: checked_mul_Some)
    moreover have "checked_mul (widen a * (10000 - widen f)) (widen ro) = Some (widen a * (10000 - widen f) * widen ro)"
      using w(1,2) by (simp add: checked_mul_Some)
    moreover have "checked_mul (widen ri) 10000 = Some (widen ri * 10000)"
      using w(4) by (simp add: checked_mul_Some)
    moreover have "checked_add (widen ri * 10000) (widen a * (10000 - widen f))
        = Some (widen ri * 10000 + widen a * (10000 - widen f))"
      using w(1,3,4) by (simp add: checked_add_Some)
    ultimately show ?thesis
      using False assms q(1) by (auto simp: quote_cpmm_def xyk_quote_def Let_def guarded_fits_def split: if_splits)
  qed
qed

lemma quote_cpmm_refuses:
  assumes "\<not> guarded_fits ri ro a f"
  shows "quote_cpmm ri ro a f = 0"
proof (cases "ri = 0 \<or> ro = 0 \<or> a = 0 \<or> 10000 \<le> f")
  case False
  then have f: "f \<le> 10000" by (meson linear)
  from False assms have "\<not> product_fits ro a f" by (auto simp: guarded_fits_def)
  then have big: "2 ^ 128 \<le> unat a * (10000 - unat f) * unat ro" by (simp add: product_fits_def)
  have "unat a * (10000 - unat f) \<le> 18446744073709551615 * 10000"
    by (intro mult_le_mono) (use unat_u64_bound [of a] in linarith, simp)
  then have n: "unat (widen a * (10000 - widen f)) = unat a * (10000 - unat f)"
    using fee_numerator_exact [OF f] by (simp add: unat_mult_u128)
  have "checked_sub 10000 (widen f) = Some (10000 - widen f)"
    using fee_numerator_exact [OF f] by (simp add: checked_sub_def)
  moreover have "checked_mul (widen a) (10000 - widen f) = Some (widen a * (10000 - widen f))"
    using n fee_numerator_exact [OF f] by (simp add: checked_mul_Some)
  moreover have "checked_mul (widen a * (10000 - widen f)) (widen ro) = None"
    using big n by (simp add: checked_mul_def)
  ultimately show ?thesis by (simp add: quote_cpmm_def Let_def)
qed (auto simp: quote_cpmm_def)

lemma quote_fluxbeam_eq: "quote_fluxbeam = quote_cpmm"
  by (simp add: fun_eq_iff quote_fluxbeam_def quote_cpmm_def)

interpretation cpmm: guarded_curve quote_cpmm guarded_fits
proof unfold_locales
  fix ri ro a f
  assume g: "guarded_fits ri ro a f"
  then show "0 < unat ri \<and> 0 < unat ro" by (simp add: guarded_fits_def unat_gt_0)
  obtain q where "xyk_quote ri ro a f = Some q" "unat q = ideal_out (unat ri) (unat ro) (unat a) (unat f)"
    using g xyk_quote_exact [of ri ro f a] by (auto simp: guarded_fits_def less_imp_le)
  with quote_cpmm_fits [OF g]
  show "unat (quote_cpmm ri ro a f) = ideal_out (unat ri) (unat ro) (unat a) (unat f)" by simp
qed (rule quote_cpmm_refuses)

interpretation fluxbeam: guarded_curve quote_fluxbeam guarded_fits
  unfolding quote_fluxbeam_eq by (rule cpmm.guarded_curve_axioms)

definition pool_fits :: "u64 \<Rightarrow> u64 \<Rightarrow> u64 \<Rightarrow> u64 \<Rightarrow> bool" where
  "pool_fits ri ro a f \<longleftrightarrow> ri \<noteq> 0 \<and> ro \<noteq> 0 \<and> f \<le> 10000 \<and> product_fits ro a f"

interpretation pool: swap_curve "\<lambda>ri ro a f. the (xyk_quote ri ro a f)" pool_fits
proof unfold_locales
  fix ri ro a f
  assume g: "pool_fits ri ro a f"
  then show "0 < unat ri \<and> 0 < unat ro" by (simp add: pool_fits_def unat_gt_0)
  from g show "unat (the (xyk_quote ri ro a f)) = ideal_out (unat ri) (unat ro) (unat a) (unat f)"
    using xyk_quote_exact [of ri ro f a] by (auto simp: pool_fits_def)
qed

section \<open>Properties\<close>

text \<open>
  Property C13. The Raydium CPMM and FluxBeam quotes never empty a pool nor lower its product: the output
  is below the output reserve (of a pool that has one), and the reserves after the swap multiply to at
  least what they did before, for every input, fee and overflow.
\<close>

theorem constant_product_kept:
  "(ro = 0 \<or> quote_cpmm ri ro a f < ro)
   \<and> unat ri * unat ro \<le> (unat ri + unat a) * (unat ro - unat (quote_cpmm ri ro a f))
   \<and> (ro = 0 \<or> quote_fluxbeam ri ro a f < ro)
   \<and> unat ri * unat ro \<le> (unat ri + unat a) * (unat ro - unat (quote_fluxbeam ri ro a f))"
  using cpmm.out_bound [of ro ri a f] cpmm.product_kept_always [of ri ro a f]
    fluxbeam.out_bound [of ro ri a f] fluxbeam.product_kept_always [of ri ro a f] by (simp add: disj_imp)

text \<open>
  Property C14. Swapping there and back in one constant-product pool makes no profit: the output of a
  quoted swap, quoted back in the pool the swap leaves behind, is at most the input, at any fee, as long
  as the input reserve can hold the input; the XY=K branch of a cached pool has this too wherever both
  products fit into 128 bits.
\<close>

theorem no_profit_there_and_back:
  assumes "unat ri + unat a < 2 ^ 64"
  shows "(let q = quote_cpmm ri ro a f in quote_cpmm (ro - q) (ri + a) q f \<le> a)
    \<and> (let q = quote_fluxbeam ri ro a f in quote_fluxbeam (ro - q) (ri + a) q f \<le> a)
    \<and> (let q = the (xyk_quote ri ro a f) in
        pool_fits ri ro a f \<and> pool_fits (ro - q) (ri + a) q f \<longrightarrow> the (xyk_quote (ro - q) (ri + a) q f) \<le> a)"
  using cpmm.no_profit_back [OF assms] fluxbeam.no_profit_back [OF assms] pool.there_and_back assms
  by (simp add: Let_def)

theorem no_profit_there_and_back_witness:
  "quote_cpmm 1000000 1000000 1000 25 = 996
   \<and> quote_cpmm (1000000 - 996) (1000000 + 1000) 996 25 \<le> 1000"
proof -
  have q: "quote_cpmm 1000000 1000000 1000 25 = 996"
    by (simp add: quote_cpmm_def checked_sub_def checked_mul_def checked_add_def Let_def)
  have "unat (1000000 :: u64) + unat (1000 :: u64) < 2 ^ 64" by simp
  from no_profit_there_and_back [OF this, of 1000000 25] show ?thesis by (simp add: Let_def q)
qed

text \<open>
  The three constant-product quotes agree wherever the guarded ones answer, that is when both
  reserves are non-zero, the fee is below one and the product fits into 128 bits; outside, the guarded ones
  answer zero, while the XY=K branch of a cached pool wraps: it answers a positive amount where the product
  overflows, and divides by zero at a fee above one.
\<close>

theorem three_quotes_agree:
  "quote_fluxbeam ri ro a f = quote_cpmm ri ro a f
   \<and> (if guarded_fits ri ro a f then xyk_quote ri ro a f = Some (quote_cpmm ri ro a f)
      else quote_cpmm ri ro a f = 0)
   \<and> quote_cpmm 1 18446744073709551615 18446744073709551615 0 = 0 \<and> xyk_quote 1 18446744073709551615 18446744073709551615 0 = Some 1844674407370953
   \<and> quote_cpmm 1 1 10000 10001 = 0 \<and> xyk_quote 1 1 10000 10001 = None"
proof (intro conjI)
  show "quote_cpmm 1 18446744073709551615 18446744073709551615 0 = 0"
    by (rule quote_cpmm_refuses) (simp add: guarded_fits_def product_fits_def unat_max_word)
  show "xyk_quote 1 18446744073709551615 18446744073709551615 0 = Some 1844674407370953" by (simp add: xyk_quote_def Let_def)
  show "quote_cpmm 1 1 10000 10001 = 0" by (simp add: quote_cpmm_def)
  show "xyk_quote 1 1 10000 10001 = None" by (simp add: xyk_quote_def Let_def)
  show "if guarded_fits ri ro a f then xyk_quote ri ro a f = Some (quote_cpmm ri ro a f)
      else quote_cpmm ri ro a f = 0"
    using quote_cpmm_fits [of ri ro a f] quote_cpmm_refuses [of ri ro a f] by simp
qed (simp add: quote_fluxbeam_eq)

end
