(* ===== verification/Meteora.thy ===== *)
theory Meteora
  imports Account_Data "HOL-Library.Signed_Division"
begin

text \<open>
  Meteora DLMM pools, \<^verbatim>\<open>market-engine/src/meteora.rs\<close>: the decoders of a pair and of a bin array, the
  choice of the bin arrays to cache, and the exact-in quote, which walks the bins from the active one in the
  direction of the swap. A \<^verbatim>\<open>HashMap\<close> of bin arrays is an association list with distinct keys. \<^verbatim>\<open>i32\<close> and
  \<^verbatim>\<open>i64\<close> are integers, whose arithmetic wraps by \<open>wrap64\<close>.
\<close>

section \<open>Data\<close>

definition LB_PAIR_DISCRIMINATOR :: bytes where
  "LB_PAIR_DISCRIMINATOR = [33, 11, 49, 98, 181, 101, 177, 13]"

definition BIN_ARRAY_DISCRIMINATOR :: bytes where
  "BIN_ARRAY_DISCRIMINATOR = [92, 142, 92, 220, 5, 148, 70, 181]"

definition MAX_BIN_ARRAY_SIZE :: int where [simp]: "MAX_BIN_ARRAY_SIZE = 70"
definition BIN_ARRAY_BITMAP_SIZE :: int where [simp]: "BIN_ARRAY_BITMAP_SIZE = 512"
definition SCALE_OFFSET :: nat where [simp]: "SCALE_OFFSET = 64"
definition FEE_PRECISION :: u128 where "FEE_PRECISION = 1000000000"
definition MAX_FEE_RATE :: u128 where "MAX_FEE_RATE = 100000000"
definition MAX_CACHED_BIN_ARRAYS_PER_SIDE :: nat where [simp]: "MAX_CACHED_BIN_ARRAYS_PER_SIDE = 6"

record meteora_static_parameters =
  msp_base_factor :: u16
  msp_filter_period :: u16
  msp_decay_period :: u16
  msp_reduction_factor :: u16
  msp_variable_fee_control :: u32
  msp_max_volatility_accumulator :: u32
  msp_min_bin_id :: int
  msp_max_bin_id :: int
  msp_protocol_share :: u16
  msp_base_fee_power_factor :: u8

record meteora_variable_parameters =
  mvp_volatility_accumulator :: u32
  mvp_volatility_reference :: u32
  mvp_index_reference :: int
  mvp_last_update_timestamp :: int

record meteora_bin =
  mb_amount_x :: u64
  mb_amount_y :: u64
  mb_price :: u128

record meteora_bin_array =
  mba_index :: int
  mba_bins :: "meteora_bin list"

record meteora_lb_pair =
  mlp_active_id :: int
  mlp_bin_step :: u16
  mlp_token_x_mint :: pubkey
  mlp_token_y_mint :: pubkey
  mlp_reserve_x :: pubkey
  mlp_reserve_y :: pubkey
  mlp_parameters :: meteora_static_parameters
  mlp_v_parameters :: meteora_variable_parameters
  mlp_bin_array_bitmap :: "u64 list"

section \<open>Decoders\<close>

fun read_u64_array :: "nat \<Rightarrow> bytes \<Rightarrow> nat \<Rightarrow> u64 list option" where
  "read_u64_array 0 data off = Some []"
| "read_u64_array (Suc n) data off = do {
     x \<leftarrow> read_u64 data off;
     xs \<leftarrow> read_u64_array n data (off + 8);
     Some (x # xs) }"

definition decode_static_parameters :: "bytes \<Rightarrow> meteora_static_parameters option" where
  "decode_static_parameters data = do {
     base_factor \<leftarrow> read_u16 data 8;
     filter_period \<leftarrow> read_u16 data 10;
     decay_period \<leftarrow> read_u16 data 12;
     reduction_factor \<leftarrow> read_u16 data 14;
     variable_fee_control \<leftarrow> read_u32 data 16;
     max_volatility_accumulator \<leftarrow> read_u32 data 20;
     min_bin_id \<leftarrow> read_i32 data 24;
     max_bin_id \<leftarrow> read_i32 data 28;
     protocol_share \<leftarrow> read_u16 data 32;
     base_fee_power_factor \<leftarrow> read_u8 data 34;
     Some \<lparr>msp_base_factor = base_factor, msp_filter_period = filter_period, msp_decay_period = decay_period,
       msp_reduction_factor = reduction_factor, msp_variable_fee_control = variable_fee_control,
       msp_max_volatility_accumulator = max_volatility_accumulator, msp_min_bin_id = min_bin_id,
       msp_max_bin_id = max_bin_id, msp_protocol_share = protocol_share,
       msp_base_fee_power_factor = base_fee_power_factor\<rparr> }"

definition decode_variable_parameters :: "bytes \<Rightarrow> meteora_variable_parameters option" where
  "decode_variable_parameters data = do {
     volatility_accumulator \<leftarrow> read_u32 data 40;
     volatility_reference \<leftarrow> read_u32 data 44;
     index_reference \<leftarrow> read_i32 data 48;
     last_update_timestamp \<leftarrow> read_i64 data 56;
     Some \<lparr>mvp_volatility_accumulator = volatility_accumulator,
       mvp_volatility_reference = volatility_reference, mvp_index_reference = index_reference,
       mvp_last_update_timestamp = last_update_timestamp\<rparr> }"

definition decode_lb_pair :: "bytes \<Rightarrow> meteora_lb_pair option" where
  "decode_lb_pair data =
     (if length data < 712 \<or> take 8 data \<noteq> LB_PAIR_DISCRIMINATOR then None
      else do {
        parameters \<leftarrow> decode_static_parameters data;
        v_parameters \<leftarrow> decode_variable_parameters data;
        active_id \<leftarrow> read_i32 data 76;
        bin_step \<leftarrow> read_u16 data 80;
        token_x_mint \<leftarrow> read_pubkey data 88;
        token_y_mint \<leftarrow> read_pubkey data 120;
        reserve_x \<leftarrow> read_pubkey data 152;
        reserve_y \<leftarrow> read_pubkey data 184;
        bin_array_bitmap \<leftarrow> read_u64_array 16 data 584;
        Some \<lparr>mlp_active_id = active_id, mlp_bin_step = bin_step, mlp_token_x_mint = token_x_mint,
          mlp_token_y_mint = token_y_mint, mlp_reserve_x = reserve_x, mlp_reserve_y = reserve_y,
          mlp_parameters = parameters, mlp_v_parameters = v_parameters,
          mlp_bin_array_bitmap = bin_array_bitmap\<rparr> })"

fun read_bins :: "nat \<Rightarrow> bytes \<Rightarrow> nat \<Rightarrow> meteora_bin list option" where
  "read_bins 0 data off = Some []"
| "read_bins (Suc n) data off = do {
     amount_x \<leftarrow> read_u64 data off;
     amount_y \<leftarrow> read_u64 data (off + 8);
     price \<leftarrow> read_u128 data (off + 16);
     bins \<leftarrow> read_bins n data (off + 144);
     Some (\<lparr>mb_amount_x = amount_x, mb_amount_y = amount_y, mb_price = price\<rparr> # bins) }"

definition decode_bin_array :: "bytes \<Rightarrow> pubkey \<Rightarrow> meteora_bin_array option" where
  "decode_bin_array data expected_lb_pair =
     (if length data < 10144 \<or> take 8 data \<noteq> BIN_ARRAY_DISCRIMINATOR then None
      else do {
        lb_pair \<leftarrow> read_pubkey data 24;
        if lb_pair \<noteq> expected_lb_pair then None
        else do {
          bins \<leftarrow> read_bins (nat MAX_BIN_ARRAY_SIZE) data 56;
          index \<leftarrow> read_i64 data 8;
          Some \<lparr>mba_index = index, mba_bins = bins\<rparr> } })"

section \<open>Bin arithmetic\<close>

definition bin_array_lower_bin_id :: "int \<Rightarrow> int" where
  "bin_array_lower_bin_id index = wrap64 (index * MAX_BIN_ARRAY_SIZE)"

definition bin_array_upper_bin_id :: "int \<Rightarrow> int" where
  "bin_array_upper_bin_id index = wrap64 (wrap64 (bin_array_lower_bin_id index + MAX_BIN_ARRAY_SIZE) - 1)"

definition bin_id_to_bin_array_index :: "int \<Rightarrow> int" where
  "bin_id_to_bin_array_index bin_id =
     (let i = bin_id sdiv MAX_BIN_ARRAY_SIZE; r = bin_id smod MAX_BIN_ARRAY_SIZE in
      if bin_id < 0 \<and> r \<noteq> 0 then i - 1 else i)"

definition bitmap_has_index :: "u64 list \<Rightarrow> int \<Rightarrow> bool" where
  "bitmap_has_index bitmap bin_array_index =
     (if \<not> (- BIN_ARRAY_BITMAP_SIZE \<le> bin_array_index \<and> bin_array_index < BIN_ARRAY_BITMAP_SIZE) then False
      else let offset = nat (bin_array_index + BIN_ARRAY_BITMAP_SIZE) in
        case idx bitmap (offset div 64) of
          None \<Rightarrow> False
        | Some chunk \<Rightarrow> and (drop_bit (offset mod 64) chunk) 1 = 1)"

text \<open>The search of \<^verbatim>\<open>candidate_bin_array_indices\<close> from the active array outwards.\<close>

function candidate_loop :: "u64 list \<Rightarrow> int \<Rightarrow> int \<Rightarrow> nat \<Rightarrow> nat \<Rightarrow> int list \<Rightarrow> int list" where
  "candidate_loop bitmap active_index distance negative_count positive_count out =
     (if \<not> (negative_count < MAX_CACHED_BIN_ARRAYS_PER_SIDE \<or> positive_count < MAX_CACHED_BIN_ARRAYS_PER_SIDE)
      then out
      else let negative_idx = active_index - distance;
               positive_idx = active_index + distance;
               neg = negative_count < MAX_CACHED_BIN_ARRAYS_PER_SIDE \<and> bitmap_has_index bitmap negative_idx;
               pos = positive_count < MAX_CACHED_BIN_ARRAYS_PER_SIDE \<and> bitmap_has_index bitmap positive_idx;
               out = out @ (if neg then [negative_idx] else []) @ (if pos then [positive_idx] else []) in
        if negative_idx < - BIN_ARRAY_BITMAP_SIZE \<and> positive_idx > BIN_ARRAY_BITMAP_SIZE - 1 then out
        else candidate_loop bitmap active_index (distance + 1)
          (if neg then negative_count + 1 else negative_count)
          (if pos then positive_count + 1 else positive_count) out)"
  by pat_completeness auto
termination
  by (relation "measure (\<lambda>(b, active, distance, n, p, out). nat (514 + \<bar>active\<bar> - distance))") auto

declare candidate_loop.simps [simp del]

definition candidate_bin_array_indices :: "int \<Rightarrow> u64 list \<Rightarrow> int list" where
  "candidate_bin_array_indices active_id bitmap =
     (let active_index = bin_id_to_bin_array_index active_id in
      remdups_adj (sort (candidate_loop bitmap active_index 1 0 0 [active_index])))"

section \<open>Fixed-point arithmetic\<close>

datatype rounding = Up | Down

definition mul_shr_u64 :: "u64 \<Rightarrow> u128 \<Rightarrow> rounding \<Rightarrow> u128 option" where
  "mul_shr_u64 x y rounding =
     (let hi = narrow (drop_bit SCALE_OFFSET y);
          lo = narrow y;
          high_part = widen x * widen hi;
          low_product = widen x * widen lo in do {
        quotient \<leftarrow> checked_add high_part (drop_bit SCALE_OFFSET low_product);
        let remainder = and low_product (push_bit SCALE_OFFSET 1 - 1);
        Some (if rounding = Up \<and> remainder > 0 then sat_add quotient 1 else quotient) })"

definition shl_div_u64 :: "u64 \<Rightarrow> u128 \<Rightarrow> rounding \<Rightarrow> u128 option" where
  "shl_div_u64 x y rounding =
     (if y = 0 then None
      else let numerator = push_bit SCALE_OFFSET (widen x);
               quotient = numerator div y;
               remainder = numerator mod y in
        Some (if rounding = Up \<and> remainder > 0 then sat_add quotient 1 else quotient))"

text \<open>\<^verbatim>\<open>u128::div_ceil\<close> (the callers' divisors are not zero) and \<^verbatim>\<open>u128::saturating_pow\<close>.\<close>

definition div_ceil :: "u128 \<Rightarrow> u128 \<Rightarrow> u128" where
  "div_ceil a b = (if a mod b > 0 then a div b + 1 else a div b)"

definition sat_pow :: "nat \<Rightarrow> nat \<Rightarrow> u128" where
  "sat_pow b e = word_of_nat (min (b ^ e) (2 ^ 128 - 1))"

section \<open>Fees\<close>

definition get_base_fee :: "u16 \<Rightarrow> meteora_static_parameters \<Rightarrow> u128" where
  "get_base_fee bin_step parameters =
     (let pow = sat_pow 10 (unat (msp_base_fee_power_factor parameters)) in
      ucast (msp_base_factor parameters) * ucast bin_step * 10 * pow)"

definition get_variable_fee :: "u16 \<Rightarrow> meteora_static_parameters \<Rightarrow> meteora_variable_parameters \<Rightarrow> u128" where
  "get_variable_fee bin_step parameters v_parameters =
     (if msp_variable_fee_control parameters = 0 then 0
      else let square = (ucast (mvp_volatility_accumulator v_parameters) * ucast bin_step) ^ 2;
               numerator = ucast (msp_variable_fee_control parameters) * square in
        div_ceil numerator 100000000000)"

definition total_fee :: "u16 \<Rightarrow> meteora_static_parameters \<Rightarrow> meteora_variable_parameters \<Rightarrow> u128" where
  "total_fee bin_step parameters v_parameters =
     min (sat_add (get_base_fee bin_step parameters) (get_variable_fee bin_step parameters v_parameters)) MAX_FEE_RATE"

definition compute_fee :: "u16 \<Rightarrow> meteora_static_parameters \<Rightarrow> meteora_variable_parameters \<Rightarrow> u128 \<Rightarrow> u128" where
  "compute_fee bin_step parameters v_parameters in_amount =
     (let total = total_fee bin_step parameters v_parameters;
          denominator = max (sat_sub FEE_PRECISION total) 1 in
      div_ceil (sat_mul in_amount total) denominator)"

definition compute_fee_from_amount ::
  "u16 \<Rightarrow> meteora_static_parameters \<Rightarrow> meteora_variable_parameters \<Rightarrow> u128 \<Rightarrow> u128" where
  "compute_fee_from_amount bin_step parameters v_parameters in_amount_with_fees =
     div_ceil (sat_mul in_amount_with_fees (total_fee bin_step parameters v_parameters)) FEE_PRECISION"

section \<open>The quote of one bin\<close>

record bin_swap_quote =
  bsq_amount_in_consumed :: u128
  bsq_amount_out :: u128

definition no_quote :: bin_swap_quote where
  "no_quote = \<lparr>bsq_amount_in_consumed = 0, bsq_amount_out = 0\<rparr>"

definition get_out_amount :: "meteora_bin \<Rightarrow> u64 \<Rightarrow> bool \<Rightarrow> u64 option" where
  "get_out_amount bin in_amount swap_for_y = do {
     out \<leftarrow> (if swap_for_y then mul_shr_u64 in_amount (mb_price bin) Down
             else shl_div_u64 in_amount (mb_price bin) Down);
     if out \<le> widen (- 1) then Some (narrow out) else None }"

definition swap_exact_in_quote_at_bin ::
  "meteora_bin \<Rightarrow> u16 \<Rightarrow> meteora_static_parameters \<Rightarrow> meteora_variable_parameters \<Rightarrow> u128 \<Rightarrow> bool \<Rightarrow> bin_swap_quote" where
  "swap_exact_in_quote_at_bin bin bin_step parameters v_parameters in_amount swap_for_y =
     (if (swap_for_y \<and> mb_amount_y bin = 0) \<or> (\<not> swap_for_y \<and> mb_amount_x bin = 0) then no_quote
      else let max_amount_out = widen (if swap_for_y then mb_amount_y bin else mb_amount_x bin) in
        case (if swap_for_y then shl_div_u64 (mb_amount_y bin) (mb_price bin) Up
              else mul_shr_u64 (mb_amount_x bin) (mb_price bin) Up) of
          None \<Rightarrow> no_quote
        | Some max_amount_in_without_fee \<Rightarrow>
            let max_fee = compute_fee bin_step parameters v_parameters max_amount_in_without_fee;
                max_amount_in = sat_add max_amount_in_without_fee max_fee in
            if in_amount > max_amount_in
            then \<lparr>bsq_amount_in_consumed = max_amount_in, bsq_amount_out = max_amount_out\<rparr>
            else let fee = compute_fee_from_amount bin_step parameters v_parameters in_amount;
                     amount_in_after_fee = sat_sub in_amount fee in
              if amount_in_after_fee \<le> widen (- 1)
              then (case get_out_amount bin (narrow amount_in_after_fee) swap_for_y of
                  None \<Rightarrow> no_quote
                | Some computed_out \<Rightarrow>
                    \<lparr>bsq_amount_in_consumed = in_amount, bsq_amount_out = min (widen computed_out) max_amount_out\<rparr>)
              else no_quote)"

section \<open>Walking the bins\<close>

type_synonym bin_arrays = "(int \<times> meteora_bin_array) list"

definition get_bin :: "bin_arrays \<Rightarrow> int \<Rightarrow> meteora_bin option" where
  "get_bin bin_arrays bin_id = do {
     let array_index = bin_id_to_bin_array_index bin_id;
     bin_array \<leftarrow> map_of bin_arrays array_index;
     let lower = bin_array_lower_bin_id array_index;
     let upper = bin_array_upper_bin_id array_index;
     if bin_id < lower \<or> bin_id > upper then None
     else do {
       let index = (if bin_id \<ge> 0 then nat (bin_id - lower)
                    else nat (MAX_BIN_ARRAY_SIZE - (upper - bin_id) - 1));
       idx (mba_bins bin_array) index } }"

definition next_cached_bin_array_index :: "bin_arrays \<Rightarrow> int \<Rightarrow> int \<Rightarrow> int option" where
  "next_cached_bin_array_index bin_arrays current_index direction =
     (let indices = sort (map fst bin_arrays) in
      if direction < 0 then find (\<lambda>i. i < current_index) (rev indices)
      else find (\<lambda>i. i > current_index) indices)"

text \<open>The loop of \<^verbatim>\<open>quote_exact_in\<close>; the first argument is what is left of \<^verbatim>\<open>guard < 4_096\<close>.\<close>

fun quote_loop :: "nat \<Rightarrow> bin_arrays \<Rightarrow> u16 \<Rightarrow> meteora_static_parameters \<Rightarrow> meteora_variable_parameters \<Rightarrow> bool
    \<Rightarrow> u128 \<Rightarrow> u128 \<Rightarrow> int \<Rightarrow> u128" where
  "quote_loop 0 bin_arrays bin_step parameters v_parameters swap_for_y remaining_in total_out current_bin_id = total_out"
| "quote_loop (Suc guard) bin_arrays bin_step parameters v_parameters swap_for_y remaining_in total_out current_bin_id =
     (let direction = (if swap_for_y then - 1 else 1) in
      if remaining_in = 0 then total_out
      else case get_bin bin_arrays current_bin_id of
        None \<Rightarrow>
          (case next_cached_bin_array_index bin_arrays (bin_id_to_bin_array_index current_bin_id) direction of
             None \<Rightarrow> total_out
           | Some next_array_index \<Rightarrow>
               quote_loop guard bin_arrays bin_step parameters v_parameters swap_for_y remaining_in total_out
                 (if direction < 0 then bin_array_upper_bin_id next_array_index
                  else bin_array_lower_bin_id next_array_index))
      | Some bin \<Rightarrow>
          let quote = swap_exact_in_quote_at_bin bin bin_step parameters v_parameters remaining_in swap_for_y in
          if bsq_amount_in_consumed quote = 0 \<or> bsq_amount_out quote = 0
          then quote_loop guard bin_arrays bin_step parameters v_parameters swap_for_y remaining_in total_out
            (wrap64 (current_bin_id + direction))
          else quote_loop guard bin_arrays bin_step parameters v_parameters swap_for_y
            (sat_sub remaining_in (bsq_amount_in_consumed quote))
            (sat_add total_out (bsq_amount_out quote)) (wrap64 (current_bin_id + direction)))"

definition quote_exact_in ::
  "u64 \<Rightarrow> bool \<Rightarrow> int \<Rightarrow> u16 \<Rightarrow> meteora_static_parameters \<Rightarrow> meteora_variable_parameters \<Rightarrow> bin_arrays \<Rightarrow> u64" where
  "quote_exact_in amount_in swap_for_y active_id bin_step parameters v_parameters bin_arrays =
     (if amount_in = 0 \<or> bin_arrays = [] then 0
      else narrow (min (quote_loop 4096 bin_arrays bin_step parameters v_parameters swap_for_y
        (widen amount_in) 0 active_id) (widen (- 1))))"

end
