(* ===== verification/Meteora_Quote.thy ===== *)
theory Meteora_Quote
  imports Meteora
begin

text \<open>
  What the Meteora quote promises: the fixed-point products and quotients are exact, the fee rate is capped,
  no bin sells above its price nor more than it holds, and a quote never pays out more than the bins hold
  together, since the walk meets no bin twice.
\<close>

section \<open>Exact fixed-point arithmetic\<close>

definition round_div :: "rounding \<Rightarrow> nat \<Rightarrow> nat \<Rightarrow> nat" where
  "round_div r a b = (if r = Up \<and> a mod b > 0 then a div b + 1 else a div b)"

lemma round_div_Up:
  assumes "0 < b"
  shows "a \<le> round_div Up a b * b"
proof -
  have "a = a div b * b + a mod b" by simp
  moreover have "a mod b < b" using assms by simp
  ultimately have "a mod b = 0 \<and> a = a div b * b \<or> 0 < a mod b \<and> a \<le> a div b * b + b" by linarith
  then show ?thesis by (auto simp: round_div_def)
qed

lemma round_div_Down: "round_div Down a b * b \<le> a"
  by (simp add: round_div_def)

lemma unat_drop_64: "unat (drop_bit 64 (y :: u128)) = unat y div 18446744073709551616"
  by (simp add: drop_bit_eq_div unat_div)

lemma unat_low_64: "unat (and y (18446744073709551615 :: u128)) = unat y mod 18446744073709551616"
proof -
  have "(18446744073709551615 :: u128) = mask 64" by (simp add: mask_eq_exp_minus_1)
  then have "and y 18446744073709551615 = take_bit 64 y" by (simp only: take_bit_eq_mask)
  then show ?thesis by (simp only: unsigned_take_bit_eq) (simp add: take_bit_eq_mod)
qed

lemma sat_add_one:
  assumes "unat q < 340282366920938463463374607431768211455"
  shows "unat (sat_add (q :: u128) 1) = unat q + 1"
  using assms by (simp add: unat_sat_add)

lemma mul_shr_exact: "\<exists>q. mul_shr_u64 x y r = Some q \<and> unat q = round_div r (unat x * unat y) 18446744073709551616"
proof -
  define T :: nat where "T = 18446744073709551616"
  define hi lo where "hi = unat y div T" and "lo = unat y mod T"
  have T: "0 < T" by (simp add: T_def)
  have y: "unat y = hi * T + lo" by (simp add: hi_def lo_def)
  have hi: "hi < T" using unat_u128_bound [of y] by (simp add: hi_def T_def div_less_iff_less_mult)
  have lo: "lo < T" using T by (simp add: lo_def)
  have x: "unat x < T" by (simp add: T_def)
  have prod_hi: "unat x * hi \<le> (T - 1) * (T - 1)" and prod_lo: "unat x * lo \<le> (T - 1) * (T - 1)"
    using x hi lo by (intro mult_le_mono; linarith)+
  have h: "unat (narrow (drop_bit 64 y)) = hi"
    using hi by (simp add: unat_narrow unat_drop_64 hi_def T_def)
  have l: "unat (narrow y) = lo" by (simp add: unat_narrow lo_def T_def)
  have hp: "unat (widen x * widen (narrow (drop_bit 64 y))) = unat x * hi"
    using prod_hi h by (simp add: unat_mult_u128 T_def)
  have lp: "unat (widen x * widen (narrow y)) = unat x * lo"
    using prod_lo l by (simp add: unat_mult_u128 T_def)
  have carry: "unat x * lo div T \<le> T - 1"
    using div_le_mono [OF prod_lo, of T] T by (simp add: T_def)
  have total: "(unat x * unat y) div T = unat x * hi + unat x * lo div T"
    and rest: "(unat x * unat y) mod T = unat x * lo mod T"
    using T by (simp_all add: y algebra_simps)
  have add: "checked_add (widen x * widen (narrow (drop_bit 64 y))) (drop_bit 64 (widen x * widen (narrow y)))
      = Some (widen x * widen (narrow (drop_bit 64 y)) + drop_bit 64 (widen x * widen (narrow y)))"
    using prod_hi carry by (simp add: checked_add_def unat_drop_64 hp lp T_def)
  define q where "q = widen x * widen (narrow (drop_bit 64 y)) + drop_bit 64 (widen x * widen (narrow y))"
  have q: "unat q = (unat x * unat y) div T"
    using prod_hi carry unfolding q_def total
    by (subst unat_add_u128) (simp_all add: hp lp unat_drop_64 T_def)
  have rem: "and (widen x * widen (narrow y)) (push_bit 64 1 - 1) > 0 \<longleftrightarrow> (unat x * unat y) mod T > 0"
    unfolding rest by (simp add: word_less_nat_alt unat_low_64 lp T_def)
  have "(unat x * unat y) div T \<le> (T - 1) * (T - 1) + (T - 1)"
    using prod_hi carry unfolding total by linarith
  then have "unat q < 340282366920938463463374607431768211455" by (simp add: q T_def)
  then show ?thesis
    using rem q by (simp add: mul_shr_u64_def Let_def add flip: q_def T_def)
      (simp add: round_div_def sat_add_one)
qed

lemma shl_div_exact:
  assumes "y \<noteq> 0"
  shows "\<exists>q. shl_div_u64 x y r = Some q \<and> unat q = round_div r (unat x * 18446744073709551616) (unat y)"
proof -
  define T :: nat where "T = 18446744073709551616"
  have x: "unat x \<le> T - 1" using unat_u64_bound [of x] unfolding T_def by linarith
  then have "unat x * T \<le> (T - 1) * T" by simp
  then have small: "unat x * T < 340282366920938463463374607431768211456" "unat x * T < 340282366920938463463374607431768211455"
    by (simp_all add: T_def)
  have n: "unat (push_bit 64 (widen x)) = unat x * T"
    using small(1) by (simp add: push_bit_eq_mult unat_mult_u128 T_def)
  have "unat (push_bit 64 (widen x) div y) \<le> unat x * T" by (simp add: unat_div n)
  then have "unat (push_bit 64 (widen x) div y) < 340282366920938463463374607431768211455" using small(2) by linarith
  then show ?thesis
    using assms by (auto simp: shl_div_u64_def Let_def round_div_def word_less_nat_alt unat_div unat_mod n T_def sat_add_one)
qed

lemma shl_div_zero: "shl_div_u64 x 0 r = None"
  by (simp add: shl_div_u64_def)

section \<open>Fees\<close>

lemma unat_div_ceil:
  assumes "b \<noteq> 0"
  shows "unat (div_ceil a b) = round_div Up (unat a) (unat b)"
proof (cases "unat b = 1")
  case True
  then have "b = 1" by (metis unat_1 word_unat_eq_iff)
  then show ?thesis by (simp add: div_ceil_def round_div_def)
next
  case False
  with assms have "2 \<le> unat b" using unat_gt_0 [of b] by linarith
  then have "unat a div unat b \<le> unat a div 2" by (intro div_le_mono2) simp_all
  also have "\<dots> < 340282366920938463463374607431768211455"
    using unat_u128_bound [of a] by linarith
  finally have "unat (a div b) + 1 < 340282366920938463463374607431768211456" by (simp add: unat_div)
  then have "unat (a div b + 1) = unat a div unat b + 1" by (simp add: unat_add_u128 unat_div)
  then show ?thesis by (simp add: div_ceil_def round_div_def word_less_nat_alt unat_mod unat_div)
qed

lemma total_fee_cap: "unat (total_fee step p v) \<le> 100000000"
proof -
  have "total_fee step p v \<le> MAX_FEE_RATE" by (simp add: total_fee_def)
  then show ?thesis by (simp add: word_le_nat_alt MAX_FEE_RATE_def)
qed

lemma fee_from_u64:
  assumes "unat a < 18446744073709551616"
  shows "unat (compute_fee_from_amount step p v a) = round_div Up (unat a * unat (total_fee step p v)) 1000000000"
proof -
  have "unat a * unat (total_fee step p v) \<le> 18446744073709551616 * 100000000"
    using assms total_fee_cap by (intro mult_le_mono) simp_all
  then have "unat (sat_mul a (total_fee step p v)) = unat a * unat (total_fee step p v)"
    by (simp add: unat_sat_mul)
  then show ?thesis by (simp add: compute_fee_from_amount_def unat_div_ceil FEE_PRECISION_def)
qed

lemma round_div_tenth:
  assumes "r \<le> 100000000"
  shows "round_div Up (a * r) 1000000000 \<le> a"
proof -
  define m where "m = a * r"
  have "m \<le> a * 100000000" using assms by (simp add: m_def)
  moreover have "1000000000 * (m div 1000000000) \<le> m" by simp
  ultimately have "a = 0 \<or> m div 1000000000 < a" by linarith
  then show ?thesis by (auto simp: round_div_def m_def)
qed

lemma variable_fee_exact:
  "unat (get_variable_fee step p v) = round_div Up
     (unat (msp_variable_fee_control p) * (unat (mvp_volatility_accumulator v) * unat step) ^ 2) 100000000000"
proof -
  define c w t where "c = unat (msp_variable_fee_control p)" and "w = unat (mvp_volatility_accumulator v)"
    and "t = unat step"
  have c: "c \<le> 4294967295" and w: "w \<le> 4294967295"
    using unat_lt2p [of "msp_variable_fee_control p"] unat_lt2p [of "mvp_volatility_accumulator v"]
    by (simp_all add: c_def w_def)
  have t: "t \<le> 65535" using unat_lt2p [of step] by (simp add: t_def)
  have up: "unat (ucast (msp_variable_fee_control p) :: u128) = c" "unat (ucast (mvp_volatility_accumulator v) :: u128) = w"
    "unat (ucast step :: u128) = t"
    using c w t by (simp_all add: c_def w_def t_def unsigned_ucast_eq take_bit_eq_mod)
  have wt: "w * t \<le> 4294967295 * 65535" by (intro mult_le_mono w t)
  have sq: "(w * t) * (w * t) \<le> (4294967295 * 65535) * (4294967295 * 65535)" by (intro mult_le_mono wt)
  have csq: "c * ((w * t) * (w * t)) \<le> 4294967295 * ((4294967295 * 65535) * (4294967295 * 65535))"
    by (intro mult_le_mono c sq)
  have m1: "unat ((ucast (mvp_volatility_accumulator v) :: u128) * ucast step) = w * t"
    using wt by (simp add: unat_mult_u128 up)
  have m2: "unat (((ucast (mvp_volatility_accumulator v) :: u128) * ucast step) ^ 2) = (w * t) * (w * t)"
    using sq by (simp add: power2_eq_square unat_mult_u128 m1 del: mult.assoc)
  have m3: "unat ((ucast (msp_variable_fee_control p) :: u128) * ((ucast (mvp_volatility_accumulator v) * ucast step) ^ 2))
      = c * ((w * t) * (w * t))"
    using csq by (simp add: unat_mult_u128 up m2)
  show ?thesis
  proof (cases "msp_variable_fee_control p = 0")
    case True
    then show ?thesis by (simp add: get_variable_fee_def round_div_def)
  next
    case False
    then show ?thesis
      using m3 by (simp add: get_variable_fee_def Let_def unat_div_ceil c_def w_def t_def power2_eq_square)
  qed
qed

lemma base_fee_exact:
  assumes "unat (msp_base_fee_power_factor p) \<le> 27"
  shows "unat (get_base_fee step p) = unat (msp_base_factor p) * unat step * 10 * 10 ^ unat (msp_base_fee_power_factor p)"
proof -
  define b t e where "b = unat (msp_base_factor p)" and "t = unat step" and "e = unat (msp_base_fee_power_factor p)"
  have b: "b \<le> 65535" and t: "t \<le> 65535"
    using unat_lt2p [of "msp_base_factor p"] unat_lt2p [of step] by (simp_all add: b_def t_def)
  have e: "(10 :: nat) ^ e \<le> 10 ^ 27" using assms unfolding e_def by (intro power_increasing) simp_all
  have up: "unat (ucast (msp_base_factor p) :: u128) = b" "unat (ucast step :: u128) = t"
    using b t by (simp_all add: b_def t_def unsigned_ucast_eq take_bit_eq_mod)
  have pow: "unat (sat_pow 10 e) = 10 ^ e"
    using e by (simp add: sat_pow_def unat_of_nat min_def del: of_nat_power)
  have bt: "b * t \<le> 65535 * 65535" by (intro mult_le_mono b t)
  have bte: "b * t * 10 * 10 ^ e \<le> 65535 * 65535 * 10 * 10 ^ 27" by (intro mult_le_mono bt e) simp
  have m1: "unat ((ucast (msp_base_factor p) :: u128) * ucast step) = b * t"
    using bt by (simp add: unat_mult_u128 up)
  have m2: "unat ((ucast (msp_base_factor p) :: u128) * ucast step * 10) = b * t * 10"
    using bt by (simp add: unat_mult_u128 m1)
  have "unat ((ucast (msp_base_factor p) :: u128) * ucast step * 10 * sat_pow 10 e) = b * t * 10 * 10 ^ e"
    using bte by (simp add: unat_mult_u128 m2 pow)
  then show ?thesis by (simp add: get_base_fee_def Let_def b_def t_def e_def)
qed

section \<open>The quote of one bin\<close>

definition side :: "bool \<Rightarrow> meteora_bin \<Rightarrow> u64" where
  "side swap_for_y bin = (if swap_for_y then mb_amount_y bin else mb_amount_x bin)"

lemma quote_at_bin_cases:
  obtains (none) "swap_exact_in_quote_at_bin bin step p v a sfy = no_quote"
  | (drain) m where "(if sfy then shl_div_u64 (mb_amount_y bin) (mb_price bin) Up
        else mul_shr_u64 (mb_amount_x bin) (mb_price bin) Up) = Some m"
      and "m \<le> sat_add m (compute_fee step p v m)" and "sat_add m (compute_fee step p v m) < a"
      and "swap_exact_in_quote_at_bin bin step p v a sfy = \<lparr>bsq_amount_in_consumed = sat_add m (compute_fee step p v m),
        bsq_amount_out = widen (side sfy bin)\<rparr>"
  | (part) out where "get_out_amount bin (narrow (sat_sub a (compute_fee_from_amount step p v a))) sfy = Some out"
      and "sat_sub a (compute_fee_from_amount step p v a) \<le> widen (- 1)"
      and "swap_exact_in_quote_at_bin bin step p v a sfy = \<lparr>bsq_amount_in_consumed = a,
        bsq_amount_out = min (widen out) (widen (side sfy bin))\<rparr>"
proof -
  have le: "m \<le> sat_add m f" for m f :: u128
    using unat_u128_bound [of m] by (simp add: word_le_nat_alt unat_sat_add del: unat_u128_bound)
  let ?q = "swap_exact_in_quote_at_bin bin step p v a sfy"
  let ?in = "if sfy then shl_div_u64 (mb_amount_y bin) (mb_price bin) Up else mul_shr_u64 (mb_amount_x bin) (mb_price bin) Up"
  let ?net = "sat_sub a (compute_fee_from_amount step p v a)"
  note q = swap_exact_in_quote_at_bin_def [of bin step p v a sfy, folded side_def, unfolded Let_def]
  show thesis
  proof (cases "sfy \<and> mb_amount_y bin = 0 \<or> \<not> sfy \<and> mb_amount_x bin = 0")
    case True
    then show thesis by (intro none) (auto simp: q)
  next
    case holds: False
    show thesis
    proof (cases ?in)
      case None
      with holds show thesis by (intro none) (auto simp: q)
    next
    case (Some m)
    note 2 = Some holds
    show thesis
    proof (cases "sat_add m (compute_fee step p v m) < a")
      case True
      with 2 show thesis by (intro drain [OF 2(1) le]) (auto simp: q)
    next
      case False
      show thesis
      proof (cases "?net \<le> widen (- 1)")
        case True
        show thesis
        proof (cases "get_out_amount bin (narrow ?net) sfy")
          case None
          with 2 False True show thesis by (intro none) (auto simp: q)
        next
          case (Some out)
          with 2 False True show thesis by (intro part [OF Some]) (auto simp: q)
        qed
      next
        case over: False
        with 2 False show thesis by (intro none) (auto simp: q)
      qed
    qed
    qed
  qed
qed

lemma quote_consumes: "bsq_amount_in_consumed (swap_exact_in_quote_at_bin bin step p v a sfy) \<le> a"
  by (cases bin step p v a sfy rule: quote_at_bin_cases) (simp_all add: no_quote_def less_imp_le)

lemma quote_pays: "bsq_amount_out (swap_exact_in_quote_at_bin bin step p v a sfy) \<le> widen (side sfy bin)"
  by (cases bin step p v a sfy rule: quote_at_bin_cases) (simp_all add: no_quote_def)

text \<open>At the price of the bin, the input is worth the output or more.\<close>

definition worth :: "bool \<Rightarrow> u128 \<Rightarrow> nat \<Rightarrow> nat \<Rightarrow> bool" where
  "worth sfy price inp out \<longleftrightarrow>
     (if sfy then out * 2 ^ 64 \<le> inp * unat price else out * unat price \<le> inp * 2 ^ 64)"

lemma worth_mono: "worth sfy price inp out \<Longrightarrow> inp \<le> inp' \<Longrightarrow> out' \<le> out \<Longrightarrow> worth sfy price inp' out'"
  unfolding worth_def by (cases sfy) (simp_all, (meson mult_le_mono1 order_trans)+)

lemma get_out_worth:
  assumes "get_out_amount bin a sfy = Some out"
  shows "worth sfy (mb_price bin) (unat a) (unat out)"
proof (cases sfy)
  case True
  obtain q where q: "mul_shr_u64 a (mb_price bin) Down = Some q"
      "unat q = round_div Down (unat a * unat (mb_price bin)) 18446744073709551616"
    using mul_shr_exact by blast
  then have "unat out \<le> unat q"
    using assms True by (auto simp: get_out_amount_def unat_narrow split: if_splits)
  then have "unat out * 18446744073709551616 \<le> unat q * 18446744073709551616" by simp
  then have "unat out * 18446744073709551616 \<le> unat a * unat (mb_price bin)"
    using round_div_Down [of "unat a * unat (mb_price bin)" 18446744073709551616] unfolding q(2) by (rule order_trans)
  with True show ?thesis by (simp add: worth_def)
next
  case False
  then have "mb_price bin \<noteq> 0" using assms by (auto simp: get_out_amount_def shl_div_zero)
  then obtain q where q: "shl_div_u64 a (mb_price bin) Down = Some q"
      "unat q = round_div Down (unat a * 18446744073709551616) (unat (mb_price bin))"
    using shl_div_exact by blast
  then have "unat out \<le> unat q"
    using assms False by (auto simp: get_out_amount_def unat_narrow split: if_splits)
  then have "unat out * unat (mb_price bin) \<le> unat q * unat (mb_price bin)" by simp
  then have "unat out * unat (mb_price bin) \<le> unat a * 18446744073709551616"
    using round_div_Down [of "unat a * 18446744073709551616" "unat (mb_price bin)"] unfolding q(2) by (rule order_trans)
  with False show ?thesis by (simp add: worth_def)
qed

lemma drain_worth:
  assumes "(if sfy then shl_div_u64 (mb_amount_y bin) (mb_price bin) Up
      else mul_shr_u64 (mb_amount_x bin) (mb_price bin) Up) = Some m"
  shows "worth sfy (mb_price bin) (unat m) (unat (side sfy bin))"
proof (cases sfy)
  case True
  then have nz: "mb_price bin \<noteq> 0" using assms by (auto simp: shl_div_zero)
  with shl_div_exact [of "mb_price bin" "mb_amount_y bin" Up] assms True
  have "unat m = round_div Up (unat (mb_amount_y bin) * 18446744073709551616) (unat (mb_price bin))" by auto
  with True round_div_Up [of "unat (mb_price bin)" "unat (mb_amount_y bin) * 18446744073709551616"] nz
  show ?thesis by (simp add: worth_def side_def unat_gt_0)
next
  case False
  with mul_shr_exact [of "mb_amount_x bin" "mb_price bin" Up] assms
  have "unat m = round_div Up (unat (mb_amount_x bin) * unat (mb_price bin)) 18446744073709551616" by auto
  with False round_div_Up [of 18446744073709551616 "unat (mb_amount_x bin) * unat (mb_price bin)"]
  show ?thesis by (simp add: worth_def side_def)
qed

lemma unat_min_word: "unat (min a b) = min (unat a) (unat (b :: 'a::len word))"
  by (simp add: min_def word_le_nat_alt)

lemma quote_worth:
  shows "worth sfy (mb_price bin) (unat (bsq_amount_in_consumed (swap_exact_in_quote_at_bin bin step p v a sfy)))
    (unat (bsq_amount_out (swap_exact_in_quote_at_bin bin step p v a sfy)))"
proof (cases bin step p v a sfy rule: quote_at_bin_cases)
  case none
  then show ?thesis by (simp add: no_quote_def worth_def)
next
  case (drain m)
  then show ?thesis using drain_worth [OF drain(1)]
    by (simp add: word_le_nat_alt) (rule worth_mono, assumption+, simp)
next
  case (part out)
  let ?net = "sat_sub a (compute_fee_from_amount step p v a)"
  have "unat ?net < 18446744073709551616" using part(2) by (simp add: word_le_nat_alt unat_max_word)
  then have net: "unat (narrow ?net) \<le> unat a" by (simp add: unat_narrow_small unat_sat_sub)
  show ?thesis using worth_mono [OF get_out_worth [OF part(1)] net] part(3) by (simp add: unat_min_word)
qed

section \<open>Bins and their arrays\<close>

lemma array_index_div: "bin_id_to_bin_array_index b = b div 70"
proof (cases "b < 0")
  case True
  define k where "k = - b"
  have k: "0 < k" "b = - k" using True by (simp_all add: k_def)
  have sd: "k sdiv 70 = k div 70" and sm: "k smod 70 = k mod 70"
    using k by (simp_all add: signed_divide_int_def signed_modulo_int_def)
  show ?thesis
    using True by (simp add: bin_id_to_bin_array_index_def Let_def k(2) sd sm zdiv_zminus1_eq_if)
next
  case False
  then show ?thesis
    by (cases "b = 0") (simp_all add: bin_id_to_bin_array_index_def Let_def signed_divide_int_def)
qed

definition keys_bounded :: "bin_arrays \<Rightarrow> bool" where
  "keys_bounded m \<longleftrightarrow> (\<forall>k \<in> fst ` set m. \<bar>k\<bar> < 2 ^ 48)"

lemma bin_bounds:
  assumes "\<bar>k\<bar> < 2 ^ 48"
  shows "bin_array_lower_bin_id k = k * 70" and "bin_array_upper_bin_id k = k * 70 + 69"
proof -
  have "wrap64 (k * 70) = k * 70" using assms by (intro wrap64_in) simp_all
  then show lower: "bin_array_lower_bin_id k = k * 70" by (simp add: bin_array_lower_bin_id_def)
  have "wrap64 (k * 70 + 70) = k * 70 + 70" "wrap64 (69 + k * 70) = 69 + k * 70"
    using assms by (intro wrap64_in; simp)+
  then show "bin_array_upper_bin_id k = k * 70 + 69" by (simp add: bin_array_upper_bin_id_def lower)
qed

lemma get_bin_spec:
  assumes "keys_bounded m"
  shows "get_bin m b = do { a \<leftarrow> map_of m (b div 70); idx (mba_bins a) (nat (b mod 70)) }"
proof (cases "map_of m (b div 70)")
  case (Some a)
  then have "\<bar>b div 70\<bar> < 2 ^ 48" using assms by (force simp: keys_bounded_def dest: map_of_SomeD)
  note bounds = bin_bounds [OF this]
  have b: "b = b div 70 * 70 + b mod 70" by simp
  have r: "0 \<le> b mod 70" "b mod 70 < 70" by simp_all
  have "\<not> (b < b div 70 * 70 \<or> b div 70 * 70 + 69 < b)" "b - b div 70 * 70 = b mod 70"
    "70 - (b div 70 * 70 + 69 - b) - 1 = b mod 70"
    using b r by linarith+
  with Some show ?thesis by (simp add: get_bin_def Let_def array_index_div bounds)
qed (simp add: get_bin_def Let_def array_index_div)

lemma get_bin_key:
  assumes "keys_bounded m" and "get_bin m b = Some bin"
  shows "b div 70 \<in> fst ` set m" and "\<bar>b\<bar> < 2 ^ 55"
proof -
  obtain a where "map_of m (b div 70) = Some a" using assms by (auto simp: get_bin_spec bind_eq_Some_conv)
  then show key: "b div 70 \<in> fst ` set m" by (force dest: map_of_SomeD)
  then have "\<bar>b div 70\<bar> < 2 ^ 48" using assms(1) by (auto simp: keys_bounded_def)
  moreover have "b = b div 70 * 70 + b mod 70" "0 \<le> b mod 70" "b mod 70 < 70" by simp_all
  ultimately show "\<bar>b\<bar> < 2 ^ 55" by simp
qed

lemma find_SomeD: "find P xs = Some x \<Longrightarrow> x \<in> set xs \<and> P x"
  by (induction xs) (auto split: if_splits)

lemma next_cached_ahead:
  assumes "next_cached_bin_array_index m c d = Some k"
  shows "k \<in> fst ` set m" and "if d < 0 then k < c else c < k"
  using assms by (auto simp: next_cached_bin_array_index_def Let_def dest!: find_SomeD split: if_splits)

section \<open>The walk\<close>

text \<open>The bins of the cached arrays, by id, and those the walk has still ahead.\<close>

definition bin_ids :: "bin_arrays \<Rightarrow> int set" where
  "bin_ids m = {b. get_bin m b \<noteq> None}"

definition ahead :: "bool \<Rightarrow> int \<Rightarrow> int \<Rightarrow> bool" where
  "ahead sfy c b \<longleftrightarrow> (if sfy then b \<le> c else c \<le> b)"

definition held :: "bool \<Rightarrow> bin_arrays \<Rightarrow> int set \<Rightarrow> nat" where
  "held sfy m B = (\<Sum>b \<in> B \<inter> bin_ids m. unat (side sfy (the (get_bin m b))))"

lemma finite_bin_ids: "keys_bounded m \<Longrightarrow> finite (bin_ids m)"
proof (rule finite_subset)
  assume m: "keys_bounded m"
  show "bin_ids m \<subseteq> (\<Union>k \<in> fst ` set m. {k * 70..k * 70 + 69})"
  proof
    fix b assume "b \<in> bin_ids m"
    then have "b div 70 \<in> fst ` set m" using get_bin_key [OF m] by (auto simp: bin_ids_def)
    moreover have "b div 70 * 70 \<le> b" "b \<le> b div 70 * 70 + 69" by presburger+
    ultimately show "b \<in> (\<Union>k \<in> fst ` set m. {k * 70..k * 70 + 69})" by (intro UN_I [of "b div 70"]) simp_all
  qed
qed simp

lemma held_step:
  assumes "keys_bounded m" and "get_bin m c = Some bin"
  shows "held sfy m {b. ahead sfy c b} =
    unat (side sfy bin) + held sfy m {b. ahead sfy (c + (if sfy then - 1 else 1)) b}"
proof -
  have "{b. ahead sfy c b} \<inter> bin_ids m =
      insert c ({b. ahead sfy (c + (if sfy then - 1 else 1)) b} \<inter> bin_ids m)"
    using assms(2) by (auto simp: ahead_def bin_ids_def)
  moreover have "c \<notin> {b. ahead sfy (c + (if sfy then - 1 else 1)) b} \<inter> bin_ids m" by (simp add: ahead_def)
  ultimately show ?thesis
    using finite_bin_ids [OF assms(1)] assms(2) by (simp add: held_def)
qed

lemma held_mono:
  assumes "keys_bounded m" and "A \<subseteq> B"
  shows "held sfy m A \<le> held sfy m B"
  unfolding held_def using finite_bin_ids [OF assms(1)] assms(2) by (intro sum_mono2) auto

lemma walk_bound:
  assumes "keys_bounded m"
  shows "unat (quote_loop g m step p v sfy r t c) \<le> unat t + held sfy m {b. ahead sfy c b}"
proof (induction g arbitrary: r t c)
  case (Suc g)
  let ?d = "if sfy then - 1 else 1 :: int"
  show ?case
  proof (cases "r = 0")
    case False
    show ?thesis
    proof (cases "get_bin m c")
      case None
      show ?thesis
      proof (cases "next_cached_bin_array_index m (bin_id_to_bin_array_index c) ?d")
        case (Some k)
        note k = next_cached_ahead [OF Some, unfolded array_index_div]
        then have "\<bar>k\<bar> < 2 ^ 48" using assms by (auto simp: keys_bounded_def)
        note bounds = bin_bounds [OF this]
        define c' where "c' = (if ?d < 0 then bin_array_upper_bin_id k else bin_array_lower_bin_id k)"
        have c: "c div 70 * 70 \<le> c" "c \<le> c div 70 * 70 + 69" by presburger+
        have "{b. ahead sfy c' b} \<subseteq> {b. ahead sfy c b}"
          using k(2) c by (auto simp: ahead_def c'_def bounds split: if_splits)
        then have "held sfy m {b. ahead sfy c' b} \<le> held sfy m {b. ahead sfy c b}" by (rule held_mono [OF assms])
        with Suc.IH [of r t c'] have "unat (quote_loop g m step p v sfy r t c') \<le> unat t + held sfy m {b. ahead sfy c b}"
          by linarith
        with False None Some show ?thesis by (simp add: Let_def c'_def)
      qed (use False None in \<open>simp add: Let_def\<close>)
    next
      case (Some bin)
      have wrap: "wrap64 (c + ?d) = c + ?d"
        using get_bin_key(2) [OF assms Some] by (intro wrap64_in) (auto split: if_splits)
      define q where "q = swap_exact_in_quote_at_bin bin step p v r sfy"
      have pays: "unat (bsq_amount_out q) \<le> unat (side sfy bin)"
        using quote_pays [of bin step p v r sfy] by (simp add: q_def word_le_nat_alt)
      have ih: "unat (quote_loop g m step p v sfy r' t' (c + ?d)) \<le> unat t' + held sfy m {b. ahead sfy (c + ?d) b}" for r' t'
        by (rule Suc.IH)
      have "unat (sat_add t (bsq_amount_out q)) \<le> unat t + unat (side sfy bin)"
        using pays by (simp add: unat_sat_add)
      then have "unat (quote_loop g m step p v sfy (sat_sub r (bsq_amount_in_consumed q)) (sat_add t (bsq_amount_out q)) (c + ?d))
          \<le> unat t + held sfy m {b. ahead sfy c b}"
        and "unat (quote_loop g m step p v sfy r t (c + ?d)) \<le> unat t + held sfy m {b. ahead sfy c b}"
        using ih [of r t] ih [of "sat_sub r (bsq_amount_in_consumed q)" "sat_add t (bsq_amount_out q)"]
        unfolding held_step [OF assms Some] by linarith+
      with False Some wrap show ?thesis by (simp add: Let_def flip: q_def)
    qed
  qed simp
qed simp

section \<open>The bin arrays to cache\<close>

lemma sorted_remdups_adj_strict: "sorted (xs :: 'a::linorder list) \<Longrightarrow> sorted_wrt (<) (remdups_adj xs)"
proof (induction xs rule: remdups_adj.induct)
  case (3 x y xs)
  then show ?case by (auto simp: less_le)
qed simp_all

lemma bitmap_range: "bitmap_has_index bitmap i \<Longrightarrow> - 512 \<le> i \<and> i < 512"
  by (auto simp: bitmap_has_index_def split: if_splits)

text \<open>The indices the search goes through on one side of the active array, from distance \<open>d\<close> on.\<close>

definition outwards :: "u64 list \<Rightarrow> int \<Rightarrow> int \<Rightarrow> int \<Rightarrow> int list" where
  "outwards bitmap way active d =
     filter (bitmap_has_index bitmap) (map (\<lambda>k. active + way * k) [d..513 + \<bar>active\<bar>])"

lemma outwards_step:
  "d \<le> 513 + \<bar>active\<bar> \<Longrightarrow> outwards bitmap way active d =
     (if bitmap_has_index bitmap (active + way * d) then [active + way * d] else []) @ outwards bitmap way active (d + 1)"
  by (simp add: outwards_def upto_rec1)

lemma outwards_end:
  assumes "active - d < - 512" and "511 < active + d" and "1 \<le> d"
  shows "outwards bitmap (- 1) active d = []" and "outwards bitmap 1 active d = []"
  using assms bitmap_range by (fastforce simp: outwards_def filter_empty_conv)+

lemma candidate_loop_set:
  assumes "1 \<le> d" and "n \<le> 6" and "p \<le> 6"
  shows "set (candidate_loop bitmap active d n p out) =
    set out \<union> set (take (6 - n) (outwards bitmap (- 1) active d)) \<union> set (take (6 - p) (outwards bitmap 1 active d))"
  using assms
proof (induction bitmap active d n p out rule: candidate_loop.induct)
  case (1 bitmap active d n p out)
  let ?neg = "n < 6 \<and> bitmap_has_index bitmap (active - d)"
  let ?pos = "p < 6 \<and> bitmap_has_index bitmap (active + d)"
  let ?out = "out @ (if ?neg then [active - d] else []) @ (if ?pos then [active + d] else [])"
  show ?case
  proof (cases "n < 6 \<or> p < 6")
    case False
    then have "candidate_loop bitmap active d n p out = out"
      by (simp add: candidate_loop.simps [of bitmap active d n p out])
    with False "1.prems" show ?thesis by simp
  next
    case more: True
    show ?thesis
    proof (cases "active - d < - 512 \<and> 511 < active + d")
      case True
      then have "\<not> bitmap_has_index bitmap (active - d)" "\<not> bitmap_has_index bitmap (active + d)"
        using bitmap_range [of bitmap "active - d"] bitmap_range [of bitmap "active + d"] by auto
      with True more "1.prems" outwards_end [of active d bitmap] show ?thesis
        by (simp add: candidate_loop.simps [of bitmap active d n p out] Let_def)
    next
      case False
      then have d: "d \<le> 513 + \<bar>active\<bar>" by linarith
      have step: "candidate_loop bitmap active d n p out = candidate_loop bitmap active (d + 1)
          (if ?neg then n + 1 else n) (if ?pos then p + 1 else p) ?out"
      proof -
        have c: "(n < 6 \<or> p < 6) = True" "(active - d < - 512 \<and> 512 - 1 < active + d) = False"
          using more False by simp_all
        show ?thesis
          by (subst candidate_loop.simps)
            (simp only: Let_def c if_True if_False not_True_eq_False MAX_CACHED_BIN_ARRAYS_PER_SIDE_def BIN_ARRAY_BITMAP_SIZE_def)
      qed
      have ih: "set (candidate_loop bitmap active (d + 1) (if ?neg then n + 1 else n) (if ?pos then p + 1 else p) ?out)
          = set ?out \<union> set (take (6 - (if ?neg then n + 1 else n)) (outwards bitmap (- 1) active (d + 1)))
            \<union> set (take (6 - (if ?pos then p + 1 else p)) (outwards bitmap 1 active (d + 1)))"
        using more False "1.prems" by (intro "1.IH") (simp_all add: Let_def)
      have six: "6 - k = Suc (5 - k)" if "k < 6" for k :: nat using that by simp
      have neg: "set (take (6 - n) (outwards bitmap (- 1) active d)) = (if ?neg then {active - d} else {})
          \<union> set (take (6 - (if ?neg then n + 1 else n)) (outwards bitmap (- 1) active (d + 1)))"
        by (cases "n < 6") (auto simp: outwards_step [OF d] six)
      have pos: "set (take (6 - p) (outwards bitmap 1 active d)) = (if ?pos then {active + d} else {})
          \<union> set (take (6 - (if ?pos then p + 1 else p)) (outwards bitmap 1 active (d + 1)))"
        by (cases "p < 6") (auto simp: outwards_step [OF d] six)
      show ?thesis unfolding step ih neg pos by auto
    qed
  qed
qed

text \<open>
  The choice of Meteora bin arrays to cache always ends, and yields, strictly sorted, the array of
  the active bin and, on either side, the six nearest arrays whose bit is set in the pair's bitmap (all of
  them, when there are fewer), hence at most thirteen. Arrays outside the bitmap are never chosen.
\<close>

theorem candidates_nearest:
  "let active = active_id div 70; chosen = candidate_bin_array_indices active_id bitmap in
   sorted_wrt (<) chosen
   \<and> set chosen = insert active (set (take 6 (outwards bitmap (- 1) active 1)) \<union> set (take 6 (outwards bitmap 1 active 1)))
   \<and> length chosen \<le> 13"
proof -
  define active where "active = active_id div 70"
  define chosen where "chosen = candidate_bin_array_indices active_id bitmap"
  have chosen: "chosen = remdups_adj (sort (candidate_loop bitmap active 1 0 0 [active]))"
    by (simp add: chosen_def candidate_bin_array_indices_def array_index_div active_def Let_def)
  have sorted: "sorted_wrt (<) chosen" unfolding chosen by (rule sorted_remdups_adj_strict) simp
  let ?N = "take 6 (outwards bitmap (- 1) active 1)" and ?P = "take 6 (outwards bitmap 1 active 1)"
  have set: "set chosen = insert active (set ?N \<union> set ?P)"
    by (simp add: chosen candidate_loop_set)
  have "length chosen = card (set chosen)" using sorted strict_sorted_iff distinct_card by metis
  also have "\<dots> \<le> Suc (card (set ?N) + card (set ?P))"
    unfolding set using card_Un_le [of "set ?N" "set ?P"] by (simp add: card_insert_if)
  also have "\<dots> \<le> Suc (length ?N + length ?P)" by (intro Suc_le_mono [THEN iffD2] add_mono card_length)
  also have "\<dots> \<le> 13" by simp
  finally show ?thesis
    using sorted set unfolding Let_def active_def [symmetric] chosen_def [symmetric] by blast
qed

section \<open>Decoded accounts\<close>

definition bin_at :: "bytes \<Rightarrow> nat \<Rightarrow> meteora_bin" where
  "bin_at data off = \<lparr>mb_amount_x = word_at data off, mb_amount_y = word_at data (off + 8),
     mb_price = u128_of_le (take 16 (drop (off + 16) data))\<rparr>"

lemma read_bins_in:
  "off + 144 * n \<le> length data + 112 \<Longrightarrow> read_bins n data off = Some (map (\<lambda>i. bin_at data (off + 144 * i)) [0..<n])"
proof (induction n arbitrary: off)
  case (Suc n)
  then have "read_bins n data (off + 144) = Some (map (\<lambda>i. bin_at data (off + 144 + 144 * i)) [0..<n])" by simp
  moreover have "map (\<lambda>i. bin_at data (off + 144 * i)) [0..<Suc n]
      = bin_at data off # map (\<lambda>i. bin_at data (off + 144 + 144 * i)) [0..<n]"
    by (subst upt_conv_Cons) (simp_all add: map_Suc_upt [symmetric] algebra_simps del: upt_Suc)
  ultimately show ?case
    using Suc.prems by (simp add: buf_simps bin_at_def word_at_def del: upt_Suc)
qed simp

lemma read_u64_array_in:
  "off + 8 * n \<le> length data \<Longrightarrow> \<exists>xs. read_u64_array n data off = Some xs \<and> length xs = n"
proof (induction n arbitrary: off)
  case (Suc n)
  then have "off + 8 + 8 * n \<le> length data" by simp
  from Suc.IH [OF this] Suc.prems show ?case by (auto simp: buf_simps)
qed simp

text \<open>
  The Meteora decoders accept exactly the accounts of their kind: a bin array is decoded iff the
  data has the full length, the discriminator and the expected pair, and then has all seventy bins, bin
  \<open>i\<close> read at offset \<open>56 + 144 * i\<close>; a pair is decoded iff length and discriminator fit, with the key
  fields at their offsets and a bitmap of sixteen words. No field read fails after the length check.
\<close>

theorem meteora_decoders_spec:
  "decode_bin_array data pair =
     (if 10144 \<le> length data \<and> take 8 data = BIN_ARRAY_DISCRIMINATOR \<and> key_at data 24 = pair
      then Some \<lparr>mba_index = sint (word_at data 8), mba_bins = map (\<lambda>i. bin_at data (56 + 144 * i)) [0..<70]\<rparr>
      else None)
   \<and> (case decode_lb_pair data of
        None \<Rightarrow> \<not> (712 \<le> length data \<and> take 8 data = LB_PAIR_DISCRIMINATOR)
      | Some lb \<Rightarrow> 712 \<le> length data \<and> take 8 data = LB_PAIR_DISCRIMINATOR
          \<and> mlp_active_id lb = sint (u32_of_le (take 4 (drop 76 data)))
          \<and> mlp_token_x_mint lb = key_at data 88 \<and> mlp_token_y_mint lb = key_at data 120
          \<and> mlp_reserve_x lb = key_at data 152 \<and> mlp_reserve_y lb = key_at data 184
          \<and> length (mlp_bin_array_bitmap lb) = 16)"
proof (rule conjI)
  show "decode_bin_array data pair =
     (if 10144 \<le> length data \<and> take 8 data = BIN_ARRAY_DISCRIMINATOR \<and> key_at data 24 = pair
      then Some \<lparr>mba_index = sint (word_at data 8), mba_bins = map (\<lambda>i. bin_at data (56 + 144 * i)) [0..<70]\<rparr>
      else None)"
    using read_bins_in [of 56 70 data]
    by (auto simp: decode_bin_array_def buf_simps key_at_def word_at_def simp del: upt_Suc upt_rec_numeral)
next
  show "case decode_lb_pair data of
        None \<Rightarrow> \<not> (712 \<le> length data \<and> take 8 data = LB_PAIR_DISCRIMINATOR)
      | Some lb \<Rightarrow> 712 \<le> length data \<and> take 8 data = LB_PAIR_DISCRIMINATOR
          \<and> mlp_active_id lb = sint (u32_of_le (take 4 (drop 76 data)))
          \<and> mlp_token_x_mint lb = key_at data 88 \<and> mlp_token_y_mint lb = key_at data 120
          \<and> mlp_reserve_x lb = key_at data 152 \<and> mlp_reserve_y lb = key_at data 184
          \<and> length (mlp_bin_array_bitmap lb) = 16"
  proof (cases "length data < 712 \<or> take 8 data \<noteq> LB_PAIR_DISCRIMINATOR")
    case False
    then obtain xs where "read_u64_array 16 data 584 = Some xs" "length xs = 16"
      using read_u64_array_in [of 584 16 data] by auto
    with False show ?thesis
      by (simp add: decode_lb_pair_def decode_static_parameters_def decode_variable_parameters_def buf_simps key_at_def)
  qed (auto simp: decode_lb_pair_def)
qed

section \<open>Properties of the quote\<close>

text \<open>
  The Meteora fixed-point helpers are exact and cannot fail for want of width: the product with a
  Q64.64 price, taken in two halves, is the rounded quotient of the full product by \<open>2 ^ 64\<close>, and the
  division by a price, defined except at price zero, is the rounded quotient of the shifted amount.
\<close>

theorem fixed_point_exact:
  "map_option unat (mul_shr_u64 x price r) = Some (round_div r (unat x * unat price) (2 ^ 64))
   \<and> map_option unat (shl_div_u64 x price r) =
       (if price = 0 then None else Some (round_div r (unat x * 2 ^ 64) (unat price)))"
  using mul_shr_exact [of x price r] shl_div_exact [of price x r] by (auto simp: shl_div_zero)

definition base_rate :: "u16 \<Rightarrow> meteora_static_parameters \<Rightarrow> nat" where
  "base_rate step p = unat (msp_base_factor p) * unat step * 10 * 10 ^ unat (msp_base_fee_power_factor p)"

definition variable_rate :: "u16 \<Rightarrow> meteora_static_parameters \<Rightarrow> meteora_variable_parameters \<Rightarrow> nat" where
  "variable_rate step p v = round_div Up
     (unat (msp_variable_fee_control p) * (unat (mvp_volatility_accumulator v) * unat step) ^ 2) 100000000000"

text \<open>
  The Meteora fee rate is at most ten percent whatever the parameters; up to power factor 27 it
  is the capped sum of the base rate and the volatility rate (rounded up) as integers, nothing wraps; and the
  fee taken from a 64-bit amount is that rate of it, rounded up, never more than the amount.
\<close>

theorem fee_rate_capped:
  "let rate = unat (total_fee step p v) in
   rate \<le> 100000000
   \<and> (27 < unat (msp_base_fee_power_factor p) \<or> rate = min (base_rate step p + variable_rate step p v) 100000000)
   \<and> unat (compute_fee_from_amount step p v (widen a)) = round_div Up (unat a * rate) 1000000000
   \<and> unat (compute_fee_from_amount step p v (widen a)) \<le> unat a"
proof -
  have exact: "unat (total_fee step p v) = min (base_rate step p + variable_rate step p v) 100000000"
    if "unat (msp_base_fee_power_factor p) \<le> 27"
    using base_fee_exact [OF that, of step] variable_fee_exact [of step p v]
    by (simp add: total_fee_def unat_min_word unat_sat_add MAX_FEE_RATE_def base_rate_def variable_rate_def)
  have fee: "unat (compute_fee_from_amount step p v (widen a)) = round_div Up (unat a * unat (total_fee step p v)) 1000000000"
    by (simp add: fee_from_u64)
  have "round_div Up (unat a * unat (total_fee step p v)) 1000000000 \<le> unat a"
    by (rule round_div_tenth [OF total_fee_cap])
  then show ?thesis
    using exact total_fee_cap [of step p v]
    by (cases "unat (msp_base_fee_power_factor p) \<le> 27") (simp_all add: Let_def fee)
qed

text \<open>
  Property C15. No bin sells above its price nor more than it holds: a quote at a bin consumes at most the
  input, pays at most the bin's balance of the output token, and what it consumes is worth what it pays at
  the bin's price, fees aside.
\<close>

theorem bin_quote_sound:
  "let q = swap_exact_in_quote_at_bin bin step p v a sfy;
       consumed = unat (bsq_amount_in_consumed q); out = unat (bsq_amount_out q) in
   consumed \<le> unat a
   \<and> out \<le> unat (if sfy then mb_amount_y bin else mb_amount_x bin)
   \<and> (if sfy then out * 2 ^ 64 \<le> consumed * unat (mb_price bin)
      else out * unat (mb_price bin) \<le> consumed * 2 ^ 64)"
  using quote_consumes [of bin step p v a sfy] quote_pays [of bin step p v a sfy] quote_worth [of sfy bin step p v a]
  by (simp add: Let_def word_le_nat_alt side_def worth_def split: if_splits)


definition example_bins :: bin_arrays where
  "example_bins = [(0, \<lparr>mba_index = 0, mba_bins = [\<lparr>mb_amount_x = 0, mb_amount_y = 1000, mb_price = 2 ^ 64\<rparr>]\<rparr>)]"

definition no_fee :: meteora_static_parameters where
  "no_fee = \<lparr>msp_base_factor = 0, msp_filter_period = 0, msp_decay_period = 0, msp_reduction_factor = 0,
     msp_variable_fee_control = 0, msp_max_volatility_accumulator = 0, msp_min_bin_id = - 1000,
     msp_max_bin_id = 1000, msp_protocol_share = 0, msp_base_fee_power_factor = 0\<rparr>"

definition calm :: meteora_variable_parameters where
  "calm = \<lparr>mvp_volatility_accumulator = 0, mvp_volatility_reference = 0, mvp_index_reference = 0,
     mvp_last_update_timestamp = 0\<rparr>"


end
