(* ===== verification/Floats.thy ===== *)
theory Floats
  imports Prelude
begin

text \<open>
  Floating-point arithmetic. The operations of \<^verbatim>\<open>f64\<close> that the source uses are a parameter, over a type
  \<open>'f\<close> of doubles: \<open>fl_lit\<close> reads a literal, \<open>fl_of_int\<close> and the \<open>fl_to_\<close> operations are the
  conversions (\<^verbatim>\<open>as\<close>), and the comparisons are those of Rust, false on NaN. Nothing is assumed of them.
\<close>

record 'f f64_ops =
  fl_lit :: "string \<Rightarrow> 'f"
  fl_epsilon :: 'f
  fl_of_int :: "int \<Rightarrow> 'f"
  fl_to_u64 :: "'f \<Rightarrow> u64"
  fl_to_i128 :: "'f \<Rightarrow> int"
  fl_add :: "'f \<Rightarrow> 'f \<Rightarrow> 'f"
  fl_sub :: "'f \<Rightarrow> 'f \<Rightarrow> 'f"
  fl_mul :: "'f \<Rightarrow> 'f \<Rightarrow> 'f"
  fl_div :: "'f \<Rightarrow> 'f \<Rightarrow> 'f"
  fl_max :: "'f \<Rightarrow> 'f \<Rightarrow> 'f"
  fl_powf :: "'f \<Rightarrow> 'f \<Rightarrow> 'f"
  fl_powi :: "'f \<Rightarrow> int \<Rightarrow> 'f"
  fl_lt :: "'f \<Rightarrow> 'f \<Rightarrow> bool"
  fl_le :: "'f \<Rightarrow> 'f \<Rightarrow> bool"
  fl_finite :: "'f \<Rightarrow> bool"
  fl_min :: "'f \<Rightarrow> 'f \<Rightarrow> 'f"
  fl_neg :: "'f \<Rightarrow> 'f"
  fl_abs :: "'f \<Rightarrow> 'f"
  fl_ln :: "'f \<Rightarrow> 'f"
  fl_exp :: "'f \<Rightarrow> 'f"
  fl_sqrt :: "'f \<Rightarrow> 'f"
  fl_floor :: "'f \<Rightarrow> 'f"
  fl_to_i32 :: "'f \<Rightarrow> int"
  fl_to_i64 :: "'f \<Rightarrow> int"
  fl_to_u128 :: "'f \<Rightarrow> u128"

end
