(* ===== verification/Orca.thy ===== *)
theory Orca
  imports Account_Data Floats
begin

text \<open>
  Orca Whirlpools, \<^verbatim>\<open>market-engine/src/orca.rs\<close>: the decoders of fixed and dynamic tick arrays, the search
  for the next initialised tick, and the exact-in quote, which steps over ticks and tick-array boundaries.
  The quote computes in \<^verbatim>\<open>f64\<close>, whose operations are a parameter, so what is proved of the walk over ticks
  and arrays holds whatever the rounding. \<^verbatim>\<open>HashMap::values\<close> visits the arrays in the order of the association list.
\<close>

section \<open>Data\<close>

definition ORCA_TICK_ARRAY_SIZE :: int where [simp]: "ORCA_TICK_ARRAY_SIZE = 88"
definition FIXED_TICK_ARRAY_LEN :: nat where "FIXED_TICK_ARRAY_LEN = 9988"
definition DYNAMIC_TICK_ARRAY_MIN_LEN :: nat where "DYNAMIC_TICK_ARRAY_MIN_LEN = 148"
definition DYNAMIC_TICK_ARRAY_MAX_LEN :: nat where "DYNAMIC_TICK_ARRAY_MAX_LEN = 10004"
definition FIXED_TICK_SIZE :: nat where [simp]: "FIXED_TICK_SIZE = 113"
definition DYNAMIC_TICK_DATA_SIZE :: nat where [simp]: "DYNAMIC_TICK_DATA_SIZE = 96"

record orca_tick =
  ot_initialized :: bool
  ot_liquidity_net :: int

definition default_tick :: orca_tick where
  "default_tick = \<lparr>ot_initialized = False, ot_liquidity_net = 0\<rparr>"

record orca_tick_array =
  ota_start_tick_index :: int
  ota_ticks :: "orca_tick list"

type_synonym tick_arrays = "(int \<times> orca_tick_array) list"

record orca_swap_quote =
  osq_amount_out :: u64
  osq_traversed_arrays :: "int list"

datatype traversal_event = InitializedTick int int | ArrayBoundary int

section \<open>Decoders\<close>

fun read_fixed_ticks :: "nat \<Rightarrow> bytes \<Rightarrow> nat \<Rightarrow> orca_tick list option" where
  "read_fixed_ticks 0 tick_data off = Some []"
| "read_fixed_ticks (Suc n) tick_data off = do {
     tick_bytes \<leftarrow> slice_get tick_data off (off + FIXED_TICK_SIZE);
     tag \<leftarrow> idx tick_bytes 0;
     net \<leftarrow> read_u128 tick_bytes 1;
     ticks \<leftarrow> read_fixed_ticks n tick_data (off + FIXED_TICK_SIZE);
     Some (\<lparr>ot_initialized = (tag \<noteq> 0), ot_liquidity_net = sint net\<rparr> # ticks) }"

definition decode_fixed_tick_array :: "bytes \<Rightarrow> pubkey \<Rightarrow> orca_tick_array option" where
  "decode_fixed_tick_array data whirlpool =
     (if length data \<noteq> FIXED_TICK_ARRAY_LEN then None
      else do {
        start_tick_index \<leftarrow> read_i32 data 8;
        tick_data \<leftarrow> slice_get data 12 (12 + FIXED_TICK_SIZE * nat ORCA_TICK_ARRAY_SIZE);
        decoded_whirlpool \<leftarrow> read_pubkey data (length data - 32);
        if decoded_whirlpool \<noteq> whirlpool then None
        else do {
          ticks \<leftarrow> read_fixed_ticks (nat ORCA_TICK_ARRAY_SIZE) tick_data 0;
          Some \<lparr>ota_start_tick_index = start_tick_index, ota_ticks = ticks\<rparr> } })"

fun read_dynamic_ticks :: "nat \<Rightarrow> bytes \<Rightarrow> nat \<Rightarrow> orca_tick list option" where
  "read_dynamic_ticks 0 data cursor = Some []"
| "read_dynamic_ticks (Suc n) data cursor = do {
     tag \<leftarrow> idx data cursor;
     if tag = 0 then do {
       ticks \<leftarrow> read_dynamic_ticks n data (cursor + 1);
       Some (default_tick # ticks) }
     else if tag = 1 then do {
       tick_bytes \<leftarrow> slice_get data (cursor + 1) (cursor + 1 + DYNAMIC_TICK_DATA_SIZE);
       net \<leftarrow> read_u128 tick_bytes 0;
       ticks \<leftarrow> read_dynamic_ticks n data (cursor + 1 + DYNAMIC_TICK_DATA_SIZE);
       Some (\<lparr>ot_initialized = True, ot_liquidity_net = sint net\<rparr> # ticks) }
     else None }"

definition decode_dynamic_tick_array :: "bytes \<Rightarrow> pubkey \<Rightarrow> orca_tick_array option" where
  "decode_dynamic_tick_array data whirlpool = do {
     start_tick_index \<leftarrow> read_i32 data 8;
     decoded_whirlpool \<leftarrow> read_pubkey data 12;
     if decoded_whirlpool \<noteq> whirlpool then None
     else do {
       ticks \<leftarrow> read_dynamic_ticks (nat ORCA_TICK_ARRAY_SIZE) data 60;
       Some \<lparr>ota_start_tick_index = start_tick_index, ota_ticks = ticks\<rparr> } }"

definition decode_tick_array :: "bytes \<Rightarrow> pubkey \<Rightarrow> orca_tick_array option" where
  "decode_tick_array data whirlpool =
     (if length data = FIXED_TICK_ARRAY_LEN then decode_fixed_tick_array data whirlpool
      else if DYNAMIC_TICK_ARRAY_MIN_LEN \<le> length data \<and> length data \<le> DYNAMIC_TICK_ARRAY_MAX_LEN
      then decode_dynamic_tick_array data whirlpool
      else None)"

section \<open>Tick arrays\<close>

definition tick_array_offset :: "u16 \<Rightarrow> int" where
  "tick_array_offset tick_spacing = wrap32 (uint tick_spacing * ORCA_TICK_ARRAY_SIZE)"

text \<open>\<^verbatim>\<open>div_euclid\<close> by a positive number is the division of \<open>int\<close>.\<close>

definition tick_array_start_index :: "int \<Rightarrow> u16 \<Rightarrow> int" where
  "tick_array_start_index tick_index tick_spacing =
     (if tick_spacing = 0 then 0
      else wrap32 (wrap32 ((tick_index div uint tick_spacing) div ORCA_TICK_ARRAY_SIZE * uint tick_spacing)
        * ORCA_TICK_ARRAY_SIZE))"

definition tick_array_start_indexes :: "int \<Rightarrow> u16 \<Rightarrow> int \<Rightarrow> int list" where
  "tick_array_start_indexes tick_current_index tick_spacing radius =
     (let current = tick_array_start_index tick_current_index tick_spacing;
          offset = tick_array_offset tick_spacing in
      map (\<lambda>step. wrap32 (current + wrap32 (step * offset))) [- radius..radius])"

text \<open>The ticks of an array with their indices.\<close>

definition indexed_ticks :: "u16 \<Rightarrow> orca_tick_array \<Rightarrow> (int \<times> orca_tick) list" where
  "indexed_ticks tick_spacing tick_array =
     map (\<lambda>(i, tick). (wrap32 (ota_start_tick_index tick_array + wrap32 (int i * uint tick_spacing)), tick))
       (enumerate 0 (ota_ticks tick_array))"

definition is_better :: "bool \<Rightarrow> int \<Rightarrow> int \<Rightarrow> (int \<times> int) option \<Rightarrow> bool" where
  "is_better a_to_b tick_current tick_index best =
     (if a_to_b
      then tick_index < tick_current \<and> (case best of None \<Rightarrow> True | Some (best_tick, _) \<Rightarrow> tick_index > best_tick)
      else tick_index > tick_current \<and> (case best of None \<Rightarrow> True | Some (best_tick, _) \<Rightarrow> tick_index < best_tick))"

definition next_initialized_tick :: "int \<Rightarrow> u16 \<Rightarrow> bool \<Rightarrow> tick_arrays \<Rightarrow> (int \<times> int) option" where
  "next_initialized_tick tick_current tick_spacing a_to_b tick_arrays =
     fold (\<lambda>(tick_index, tick) best.
         if \<not> ot_initialized tick then best
         else if is_better a_to_b tick_current tick_index best then Some (tick_index, ot_liquidity_net tick)
         else best)
       (concat (map (\<lambda>(_, tick_array). indexed_ticks tick_spacing tick_array) tick_arrays)) None"

definition next_event :: "int \<Rightarrow> int \<Rightarrow> int \<Rightarrow> u16 \<Rightarrow> bool \<Rightarrow> tick_arrays \<Rightarrow> traversal_event option" where
  "next_event tick_current lower_boundary upper_boundary tick_spacing a_to_b tick_arrays =
     (let boundary_tick = (if a_to_b then lower_boundary else upper_boundary) in
      case next_initialized_tick tick_current tick_spacing a_to_b tick_arrays of
        Some (init_tick, liq_net) \<Rightarrow>
          if a_to_b
          then (if init_tick \<ge> boundary_tick then Some (InitializedTick init_tick liq_net)
                else Some (ArrayBoundary boundary_tick))
          else if init_tick \<le> boundary_tick then Some (InitializedTick init_tick liq_net)
          else Some (ArrayBoundary boundary_tick)
      | None \<Rightarrow> Some (ArrayBoundary boundary_tick))"

section \<open>The step formulas\<close>

definition effective_input_to_reach_target :: "'f f64_ops \<Rightarrow> bool \<Rightarrow> 'f \<Rightarrow> 'f \<Rightarrow> 'f \<Rightarrow> 'f" where
  "effective_input_to_reach_target fl a_to_b current target liquidity =
     (if a_to_b
      then (if fl_le fl current target then fl_lit fl ''0.0''
            else fl_div fl (fl_mul fl liquidity (fl_sub fl current target)) (fl_mul fl current target))
      else (if fl_le fl target current then fl_lit fl ''0.0''
            else fl_mul fl liquidity (fl_sub fl target current)))"

definition amount_out_for_step :: "'f f64_ops \<Rightarrow> bool \<Rightarrow> 'f \<Rightarrow> 'f \<Rightarrow> 'f \<Rightarrow> 'f" where
  "amount_out_for_step fl a_to_b current next_price liquidity =
     (if a_to_b then fl_mul fl liquidity (fl_sub fl current next_price)
      else fl_mul fl liquidity (fl_sub fl (fl_div fl (fl_lit fl ''1.0'') current) (fl_div fl (fl_lit fl ''1.0'') next_price)))"

definition partial_amount_out :: "'f f64_ops \<Rightarrow> bool \<Rightarrow> 'f \<Rightarrow> 'f \<Rightarrow> 'f \<Rightarrow> 'f" where
  "partial_amount_out fl a_to_b current liquidity effective_input =
     (if fl_le fl effective_input (fl_epsilon fl) then fl_lit fl ''0.0''
      else if a_to_b
      then let next_price = fl_div fl (fl_mul fl current liquidity)
                 (fl_add fl liquidity (fl_mul fl effective_input current)) in
        amount_out_for_step fl True current next_price liquidity
      else let next_price = fl_add fl current (fl_div fl effective_input liquidity) in
        amount_out_for_step fl False current next_price liquidity)"

definition sqrt_price_x64_to_f64 :: "'f f64_ops \<Rightarrow> u128 \<Rightarrow> 'f" where
  "sqrt_price_x64_to_f64 fl price = fl_div fl (fl_of_int fl (uint price)) (fl_of_int fl (2 ^ 64))"

definition tick_index_to_sqrt_price :: "'f f64_ops \<Rightarrow> int \<Rightarrow> 'f" where
  "tick_index_to_sqrt_price fl tick_index =
     fl_powf fl (fl_lit fl ''1.0001'') (fl_div fl (fl_of_int fl tick_index) (fl_lit fl ''2.0''))"

section \<open>The quote\<close>

record 'f swap_state =
  sw_remaining :: 'f
  sw_amount_out :: 'f
  sw_sqrt_price :: 'f
  sw_liquidity :: 'f
  sw_tick :: int
  sw_traversed :: "int list"

definition push_array :: "int \<Rightarrow> int list \<Rightarrow> int list" where
  "push_array array traversed = (if traversed \<noteq> [] \<and> last traversed = array then traversed else traversed @ [array])"

text \<open>The body of the loop: the new state, and whether the loop goes on.\<close>

definition swap_round :: "'f f64_ops \<Rightarrow> bool \<Rightarrow> u16 \<Rightarrow> 'f \<Rightarrow> tick_arrays \<Rightarrow> 'f swap_state \<Rightarrow> bool \<times> 'f swap_state" where
  "swap_round fl a_to_b tick_spacing fee_factor tick_arrays s =
     (if fl_le fl (sw_remaining s) (fl_epsilon fl) \<or> fl_le fl (sw_liquidity s) (fl_lit fl ''0.0'') then (False, s)
      else let current_array = tick_array_start_index (sw_tick s) tick_spacing;
               s = s\<lparr>sw_traversed := push_array current_array (sw_traversed s)\<rparr>;
               lower_boundary = current_array;
               upper_boundary = wrap32 (current_array + tick_array_offset tick_spacing);
               effective_in = fl_mul fl (sw_remaining s) fee_factor;
               ended = s\<lparr>sw_amount_out := fl_add fl (sw_amount_out s)
                 (partial_amount_out fl a_to_b (sw_sqrt_price s) (sw_liquidity s) effective_in)\<rparr> in
        case next_event (sw_tick s) lower_boundary upper_boundary tick_spacing a_to_b tick_arrays of
          None \<Rightarrow> (False, if fl_le fl effective_in (fl_epsilon fl) then s else ended)
        | Some event \<Rightarrow>
            let (target_tick, liquidity_net, crossing_boundary) =
                  (case event of InitializedTick tick net \<Rightarrow> (tick, net, False) | ArrayBoundary tick \<Rightarrow> (tick, 0, True));
                target_sqrt = tick_index_to_sqrt_price fl target_tick;
                required = effective_input_to_reach_target fl a_to_b (sw_sqrt_price s) target_sqrt (sw_liquidity s) in
            if fl_finite fl required \<and> \<not> fl_le fl required (fl_epsilon fl)
              \<and> fl_le fl required (fl_add fl effective_in (fl_lit fl ''1e-12''))
            then let required_user_in = fl_div fl required (fl_max fl fee_factor (fl_epsilon fl));
                     tick = (if a_to_b then wrap32 (target_tick - uint tick_spacing) else target_tick);
                     s = s\<lparr>sw_remaining := fl_max fl (fl_sub fl (sw_remaining s) required_user_in) (fl_lit fl ''0.0''),
                       sw_amount_out := fl_add fl (sw_amount_out s)
                         (amount_out_for_step fl a_to_b (sw_sqrt_price s) target_sqrt (sw_liquidity s)),
                       sw_sqrt_price := target_sqrt, sw_tick := tick\<rparr> in
              if crossing_boundary
              then (True, s\<lparr>sw_traversed := push_array (tick_array_start_index tick tick_spacing) (sw_traversed s)\<rparr>)
              else let liquidity = fl_to_i128 fl (sw_liquidity s);
                       updated = (if a_to_b then wrap128 (liquidity - liquidity_net) else wrap128 (liquidity + liquidity_net)) in
                (True, s\<lparr>sw_liquidity := fl_of_int fl (max updated 0)\<rparr>)
            else (False, ended))"

fun swap_loop :: "nat \<Rightarrow> 'f f64_ops \<Rightarrow> bool \<Rightarrow> u16 \<Rightarrow> 'f \<Rightarrow> tick_arrays \<Rightarrow> 'f swap_state \<Rightarrow> 'f swap_state" where
  "swap_loop 0 fl a_to_b tick_spacing fee_factor tick_arrays s = s"
| "swap_loop (Suc n) fl a_to_b tick_spacing fee_factor tick_arrays s =
     (let (go_on, s) = swap_round fl a_to_b tick_spacing fee_factor tick_arrays s in
      if go_on then swap_loop n fl a_to_b tick_spacing fee_factor tick_arrays s else s)"

definition quote_exact_in ::
  "'f f64_ops \<Rightarrow> u64 \<Rightarrow> bool \<Rightarrow> u128 \<Rightarrow> u128 \<Rightarrow> int \<Rightarrow> u16 \<Rightarrow> u64 \<Rightarrow> tick_arrays \<Rightarrow> orca_swap_quote" where
  "quote_exact_in fl amount_in a_to_b sqrt_price_x64 liquidity tick_current_index tick_spacing fee_bps tick_arrays =
     (let start = tick_array_start_index tick_current_index tick_spacing in
      if amount_in = 0 \<or> liquidity = 0 \<or> sqrt_price_x64 = 0 \<or> tick_spacing = 0
      then \<lparr>osq_amount_out = 0, osq_traversed_arrays = [start]\<rparr>
      else let fee_factor = fl_div fl
                 (fl_max fl (fl_sub fl (fl_lit fl ''10000.0'') (fl_of_int fl (uint fee_bps))) (fl_lit fl ''0.0''))
                 (fl_lit fl ''10000.0'');
               s = swap_loop 512 fl a_to_b tick_spacing fee_factor tick_arrays
                 \<lparr>sw_remaining = fl_of_int fl (uint amount_in), sw_amount_out = fl_lit fl ''0.0'',
                  sw_sqrt_price = sqrt_price_x64_to_f64 fl sqrt_price_x64,
                  sw_liquidity = fl_of_int fl (uint liquidity), sw_tick = tick_current_index,
                  sw_traversed = [start]\<rparr> in
        \<lparr>osq_amount_out = fl_to_u64 fl (fl_max fl (sw_amount_out s) (fl_lit fl ''0.0'')),
         osq_traversed_arrays = sw_traversed s\<rparr>)"

end
