(* ===== verification/Orca_Quote.thy ===== *)
theory Orca_Quote
  imports Orca
begin

text \<open>
  What the Orca model promises: the search for the next initialised tick finds the nearest one ahead of the
  price; the arrays a quote traverses are adjacent ones in the direction of the swap, which is what the
  transaction builder passes to the program; the decoder of dynamic tick arrays inverts the layout; and after
  a downward step the tick next to the price is left out.
\<close>

section \<open>The nearest initialised tick\<close>

definition ahead :: "bool \<Rightarrow> int \<Rightarrow> int \<Rightarrow> bool" where
  "ahead a_to_b tick t = (if a_to_b then t < tick else tick < t)"

text \<open>The initialised ticks of the cached arrays with their net liquidity.\<close>

definition initialized_ticks :: "u16 \<Rightarrow> tick_arrays \<Rightarrow> (int \<times> int) set" where
  "initialized_ticks tick_spacing tick_arrays =
     {(t, ot_liquidity_net tick) |t tick array tick_array. (array, tick_array) \<in> set tick_arrays
        \<and> (t, tick) \<in> set (indexed_ticks tick_spacing tick_array) \<and> ot_initialized tick}"

definition nearest :: "bool \<Rightarrow> int set \<Rightarrow> int" where
  "nearest a_to_b T = (if a_to_b then Max T else Min T)"

text \<open>The body of the search, over any list of indexed ticks.\<close>

definition consider_tick :: "bool \<Rightarrow> int \<Rightarrow> int \<times> orca_tick \<Rightarrow> (int \<times> int) option \<Rightarrow> (int \<times> int) option" where
  "consider_tick a_to_b tick_current = (\<lambda>(tick_index, tick) best.
     if \<not> ot_initialized tick then best
     else if is_better a_to_b tick_current tick_index best then Some (tick_index, ot_liquidity_net tick)
     else best)"

definition ahead_of :: "bool \<Rightarrow> int \<Rightarrow> (int \<times> orca_tick) list \<Rightarrow> (int \<times> int) set" where
  "ahead_of a_to_b tick ts = {(t, ot_liquidity_net x) |t x. (t, x) \<in> set ts \<and> ot_initialized x \<and> ahead a_to_b tick t}"

lemma ahead_of_simps [simp]:
  "ahead_of a_to_b tick [] = {}"
  "ahead_of a_to_b tick (ts @ [(t, x)]) =
     (if ot_initialized x \<and> ahead a_to_b tick t then insert (t, ot_liquidity_net x) (ahead_of a_to_b tick ts)
      else ahead_of a_to_b tick ts)"
  by (auto simp: ahead_of_def)

definition chosen :: "bool \<Rightarrow> (int \<times> int) option \<Rightarrow> (int \<times> int) set \<Rightarrow> bool" where
  "chosen a_to_b best T = (case best of None \<Rightarrow> T = {}
     | Some (t, net) \<Rightarrow> (t, net) \<in> T \<and> (\<forall>(u, _) \<in> T. if a_to_b then u \<le> t else t \<le> u))"

lemma chosen_step: "chosen a_to_b best (ahead_of a_to_b tick ts) \<Longrightarrow>
    chosen a_to_b (consider_tick a_to_b tick (t, x) best) (ahead_of a_to_b tick (ts @ [(t, x)]))"
  by (force simp: chosen_def consider_tick_def is_better_def ahead_def split: option.splits if_splits)

lemma fold_chosen: "chosen a_to_b (fold (consider_tick a_to_b tick) ts None) (ahead_of a_to_b tick ts)"
proof (induction ts rule: rev_induct)
  case Nil
  show ?case by (simp add: chosen_def)
next
  case (snoc x ts)
  obtain t y where "x = (t, y)" by (cases x)
  with chosen_step [OF snoc.IH] show ?case by simp
qed

lemma next_initialized_tick_chosen:
  "chosen a_to_b (next_initialized_tick tick tick_spacing a_to_b tick_arrays)
     {p \<in> initialized_ticks tick_spacing tick_arrays. ahead a_to_b tick (fst p)}"
proof -
  let ?ts = "concat (map (\<lambda>(_, tick_array). indexed_ticks tick_spacing tick_array) tick_arrays)"
  have "ahead_of a_to_b tick ?ts = {p \<in> initialized_ticks tick_spacing tick_arrays. ahead a_to_b tick (fst p)}"
    by (fastforce simp: ahead_of_def initialized_ticks_def)
  with fold_chosen [of a_to_b tick ?ts] show ?thesis
    by (simp add: next_initialized_tick_def consider_tick_def)
qed

lemma finite_initialized: "finite (initialized_ticks tick_spacing tick_arrays)"
proof -
  have "initialized_ticks tick_spacing tick_arrays \<subseteq> (\<lambda>(t, tick). (t, ot_liquidity_net tick)) `
      set (concat (map (\<lambda>(_, tick_array). indexed_ticks tick_spacing tick_array) tick_arrays))"
    by (fastforce simp: initialized_ticks_def)
  then show ?thesis by (rule finite_subset) (rule finite_imageI, rule finite_set)
qed

lemma chosen_nearest:
  assumes "finite T" and "chosen a_to_b (Some (t, net)) T"
  shows "t = nearest a_to_b (fst ` T)"
proof -
  have t: "t \<in> fst ` T" and bound: "\<And>u. u \<in> fst ` T \<Longrightarrow> if a_to_b then u \<le> t else t \<le> u"
    using assms(2) by (force simp: chosen_def)+
  show ?thesis
  proof (cases a_to_b)
    case True
    with bound t assms(1) show ?thesis by (auto simp: nearest_def intro!: Max_eqI [symmetric])
  next
    case False
    with bound t assms(1) show ?thesis by (auto simp: nearest_def intro!: Min_eqI [symmetric])
  qed
qed

lemma chosen_result:
  "finite T \<Longrightarrow> chosen a_to_b best T \<Longrightarrow>
   (case best of None \<Rightarrow> T = {} | Some (t, net) \<Rightarrow> (t, net) \<in> T \<and> t = nearest a_to_b (fst ` T))"
  using chosen_nearest [of T a_to_b] by (auto simp: chosen_def split: option.splits)

text \<open>
  The search for the next initialised tick returns nothing exactly when no cached tick lies
  strictly ahead of the price, and otherwise the nearest one, the greatest below when the price falls and
  the least above when it rises, with the net liquidity of that tick.
\<close>

theorem next_tick_nearest:
  "let T = {p \<in> initialized_ticks tick_spacing tick_arrays. ahead a_to_b tick (fst p)} in
   case next_initialized_tick tick tick_spacing a_to_b tick_arrays of
     None \<Rightarrow> T = {}
   | Some (t, net) \<Rightarrow> (t, net) \<in> T \<and> t = nearest a_to_b (fst ` T)"
  unfolding Let_def
  by (rule chosen_result [OF finite_subset [OF _ finite_initialized] next_initialized_tick_chosen]) blast

section \<open>The walk over ticks and arrays\<close>

text \<open>Rounds that go on, as a step relation, and the states they reach.\<close>

inductive swap_reaches ::
  "'f f64_ops \<Rightarrow> bool \<Rightarrow> u16 \<Rightarrow> 'f \<Rightarrow> tick_arrays \<Rightarrow> 'f swap_state \<Rightarrow> nat \<Rightarrow> 'f swap_state \<Rightarrow> bool"
  for fl a_to_b tick_spacing fee_factor tick_arrays s0 where
  start: "swap_reaches fl a_to_b tick_spacing fee_factor tick_arrays s0 0 s0"
| round: "swap_reaches fl a_to_b tick_spacing fee_factor tick_arrays s0 n s \<Longrightarrow>
    swap_round fl a_to_b tick_spacing fee_factor tick_arrays s = (True, s') \<Longrightarrow>
    swap_reaches fl a_to_b tick_spacing fee_factor tick_arrays s0 (Suc n) s'"

text \<open>The loop ends with a state it reached, or with what a last round makes of one.\<close>

lemma swap_loop_reaches:
  assumes "swap_reaches fl a_to_b tick_spacing fee_factor tick_arrays s0 k s"
  shows "\<exists>n s'. n \<le> k + fuel \<and> swap_reaches fl a_to_b tick_spacing fee_factor tick_arrays s0 n s'
    \<and> (let r = swap_loop fuel fl a_to_b tick_spacing fee_factor tick_arrays s in
       r = s' \<or> swap_round fl a_to_b tick_spacing fee_factor tick_arrays s' = (False, r))"
  using assms
proof (induction fuel arbitrary: k s)
  case 0
  then show ?case by (auto simp: Let_def)
next
  case (Suc fuel)
  obtain go_on s' where r: "swap_round fl a_to_b tick_spacing fee_factor tick_arrays s = (go_on, s')"
    by fastforce
  show ?case
  proof (cases go_on)
    case True
    with Suc.prems r have "swap_reaches fl a_to_b tick_spacing fee_factor tick_arrays s0 (Suc k) s'"
      by (auto intro: swap_reaches.round)
    from Suc.IH [OF this] r True show ?thesis by (auto simp: Let_def)
  next
    case False
    with r Suc.prems show ?thesis by (auto simp: Let_def intro!: exI [of _ k] exI [of _ s])
  qed
qed

lemma next_event_spec:
  assumes "next_event tick lower upper tick_spacing a_to_b tick_arrays = Some event"
  shows "case event of
      InitializedTick t net \<Rightarrow> ahead a_to_b tick t \<and> (if a_to_b then lower \<le> t else t \<le> upper)
        \<and> (t, net) \<in> initialized_ticks tick_spacing tick_arrays
    | ArrayBoundary t \<Rightarrow> t = (if a_to_b then lower else upper)"
  using assms next_initialized_tick_chosen [of a_to_b tick tick_spacing tick_arrays]
  by (auto simp: next_event_def chosen_def split: option.splits if_splits)

text \<open>
  What a round that goes on does to the tick and the arrays: it crosses a tick ahead within the current
  array, or the boundary of the array, and lists the array it enters.
\<close>

definition crosses_to :: "'f f64_ops \<Rightarrow> bool \<Rightarrow> u16 \<Rightarrow> 'f swap_state \<Rightarrow> int \<Rightarrow> 'f swap_state \<Rightarrow> bool" where
  "crosses_to fl a_to_b tick_spacing s target s' =
     (let current = tick_array_start_index (sw_tick s) tick_spacing;
          boundary = (if a_to_b then current else wrap32 (current + tick_array_offset tick_spacing));
          visited = push_array current (sw_traversed s) in
      sw_tick s' = (if a_to_b then wrap32 (target - uint tick_spacing) else target)
      \<and> sw_sqrt_price s' = tick_index_to_sqrt_price fl target
      \<and> (target = boundary
           \<and> sw_traversed s' = push_array (tick_array_start_index (sw_tick s') tick_spacing) visited
         \<or> ahead a_to_b (sw_tick s) target \<and> (if a_to_b then boundary \<le> target else target \<le> boundary)
           \<and> sw_traversed s' = visited))"

lemma round_crosses:
  assumes "swap_round fl a_to_b tick_spacing fee_factor tick_arrays s = (True, s')"
  shows "\<exists>target. crosses_to fl a_to_b tick_spacing s target s'"
proof -
  let ?current = "tick_array_start_index (sw_tick s) tick_spacing"
  let ?upper = "wrap32 (?current + tick_array_offset tick_spacing)"
  obtain event where ev: "next_event (sw_tick s) ?current ?upper tick_spacing a_to_b tick_arrays = Some event"
    using assms by (auto simp: swap_round_def Let_def split: if_splits option.splits)
  from next_event_spec [OF ev] assms ev show ?thesis
    by (cases event) (auto simp: swap_round_def crosses_to_def Let_def split: if_splits)
qed

lemma round_ends:
  assumes "swap_round fl a_to_b tick_spacing fee_factor tick_arrays s = (False, s')"
  shows "sw_traversed s' = sw_traversed s
    \<or> sw_traversed s' = push_array (tick_array_start_index (sw_tick s) tick_spacing) (sw_traversed s)"
  using assms by (auto simp: swap_round_def Let_def split: if_splits option.splits prod.splits)

section \<open>Adjacent arrays\<close>

text \<open>The number of ticks of an array, and the array a tick lies in.\<close>

definition span :: "u16 \<Rightarrow> int" where "span tick_spacing = uint tick_spacing * 88"
definition array_of :: "u16 \<Rightarrow> int \<Rightarrow> int" where "array_of tick_spacing t = t div span tick_spacing"

lemma span_bounds: "0 \<le> span tick_spacing" "span tick_spacing \<le> 5767080"
  using uint_bounded [of tick_spacing] by (auto simp: span_def)

lemma span_pos: "tick_spacing \<noteq> 0 \<Longrightarrow> 0 < span tick_spacing"
  by (simp add: span_def word_neq_0_conv word_less_def)

lemma offset_span: "tick_array_offset tick_spacing = span tick_spacing"
  using span_bounds [of tick_spacing]
  by (simp add: tick_array_offset_def flip: span_def) (rule wrap32_in, linarith+)

lemma start_index:
  assumes "tick_spacing \<noteq> 0" and "\<bar>t\<bar> + span tick_spacing < 2147483648"
  shows "tick_array_start_index t tick_spacing = span tick_spacing * array_of tick_spacing t"
proof -
  let ?w = "span tick_spacing" and ?a = "array_of tick_spacing t"
  have w: "0 < ?w" using assms(1) by (rule span_pos)
  have a: "(t div uint tick_spacing) div 88 = ?a"
    by (simp add: array_of_def span_def zdiv_zmult2_eq)
  have lo: "?w * ?a \<le> t" and hi: "t < ?w * ?a + ?w"
    unfolding array_of_def
    using pos_mod_bound [OF w, of t] pos_mod_sign [OF w, of t] mult_div_mod_eq [of ?w t] by linarith+
  have small: "\<bar>?a * uint tick_spacing\<bar> \<le> \<bar>?w * ?a\<bar>"
    by (simp add: span_def abs_mult)
  have "\<bar>?w * ?a\<bar> < 2147483648"
    using lo hi assms(2) by linarith
  with small have "wrap32 (?a * uint tick_spacing) = ?a * uint tick_spacing" "wrap32 (?w * ?a) = ?w * ?a"
    by (auto intro!: wrap32_in)
  with assms(1) a show ?thesis
    by (simp add: tick_array_start_index_def span_def ac_simps)
qed

lemma array_of_bounds:
  "tick_spacing \<noteq> 0 \<Longrightarrow> span tick_spacing * array_of tick_spacing t \<le> t"
  "tick_spacing \<noteq> 0 \<Longrightarrow> t < span tick_spacing * array_of tick_spacing t + span tick_spacing"
  unfolding array_of_def
  using pos_mod_bound [OF span_pos, of tick_spacing t] pos_mod_sign [OF span_pos, of tick_spacing t]
    mult_div_mod_eq [of "span tick_spacing" t] by linarith+

lemma array_of_unique:
  assumes "tick_spacing \<noteq> 0" and "span tick_spacing * a \<le> t" and "t < span tick_spacing * (a + 1)"
  shows "array_of tick_spacing t = a"
  using assms span_pos [OF assms(1)] unfolding array_of_def
  by (intro int_div_pos_eq [of _ _ _ "t - span tick_spacing * a"]) (auto simp: algebra_simps)

text \<open>The invariant of the walk: the arrays listed, and the one the tick lies in.\<close>

definition walked :: "bool \<Rightarrow> u16 \<Rightarrow> int \<Rightarrow> nat \<Rightarrow> int list" where
  "walked a_to_b tick_spacing a m =
     map (\<lambda>i. span tick_spacing * (if a_to_b then a - int i else a + int i)) [0..<Suc m]"

definition walk_inv :: "bool \<Rightarrow> u16 \<Rightarrow> int \<Rightarrow> nat \<Rightarrow> 'f swap_state \<Rightarrow> bool" where
  "walk_inv a_to_b tick_spacing a n s \<longleftrightarrow>
     (\<exists>m j. sw_traversed s = walked a_to_b tick_spacing a m \<and> (j = m \<or> j = Suc m) \<and> j \<le> n
       \<and> array_of tick_spacing (sw_tick s) = (if a_to_b then a - int j else a + int j))"

lemma push_walked:
  assumes "tick_spacing \<noteq> 0" and "j = m \<or> j = Suc m"
  shows "push_array (span tick_spacing * (if a_to_b then a - int j else a + int j)) (walked a_to_b tick_spacing a m)
    = walked a_to_b tick_spacing a j"
  using assms span_pos [OF assms(1)] by (auto simp: push_array_def walked_def)

definition in_walk :: "u16 \<Rightarrow> int \<Rightarrow> nat \<Rightarrow> bool" where
  "in_walk tick_spacing a n \<longleftrightarrow> tick_spacing \<noteq> 0
     \<and> \<bar>span tick_spacing * a\<bar> + span tick_spacing * (int n + 3) < 2147483648"

lemma walk_start_index:
  assumes "in_walk tick_spacing a n" and "walk_inv a_to_b tick_spacing a n s"
  obtains m j where "sw_traversed s = walked a_to_b tick_spacing a m" "j = m \<or> j = Suc m" "j \<le> n"
    "array_of tick_spacing (sw_tick s) = (if a_to_b then a - int j else a + int j)"
    "tick_array_start_index (sw_tick s) tick_spacing = span tick_spacing * (if a_to_b then a - int j else a + int j)"
    "\<bar>span tick_spacing * (if a_to_b then a - int j else a + int j)\<bar> + span tick_spacing * 3 < 2147483648"
proof -
  let ?w = "span tick_spacing"
  obtain m j where mj: "sw_traversed s = walked a_to_b tick_spacing a m" "j = m \<or> j = Suc m" "j \<le> n"
    "array_of tick_spacing (sw_tick s) = (if a_to_b then a - int j else a + int j)"
    using assms(2) by (auto simp: walk_inv_def)
  have ts: "tick_spacing \<noteq> 0" and w: "0 < ?w"
    using assms(1) by (auto simp: in_walk_def span_pos)
  let ?A = "if a_to_b then a - int j else a + int j"
  have "?w * int j \<le> ?w * int n"
    using w mj(3) by simp
  moreover have "?w * ?A = ?w * a - ?w * int j \<or> ?w * ?A = ?w * a + ?w * int j"
    by (auto simp: algebra_simps)
  moreover have "0 \<le> ?w * int j" using w by simp
  ultimately have bound: "\<bar>?w * ?A\<bar> + ?w * 3 < 2147483648"
    using assms(1) by (auto simp: in_walk_def distrib_left)
  have "\<bar>sw_tick s\<bar> + ?w < 2147483648"
    using array_of_bounds [OF ts, of "sw_tick s"] bound w unfolding mj(4) by linarith
  from start_index [OF ts this] mj bound show thesis
    by (intro that [of m j]) simp_all
qed

text \<open>A round stays in the array of the tick or enters the next one in the direction of the swap.\<close>

lemma crosses_lands:
  fixes here :: int
  assumes ts: "tick_spacing \<noteq> 0"
    and A: "array_of tick_spacing (sw_tick s) = here"
    and cur: "tick_array_start_index (sw_tick s) tick_spacing = span tick_spacing * here"
    and bound: "\<bar>span tick_spacing * here\<bar> + span tick_spacing * 3 < 2147483648"
    and crosses: "crosses_to fl a_to_b tick_spacing s target s'"
  defines "beyond \<equiv> if a_to_b then here - 1 else here + 1"
    and "visited \<equiv> push_array (span tick_spacing * here) (sw_traversed s)"
  shows "array_of tick_spacing (sw_tick s') = beyond
      \<and> sw_traversed s' = push_array (tick_array_start_index (sw_tick s') tick_spacing) visited
    \<or> array_of tick_spacing (sw_tick s') \<in> {here, beyond} \<and> sw_traversed s' = visited"
proof -
  let ?w = "span tick_spacing"
  have w: "0 < ?w" using ts by (rule span_pos)
  note tick = array_of_bounds [OF ts, of "sw_tick s", unfolded A]
  have spacing: "0 < uint tick_spacing" "uint tick_spacing \<le> ?w"
    using w by (auto simp: span_def)
  have upper: "wrap32 (?w * here + ?w) = ?w * here + ?w"
    using bound w by (intro wrap32_in) linarith+
  note crosses = crosses [unfolded crosses_to_def Let_def offset_span cur upper, folded visited_def]
  show ?thesis
  proof (cases a_to_b)
    case True
    have t: "?w * here \<le> target" "target < ?w * here + ?w"
      using crosses True tick by (auto simp: ahead_def)
    then have "sw_tick s' = target - uint tick_spacing"
      using crosses True bound spacing w by (auto intro!: wrap32_in)
    moreover have "array_of tick_spacing (target - uint tick_spacing) =
        (if ?w * here \<le> target - uint tick_spacing then here else here - 1)"
      using t spacing by (intro array_of_unique [OF ts]) (auto simp: algebra_simps)
    ultimately show ?thesis
      using crosses True spacing by (auto simp: beyond_def split: if_splits)
  next
    case False
    have t: "?w * here \<le> target" "target \<le> ?w * here + ?w"
      using crosses False tick w by (auto simp: ahead_def)
    moreover have "array_of tick_spacing target = (if target = ?w * here + ?w then here + 1 else here)"
      using t w by (intro array_of_unique [OF ts]) (auto simp: algebra_simps)
    ultimately show ?thesis
      using crosses False by (auto simp: beyond_def split: if_splits)
  qed
qed

lemma crosses_walk_inv:
  assumes "in_walk tick_spacing a n" and "walk_inv a_to_b tick_spacing a n s"
    and "crosses_to fl a_to_b tick_spacing s target s'"
  shows "walk_inv a_to_b tick_spacing a (Suc n) s'"
proof -
  let ?w = "span tick_spacing"
  obtain m j where mj: "sw_traversed s = walked a_to_b tick_spacing a m" "j = m \<or> j = Suc m" "j \<le> n"
    and A: "array_of tick_spacing (sw_tick s) = (if a_to_b then a - int j else a + int j)"
    and cur: "tick_array_start_index (sw_tick s) tick_spacing
      = ?w * (if a_to_b then a - int j else a + int j)"
    and bound: "\<bar>?w * (if a_to_b then a - int j else a + int j)\<bar> + ?w * 3 < 2147483648"
    using assms(1,2) by (rule walk_start_index)
  define here where "here = (if a_to_b then a - int j else a + int j)"
  have ts: "tick_spacing \<noteq> 0" and w: "0 < ?w"
    using assms(1) by (auto simp: in_walk_def span_pos)
  have beyond: "(if a_to_b then here - 1 else here + 1) = (if a_to_b then a - int (Suc j) else a + int (Suc j))"
    by (simp add: here_def)
  have visited: "push_array (?w * here) (sw_traversed s) = walked a_to_b tick_spacing a j"
    unfolding mj(1) here_def by (rule push_walked [OF ts mj(2)])
  note lands = crosses_lands [OF ts A [folded here_def] cur [folded here_def] bound [folded here_def] assms(3),
      unfolded visited beyond]
  then show ?thesis
  proof
    assume l: "array_of tick_spacing (sw_tick s') = (if a_to_b then a - int (Suc j) else a + int (Suc j))
      \<and> sw_traversed s' = push_array (tick_array_start_index (sw_tick s') tick_spacing) (walked a_to_b tick_spacing a j)"
    have "\<bar>?w * (if a_to_b then a - int (Suc j) else a + int (Suc j))\<bar> \<le> \<bar>?w * here\<bar> + ?w"
      using w by (auto simp: here_def algebra_simps)
    with array_of_bounds [OF ts, of "sw_tick s'"] bound conjunct1 [OF l] have "\<bar>sw_tick s'\<bar> + ?w < 2147483648"
      unfolding here_def by simp
    from start_index [OF ts this] l have "sw_traversed s' = walked a_to_b tick_spacing a (Suc j)"
      using push_walked [OF ts, of "Suc j" j a_to_b a] by simp
    with l mj(3) show ?thesis
      by (auto simp: walk_inv_def intro!: exI [of _ "Suc j"])
  next
    assume "array_of tick_spacing (sw_tick s') \<in> {here, if a_to_b then a - int (Suc j) else a + int (Suc j)}
      \<and> sw_traversed s' = walked a_to_b tick_spacing a j"
    then obtain j' where "j' = j \<or> j' = Suc j" "sw_traversed s' = walked a_to_b tick_spacing a j"
      "array_of tick_spacing (sw_tick s') = (if a_to_b then a - int j' else a + int j')"
      unfolding here_def by blast
    then show ?thesis
      using mj(3) unfolding walk_inv_def by (intro exI [of _ j] exI [of _ j']) auto
  qed
qed

lemma reaches_walk_inv:
  assumes "swap_reaches fl a_to_b tick_spacing fee_factor tick_arrays s0 n s"
    and "in_walk tick_spacing a n" and "walk_inv a_to_b tick_spacing a 0 s0"
  shows "walk_inv a_to_b tick_spacing a n s"
  using assms
proof (induction rule: swap_reaches.induct)
  case (round n s s')
  have "0 \<le> span tick_spacing" by (rule span_bounds)
  with round.prems(1) have "in_walk tick_spacing a n"
    by (auto simp: in_walk_def distrib_left)
  with round have inv: "walk_inv a_to_b tick_spacing a n s" by simp
  obtain target where "crosses_to fl a_to_b tick_spacing s target s'"
    using round_crosses [OF round.hyps(2)] by blast
  with crosses_walk_inv [OF \<open>in_walk tick_spacing a n\<close> inv] show ?case by blast
qed simp

lemma loop_walked:
  assumes "in_walk tick_spacing a fuel" and "walk_inv a_to_b tick_spacing a 0 s0"
  shows "\<exists>m \<le> Suc fuel. sw_traversed (swap_loop fuel fl a_to_b tick_spacing fee_factor tick_arrays s0)
    = walked a_to_b tick_spacing a m"
proof -
  let ?r = "swap_loop fuel fl a_to_b tick_spacing fee_factor tick_arrays s0"
  obtain n s where n: "n \<le> fuel" and s: "swap_reaches fl a_to_b tick_spacing fee_factor tick_arrays s0 n s"
    and r: "?r = s \<or> swap_round fl a_to_b tick_spacing fee_factor tick_arrays s = (False, ?r)"
    using swap_loop_reaches [OF swap_reaches.start, of fuel fl a_to_b tick_spacing fee_factor tick_arrays s0]
    by (auto simp: Let_def)
  have walk: "in_walk tick_spacing a n"
  proof -
    have "span tick_spacing * int n \<le> span tick_spacing * int fuel"
      using n span_bounds(1) by (intro mult_left_mono) auto
    with assms(1) show ?thesis by (auto simp: in_walk_def distrib_left)
  qed
  have inv: "walk_inv a_to_b tick_spacing a n s"
    using s walk assms(2) by (rule reaches_walk_inv)
  obtain m j where "sw_traversed s = walked a_to_b tick_spacing a m" "j = m \<or> j = Suc m" "j \<le> n"
    and "tick_array_start_index (sw_tick s) tick_spacing = span tick_spacing * (if a_to_b then a - int j else a + int j)"
    using walk inv by (rule walk_start_index)
  moreover from this push_walked [of tick_spacing j m a_to_b a] walk
  have "push_array (tick_array_start_index (sw_tick s) tick_spacing) (sw_traversed s) = walked a_to_b tick_spacing a j"
    by (simp add: in_walk_def)
  moreover have "sw_traversed ?r = sw_traversed s
    \<or> sw_traversed ?r = push_array (tick_array_start_index (sw_tick s) tick_spacing) (sw_traversed s)"
    using r by (auto dest: round_ends)
  ultimately have "\<exists>i \<in> {m, j}. sw_traversed ?r = walked a_to_b tick_spacing a i" and "m \<le> n" "j \<le> n"
    by auto
  with n show ?thesis
    by (auto intro: le_SucI [OF le_trans])
qed

lemma quote_traversed:
  assumes "\<bar>tick_current_index\<bar> + 517 * span tick_spacing < 2147483648"
  shows "\<exists>m \<le> 513. osq_traversed_arrays
      (quote_exact_in fl amount_in a_to_b sqrt_price_x64 liquidity tick_current_index tick_spacing fee_bps tick_arrays)
    = map (\<lambda>i. tick_array_start_index tick_current_index tick_spacing
        + (if a_to_b then - 1 else 1) * int i * span tick_spacing) [0..<Suc m]"
proof (cases "amount_in = 0 \<or> liquidity = 0 \<or> sqrt_price_x64 = 0 \<or> tick_spacing = 0")
  case True
  then show ?thesis by (intro exI [of _ 0]) (auto simp: quote_exact_in_def Let_def)
next
  case False
  then have ts: "tick_spacing \<noteq> 0" and w: "0 < span tick_spacing" by (auto intro: span_pos)
  let ?a = "array_of tick_spacing tick_current_index"
  have "\<bar>tick_current_index\<bar> + span tick_spacing < 2147483648"
    using assms w by linarith
  note start = start_index [OF ts this]
  have walk: "in_walk tick_spacing ?a 512"
    using array_of_bounds [OF ts, of tick_current_index] assms w ts by (auto simp: in_walk_def)
  have walked: "walked a_to_b tick_spacing ?a m = map (\<lambda>i. tick_array_start_index tick_current_index tick_spacing
      + (if a_to_b then - 1 else 1) * int i * span tick_spacing) [0..<Suc m]" for m
    by (simp add: walked_def start algebra_simps del: upt_Suc)
  have one: "walk_inv a_to_b tick_spacing ?a 0 s" if "sw_traversed s = [tick_array_start_index tick_current_index tick_spacing]"
    and "sw_tick s = tick_current_index" for s
    using that start by (auto simp: walk_inv_def walked_def intro!: exI [of _ 0])
  show ?thesis
    unfolding walked [symmetric] quote_exact_in_def Let_def if_not_P [OF False] orca_swap_quote.select_convs
    by (rule loop_walked [OF walk one, simplified]) simp_all
qed

text \<open>A spacing of 64 and the ticks of a whirlpool, which stay within 443636.\<close>

text \<open>
  The tick arrays a quote lists, which the transaction passes to the program, are a run of
  adjacent arrays that starts at the array of the current tick and goes on in the direction of the swap, at
  most 514 of them, whatever the cached arrays and the floating-point results are, as long as no tick array
  that 512 rounds can reach lies outside \<^verbatim>\<open>i32\<close>.
\<close>

theorem traversed_adjacent:
  assumes "\<bar>tick_current_index\<bar> + 517 * span tick_spacing < 2147483648"
  shows "\<exists>m \<le> 513. osq_traversed_arrays
      (quote_exact_in fl amount_in a_to_b sqrt_price_x64 liquidity tick_current_index tick_spacing fee_bps tick_arrays)
    = map (\<lambda>i. tick_array_start_index tick_current_index tick_spacing
        + (if a_to_b then - 1 else 1) * int i * span tick_spacing) [0..<Suc m]"
  using assms by (rule quote_traversed)

theorem traversed_adjacent_witness:
  "\<bar>- 443636\<bar> + 517 * span 64 < (2147483648 :: int)
   \<and> (\<forall>(fl :: int f64_ops) tick_arrays. \<exists>m \<le> 513. osq_traversed_arrays
        (quote_exact_in fl 1000 True 18446744073709551616 5000 (- 443636) 64 30 tick_arrays)
      = map (\<lambda>i. tick_array_start_index (- 443636) 64 + (if True then - 1 else 1) * int i * span 64) [0..<Suc m])"
proof -
  have bound: "\<bar>- 443636\<bar> + 517 * span 64 < (2147483648 :: int)"
    by (simp add: span_def)
  show ?thesis
    by (intro conjI allI bound traversed_adjacent [OF bound])
qed

section \<open>The skipped tick\<close>

text \<open>Two initialised ticks side by side, with spacing 1: the array of the ticks 0 to 87.\<close>

definition two_ticks :: tick_arrays where
  "two_ticks = [(0, \<lparr>ota_start_tick_index = 0, ota_ticks = [\<lparr>ot_initialized = True, ot_liquidity_net = 7\<rparr>,
     \<lparr>ot_initialized = True, ot_liquidity_net = 5\<rparr>] @ replicate 86 default_tick\<rparr>)]"

text \<open>
  Property C17. After a round of a falling price that goes on, the price is that of the tick crossed, but the search
  goes on strictly below the tick one spacing further down: no later search from there finds that tick, so
  its liquidity is never applied. An initialised tick 0 is passed over this way after the tick 1.
\<close>

theorem adjacent_tick_skipped:
  "(case swap_round fl True tick_spacing fee_factor tick_arrays s of (go_on, s') \<Rightarrow>
     if go_on then
       \<exists>target. sw_sqrt_price s' = tick_index_to_sqrt_price fl target \<and> sw_tick s' = wrap32 (target - uint tick_spacing)
         \<and> (\<forall>net. next_initialized_tick (sw_tick s') tick_spacing True tick_arrays \<noteq> Some (sw_tick s', net))
     else True)
   \<and> (0, 7) \<in> initialized_ticks 1 two_ticks
   \<and> next_event 5 0 88 1 True two_ticks = Some (InitializedTick 1 5)
   \<and> next_event (1 - 1) 0 88 1 True two_ticks = Some (ArrayBoundary 0)"
proof (intro conjI)
  show "case swap_round fl True tick_spacing fee_factor tick_arrays s of (go_on, s') \<Rightarrow>
     if go_on then
       \<exists>target. sw_sqrt_price s' = tick_index_to_sqrt_price fl target \<and> sw_tick s' = wrap32 (target - uint tick_spacing)
         \<and> (\<forall>net. next_initialized_tick (sw_tick s') tick_spacing True tick_arrays \<noteq> Some (sw_tick s', net))
     else True"
  proof (clarsimp split: prod.split)
    fix s' assume r: "swap_round fl True tick_spacing fee_factor tick_arrays s = (True, s')"
    have "\<forall>net. next_initialized_tick (sw_tick s') tick_spacing True tick_arrays \<noteq> Some (sw_tick s', net)"
      using next_initialized_tick_chosen [of True "sw_tick s'" tick_spacing tick_arrays]
      by (auto simp: chosen_def ahead_def split: option.splits)
    with round_crosses [OF r]
    show "\<exists>target. sw_sqrt_price s' = tick_index_to_sqrt_price fl target \<and> sw_tick s' = wrap32 (target - uint tick_spacing)
         \<and> (\<forall>net. next_initialized_tick (sw_tick s') tick_spacing True tick_arrays \<noteq> Some (sw_tick s', net))"
      by (auto simp: crosses_to_def Let_def)
  qed
  show "next_event 5 0 88 1 True two_ticks = Some (InitializedTick 1 5)"
    by code_simp
  show "next_event (1 - 1) 0 88 1 True two_ticks = Some (ArrayBoundary 0)"
    by code_simp
  show "(0, 7) \<in> initialized_ticks 1 two_ticks"
    by (auto simp: initialized_ticks_def two_ticks_def indexed_ticks_def wrap32_in intro!: exI)
qed

section \<open>The layout of dynamic tick arrays\<close>

text \<open>A tick with the 80 bytes the decoder leaves out (gross liquidity, fee and reward growth).\<close>

definition render_tick :: "orca_tick \<times> bytes \<Rightarrow> bytes" where
  "render_tick = (\<lambda>(tick, rest). if ot_initialized tick
     then 1 # nat_le 16 (unat (word_of_int (ot_liquidity_net tick) :: u128)) @ rest else [0])"

definition wf_tick :: "orca_tick \<times> bytes \<Rightarrow> bool" where
  "wf_tick = (\<lambda>(tick, rest). length rest = 80 \<and> (if ot_initialized tick
     then - (2 ^ 127) \<le> ot_liquidity_net tick \<and> ot_liquidity_net tick < 2 ^ 127
     else ot_liquidity_net tick = 0))"

definition render_dynamic_array :: "bytes \<Rightarrow> int \<Rightarrow> pubkey \<Rightarrow> bytes \<Rightarrow> (orca_tick \<times> bytes) list \<Rightarrow> bytes" where
  "render_dynamic_array discriminator start whirlpool bitmap ticks =
     discriminator @ u32_to_le (word_of_int start) @ pubkey_to_bytes whirlpool @ bitmap @ concat (map render_tick ticks)"

lemma sint_word_of_int: "- (2 ^ 127) \<le> i \<Longrightarrow> i < 2 ^ 127 \<Longrightarrow> sint (word_of_int i :: u128) = i"
  by (simp add: sint_sbintrunc' signed_take_bit_int_eq_self)

lemma u128_of_nat_le: "u128_of_le (nat_le 16 (unat (w :: u128))) = w"
  using word_of_nat_mod [of w] by (simp add: u128_of_le_def le_nat_nat_le)

lemma read_dynamic_ticks_render:
  assumes "\<forall>t \<in> set ticks. wf_tick t"
  shows "read_dynamic_ticks (length ticks) (pre @ concat (map render_tick ticks)) (length pre) = Some (map fst ticks)"
  using assms
proof (induction ticks arbitrary: pre)
  case (Cons t ticks)
  obtain tick rest where t: "t = (tick, rest)" by (cases t)
  let ?net = "nat_le 16 (unat (word_of_int (ot_liquidity_net tick) :: u128))"
  have rest: "length rest = 80" using Cons.prems t by (auto simp: wf_tick_def)
  show ?case
  proof (cases "ot_initialized tick")
    case True
    with Cons.prems t have "- (2 ^ 127) \<le> ot_liquidity_net tick" "ot_liquidity_net tick < 2 ^ 127"
      by (auto simp: wf_tick_def)
    note net = sint_word_of_int [OF this]
    have "read_u128 (?net @ rest) 0 = Some (word_of_int (ot_liquidity_net tick))"
      by (simp add: read_u128_def slice_get_def rest u128_of_nat_le)
    moreover have "read_dynamic_ticks (length ticks) ((pre @ 1 # ?net @ rest) @ concat (map render_tick ticks))
        (length (pre @ 1 # ?net @ rest)) = Some (map fst ticks)"
      by (rule Cons.IH) (use Cons.prems in simp)
    moreover have "\<lparr>ot_initialized = True, ot_liquidity_net = ot_liquidity_net tick\<rparr> = tick"
      using True by (cases tick) simp
    ultimately show ?thesis
      using True t net rest
      by (simp add: render_tick_def idx_def slice_get_def add.commute [of "length pre"])
  next
    case False
    have "read_dynamic_ticks (length ticks) ((pre @ [0]) @ concat (map render_tick ticks)) (length (pre @ [0]))
        = Some (map fst ticks)"
      by (rule Cons.IH) (use Cons.prems in simp)
    moreover have "tick = default_tick"
      using Cons.prems t False by (simp add: wf_tick_def default_tick_def)
    ultimately show ?thesis
      using False t by (simp add: render_tick_def idx_def)
  qed
qed simp

lemma length_render_ticks:
  assumes "\<forall>t \<in> set ticks. wf_tick t"
  shows "\<exists>k \<le> length ticks. length (concat (map render_tick ticks)) = length ticks + 96 * k"
  using assms
proof (induction ticks)
  case (Cons t ticks)
  then obtain k where "k \<le> length ticks" "length (concat (map render_tick ticks)) = length ticks + 96 * k"
    by auto
  with Cons.prems show ?case
    by (cases "ot_initialized (fst t)")
      (auto simp: render_tick_def wf_tick_def split: prod.splits intro: exI [of _ k] exI [of _ "Suc k"])
qed simp

text \<open>
  Decoding inverts the layout of a dynamic tick array, initialised ticks taking 97 bytes and
  others one: from the bytes of 88 ticks the decoder returns the start index and the ticks, when the array
  belongs to the whirlpool asked for, and nothing otherwise. The length never equals that of a fixed array.
\<close>

theorem dynamic_array_round_trip:
  assumes "length ticks = 88" and "\<forall>t \<in> set ticks. wf_tick t"
    and "- (2 ^ 31) \<le> start" and "start < 2 ^ 31" and "length discriminator = 8" and "length bitmap = 16"
  shows "decode_tick_array (render_dynamic_array discriminator start whirlpool bitmap ticks) expected =
    (if whirlpool = expected then Some \<lparr>ota_start_tick_index = start, ota_ticks = map fst ticks\<rparr> else None)"
proof -
  let ?head = "discriminator @ u32_to_le (word_of_int start) @ pubkey_to_bytes whirlpool @ bitmap"
  let ?data = "render_dynamic_array discriminator start whirlpool bitmap ticks"
  have data: "?data = ?head @ concat (map render_tick ticks)"
    by (simp add: render_dynamic_array_def)
  have head: "length ?head = 60" using assms(5,6) by simp
  obtain k where k: "k \<le> 88" "length (concat (map render_tick ticks)) = 88 + 96 * k"
    using length_render_ticks [OF assms(2)] assms(1) by auto
  have len: "length ?data = 148 + 96 * k"
    unfolding data using head k(2) by simp
  have "read_i32 ?data 8 = Some start"
    using assms(3-5) len
    by (simp add: data read_i32_def read_u32_def slice_get_def sint_sbintrunc' signed_take_bit_int_eq_self)
  moreover have "read_pubkey ?data 12 = Some whirlpool"
    using assms(5) len by (simp add: data read_pubkey_def slice_get_def)
  moreover have "read_dynamic_ticks 88 ?data 60 = Some (map fst ticks)"
    using read_dynamic_ticks_render [OF assms(2), of ?head] assms(1) head by (simp only: data)
  moreover have "length ?data \<noteq> 9988" "148 \<le> length ?data" "length ?data \<le> 10004"
    using len k(1) by presburger+
  ultimately show ?thesis
    by (auto simp: decode_tick_array_def decode_dynamic_tick_array_def FIXED_TICK_ARRAY_LEN_def
        DYNAMIC_TICK_ARRAY_MIN_LEN_def DYNAMIC_TICK_ARRAY_MAX_LEN_def)
qed

text \<open>An array at -11264 with one initialised tick of net liquidity -77.\<close>

theorem dynamic_array_round_trip_witness:
  "decode_tick_array (render_dynamic_array (replicate 8 3) (- 11264) 42 (replicate 16 0)
      ((\<lparr>ot_initialized = True, ot_liquidity_net = - 77\<rparr>, replicate 80 9) # replicate 87 (default_tick, replicate 80 0))) 42
   = Some \<lparr>ota_start_tick_index = - 11264,
       ota_ticks = \<lparr>ot_initialized = True, ot_liquidity_net = - 77\<rparr> # replicate 87 default_tick\<rparr>"
  using dynamic_array_round_trip [of "(\<lparr>ot_initialized = True, ot_liquidity_net = - 77\<rparr>, replicate 80 9)
      # replicate 87 (default_tick, replicate 80 0)" "- 11264" "replicate 8 3" "replicate 16 0" 42 42]
  by (simp add: wf_tick_def default_tick_def)

end
