(* ===== verification/Saber.thy ===== *)
theory Saber
  imports Amm
begin

text \<open>
  Saber stable-swap pools, \<^verbatim>\<open>market-engine/src/saber.rs\<close>: the decoder, Newton's iterations for the invariant
  \<open>D\<close> and for the output reserve, and the quote. Every checked operation of the source has its fallback value
  written out. The first argument of the loops is what is left of the 32 iterations.
\<close>

section \<open>Decoder\<close>

definition SABER_DEFAULT_FEE_NUMERATOR :: u64 where "SABER_DEFAULT_FEE_NUMERATOR = 4"
definition SABER_DEFAULT_FEE_DENOMINATOR :: u64 where "SABER_DEFAULT_FEE_DENOMINATOR = 10000"

record saber_pool_info =
  sp_token_a :: pubkey
  sp_token_b :: pubkey
  sp_vault_a :: pubkey
  sp_vault_b :: pubkey
  sp_amp_factor :: u64
  sp_fee_numerator :: u64
  sp_fee_denominator :: u64

definition decode_saber_pool :: "bytes \<Rightarrow> saber_pool_info option option" where
  "decode_saber_pool data =
     (if length data < 348 then Some None
      else do {
        initialized \<leftarrow> read_u8 data 1;
        paused \<leftarrow> read_u8 data 2;
        if initialized = 0 \<or> paused \<noteq> 0 then Some None
        else do {
          initial_amp \<leftarrow> read_u64 data 4;
          target_amp \<leftarrow> read_u64 data 12;
          let amp_factor = (if target_amp > 0 then target_amp else initial_amp);
          vault_a \<leftarrow> read_pubkey data 108;
          vault_b \<leftarrow> read_pubkey data 140;
          token_a \<leftarrow> read_pubkey data 204;
          token_b \<leftarrow> read_pubkey data 236;
          fee_numerator \<leftarrow> read_u64 data 332;
          fee_denominator \<leftarrow> read_u64 data 340;
          if token_a = 0 \<or> token_b = 0 \<or> vault_a = 0 \<or> vault_b = 0 then Some None
          else if amp_factor = 0 then Some None
          else Some (Some \<lparr>sp_token_a = token_a, sp_token_b = token_b, sp_vault_a = vault_a, sp_vault_b = vault_b,
            sp_amp_factor = amp_factor,
            sp_fee_numerator = (if fee_denominator > 0 then fee_numerator else SABER_DEFAULT_FEE_NUMERATOR),
            sp_fee_denominator = (if fee_denominator > 0 then fee_denominator else SABER_DEFAULT_FEE_DENOMINATOR)\<rparr>) } })"

section \<open>The invariant\<close>

text \<open>\<open>p * d / (2 * reserve)\<close> with the fallbacks of the source; \<open>u128::MAX\<close> is \<open>- 1\<close>.\<close>

definition scaled :: "u128 \<Rightarrow> u128 \<Rightarrow> u128 \<Rightarrow> u128" where
  "scaled p d reserve =
     unwrap_or (- 1) (checked_div (unwrap_or (- 1) (checked_mul p d)) (unwrap_or 1 (checked_mul reserve 2)))"

definition abs_diff :: "u128 \<Rightarrow> u128 \<Rightarrow> u128" where
  "abs_diff a b = (if a > b then a - b else b - a)"

fun d_loop :: "nat \<Rightarrow> u128 \<Rightarrow> u128 \<Rightarrow> u128 \<Rightarrow> u128 \<Rightarrow> u128 \<Rightarrow> u128" where
  "d_loop 0 reserve_a reserve_b ann sum_ab d = d"
| "d_loop (Suc n) reserve_a reserve_b ann sum_ab d =
     (let d_p = scaled (scaled d d reserve_a) d reserve_b;
          num_part = unwrap_or 0 (checked_add (unwrap_or 0 (checked_mul ann sum_ab)) (unwrap_or 0 (checked_mul d_p 2)));
          numerator = unwrap_or 0 (checked_mul num_part d);
          denom = unwrap_or 0 (checked_add (unwrap_or 0 (checked_mul (sat_sub ann 1) d))
            (unwrap_or 0 (checked_mul d_p 3))) in
      if denom = 0 then 0
      else let d' = numerator div denom in
        if abs_diff d' d \<le> 1 then d' else d_loop n reserve_a reserve_b ann sum_ab d')"

definition compute_d :: "u128 \<Rightarrow> u128 \<Rightarrow> u128 \<Rightarrow> u128" where
  "compute_d reserve_a reserve_b amp =
     (let sum_ab = unwrap_or 0 (checked_add reserve_a reserve_b) in
      if sum_ab = 0 then 0
      else let ann = unwrap_or 0 (checked_mul amp 4) in
        if ann = 0 then 0 else d_loop 32 reserve_a reserve_b ann sum_ab sum_ab)"

fun y_loop :: "nat \<Rightarrow> u128 \<Rightarrow> u128 \<Rightarrow> u128 \<Rightarrow> u128 \<Rightarrow> u128" where
  "y_loop 0 b c d y = y"
| "y_loop (Suc n) b c d y =
     (let y_sq = unwrap_or (- 1) (checked_mul y y);
          numerator = unwrap_or (- 1) (checked_add y_sq c);
          denom = unwrap_or 0 (checked_sub (unwrap_or 0 (checked_add (unwrap_or 0 (checked_mul y 2)) b)) d) in
      if denom = 0 then 0
      else let y' = numerator div denom in
        if abs_diff y' y \<le> 1 then y' else y_loop n b c d y')"

definition compute_y :: "u128 \<Rightarrow> u128 \<Rightarrow> u128 \<Rightarrow> u128" where
  "compute_y new_reserve_in d amp =
     (let ann = unwrap_or 0 (checked_mul amp 4) in
      if ann = 0 \<or> d = 0 then 0
      else let c = scaled (scaled d d new_reserve_in) d ann;
               b = unwrap_or (- 1) (checked_add new_reserve_in (unwrap_or 0 (checked_div d ann))) in
        y_loop 32 b c d d)"

section \<open>The quote\<close>

definition quote_saber_stable :: "u64 \<Rightarrow> u64 \<Rightarrow> u64 \<Rightarrow> u64 \<Rightarrow> u64 \<Rightarrow> u64 \<Rightarrow> bool \<Rightarrow> u64" where
  "quote_saber_stable reserve_a reserve_b amount_in amp fee_numerator fee_denominator a_to_b =
     (if reserve_a = 0 \<or> reserve_b = 0 \<or> amount_in = 0 \<or> amp = 0 then 0
      else if fee_denominator = 0 then 0
      else let ra = widen reserve_a; rb = widen reserve_b; amp128 = widen amp; d = compute_d ra rb amp128 in
        if d = 0 then 0
        else let (reserve_in, reserve_out) = (if a_to_b then (ra, rb) else (rb, ra));
                 new_reserve_in = unwrap_or 0 (checked_add reserve_in (widen amount_in)) in
          if new_reserve_in = 0 then 0
          else let new_reserve_out = compute_y new_reserve_in d amp128;
                   gross_out = sat_sub reserve_out new_reserve_out in
            if gross_out = 0 then 0
            else let fee = unwrap_or 0 (checked_div (unwrap_or 0 (checked_mul gross_out (widen fee_numerator)))
                       (widen fee_denominator));
                     net_out = sat_sub gross_out fee in
              if net_out > widen (- 1) then 0 else narrow net_out)"

end
