(* ===== verification/Saber_Quote.thy ===== *)
theory Saber_Quote
  imports Saber
begin

text \<open>
  What the Saber model promises: no quote exceeds the output reserve; the reserve a quote leaves lies at most
  one unit below the curve of the invariant, however many iterations Newton's method was given; a balanced
  pool has the invariant \<open>2 x\<close>; and the decoders of the constant-product and stable pools never panic.
\<close>

section \<open>Newton's method on natural numbers\<close>

text \<open>The curve of the output reserve: \<open>y\<close> is strictly above it when \<open>y\<^sup>2 + b y > d y + c\<close>.\<close>

definition above :: "nat \<Rightarrow> nat \<Rightarrow> nat \<Rightarrow> nat \<Rightarrow> bool" where
  "above d b c y \<longleftrightarrow> d * y + c < y * y + b * y"

lemma above_mono:
  assumes "above d b c y" and "y \<le> z"
  shows "above d b c z"
proof -
  have "int y * (int d - int b) + int c < int y * int y"
    using assms(1) unfolding above_def by (simp add: algebra_simps flip: of_nat_mult of_nat_add)
  then have "int c < int y * (int y - (int d - int b))"
    by (simp add: algebra_simps)
  moreover from this have "0 < int y - (int d - int b)"
    using mult_nonneg_nonpos [of "int y" "int y - (int d - int b)"] by linarith
  moreover from this have "int y * (int y - (int d - int b)) \<le> int z * (int z - (int d - int b))"
    using assms(2) by (intro mult_mono) auto
  ultimately have "int (d * z + c) < int (z * z + b * z)"
    by (simp add: algebra_simps)
  then show ?thesis unfolding above_def by (simp only: of_nat_less_iff)
qed

text \<open>One step \<open>q\<close> from \<open>y\<close>: whatever \<open>y\<close> is, \<open>q + 1\<close> is above the curve, and \<open>q\<close> again divides a positive number.\<close>

definition newton_step :: "nat \<Rightarrow> nat \<Rightarrow> nat \<Rightarrow> nat \<Rightarrow> nat" where
  "newton_step d b c y = (y * y + c) div (2 * y + b - d)"

lemma newton_above:
  assumes "d \<le> y + b" and "0 < 2 * y + b - d"
  shows "above d b c (newton_step d b c y + 1)"
proof -
  define q den where "q = newton_step d b c y" and "den = 2 * y + b - d"
  have den: "int den = 2 * int y - (int d - int b)"
    using assms(1) by (simp add: den_def of_nat_diff)
  have "0 < den" and "q = (y * y + c) div den"
    using assms(2) by (simp_all add: den_def q_def newton_step_def)
  then have "y * y + c < (q + 1) * den"
    using dividend_less_div_times [of den "y * y + c"] by (simp add: algebra_simps)
  then have "int (y * y + c) < int ((q + 1) * den)" by (simp only: of_nat_less_iff)
  then have less: "int y * int y + int c < (int q + 1) * (2 * int y - (int d - int b))"
    by (simp add: den distrib_right)
  have "0 \<le> (int q + 1 - int y) * (int q + 1 - int y)" by simp
  with less have "(int d - int b) * (int q + 1) + int c < (int q + 1) * (int q + 1)"
    by (simp add: algebra_simps)
  then have "int (d * (q + 1) + c) < int ((q + 1) * (q + 1) + b * (q + 1))"
    by (simp add: algebra_simps)
  then show ?thesis unfolding above_def q_def by (simp only: of_nat_less_iff)
qed

lemma newton_keeps:
  assumes "d \<le> y + b" and "0 < 2 * y + b - d"
  shows "d \<le> newton_step d b c y + b"
proof (cases "d \<le> b")
  case False
  define den where "den = 2 * y + b - d"
  have "0 \<le> (int y - (int d - int b)) * (int y - (int d - int b))" by simp
  then have "(int d - int b) * (2 * int y - (int d - int b)) \<le> int y * int y + int c"
    by (simp add: algebra_simps)
  moreover have den: "int den = 2 * int y - (int d - int b)"
    using assms(1) by (simp add: den_def of_nat_diff)
  ultimately have "(int d - int b) * int den \<le> int y * int y + int c"
    by (simp only: den)
  then have "int ((d - b) * den) \<le> int (y * y + c)"
    using False by (simp add: of_nat_diff)
  then have "(d - b) * den \<le> y * y + c" by (simp only: of_nat_le_iff)
  then have "d - b \<le> newton_step d b c y"
    using assms(2) by (simp add: newton_step_def less_eq_div_iff_mult_less_eq flip: den_def)
  then show ?thesis by simp
qed simp

lemma newton_grows:
  assumes "d \<le> y + b" and "0 < 2 * y + b - d" and "above d b c (y + 1)"
  shows "newton_step d b c y \<le> y + 1"
proof -
  define den where "den = 2 * y + b - d"
  have den: "int den = 2 * int y - (int d - int b)"
    using assms(1) by (simp add: den_def of_nat_diff)
  have "int (d * (y + 1) + c) < int ((y + 1) * (y + 1) + b * (y + 1))"
    using assms(3) unfolding above_def by (simp only: of_nat_less_iff)
  then have "int y * int y + int c \<le> (int y + 1) * (2 * int y - (int d - int b))"
    by (simp add: algebra_simps)
  then have "int (y * y + c) \<le> int ((y + 1) * den)" by (simp add: den distrib_right)
  then have "y * y + c \<le> (y + 1) * den" by (simp only: of_nat_le_iff)
  then have "(y * y + c) div den \<le> (y + 1) * den div den" by (rule div_le_mono)
  with assms(2) show ?thesis by (simp add: newton_step_def flip: den_def)
qed

section \<open>The loop on words\<close>

text \<open>No intermediate value of a step leaves 128 bits.\<close>

definition step_fits :: "nat \<Rightarrow> nat \<Rightarrow> nat \<Rightarrow> bool" where
  "step_fits b c y \<longleftrightarrow> y * y + c < 2 ^ 128 \<and> 2 * y + b < 2 ^ 128"

lemma step_fits_mono: "step_fits b c y \<Longrightarrow> z \<le> y \<Longrightarrow> step_fits b c z"
  unfolding step_fits_def using mult_le_mono [of z y z y] by linarith

lemma unwrap_checked:
  "unat a + unat b < 2 ^ 128 \<Longrightarrow> unat (unwrap_or w (checked_add a b)) = unat a + unat (b :: u128)"
  "unat a * unat b < 2 ^ 128 \<Longrightarrow> unat (unwrap_or w (checked_mul a b)) = unat a * unat (b :: u128)"
  by (simp_all add: checked_add_def checked_mul_def unat_add_u128 unat_mult_u128)

lemma y_step_words:
  fixes b c d y :: u128
  assumes "step_fits (unat b) (unat c) (unat y)" and "unat d \<le> unat y + unat b"
  shows "unat (unwrap_or (- 1) (checked_add (unwrap_or (- 1) (checked_mul y y)) c)) = unat y * unat y + unat c"
    and "unat (unwrap_or 0 (checked_sub (unwrap_or 0 (checked_add (unwrap_or 0 (checked_mul y 2)) b)) d))
      = 2 * unat y + unat b - unat d"
proof -
  have sizes: "unat y * unat y + unat c < 2 ^ 128" "2 * unat y + unat b < 2 ^ 128"
    using assms(1) by (simp_all add: step_fits_def)
  have y2: "unat (unwrap_or (- 1) (checked_mul y y)) = unat y * unat y"
    by (rule unwrap_checked(2)) (use sizes in linarith)
  have two: "unat (unwrap_or 0 (checked_mul y 2)) = 2 * unat y"
    using unwrap_checked(2) [of y 2 0] sizes(2) by (simp add: mult.commute)
  show "unat (unwrap_or (- 1) (checked_add (unwrap_or (- 1) (checked_mul y y)) c)) = unat y * unat y + unat c"
    using unwrap_checked(1) [of "unwrap_or (- 1) (checked_mul y y)" c] sizes(1) by (simp only: y2)
  have "unat (unwrap_or 0 (checked_add (unwrap_or 0 (checked_mul y 2)) b)) = 2 * unat y + unat b"
    using unwrap_checked(1) [of "unwrap_or 0 (checked_mul y 2)" b] sizes(2) by (simp only: two)
  with assms(2) show "unat (unwrap_or 0 (checked_sub (unwrap_or 0 (checked_add (unwrap_or 0 (checked_mul y 2)) b)) d))
      = 2 * unat y + unat b - unat d"
    by (simp add: checked_sub_def word_le_nat_alt unat_sub)
qed

lemma y_loop_above:
  assumes "step_fits (unat b) (unat c) (unat y + n)" and "unat d \<le> unat y + unat b"
    and "above (unat d) (unat b) (unat c) (unat y + 1)"
  shows "above (unat d) (unat b) (unat c) (unat (y_loop n b c d y) + 1)"
  using assms
proof (induction n arbitrary: y)
  case (Suc n)
  have fits: "step_fits (unat b) (unat c) (unat y)"
    using Suc.prems(1) by (rule step_fits_mono) simp
  define num den where "num = unwrap_or (- 1) (checked_add (unwrap_or (- 1) (checked_mul y y)) c)"
    and "den = unwrap_or 0 (checked_sub (unwrap_or 0 (checked_add (unwrap_or 0 (checked_mul y 2)) b)) d)"
  note words = y_step_words [OF fits Suc.prems(2), folded num_def den_def]
  show ?case
  proof (cases "den = 0")
    case True
    then have "unat y = 0" using words(2) Suc.prems(2) by simp
    with Suc.prems(3) True show ?thesis by (simp add: den_def)
  next
    case False
    then have pos: "0 < 2 * unat y + unat b - unat d"
      using words(2) by (metis unat_eq_zero neq0_conv)
    have q: "unat (num div den) = newton_step (unat d) (unat b) (unat c) (unat y)"
      by (simp add: unat_div words newton_step_def)
    note new = newton_above [OF Suc.prems(2) pos, of "unat c"] newton_keeps [OF Suc.prems(2) pos, of "unat c"]
      newton_grows [OF Suc.prems(2) pos Suc.prems(3)]
    have "step_fits (unat b) (unat c) (unat (num div den) + n)"
      using Suc.prems(1) by (rule step_fits_mono) (use new(3) in \<open>simp add: q\<close>)
    from Suc.IH [OF this] new False show ?thesis
      by (simp add: q Let_def flip: num_def den_def)
  qed
qed simp

section \<open>The output reserve\<close>

text \<open>
  The quantities of \<open>compute_y\<close> as the source means them, and a pool on which none of its operations
  overflows: the invariant is below \<open>2\<^sup>60\<close> and the pool is not out of all proportion.
\<close>

definition curve_c :: "nat \<Rightarrow> nat \<Rightarrow> nat \<Rightarrow> nat" where
  "curve_c d x ann = d * d div (2 * x) * d div (2 * ann)"

definition curve_b :: "nat \<Rightarrow> nat \<Rightarrow> nat \<Rightarrow> nat" where
  "curve_b d x ann = x + d div ann"

definition moderate :: "nat \<Rightarrow> nat \<Rightarrow> nat \<Rightarrow> bool" where
  "moderate d x ann \<longleftrightarrow> 0 < d \<and> d < 2 ^ 60 \<and> 0 < x \<and> x < 2 ^ 65 \<and> 0 < ann \<and> ann < 2 ^ 66
     \<and> d * d div (2 * x) * d < 2 ^ 128 \<and> curve_c d x ann div d < 2 ^ 62"

lemma moderate_b:
  assumes "moderate d x ann"
  shows "curve_b d x ann < 2 ^ 66"
proof -
  have "d < 1152921504606846976" "x < 36893488147419103232"
    using assms by (simp_all add: moderate_def)
  with div_le_dividend [of d ann] have "x + d div ann < 73786976294838206464" by linarith
  then show ?thesis by (simp add: curve_b_def)
qed

lemma moderate_c: "moderate d x ann \<Longrightarrow> curve_c d x ann < 2 ^ 122"
proof -
  assume m: "moderate d x ann"
  have "0 < d" "curve_c d x ann div d < 2 ^ 62"
    using m by (simp_all add: moderate_def)
  then have "curve_c d x ann < d * 2 ^ 62"
    by (simp add: div_less_iff_less_mult mult.commute)
  also have "\<dots> \<le> 2 ^ 60 * 2 ^ 62"
    using m by (intro mult_le_mono1) (simp add: moderate_def)
  finally show ?thesis by simp
qed

text \<open>The first step may go up, but not out of the word.\<close>

lemma moderate_first:
  assumes "moderate d x ann"
  shows "newton_step d (curve_b d x ann) (curve_c d x ann) d \<le> 2 ^ 60 + 2 ^ 62"
proof -
  have d: "0 < d" "d < 2 ^ 60" and c: "curve_c d x ann div d < 2 ^ 62"
    using assms by (simp_all add: moderate_def)
  have "newton_step d (curve_b d x ann) (curve_c d x ann) d \<le> (d * d + curve_c d x ann) div d"
    unfolding newton_step_def using d by (intro div_le_mono2) simp_all
  also have "\<dots> = d + curve_c d x ann div d"
    using d by (simp add: div_mult_self3)
  finally show ?thesis using d c by linarith
qed

lemma unat_scaled:
  assumes "unat p * unat d < 2 ^ 128" and "unat r \<noteq> 0" and "unat r < 2 ^ 127"
  shows "unat (scaled p d r) = unat p * unat d div (2 * unat r)"
proof -
  have two: "unat (unwrap_or 1 (checked_mul r 2)) = 2 * unat r"
    using unwrap_checked(2) [of r 2 1] assms(3) by (simp add: mult.commute)
  with assms(2) have "unwrap_or 1 (checked_mul r 2) \<noteq> 0" by (auto simp: unat_eq_zero)
  with two show ?thesis
    using unwrap_checked(2) [OF assms(1), of "- 1"] by (simp add: scaled_def checked_div_def unat_div)
qed

lemma compute_y_words:
  assumes m: "moderate (unat d) (unat x) (4 * unat amp)"
  defines "c \<equiv> curve_c (unat d) (unat x) (4 * unat amp)" and "b \<equiv> curve_b (unat d) (unat x) (4 * unat amp)"
  shows "\<exists>bw cw. compute_y x d amp = y_loop 32 bw cw d d \<and> unat bw = b \<and> unat cw = c"
proof -
  define ann where "ann = unwrap_or 0 (checked_mul amp 4)"
  have ann: "unat ann = 4 * unat amp"
    unfolding ann_def using unwrap_checked(2) [of amp 4 0] m by (simp add: moderate_def mult.commute)
  have dd: "unat d * unat d < 2 ^ 128"
    using m mult_strict_mono [of "unat d" "2 ^ 60" "unat d" "2 ^ 60"] by (simp add: moderate_def)
  have s1: "unat (scaled d d x) = unat d * unat d div (2 * unat x)"
    using m dd by (intro unat_scaled) (auto simp: moderate_def)
  have s2: "unat (scaled (scaled d d x) d ann) = c"
    unfolding c_def curve_c_def ann [symmetric] s1 [symmetric]
    using m by (intro unat_scaled) (auto simp: moderate_def ann s1)
  have ann0: "ann \<noteq> 0" "d \<noteq> 0"
    using m ann by (auto simp: moderate_def unat_eq_zero)
  then have "unat (unwrap_or 0 (checked_div d ann)) = unat d div (4 * unat amp)"
    by (simp add: checked_div_def unat_div ann)
  moreover have "unat x + unat d div (4 * unat amp) < 2 ^ 128"
    using moderate_b [OF m] by (simp add: curve_b_def)
  ultimately have "unat (unwrap_or (- 1) (checked_add x (unwrap_or 0 (checked_div d ann)))) = b"
    using unwrap_checked(1) [of x "unwrap_or 0 (checked_div d ann)" "- 1"]
    by (simp add: b_def curve_b_def)
  with s2 ann0 show ?thesis
    by (auto simp: compute_y_def Let_def simp flip: ann_def)
qed

lemma compute_y_above:
  assumes m: "moderate (unat d) (unat x) (4 * unat amp)"
  shows "above (unat d) (curve_b (unat d) (unat x) (4 * unat amp)) (curve_c (unat d) (unat x) (4 * unat amp))
    (unat (compute_y x d amp) + 1)"
proof -
  obtain b c where y: "compute_y x d amp = y_loop 32 b c d d"
    and b: "unat b = curve_b (unat d) (unat x) (4 * unat amp)" and c: "unat c = curve_c (unat d) (unat x) (4 * unat amp)"
    using compute_y_words [OF m] by blast
  let ?q = "newton_step (unat d) (unat b) (unat c) (unat d)"
  have d: "0 < unat d" "unat d < 2 ^ 60" using m by (simp_all add: moderate_def)
  have q: "?q \<le> 2 ^ 60 + 2 ^ 62" using moderate_first [OF m] by (simp add: b c)
  have B: "unat b < 2 ^ 66" and C: "unat c < 2 ^ 122"
    using moderate_b [OF m] moderate_c [OF m] by (simp_all add: b c)
  have fits: "step_fits (unat b) (unat c) z" if "z \<le> 2 ^ 63" for z
    using that B C mult_le_mono [OF that that] by (simp add: step_fits_def)
  have fd: "step_fits (unat b) (unat c) (unat d)" using d by (intro fits) simp
  have "0 < 2 * unat d + unat b - unat d" "unat d \<le> unat d + unat b" using d by simp_all
  note new = newton_above [OF this(2,1), of "unat c"] newton_keeps [OF this(2,1), of "unat c"]
  define num den where "num = unwrap_or (- 1) (checked_add (unwrap_or (- 1) (checked_mul d d)) c)"
    and "den = unwrap_or 0 (checked_sub (unwrap_or 0 (checked_add (unwrap_or 0 (checked_mul d 2)) b)) d)"
  note words = y_step_words [OF fd, of d, folded num_def den_def]
  have unat_q: "unat (num div den) = ?q" by (simp add: unat_div words newton_step_def)
  have "unat den \<noteq> 0" using words(2) d by simp
  then have "den \<noteq> 0" by auto
  then have y': "compute_y x d amp =
      (if abs_diff (num div den) d \<le> 1 then num div den else y_loop 31 b c d (num div den))"
    unfolding y using y_loop.simps(2) [of 31 b c d d] by (simp add: Let_def num_def [symmetric] den_def [symmetric])
  have "step_fits (unat b) (unat c) (unat (num div den) + 31)"
    using q by (intro fits) (simp add: unat_q)
  from y_loop_above [OF this] new have "above (unat d) (unat b) (unat c) (unat (y_loop 31 b c d (num div den)) + 1)"
    by (simp add: unat_q)
  with new show ?thesis by (simp add: y' unat_q flip: b c)
qed

section \<open>The quote\<close>

lemma quote_saber_nonzero:
  assumes "quote_saber_stable ra rb a amp fee_num fee_den a_to_b \<noteq> 0"
  defines "d \<equiv> compute_d (widen ra) (widen rb) (widen amp)"
    and "x \<equiv> widen (if a_to_b then ra else rb) + widen a" and "out \<equiv> widen (if a_to_b then rb else ra)"
  shows "unat (quote_saber_stable ra rb a amp fee_num fee_den a_to_b) \<le> unat out - unat (compute_y x d (widen amp))"
proof -
  have "unat (widen (if a_to_b then ra else rb)) + unat (widen a) < 2 ^ 128"
    using unat_lt2p [of ra] unat_lt2p [of rb] unat_lt2p [of a] by (simp del: unat_u64_bound)
  then have x: "checked_add (widen (if a_to_b then ra else rb)) (widen a) = Some x"
    unfolding x_def by (simp add: checked_add_def)
  define gross where "gross = sat_sub out (compute_y x d (widen amp))"
  define fee where "fee = unwrap_or 0 (checked_div (unwrap_or 0 (checked_mul gross (widen fee_num))) (widen fee_den))"
  have le: "unat (sat_sub gross fee) \<le> unat out - unat (compute_y x d (widen amp))"
    by (simp add: unat_sat_sub gross_def)
  also have "\<dots> \<le> unat (if a_to_b then rb else ra)"
    unfolding out_def by simp
  finally have "unat (sat_sub gross fee) < 18446744073709551616"
    by (rule le_less_trans) (rule unat_u64_bound)
  then have "unat (narrow (sat_sub gross fee)) = unat (sat_sub gross fee)"
    by (simp add: unat_narrow_small)
  moreover have "quote_saber_stable ra rb a amp fee_num fee_den a_to_b \<in> {0, narrow (sat_sub gross fee)}"
    using x unfolding quote_saber_stable_def Let_def gross_def fee_def d_def out_def
    by (cases a_to_b) (simp_all split del: if_split, auto split: if_splits)
  ultimately show ?thesis using assms(1) le by auto
qed

text \<open>Two equal reserves: the first iteration already returns the sum.\<close>

lemma compute_d_balanced:
  assumes x: "0 < unat x" and amp: "0 < unat amp"
    and fits: "(8 * unat amp * unat x + 4 * unat x) * (2 * unat x) < 2 ^ 128"
  shows "unat (compute_d x x amp) = 2 * unat x"
proof -
  define X A where "X = unat x" and "A = unat amp"
  have X: "0 < X" and A: "0 < A" using x amp by (simp_all add: X_def A_def)
  have big: "(8 * A * X + 4 * X) * (2 * X) < 2 ^ 128" using fits by (simp only: X_def A_def)
  have expand: "(8 * A * X + 4 * X) * (2 * X) = 16 * (A * (X * X)) + 8 * (X * X)"
    by (simp add: algebra_simps)
  have "X \<le> X * X" "A \<le> A * (X * X)" "A * X \<le> A * (X * X)"
    using X by simp_all
  with big have sizes: "4 * A < 2 ^ 128" "4 * (X * X) < 2 ^ 128" "8 * X < 2 ^ 128" "8 * (A * X) + 4 * X < 2 ^ 128"
    unfolding expand by linarith+
  define ann where "ann = unwrap_or 0 (checked_mul amp 4)"
  define d where "d = unwrap_or 0 (checked_add x x)"
  have ann: "unat ann = 4 * A"
    unfolding ann_def using unwrap_checked(2) [of amp 4 0] sizes(1) by (simp add: A_def mult.commute)
  have d: "unat d = 2 * X"
    unfolding d_def using unwrap_checked(1) [of x x 0] sizes(3) by (simp add: X_def)
  have sc: "unat (scaled d d x) = 2 * X"
    using unat_scaled [of d d x] sizes X by (simp add: d mult.assoc flip: X_def)
  then have "scaled d d x = d" by (simp add: word_unat_eq_iff d)
  then have dp: "scaled (scaled d d x) d x = d" by simp
  have "unat (unwrap_or 0 (checked_mul ann d)) = 8 * (A * X)"
    using unwrap_checked(2) [of ann d 0] sizes by (simp add: ann d)
  moreover have "unat (unwrap_or 0 (checked_mul d 2)) = 4 * X"
    using unwrap_checked(2) [of d 2 0] sizes by (simp add: d)
  ultimately have num_part: "unat (unwrap_or 0 (checked_add (unwrap_or 0 (checked_mul ann d)) (unwrap_or 0 (checked_mul d 2))))
      = 8 * (A * X) + 4 * X"
    using unwrap_checked(1) [of "unwrap_or 0 (checked_mul ann d)" "unwrap_or 0 (checked_mul d 2)" 0] sizes by simp
  define num where "num = unwrap_or 0 (checked_mul
    (unwrap_or 0 (checked_add (unwrap_or 0 (checked_mul ann d)) (unwrap_or 0 (checked_mul d 2)))) d)"
  have num: "unat num = (8 * (A * X) + 4 * X) * (2 * X)"
    unfolding num_def using unwrap_checked(2) [of _ d 0] big by (simp add: num_part d mult.assoc)
  define den where "den = unwrap_or 0 (checked_add (unwrap_or 0 (checked_mul (sat_sub ann 1) d)) (unwrap_or 0 (checked_mul d 3)))"
  have "unat (unwrap_or 0 (checked_mul (sat_sub ann 1) d)) = (4 * A - 1) * (2 * X)"
    using unwrap_checked(2) [of "sat_sub ann 1" d 0] sizes by (simp add: unat_sat_sub ann d diff_mult_distrib mult.assoc)
  moreover have "unat (unwrap_or 0 (checked_mul d 3)) = 6 * X"
    using unwrap_checked(2) [of d 3 0] sizes X by (simp add: d)
  ultimately have den: "unat den = 8 * (A * X) + 4 * X"
    unfolding den_def
    using unwrap_checked(1) [of "unwrap_or 0 (checked_mul (sat_sub ann 1) d)" "unwrap_or 0 (checked_mul d 3)" 0] sizes A
    by (simp add: diff_mult_distrib mult.assoc)
  have "unat (num div den) = unat d"
    using X by (simp add: unat_div num den d)
  then have q: "num div den = d" by (simp add: word_unat_eq_iff)
  have "unat den \<noteq> 0" "unat d \<noteq> 0" "unat ann \<noteq> 0" using X A by (simp_all add: den d ann)
  then have nz: "den \<noteq> 0" "d \<noteq> 0" "ann \<noteq> 0" by auto
  have "d_loop (Suc 31) x x ann d d = d"
    using nz by (subst d_loop.simps(2)) (simp only: Let_def dp num_def [symmetric] den_def [symmetric] q abs_diff_def, simp)
  then show ?thesis
    using nz by (simp add: compute_d_def Let_def d flip: ann_def d_def X_def)
qed

text \<open>
  Property C18. The Saber quote is sound: it never exceeds the output reserve, and on a pool that is not out of
  all proportion what it leaves in the reserve is at most one unit below the curve of the invariant
  \<open>D\<close> that \<open>compute_d\<close> returned, \<open>y\<^sup>2 + (x + D / A n\<^sup>n) y = D y + D\<^sup>3 / (4 x A n\<^sup>n)\<close>, whether or not Newton's
  method converged in its 32 iterations.
\<close>

theorem stable_quote_sound:
  assumes "quote_saber_stable ra rb a amp fee_num fee_den a_to_b \<noteq> 0"
  defines "d \<equiv> unat (compute_d (widen ra) (widen rb) (widen amp))"
    and "x \<equiv> unat (if a_to_b then ra else rb) + unat a"
    and "rest \<equiv> unat (if a_to_b then rb else ra) - unat (quote_saber_stable ra rb a amp fee_num fee_den a_to_b)"
  assumes "moderate d x (4 * unat amp)"
  shows "quote_saber_stable ra rb a amp fee_num fee_den a_to_b \<le> (if a_to_b then rb else ra)
    \<and> above d (curve_b d x (4 * unat amp)) (curve_c d x (4 * unat amp)) (rest + 1)"
proof -
  let ?q = "quote_saber_stable ra rb a amp fee_num fee_den a_to_b" and ?out = "if a_to_b then rb else ra"
  let ?D = "compute_d (widen ra) (widen rb) (widen amp)" and ?X = "widen (if a_to_b then ra else rb) + widen a"
  note le = quote_saber_nonzero [OF assms(1)]
  have X: "unat ?X = x"
    using unat_lt2p [of "if a_to_b then ra else rb"] unat_lt2p [of a]
    by (subst unat_add_u128) (simp_all add: x_def del: unat_u64_bound)
  have m: "moderate (unat ?D) (unat ?X) (4 * unat (widen amp))"
    using assms(5) by (simp only: X d_def unat_widen)
  have "0 < unat ?q" using assms(1) by (simp add: unat_gt_0)
  with le have "unat (compute_y ?X ?D (widen amp)) \<le> rest"
    unfolding rest_def unat_widen by linarith
  moreover have "?q \<le> ?out" using le by (simp add: word_le_nat_alt)
  ultimately show ?thesis
    using above_mono [OF compute_y_above [OF m]] by (simp only: X unat_widen d_def [symmetric])
qed

lemma y_loop_numeral:
  "y_loop (numeral k) b c d y =
     (let num = unwrap_or (- 1) (checked_add (unwrap_or (- 1) (checked_mul y y)) c);
          den = unwrap_or 0 (checked_sub (unwrap_or 0 (checked_add (unwrap_or 0 (checked_mul y 2)) b)) d) in
      if den = 0 then 0
      else if abs_diff (num div den) y \<le> 1 then num div den else y_loop (pred_numeral k) b c d (num div den))"
  by (simp only: numeral_eq_Suc y_loop.simps(2) Let_def)

lemmas checked_eval = checked_add_def checked_sub_def checked_mul_def checked_div_def abs_diff_def

lemma y_example: "compute_y 1001000 2000000 100 = 999000"
proof -
  have "scaled (scaled 2000000 2000000 1001000) 2000000 400 = (4995002500 :: u128)"
    by (simp add: scaled_def checked_eval)
  then show ?thesis
    by (simp add: compute_y_def Let_def checked_eval y_loop_numeral) (simp add: word_le_nat_alt)
qed

lemma d_example: "compute_d 1000000 1000000 100 = 2000000"
proof -
  have "unat (compute_d 1000000 1000000 100) = 2 * unat (1000000 :: u128)"
    by (rule compute_d_balanced) simp_all
  then show ?thesis by (simp add: word_unat_eq_iff)
qed

text \<open>A balanced pool of a million units on each side: a thousand in, a thousand out.\<close>

theorem stable_quote_sound_witness:
  "quote_saber_stable 1000000 1000000 1000 100 4 10000 True = 1000
   \<and> quote_saber_stable 1000000 1000000 1000 100 4 10000 True \<le> (1000000 :: u64)
   \<and> above 2000000 (curve_b 2000000 1001000 400) (curve_c 2000000 1001000 400) (1000000 - 1000 + 1)"
proof -
  have quote: "quote_saber_stable 1000000 1000000 1000 100 4 10000 True = 1000"
    by (simp add: quote_saber_stable_def Let_def d_example y_example checked_eval sat_sub_def)
      (simp add: word_less_nat_alt unat_max_word)
  have "moderate 2000000 1001000 400"
    by (simp add: moderate_def curve_c_def)
  then show ?thesis
    using stable_quote_sound [of 1000000 1000000 1000 100 4 10000 True] quote by (simp add: d_example)
qed

section \<open>The decoders of the two-vault pools\<close>

definition no_default_key :: "bytes \<Rightarrow> nat list \<Rightarrow> bool" where
  "no_default_key data offsets = list_all (\<lambda>off. key_at data off \<noteq> 0) offsets"

text \<open>
  The decoders of CPMM, FluxBeam and Saber pools never panic, whatever the bytes: they accept
  exactly the accounts that are long enough, active and without a default key in a critical field, and read
  the mints and vaults from their offsets. An accepted Saber pool has a positive amplification and fee denominator,
  so its quote never refuses for them.
\<close>

theorem pool_decoders_total:
  "(case decode_cpmm_pool data of
      None \<Rightarrow> False
    | Some None \<Rightarrow> \<not> (381 \<le> length data \<and> data ! 329 = 1 \<and> no_default_key data [72, 104, 168, 200])
    | Some (Some info) \<Rightarrow> 381 \<le> length data \<and> data ! 329 = 1 \<and> no_default_key data [72, 104, 168, 200]
        \<and> info = \<lparr>cp_token_0 = key_at data 168, cp_token_1 = key_at data 200, cp_vault_0 = key_at data 72,
          cp_vault_1 = key_at data 104, cp_token_0_program = key_at data 232,
          cp_token_1_program = key_at data 264, cp_fee_bps = 25\<rparr>)
   \<and> (case decode_fluxbeam_pool data of
      None \<Rightarrow> False
    | Some None \<Rightarrow> \<not> (389 \<le> length data \<and> word_at data 8 \<noteq> 0 \<and> no_default_key data [261, 293, 325, 357])
    | Some (Some info) \<Rightarrow> 389 \<le> length data \<and> word_at data 8 \<noteq> 0 \<and> no_default_key data [261, 293, 325, 357]
        \<and> info = \<lparr>fb_token_a = key_at data 261, fb_token_b = key_at data 293, fb_vault_a = key_at data 325,
          fb_vault_b = key_at data 357, fb_fee_bps = 30\<rparr>)
   \<and> (case decode_saber_pool data of
      None \<Rightarrow> False
    | Some None \<Rightarrow> \<not> (348 \<le> length data \<and> data ! 1 \<noteq> 0 \<and> data ! 2 = 0
        \<and> no_default_key data [108, 140, 204, 236] \<and> \<not> (word_at data 4 = 0 \<and> word_at data 12 = 0))
    | Some (Some info) \<Rightarrow> 348 \<le> length data \<and> data ! 1 \<noteq> 0 \<and> data ! 2 = 0
        \<and> no_default_key data [108, 140, 204, 236] \<and> sp_amp_factor info \<noteq> 0 \<and> sp_fee_denominator info \<noteq> 0
        \<and> sp_amp_factor info = (if word_at data 12 = 0 then word_at data 4 else word_at data 12)
        \<and> [sp_vault_a info, sp_vault_b info, sp_token_a info, sp_token_b info]
          = map (key_at data) [108, 140, 204, 236])"
proof (intro conjI, goal_cases)
  case 1
  show ?case
    by (cases "381 \<le> length data") (auto simp: decode_cpmm_pool_def no_default_key_def key_at_def buf_simps
        RAYDIUM_CPMM_DEFAULT_FEE_BPS_def split: if_splits)
next
  case 2
  show ?case
    by (cases "389 \<le> length data") (auto simp: decode_fluxbeam_pool_def no_default_key_def key_at_def word_at_def
        buf_simps FLUXBEAM_DEFAULT_FEE_BPS_def split: if_splits)
next
  case 3
  show ?case
    by (cases "348 \<le> length data") (auto simp: decode_saber_pool_def no_default_key_def key_at_def word_at_def
        buf_simps word_gt_0 SABER_DEFAULT_FEE_DENOMINATOR_def Let_def split: if_splits)
qed

end
