(* ===== verification/Pool_State.thy ===== *)
theory Pool_State
  imports Amm Meteora Orca Onchain Machine
begin

text \<open>
  The cached pools: \<^verbatim>\<open>market-engine/src/pool_state.rs\<close>, the DEX types of \<^verbatim>\<open>types.rs\<close> and the fees of
  \<^verbatim>\<open>fee_tiers.rs\<close>. A \<^verbatim>\<open>DashMap\<close> is an association list with distinct keys, whose order is that of its
  iteration; every call of the cache is one step, and its time of day is an argument, in nanoseconds.
\<close>

section \<open>DEX types\<close>

datatype dex_type = RaydiumAmmV4 | RaydiumClmm | OrcaWhirlpool | MeteoraDlmm | PumpSwap | Fluxbeam | Saber | RaydiumCpmm | Unknown

text \<open>Equality of the base-58 texts is equality of the keys.\<close>

definition from_program_id :: "pubkey \<Rightarrow> dex_type" where
  "from_program_id pk =
     (if pk = RAYDIUM_AMM_V4 then RaydiumAmmV4
      else if pk = RAYDIUM_CLMM then RaydiumClmm
      else if pk = ORCA_WHIRLPOOL then OrcaWhirlpool
      else if pk = METEORA_DLMM then MeteoraDlmm
      else if pk = PUMPSWAP then PumpSwap
      else if pk = FLUXBEAM then Fluxbeam
      else if pk = SABER then Saber
      else if pk = RAYDIUM_CPMM then RaydiumCpmm
      else Unknown)"

section \<open>Pools\<close>

record raydium_metadata =
  rm_authority :: pubkey
  rm_nonce :: u8
  rm_open_orders :: pubkey
  rm_target_orders :: pubkey
  rm_vault_a :: pubkey
  rm_vault_b :: pubkey
  rm_market_id :: pubkey
  rm_market_program :: pubkey
  rm_market_event_queue :: pubkey
  rm_market_bids :: pubkey
  rm_market_asks :: pubkey
  rm_market_base_vault :: pubkey
  rm_market_quote_vault :: pubkey
  rm_market_vault_signer :: pubkey

record orca_metadata =
  om_token_vault_a :: pubkey
  om_token_vault_b :: pubkey
  om_liquidity :: u128
  om_sqrt_price :: u128
  om_tick_spacing :: u16
  om_tick_current_index :: int
  om_tick_arrays :: tick_arrays

record meteora_metadata =
  mm_active_id :: int
  mm_bin_step :: u16
  mm_token_vault_a :: pubkey
  mm_token_vault_b :: pubkey
  mm_parameters :: meteora_static_parameters
  mm_v_parameters :: meteora_variable_parameters
  mm_bin_array_bitmap :: "u64 list"
  mm_bin_arrays :: bin_arrays

record dex_pool =
  dp_pool_address :: pubkey
  dp_dex_type :: dex_type
  dp_token_a :: pubkey
  dp_token_b :: pubkey
  dp_decimals_a :: u8
  dp_decimals_b :: u8
  dp_reserve_a :: u64
  dp_reserve_b :: u64
  dp_reserve_a_optimistic :: u64
  dp_reserve_b_optimistic :: u64
  dp_last_shred_update :: nat
  dp_pool_vault_a_balance :: u64
  dp_pool_vault_b_balance :: u64
  dp_market_vault_a_balance :: u64
  dp_market_vault_b_balance :: u64
  dp_last_updated :: nat
  dp_fee_bps :: u64
  dp_raydium_meta :: "raydium_metadata option"
  dp_orca_meta :: "orca_metadata option"
  dp_meteora_meta :: "meteora_metadata option"

definition reserve_a_ui :: "'f f64_ops \<Rightarrow> dex_pool \<Rightarrow> 'f" where
  "reserve_a_ui fl pool =
     fl_div fl (fl_of_int fl (uint (dp_reserve_a pool))) (fl_powi fl (fl_lit fl ''10'') (uint (dp_decimals_a pool)))"

definition reserve_b_ui :: "'f f64_ops \<Rightarrow> dex_pool \<Rightarrow> 'f" where
  "reserve_b_ui fl pool =
     fl_div fl (fl_of_int fl (uint (dp_reserve_b pool))) (fl_powi fl (fl_lit fl ''10'') (uint (dp_decimals_b pool)))"

definition known_tvl_usd_lower_bound :: "'f f64_ops \<Rightarrow> (pubkey \<times> 'f) list \<Rightarrow> dex_pool \<Rightarrow> 'f option" where
  "known_tvl_usd_lower_bound fl oracle_prices pool =
     (let side_a_usd = map_option (fl_mul fl (reserve_a_ui fl pool)) (map_of oracle_prices (dp_token_a pool));
          side_b_usd = map_option (fl_mul fl (reserve_b_ui fl pool)) (map_of oracle_prices (dp_token_b pool)) in
      case (side_a_usd, side_b_usd) of
        (Some a, Some b) \<Rightarrow> Some (fl_add fl a b)
      | (Some a, None) \<Rightarrow> Some (fl_mul fl a (fl_lit fl ''2.0''))
      | (None, Some b) \<Rightarrow> Some (fl_mul fl b (fl_lit fl ''2.0''))
      | (None, None) \<Rightarrow> None)"

definition effective_reserves :: "nat \<Rightarrow> dex_pool \<Rightarrow> u64 \<times> u64" where
  "effective_reserves now pool =
     (if dp_reserve_a_optimistic pool > 0 \<and> dp_reserve_b_optimistic pool > 0
         \<and> (now - dp_last_shred_update pool) div 1000000000 < 10
      then (dp_reserve_a_optimistic pool, dp_reserve_b_optimistic pool)
      else (dp_reserve_a pool, dp_reserve_b pool))"

text \<open>\<^verbatim>\<open>(base as i64 + delta).max(0) as u64\<close>.\<close>

definition shifted :: "u64 \<Rightarrow> int \<Rightarrow> u64" where
  "shifted base delta = word_of_int (max (wrap64 (sint base + delta)) 0)"

definition apply_shred_delta :: "nat \<Rightarrow> int \<Rightarrow> int \<Rightarrow> dex_pool \<Rightarrow> dex_pool" where
  "apply_shred_delta now delta_a delta_b pool =
     (let (base_a, base_b) = (if dp_reserve_a_optimistic pool > 0
            then (dp_reserve_a_optimistic pool, dp_reserve_b_optimistic pool)
            else (dp_reserve_a pool, dp_reserve_b pool)) in
      pool\<lparr>dp_reserve_a_optimistic := shifted base_a delta_a, dp_reserve_b_optimistic := shifted base_b delta_b,
        dp_last_shred_update := now\<rparr>)"

text \<open>The quotes; \<open>None\<close> is the panic of the constant-product branch on a zero denominator.\<close>

definition quote_orca_pool :: "'f f64_ops \<Rightarrow> bool \<Rightarrow> u64 \<Rightarrow> dex_pool \<Rightarrow> orca_metadata \<Rightarrow> u64" where
  "quote_orca_pool fl a_to_b amount_in pool orca =
     (if om_liquidity orca = 0 \<or> om_sqrt_price orca = 0 \<or> om_tick_spacing orca = 0 then 0
      else if om_tick_arrays orca \<noteq> []
      then osq_amount_out (Orca.quote_exact_in fl amount_in a_to_b (om_sqrt_price orca) (om_liquidity orca)
        (om_tick_current_index orca) (om_tick_spacing orca) (dp_fee_bps pool) (om_tick_arrays orca))
      else let fee_bps = fl_of_int fl (uint (dp_fee_bps pool));
               amount_in_after_fee = fl_div fl (fl_mul fl (fl_of_int fl (uint amount_in))
                 (fl_sub fl (fl_lit fl ''10000.0'') fee_bps)) (fl_lit fl ''10000.0'');
               sqrt_p = sqrt_price_x64_to_f64 fl (om_sqrt_price orca);
               l = fl_of_int fl (uint (om_liquidity orca)) in
        if a_to_b
        then let sqrt_p_next = fl_div fl (fl_mul fl sqrt_p l) (fl_add fl (fl_mul fl amount_in_after_fee sqrt_p) l) in
          fl_to_u64 fl (fl_mul fl l (fl_sub fl sqrt_p sqrt_p_next))
        else let sqrt_p_next = fl_add fl sqrt_p (fl_div fl amount_in_after_fee l) in
          fl_to_u64 fl (fl_mul fl l (fl_sub fl (fl_div fl (fl_lit fl ''1.0'') sqrt_p)
            (fl_div fl (fl_lit fl ''1.0'') sqrt_p_next))))"

definition quote_a_to_b :: "'f f64_ops \<Rightarrow> nat \<Rightarrow> u64 \<Rightarrow> dex_pool \<Rightarrow> u64 option" where
  "quote_a_to_b fl now amount_in pool =
     (let (ra, rb) = effective_reserves now pool in
      if ra = 0 \<or> rb = 0 then Some 0
      else case dp_orca_meta pool of
          Some orca \<Rightarrow> Some (quote_orca_pool fl True amount_in pool orca)
        | None \<Rightarrow>
            (case dp_meteora_meta pool of
               Some meteora \<Rightarrow> Some (Meteora.quote_exact_in amount_in True (mm_active_id meteora) (mm_bin_step meteora)
                 (mm_parameters meteora) (mm_v_parameters meteora) (mm_bin_arrays meteora))
             | None \<Rightarrow> xyk_quote ra rb amount_in (dp_fee_bps pool)))"

definition quote_b_to_a :: "'f f64_ops \<Rightarrow> nat \<Rightarrow> u64 \<Rightarrow> dex_pool \<Rightarrow> u64 option" where
  "quote_b_to_a fl now amount_in pool =
     (let (ra, rb) = effective_reserves now pool in
      if ra = 0 \<or> rb = 0 then Some 0
      else case dp_orca_meta pool of
          Some orca \<Rightarrow> Some (quote_orca_pool fl False amount_in pool orca)
        | None \<Rightarrow>
            (case dp_meteora_meta pool of
               Some meteora \<Rightarrow> Some (Meteora.quote_exact_in amount_in False (mm_active_id meteora) (mm_bin_step meteora)
                 (mm_parameters meteora) (mm_v_parameters meteora) (mm_bin_arrays meteora))
             | None \<Rightarrow> xyk_quote rb ra amount_in (dp_fee_bps pool)))"

section \<open>Fees\<close>

definition pool_fee_bps :: "dex_pool \<Rightarrow> u64" where
  "pool_fee_bps pool =
     (if dp_fee_bps pool > 0 \<and> dp_fee_bps pool \<noteq> 25 then dp_fee_bps pool
      else case dp_dex_type pool of
          RaydiumAmmV4 \<Rightarrow> 25
        | RaydiumClmm \<Rightarrow>
            (case dp_orca_meta pool of
               None \<Rightarrow> 25
             | Some meta \<Rightarrow>
                 let ts = om_tick_spacing meta in
                 if ts = 1 then 1 else if ts = 2 then 2 else if ts \<in> {4, 8, 10} then 4
                 else if ts \<in> {20, 60} then 25 else if ts \<in> {120, 200} then 100 else 25)
        | OrcaWhirlpool \<Rightarrow>
            (case dp_orca_meta pool of
               None \<Rightarrow> 30
             | Some meta \<Rightarrow>
                 let ts = om_tick_spacing meta in
                 if ts = 1 then 1 else if ts = 2 then 2 else if ts = 4 then 4 else if ts = 8 then 8
                 else if ts \<in> {16, 32} then 30 else if ts = 64 then 65 else if ts \<in> {96, 128} then 100
                 else if ts = 256 then 200 else max (dp_fee_bps pool) 30)
        | MeteoraDlmm \<Rightarrow>
            (case dp_meteora_meta pool of None \<Rightarrow> 25 | Some meta \<Rightarrow> max (ucast (mm_bin_step meta)) 1)
        | PumpSwap \<Rightarrow> 25
        | RaydiumCpmm \<Rightarrow> 25
        | _ \<Rightarrow> 25)"

definition route_total_fee_bps :: "dex_pool list \<Rightarrow> u64" where
  "route_total_fee_bps pools = sum_list (map pool_fee_bps pools)"

section \<open>The cache\<close>

record pool_cache =
  cache_inner :: "(pubkey \<times> dex_pool) list"
  cache_swap_gen :: u64
  cache_pair_index :: "((pubkey \<times> pubkey) \<times> pubkey list) list"

definition new_pool_cache :: pool_cache where
  "new_pool_cache = \<lparr>cache_inner = [], cache_swap_gen = 0, cache_pair_index = []\<rparr>"

definition canonical_pair :: "pubkey \<Rightarrow> pubkey \<Rightarrow> pubkey \<times> pubkey" where
  "canonical_pair a b = (if a < b then (a, b) else (b, a))"

definition bump_swap_generation :: "pool_cache \<Rightarrow> pool_cache" where
  "bump_swap_generation s = s\<lparr>cache_swap_gen := cache_swap_gen s + 1\<rparr>"

definition upsert :: "dex_pool \<Rightarrow> pool_cache \<Rightarrow> pool_cache" where
  "upsert pool s =
     (let pair = canonical_pair (dp_token_a pool) (dp_token_b pool);
          addr = dp_pool_address pool;
          s = s\<lparr>cache_inner := AList.update addr pool (cache_inner s)\<rparr>;
          addrs = filter (\<lambda>a. a \<noteq> addr) (unwrap_or [] (map_of (cache_pair_index s) pair)) in
      s\<lparr>cache_pair_index := AList.update pair (addrs @ [addr]) (cache_pair_index s)\<rparr>)"

definition pools_for_pair :: "pool_cache \<Rightarrow> pubkey \<Rightarrow> pubkey \<Rightarrow> dex_pool list" where
  "pools_for_pair s token_a token_b =
     (case map_of (cache_pair_index s) (canonical_pair token_a token_b) of
        Some addrs \<Rightarrow> List.map_filter (map_of (cache_inner s)) addrs
      | None \<Rightarrow> [])"

definition get_pool :: "pool_cache \<Rightarrow> pubkey \<Rightarrow> dex_pool option" where
  "get_pool s address = map_of (cache_inner s) address"

definition remove_pool :: "pubkey \<Rightarrow> pool_cache \<Rightarrow> pool_cache" where
  "remove_pool address s = s\<lparr>cache_inner := AList.delete address (cache_inner s)\<rparr>"

text \<open>\<^verbatim>\<open>if let Some(mut e) = self.inner.get_mut(address)\<close>: an absent pool is left absent.\<close>

definition modify_pool :: "pubkey \<Rightarrow> (dex_pool \<Rightarrow> dex_pool) \<Rightarrow> pool_cache \<Rightarrow> pool_cache" where
  "modify_pool address f s = s\<lparr>cache_inner := AList.map_entry address f (cache_inner s)\<rparr>"

definition update_reserve_a :: "nat \<Rightarrow> pubkey \<Rightarrow> u64 \<Rightarrow> pool_cache \<Rightarrow> pool_cache" where
  "update_reserve_a now address amount =
     modify_pool address (\<lambda>e. e\<lparr>dp_reserve_a := amount, dp_last_updated := now\<rparr>)"

definition update_reserve_b :: "nat \<Rightarrow> pubkey \<Rightarrow> u64 \<Rightarrow> pool_cache \<Rightarrow> pool_cache" where
  "update_reserve_b now address amount =
     modify_pool address (\<lambda>e. e\<lparr>dp_reserve_b := amount, dp_last_updated := now\<rparr>)"

definition update_raydium_meta :: "pubkey \<Rightarrow> raydium_metadata \<Rightarrow> pool_cache \<Rightarrow> pool_cache" where
  "update_raydium_meta address meta = modify_pool address (\<lambda>e. e\<lparr>dp_raydium_meta := Some meta\<rparr>)"

text \<open>The estimate of the current tick of a whirlpool after a swap.\<close>

definition move_tick :: "'f f64_ops \<Rightarrow> u64 \<Rightarrow> bool \<Rightarrow> u64 \<Rightarrow> orca_metadata \<Rightarrow> orca_metadata" where
  "move_tick fl amount_in a_to_b fee_bps meta =
     (if amount_in > 0 \<and> om_liquidity meta > 0 \<and> om_sqrt_price meta > 0 \<and> om_tick_spacing meta > 0
      then let traversed = osq_traversed_arrays (Orca.quote_exact_in fl amount_in a_to_b (om_sqrt_price meta)
                 (om_liquidity meta) (om_tick_current_index meta) (om_tick_spacing meta) fee_bps (om_tick_arrays meta)) in
        if traversed \<noteq> []
        then let last_arr = last traversed;
                 arr_offset = wrap32 (uint (om_tick_spacing meta) * ORCA_TICK_ARRAY_SIZE);
                 estimated_tick = (if a_to_b then wrap32 (wrap32 (last_arr + arr_offset) - 1) else last_arr);
                 old_arr = tick_array_start_index (om_tick_current_index meta) (om_tick_spacing meta) in
          if last_arr \<noteq> old_arr then meta\<lparr>om_tick_current_index := estimated_tick\<rparr> else meta
        else meta
      else meta)"

definition swapped :: "'f f64_ops \<Rightarrow> nat \<Rightarrow> u64 \<Rightarrow> u64 \<Rightarrow> bool \<Rightarrow> dex_pool \<Rightarrow> dex_pool" where
  "swapped fl now amount_in amount_out a_to_b e =
     (let e = (if a_to_b
            then e\<lparr>dp_reserve_a := sat_add (dp_reserve_a e) amount_in, dp_reserve_b := sat_sub (dp_reserve_b e) amount_out\<rparr>
            else e\<lparr>dp_reserve_b := sat_add (dp_reserve_b e) amount_in, dp_reserve_a := sat_sub (dp_reserve_a e) amount_out\<rparr>);
          e = (if dp_dex_type e = OrcaWhirlpool
            then e\<lparr>dp_orca_meta := map_option (move_tick fl amount_in a_to_b (dp_fee_bps e)) (dp_orca_meta e)\<rparr>
            else e) in
      e\<lparr>dp_last_updated := now\<rparr>)"

definition apply_swap_delta :: "'f f64_ops \<Rightarrow> nat \<Rightarrow> pubkey \<Rightarrow> u64 \<Rightarrow> u64 \<Rightarrow> bool \<Rightarrow> pool_cache \<Rightarrow> pool_cache" where
  "apply_swap_delta fl now pool_addr amount_in amount_out a_to_b s =
     bump_swap_generation (modify_pool pool_addr (swapped fl now amount_in amount_out a_to_b) s)"

definition mark_market_activity :: "pool_cache \<Rightarrow> pool_cache" where
  "mark_market_activity s = s\<lparr>cache_swap_gen := cache_swap_gen s + 1\<rparr>"

definition pools_for_token :: "pool_cache \<Rightarrow> pubkey \<Rightarrow> dex_pool list" where
  "pools_for_token s mint =
     filter (\<lambda>e. dp_token_a e = mint \<or> dp_token_b e = mint) (map snd (cache_inner s))"

definition update_reserve_by_vault :: "nat \<Rightarrow> pubkey \<Rightarrow> bool \<Rightarrow> u64 \<Rightarrow> pool_cache \<Rightarrow> bool \<times> pool_cache" where
  "update_reserve_by_vault now pool_address is_vault_a new_balance s =
     (case map_of (cache_inner s) pool_address of
        None \<Rightarrow> (False, s)
      | Some e \<Rightarrow>
          let old = (if is_vault_a then dp_reserve_a e else dp_reserve_b e) in
          if old = new_balance then (False, s)
          else (True, bump_swap_generation (modify_pool pool_address (\<lambda>e.
            (if is_vault_a then e\<lparr>dp_reserve_a := new_balance\<rparr> else e\<lparr>dp_reserve_b := new_balance\<rparr>)
              \<lparr>dp_last_updated := now\<rparr>) s)))"

section \<open>The vault index\<close>

definition liquidity :: "dex_pool \<Rightarrow> u64" where
  "liquidity pool = sat_add (dp_reserve_a pool) (dp_reserve_b pool)"

text \<open>The vaults of a pool in the order the source inserts them.\<close>

definition pool_vaults :: "dex_pool \<Rightarrow> (pubkey \<times> bool) list" where
  "pool_vaults pool =
     (case dp_raydium_meta pool of None \<Rightarrow> [] | Some meta \<Rightarrow> [(rm_vault_a meta, True), (rm_vault_b meta, False)])
     @ (case dp_orca_meta pool of None \<Rightarrow> [] | Some meta \<Rightarrow> [(om_token_vault_a meta, True), (om_token_vault_b meta, False)])
     @ (case dp_meteora_meta pool of None \<Rightarrow> [] | Some meta \<Rightarrow> [(mm_token_vault_a meta, True), (mm_token_vault_b meta, False)])"

definition index_vaults :: "dex_pool \<Rightarrow> (pubkey \<times> (pubkey \<times> bool)) list \<Rightarrow> (pubkey \<times> (pubkey \<times> bool)) list" where
  "index_vaults pool m =
     fold (\<lambda>(vault, is_a) m. if vault \<noteq> 0 then AList.update vault (dp_pool_address pool, is_a) m else m)
       (pool_vaults pool) m"

text \<open>\<^verbatim>\<open>sort_by\<close> with the comparison reversed keeps the order of equal pools.\<close>

definition build_vault_index :: "pool_cache \<Rightarrow> (pubkey \<times> (pubkey \<times> bool)) list" where
  "build_vault_index s =
     fold index_vaults (sort_key (\<lambda>p. - uint (liquidity p)) (map snd (cache_inner s))) []"

end
