(* ===== verification/Pool_Cache.thy ===== *)
theory Pool_Cache
  imports Pool_State
begin

text \<open>
  What the pool cache promises, whatever calls it has served, in any order: the pair index finds every cached
  pool of a pair exactly once, and no other pool as long as the tokens of a pool address never change; and
  the vault index knows every vault of every cached pool. The cache is an instance of \<open>total_machine\<close>.
\<close>

section \<open>The cache as a machine\<close>

datatype pool_call =
    Upsert dex_pool
  | RemovePool pubkey
  | UpdateReserveA nat pubkey u64
  | UpdateReserveB nat pubkey u64
  | UpdateRaydiumMeta pubkey raydium_metadata
  | ApplySwapDelta nat pubkey u64 u64 bool
  | UpdateReserveByVault nat pubkey bool u64
  | BumpSwapGeneration
  | MarkMarketActivity

fun cache_step :: "'f f64_ops \<Rightarrow> pool_call \<Rightarrow> pool_cache \<Rightarrow> pool_cache option" where
  "cache_step fl (Upsert pool) s = Some (upsert pool s)"
| "cache_step fl (RemovePool address) s = Some (remove_pool address s)"
| "cache_step fl (UpdateReserveA now address amount) s = Some (update_reserve_a now address amount s)"
| "cache_step fl (UpdateReserveB now address amount) s = Some (update_reserve_b now address amount s)"
| "cache_step fl (UpdateRaydiumMeta address meta) s = Some (update_raydium_meta address meta s)"
| "cache_step fl (ApplySwapDelta now address amount_in amount_out a_to_b) s =
     Some (apply_swap_delta fl now address amount_in amount_out a_to_b s)"
| "cache_step fl (UpdateReserveByVault now address is_vault_a balance) s =
     Some (snd (update_reserve_by_vault now address is_vault_a balance s))"
| "cache_step fl BumpSwapGeneration s = Some (bump_swap_generation s)"
| "cache_step fl MarkMarketActivity s = Some (mark_market_activity s)"

section \<open>The invariant\<close>

definition pair_of_pool :: "dex_pool \<Rightarrow> pubkey \<times> pubkey" where
  "pair_of_pool pool = canonical_pair (dp_token_a pool) (dp_token_b pool)"

definition indexed :: "pool_cache \<Rightarrow> pubkey \<times> pubkey \<Rightarrow> pubkey list" where
  "indexed s pair = unwrap_or [] (map_of (cache_pair_index s) pair)"

definition cache_inv :: "pool_cache \<Rightarrow> bool" where
  "cache_inv s \<longleftrightarrow> distinct (map fst (cache_inner s))
     \<and> (\<forall>addr pool. map_of (cache_inner s) addr = Some pool \<longrightarrow>
          dp_pool_address pool = addr \<and> addr \<in> set (indexed s (pair_of_pool pool)))
     \<and> (\<forall>pair. distinct (indexed s pair))"

text \<open>The pair of an address is fixed by \<open>pair_of\<close>.\<close>

definition stable_call :: "(pubkey \<Rightarrow> pubkey \<times> pubkey) \<Rightarrow> pool_call \<Rightarrow> bool" where
  "stable_call pair_of call =
     (case call of Upsert pool \<Rightarrow> pair_of_pool pool = pair_of (dp_pool_address pool) | _ \<Rightarrow> True)"

definition stable_inv :: "(pubkey \<Rightarrow> pubkey \<times> pubkey) \<Rightarrow> pool_cache \<Rightarrow> bool" where
  "stable_inv pair_of s \<longleftrightarrow> cache_inv s
     \<and> (\<forall>addr pool. map_of (cache_inner s) addr = Some pool \<longrightarrow> pair_of_pool pool = pair_of addr)
     \<and> (\<forall>pair. \<forall>addr \<in> set (indexed s pair). pair_of addr = pair)"

text \<open>Updates of a pool in place keep its address and tokens.\<close>

definition keeps_identity :: "(dex_pool \<Rightarrow> dex_pool) \<Rightarrow> bool" where
  "keeps_identity f \<longleftrightarrow> (\<forall>p. dp_pool_address (f p) = dp_pool_address p \<and> pair_of_pool (f p) = pair_of_pool p)"

lemma keys_map_entry [simp]: "map fst (AList.map_entry k f m) = map fst m"
  by (induction m) auto

lemma inv_modify:
  assumes "keeps_identity f"
  shows "cache_inv s \<Longrightarrow> cache_inv (modify_pool addr f s)"
    and "stable_inv pair_of s \<Longrightarrow> stable_inv pair_of (modify_pool addr f s)"
proof -
  have m: "map_of (cache_inner (modify_pool addr f s)) = (\<lambda>a. if a = addr then map_option f (map_of (cache_inner s) a)
      else map_of (cache_inner s) a)"
    by (auto simp: modify_pool_def map_of_map_entry fun_eq_iff split: option.splits)
  have i: "indexed (modify_pool addr f s) = indexed s"
    by (simp add: indexed_def modify_pool_def fun_eq_iff)
  have d: "map fst (cache_inner (modify_pool addr f s)) = map fst (cache_inner s)"
    by (simp add: modify_pool_def)
  show c: "cache_inv s \<Longrightarrow> cache_inv (modify_pool addr f s)"
    using assms by (auto simp: cache_inv_def m i d keeps_identity_def split: if_splits)
  show "stable_inv pair_of s \<Longrightarrow> stable_inv pair_of (modify_pool addr f s)"
    using assms c by (auto simp: stable_inv_def m i keeps_identity_def split: if_splits)
qed

lemma inv_generation:
  "cache_inv (s\<lparr>cache_swap_gen := g\<rparr>) = cache_inv s"
  "stable_inv pair_of (s\<lparr>cache_swap_gen := g\<rparr>) = stable_inv pair_of s"
  by (simp_all add: cache_inv_def stable_inv_def indexed_def)

lemma indexed_upsert:
  "indexed (upsert pool s) pair =
     (if pair = pair_of_pool pool
      then filter (\<lambda>a. a \<noteq> dp_pool_address pool) (indexed s pair) @ [dp_pool_address pool]
      else indexed s pair)"
  by (auto simp: indexed_def upsert_def pair_of_pool_def Let_def)

lemma inv_upsert:
  shows "cache_inv s \<Longrightarrow> cache_inv (upsert pool s)"
    and "stable_inv pair_of s \<Longrightarrow> pair_of_pool pool = pair_of (dp_pool_address pool) \<Longrightarrow> stable_inv pair_of (upsert pool s)"
proof -
  have m: "map_of (cache_inner (upsert pool s)) = (map_of (cache_inner s))(dp_pool_address pool \<mapsto> pool)"
    by (simp add: upsert_def Let_def)
  have d: "distinct (map fst (cache_inner s)) \<Longrightarrow> distinct (map fst (cache_inner (upsert pool s)))"
    by (simp add: upsert_def Let_def distinct_update)
  have "addr \<in> set (indexed (upsert pool s) (pair_of_pool p))"
    if "cache_inv s" "map_of (cache_inner s) addr = Some p" "addr \<noteq> dp_pool_address pool" for addr p
  proof -
    have "addr \<in> set (indexed s (pair_of_pool p))"
      using that(1,2) unfolding cache_inv_def by blast
    with that(3) show ?thesis
      by (cases "pair_of_pool p = pair_of_pool pool") (simp_all add: indexed_upsert)
  qed
  moreover have "distinct (indexed (upsert pool s) pair)" if "cache_inv s" for pair
    using that by (cases "pair = pair_of_pool pool") (simp_all add: cache_inv_def indexed_upsert del: split_paired_All)
  ultimately show c: "cache_inv s \<Longrightarrow> cache_inv (upsert pool s)"
    by (auto simp: cache_inv_def m d indexed_upsert simp del: map_of_eq_Some_iff)
  show "stable_inv pair_of s \<Longrightarrow> pair_of_pool pool = pair_of (dp_pool_address pool) \<Longrightarrow> stable_inv pair_of (upsert pool s)"
    using c by (auto simp: stable_inv_def m indexed_upsert simp del: split_paired_All split: if_splits)
qed

lemma inv_remove:
  "cache_inv s \<Longrightarrow> cache_inv (remove_pool addr s)"
  "stable_inv pair_of s \<Longrightarrow> stable_inv pair_of (remove_pool addr s)"
  by (auto simp: cache_inv_def stable_inv_def remove_pool_def indexed_def distinct_delete split: if_splits)

lemma keeps_identity_updates:
  "keeps_identity (\<lambda>e. e\<lparr>dp_reserve_a := x, dp_last_updated := now\<rparr>)"
  "keeps_identity (\<lambda>e. e\<lparr>dp_reserve_b := x, dp_last_updated := now\<rparr>)"
  "keeps_identity (\<lambda>e. e\<lparr>dp_raydium_meta := r\<rparr>)"
  by (simp_all add: keeps_identity_def pair_of_pool_def)

lemma keeps_identity_swap:
  "keeps_identity (swapped fl now amount_in amount_out a_to_b)"
  "keeps_identity (\<lambda>e. (if is_vault_a then e\<lparr>dp_reserve_a := x\<rparr> else e\<lparr>dp_reserve_b := x\<rparr>)\<lparr>dp_last_updated := now\<rparr>)"
  by (simp_all add: keeps_identity_def pair_of_pool_def swapped_def Let_def)

lemmas cache_steps = update_reserve_a_def update_reserve_b_def update_raydium_meta_def apply_swap_delta_def
  update_reserve_by_vault_def bump_swap_generation_def mark_market_activity_def

lemma cache_step_inv:
  "cache_step fl call s = Some s' \<Longrightarrow> cache_inv s \<Longrightarrow> cache_inv s'"
  by (cases call) (auto simp: cache_steps inv_upsert inv_remove inv_generation
      intro!: inv_modify keeps_identity_updates keeps_identity_swap split: option.splits if_splits)

lemma cache_step_stable:
  "cache_step fl call s = Some s' \<Longrightarrow> stable_call pair_of call \<Longrightarrow> stable_inv pair_of s \<Longrightarrow> stable_inv pair_of s'"
  by (cases call) (auto simp: cache_steps inv_upsert inv_remove inv_generation stable_call_def
      intro!: inv_modify keeps_identity_updates keeps_identity_swap split: option.splits if_splits)

lemma cache_step_returns: "\<exists>s'. cache_step fl call s = Some s'"
  by (cases call) simp_all

lemma inv_new: "cache_inv new_pool_cache" "stable_inv pair_of new_pool_cache"
  by (simp_all add: new_pool_cache_def stable_inv_def cache_inv_def indexed_def)

interpretation cache: total_machine new_pool_cache "cache_step fl" "\<lambda>_. True" cache_inv for fl
  by unfold_locales (auto simp: inv_new cache_step_returns intro: cache_step_inv)

interpretation stable_cache: total_machine new_pool_cache "cache_step fl" "stable_call pair_of" "stable_inv pair_of" for fl pair_of
  by unfold_locales (auto simp: inv_new cache_step_returns intro: cache_step_stable)

section \<open>Lookups\<close>

lemma pools_for_pair_indexed:
  "pools_for_pair s a b = List.map_filter (map_of (cache_inner s)) (indexed s (canonical_pair a b))"
  by (simp add: pools_for_pair_def indexed_def split: option.split)

definition cached_of_pair :: "pool_cache \<Rightarrow> pubkey \<times> pubkey \<Rightarrow> dex_pool set" where
  "cached_of_pair s pair = {p. \<exists>addr. get_pool s addr = Some p \<and> pair_of_pool p = pair}"

lemma set_map_filter: "set (List.map_filter f xs) = {y. \<exists>x \<in> set xs. f x = Some y}"
  by (induction xs) (auto simp: List.map_filter_simps split: option.split)

lemma set_pools_for_pair:
  "set (pools_for_pair s a b) = {p. \<exists>addr \<in> set (indexed s (canonical_pair a b)). get_pool s addr = Some p}"
  by (auto simp: pools_for_pair_indexed set_map_filter get_pool_def)

lemma distinct_map_filter_inj:
  assumes "distinct xs" and "\<And>x y z. x \<in> set xs \<Longrightarrow> y \<in> set xs \<Longrightarrow> f x = Some z \<Longrightarrow> f y = Some z \<Longrightarrow> x = y"
  shows "distinct (List.map_filter f xs)"
  using assms
proof (induction xs)
  case (Cons x xs)
  have "distinct (List.map_filter f xs)"
    using Cons.IH Cons.prems by (metis distinct.simps(2) list.set_intros(2))
  then show ?case
    using Cons.prems by (auto simp: List.map_filter_simps set_map_filter split: option.split)
qed (simp add: List.map_filter_simps)

lemma cache_inv_pools:
  assumes "cache_inv s"
  shows "distinct (pools_for_pair s a b)"
    and "cached_of_pair s (canonical_pair a b) \<subseteq> set (pools_for_pair s a b)"
proof -
  have addr: "map_of (cache_inner s) x = Some p \<Longrightarrow> dp_pool_address p = x \<and> x \<in> set (indexed s (pair_of_pool p))" for x p
    using assms unfolding cache_inv_def by blast
  show "distinct (pools_for_pair s a b)"
    unfolding pools_for_pair_indexed using assms
    by (intro distinct_map_filter_inj) (auto simp: cache_inv_def simp del: split_paired_All map_of_eq_Some_iff dest: addr)
  show "cached_of_pair s (canonical_pair a b) \<subseteq> set (pools_for_pair s a b)"
  proof
    fix p assume "p \<in> cached_of_pair s (canonical_pair a b)"
    then obtain x where x: "map_of (cache_inner s) x = Some p" "pair_of_pool p = canonical_pair a b"
      unfolding cached_of_pair_def get_pool_def by blast
    from addr [OF x(1)] have "x \<in> set (indexed s (canonical_pair a b))" unfolding x(2) by simp
    with x(1) show "p \<in> set (pools_for_pair s a b)"
      unfolding set_pools_for_pair get_pool_def by blast
  qed
qed

lemma stable_inv_pools:
  assumes "stable_inv pair_of s"
  shows "set (pools_for_pair s a b) = cached_of_pair s (canonical_pair a b)"
proof
  show "set (pools_for_pair s a b) \<subseteq> cached_of_pair s (canonical_pair a b)"
  proof
    fix p assume "p \<in> set (pools_for_pair s a b)"
    then obtain x where x: "x \<in> set (indexed s (canonical_pair a b))" "map_of (cache_inner s) x = Some p"
      unfolding set_pools_for_pair get_pool_def by blast
    with assms have "pair_of x = canonical_pair a b" "pair_of_pool p = pair_of x"
      unfolding stable_inv_def by blast+
    with x(2) show "p \<in> cached_of_pair s (canonical_pair a b)"
      unfolding cached_of_pair_def get_pool_def by auto
  qed
  show "cached_of_pair s (canonical_pair a b) \<subseteq> set (pools_for_pair s a b)"
    using assms by (intro cache_inv_pools) (simp add: stable_inv_def)
qed

text \<open>
  Property C19. After any calls of the pool cache, in any order, the lookup by token pair returns every cached
  pool of the pair, in either order of the tokens, and none twice; it returns no other pool as long as an
  address is always upserted with the same tokens.
\<close>

theorem pair_index_complete:
  "\<exists>s. run (cache_step fl) calls new_pool_cache = Some s
     \<and> distinct (pools_for_pair s a b)
     \<and> (if list_all (stable_call pair_of) calls
        then set (pools_for_pair s a b) = cached_of_pair s (canonical_pair a b)
        else cached_of_pair s (canonical_pair a b) \<subseteq> set (pools_for_pair s a b))"
proof -
  obtain s where s: "run (cache_step fl) calls new_pool_cache = Some s" "cache_inv s"
    using cache.run_returns [of calls] by auto
  have "stable_inv pair_of s" if "list_all (stable_call pair_of) calls"
    using stable_cache.run_inv [OF _ s(1)] that by (simp add: list_all_iff)
  with s show ?thesis
    by (auto simp: cache_inv_pools stable_inv_pools dest: cache_inv_pools(2))
qed

section \<open>The vault index\<close>

definition has_vault :: "pubkey \<Rightarrow> dex_pool \<Rightarrow> bool" where
  "has_vault vault p \<longleftrightarrow> vault \<noteq> 0 \<and> vault \<in> fst ` set (pool_vaults p)"

lemma map_of_index_vaults:
  "if has_vault v p then \<exists>side. (v, side) \<in> set (pool_vaults p) \<and> map_of (index_vaults p m) v = Some (dp_pool_address p, side)
   else map_of (index_vaults p m) v = map_of m v"
proof -
  have "if v \<noteq> 0 \<and> v \<in> fst ` set vs
      then \<exists>side. (v, side) \<in> set vs \<and> map_of (fold (\<lambda>(vault, is_a) m.
        if vault \<noteq> 0 then AList.update vault (dp_pool_address p, is_a) m else m) vs m) v = Some (dp_pool_address p, side)
      else map_of (fold (\<lambda>(vault, is_a) m.
        if vault \<noteq> 0 then AList.update vault (dp_pool_address p, is_a) m else m) vs m) v = map_of m v" for vs
    by (induction vs rule: rev_induct) (auto split: if_splits)
  from this [of "pool_vaults p"] show ?thesis by (simp add: has_vault_def index_vaults_def)
qed

lemma map_of_fold_vaults:
  assumes "sorted (map key ps)"
  shows "case map_of (fold index_vaults ps []) v of
      None \<Rightarrow> \<not> (\<exists>p \<in> set ps. has_vault v p)
    | Some (addr, side) \<Rightarrow> \<exists>p \<in> set ps. dp_pool_address p = addr \<and> v \<noteq> 0 \<and> (v, side) \<in> set (pool_vaults p)
        \<and> (\<forall>q \<in> set ps. has_vault v q \<longrightarrow> (key q :: 'k :: linorder) \<le> key p)"
  using assms
proof (induction ps rule: rev_induct)
  case (snoc p ps)
  have le: "\<forall>q \<in> set ps. key q \<le> key p" and IH: "sorted (map key ps)"
    using snoc.prems by (simp_all add: sorted_append)
  show ?case
  proof (cases "has_vault v p")
    case True
    with map_of_index_vaults [of v p "fold index_vaults ps []"] le show ?thesis
      by (auto simp: has_vault_def)
  next
    case False
    with map_of_index_vaults [of v p "fold index_vaults ps []"] snoc.IH [OF IH] show ?thesis
      by (auto split: option.splits)
  qed
qed simp

text \<open>
  The vault index knows exactly the vaults of the cached pools, default keys left out, and maps each to a
  pool it belongs to and to the side it holds; of several pools that share a vault it keeps one with the
  least liquidity, because the pools are inserted from the most liquid on and later entries overwrite.
\<close>

theorem vault_index_complete:
  "case map_of (build_vault_index s) vault of
      None \<Rightarrow> \<not> (\<exists>p. p \<in> snd ` set (cache_inner s) \<and> has_vault vault p)
    | Some (addr, side) \<Rightarrow> \<exists>p. p \<in> snd ` set (cache_inner s) \<and> dp_pool_address p = addr \<and> vault \<noteq> 0
        \<and> (vault, side) \<in> set (pool_vaults p)
        \<and> {q \<in> snd ` set (cache_inner s). has_vault vault q} \<subseteq> {q. liquidity p \<le> liquidity q}"
proof -
  let ?ps = "sort_key (\<lambda>p. - uint (liquidity p)) (map snd (cache_inner s))"
  have "sorted (map (\<lambda>p. - uint (liquidity p)) ?ps)" by simp
  from map_of_fold_vaults [OF this, of vault] show ?thesis
    unfolding build_vault_index_def by (fastforce simp: word_le_def split: option.splits)
qed

section \<open>Optimistic reserves\<close>

lemma uint_shifted:
  assumes "uint base < 2 ^ 63" and "- (2 ^ 63) \<le> delta" and "uint base + delta < 2 ^ 63"
  shows "uint (shifted base delta) = max (uint base + delta) 0"
proof -
  have "- (2 ^ 63) \<le> uint base" by (rule order_trans [OF _ uint_ge_0]) simp
  with assms(1) have base: "sint base = uint base"
    by (simp add: sint_uint signed_take_bit_int_eq_self)
  have "wrap64 (uint base + delta) = uint base + delta"
    using assms(2) [simplified] assms(3) [simplified] uint_ge_0 [of base] by (intro wrap64_in) linarith+
  moreover have "uint (word_of_int (max (uint base + delta) 0) :: u64) = max (uint base + delta) 0"
    using assms(3) by (simp add: uint_word_of_int max_def)
  ultimately show ?thesis by (simp add: shifted_def base)
qed

text \<open>The reserves a delta is applied to, and what it makes of them.\<close>

definition delta_base :: "dex_pool \<Rightarrow> u64 \<times> u64" where
  "delta_base p = (if dp_reserve_a_optimistic p > 0 then (dp_reserve_a_optimistic p, dp_reserve_b_optimistic p)
     else (dp_reserve_a p, dp_reserve_b p))"

definition delta_fits :: "u64 \<Rightarrow> int \<Rightarrow> bool" where
  "delta_fits base delta \<longleftrightarrow> uint base < 2 ^ 63 \<and> - (2 ^ 63) \<le> delta \<and> 0 < uint base + delta \<and> uint base + delta < 2 ^ 63"

lemma uint_shifted_fits: "delta_fits base delta \<Longrightarrow> uint (shifted base delta) = uint base + delta"
  using uint_shifted [of base delta] by (simp add: delta_fits_def)

lemma effective_after_delta:
  assumes "delta_base p = (a, b)" and "delta_fits a delta_a" and "delta_fits b delta_b" and "later < now + 10000000000"
  shows "effective_reserves later (apply_shred_delta now delta_a delta_b p) = (shifted a delta_a, shifted b delta_b)"
proof -
  have "shifted a delta_a > 0" "shifted b delta_b > 0"
    using assms(2,3) by (simp_all add: word_less_def uint_shifted_fits) (simp_all add: delta_fits_def)
  moreover have "(later - now) div 1000000000 < 10" using assms(4) by simp
  ultimately show ?thesis
    using assms(1) by (simp add: effective_reserves_def apply_shred_delta_def delta_base_def)
qed

text \<open>A pool whose optimistic reserves are an hour old, next to reserves just polled.\<close>

definition stale_pool :: dex_pool where
  "stale_pool = \<lparr>dp_pool_address = 1, dp_dex_type = Unknown, dp_token_a = 2, dp_token_b = 3, dp_decimals_a = 6,
     dp_decimals_b = 6, dp_reserve_a = 900, dp_reserve_b = 1100, dp_reserve_a_optimistic = 400,
     dp_reserve_b_optimistic = 2500, dp_last_shred_update = 0, dp_pool_vault_a_balance = 0,
     dp_pool_vault_b_balance = 0, dp_market_vault_a_balance = 0, dp_market_vault_b_balance = 0,
     dp_last_updated = 3600000000000, dp_fee_bps = 25, dp_raydium_meta = None, dp_orca_meta = None,
     dp_meteora_meta = None\<rparr>"

text \<open>
  A delta seen in the shreds moves the reserves that the quotes use, for the next ten seconds, by
  exactly that delta, as long as both stay positive. But it is applied to the previous optimistic reserves however old
  they are (\<open>delta_base\<close>): on a pool whose optimistic reserves are an hour old a delta of zero changes the quoted reserves.
\<close>

theorem shred_delta_effect:
  assumes "delta_base p = (a, b)" and "delta_fits a delta_a" and "delta_fits b delta_b" and "later < now + 10000000000"
  shows "map_prod uint uint (effective_reserves later (apply_shred_delta now delta_a delta_b p))
      = (uint a + delta_a, uint b + delta_b)
    \<and> effective_reserves 3600000000000 stale_pool = (900, 1100)
    \<and> effective_reserves 3600000000000 (apply_shred_delta 3600000000000 0 0 stale_pool) = (400, 2500)"
proof -
  have "effective_reserves 3600000000000 stale_pool = (900, 1100)"
    "effective_reserves 3600000000000 (apply_shred_delta 3600000000000 0 0 stale_pool) = (400, 2500)"
    by (simp_all add: effective_reserves_def apply_shred_delta_def stale_pool_def shifted_def wrap64_in)
  then show ?thesis
    using assms(2,3) by (simp add: effective_after_delta [OF assms] uint_shifted_fits)
qed

theorem shred_delta_effect_witness:
  "map_prod uint uint (effective_reserves 3600000000001 (apply_shred_delta 3600000000000 (- 100) 50 stale_pool)) = (300, 2550)"
  using shred_delta_effect [of stale_pool 400 2500 "- 100" 50 3600000000001 3600000000000]
  by (simp add: stale_pool_def delta_base_def delta_fits_def)

end
