(* ===== verification/Swap_Decoder.thy ===== *)
theory Swap_Decoder
  imports Onchain Account_Data
begin

text \<open>
  Swaps in transactions, \<^verbatim>\<open>market-engine/src/swap_decoder.rs\<close>: which instructions are swaps, graduations of a
  launchpad token or creations of a pool. A decoder returns \<open>None\<close> where an index or a range of the source
  panics, \<open>Some None\<close> where it returns \<^verbatim>\<open>None\<close>. Only the static account keys of a message are consulted, for
  legacy and versioned messages alike.
\<close>

section \<open>Transactions\<close>

record compiled_instruction =
  ci_program_id_index :: u8
  ci_accounts :: "u8 list"
  ci_data :: bytes

record message =
  msg_account_keys :: "pubkey list"
  msg_instructions :: "compiled_instruction list"

datatype versioned_message = Legacy message | V0 message

fun static_accounts :: "versioned_message \<Rightarrow> pubkey list" where
  "static_accounts (Legacy m) = msg_account_keys m"
| "static_accounts (V0 m) = msg_account_keys m"

fun instructions_with_data :: "versioned_message \<Rightarrow> (nat \<times> bytes \<times> u8 list) list" where
  "instructions_with_data (Legacy m) =
     map (\<lambda>ix. (unat (ci_program_id_index ix), ci_data ix, ci_accounts ix)) (msg_instructions m)"
| "instructions_with_data (V0 m) =
     map (\<lambda>ix. (unat (ci_program_id_index ix), ci_data ix, ci_accounts ix)) (msg_instructions m)"

fun tx_signer :: "versioned_message \<Rightarrow> pubkey" where
  "tx_signer (Legacy m) = (case msg_account_keys m of [] \<Rightarrow> 0 | k # _ \<Rightarrow> k)"
| "tx_signer (V0 m) = (case msg_account_keys m of [] \<Rightarrow> 0 | k # _ \<Rightarrow> k)"

section \<open>Discriminators\<close>

definition RAYDIUM_SWAP_DISC :: u8 where "RAYDIUM_SWAP_DISC = 9"
definition ORCA_SWAP_DISC :: bytes where "ORCA_SWAP_DISC = [248, 198, 158, 145, 225, 117, 135, 200]"
definition METEORA_SWAP_DISC :: bytes where "METEORA_SWAP_DISC = [248, 198, 244, 145, 90, 24, 30, 227]"
definition PUMPSWAP_BUY_DISC :: bytes where "PUMPSWAP_BUY_DISC = [102, 6, 61, 18, 1, 218, 235, 234]"
definition PUMPSWAP_SELL_DISC :: bytes where "PUMPSWAP_SELL_DISC = [51, 230, 133, 164, 1, 127, 131, 173]"
definition PUMPSWAP_CREATE_POOL_DISC :: bytes where "PUMPSWAP_CREATE_POOL_DISC = [233, 146, 209, 142, 207, 104, 64, 188]"
definition PUMPFUN_MIGRATE_DISC :: bytes where "PUMPFUN_MIGRATE_DISC = [155, 234, 231, 146, 236, 158, 162, 30]"
definition LAUNCHLAB_MIGRATE_AMM_DISC :: bytes where "LAUNCHLAB_MIGRATE_AMM_DISC = [207, 82, 192, 145, 254, 207, 145, 223]"
definition LAUNCHLAB_MIGRATE_CPSWAP_DISC :: bytes where "LAUNCHLAB_MIGRATE_CPSWAP_DISC = [136, 92, 200, 103, 28, 218, 144, 140]"
definition MOONSHOT_MIGRATE_CAMEL_DISC :: bytes where "MOONSHOT_MIGRATE_CAMEL_DISC = [252, 23, 149, 132, 146, 87, 69, 198]"
definition MOONSHOT_MIGRATE_SNAKE_DISC :: bytes where "MOONSHOT_MIGRATE_SNAKE_DISC = [42, 229, 10, 231, 189, 62, 193, 174]"
definition MOONIT_MIGRATE_METEORA_DISC :: bytes where "MOONIT_MIGRATE_METEORA_DISC = [27, 1, 48, 22, 180, 63, 118, 217]"
definition MOONIT_MIGRATION_DAMM_V2_DISC :: bytes where "MOONIT_MIGRATION_DAMM_V2_DISC = [156, 169, 230, 103, 53, 228, 80, 64]"
definition FLUXBEAM_SWAP_DISC :: u8 where "FLUXBEAM_SWAP_DISC = 1"
definition SABER_SWAP_DISC :: u8 where "SABER_SWAP_DISC = 1"
definition RAYDIUM_CPMM_SWAP_BASE_INPUT_DISC :: bytes where
  "RAYDIUM_CPMM_SWAP_BASE_INPUT_DISC = [143, 190, 90, 218, 196, 30, 51, 222]"
definition RAYDIUM_CPMM_SWAP_BASE_OUTPUT_DISC :: bytes where
  "RAYDIUM_CPMM_SWAP_BASE_OUTPUT_DISC = [55, 217, 98, 86, 163, 74, 180, 173]"
definition PUMPFUN_BUY_DISC :: bytes where "PUMPFUN_BUY_DISC = [102, 6, 61, 18, 5, 205, 228, 178]"
definition PUMPFUN_SELL_DISC :: bytes where "PUMPFUN_SELL_DISC = [51, 230, 133, 164, 1, 127, 131, 173]"
definition RAYDIUM_CLMM_SWAP_DISC :: bytes where "RAYDIUM_CLMM_SWAP_DISC = [43, 4, 237, 11, 26, 201, 106, 217]"
definition RAYDIUM_CLMM_SWAP_V2_DISC :: bytes where "RAYDIUM_CLMM_SWAP_V2_DISC = [43, 4, 237, 11, 26, 201, 30, 98]"
definition JUPITER_ROUTE_DISC :: bytes where "JUPITER_ROUTE_DISC = [229, 23, 203, 151, 122, 227, 173, 42]"
definition JUPITER_ROUTE2_DISC :: bytes where "JUPITER_ROUTE2_DISC = [193, 32, 155, 51, 65, 214, 156, 129]"
definition METEORA_DYN_SWAP_DISC :: bytes where "METEORA_DYN_SWAP_DISC = [248, 198, 244, 145, 90, 24, 30, 227]"
definition RAYDIUM_V4_INITIALIZE2_DISC :: u8 where "RAYDIUM_V4_INITIALIZE2_DISC = 1"
definition ORCA_INITIALIZE_POOL_DISC :: bytes where "ORCA_INITIALIZE_POOL_DISC = [95, 180, 10, 172, 84, 174, 232, 40]"
definition METEORA_INITIALIZE_LB_PAIR_DISC :: bytes where
  "METEORA_INITIALIZE_LB_PAIR_DISC = [45, 154, 220, 170, 219, 89, 235, 234]"
definition RAYDIUM_CPMM_INITIALIZE_DISC :: bytes where
  "RAYDIUM_CPMM_INITIALIZE_DISC = [175, 175, 109, 31, 13, 152, 155, 237]"

section \<open>Swaps\<close>

datatype swap_dex = DexRaydiumAmmV4 | DexRaydiumClmm | DexOrcaWhirlpool | DexMeteoraDlmm | DexMeteoraDynamicAmm
  | DexPumpSwap | DexPumpFun | DexJupiter | DexFluxbeam | DexSaber | DexRaydiumCpmm

record detected_swap =
  ds_dex :: swap_dex
  ds_pool :: pubkey
  ds_amount_in :: u64
  ds_amount_out_min :: u64
  ds_a_to_b :: bool

fun dex_to_program_id :: "swap_dex \<Rightarrow> pubkey" where
  "dex_to_program_id DexRaydiumAmmV4 = RAYDIUM_AMM_V4"
| "dex_to_program_id DexRaydiumClmm = RAYDIUM_CLMM"
| "dex_to_program_id DexOrcaWhirlpool = ORCA_WHIRLPOOL"
| "dex_to_program_id DexMeteoraDlmm = METEORA_DLMM"
| "dex_to_program_id DexMeteoraDynamicAmm = METEORA_DYNAMIC_AMM"
| "dex_to_program_id DexPumpSwap = PUMPSWAP"
| "dex_to_program_id DexPumpFun = PUMPFUN_BONDING"
| "dex_to_program_id DexJupiter = JUPITER_V6"
| "dex_to_program_id DexFluxbeam = FLUXBEAM"
| "dex_to_program_id DexSaber = SABER"
| "dex_to_program_id DexRaydiumCpmm = RAYDIUM_CPMM"

text \<open>\<^verbatim>\<open>accounts.get(*accs.get(i)? as usize).copied()\<close>.\<close>

definition account_at :: "u8 list \<Rightarrow> pubkey list \<Rightarrow> nat \<Rightarrow> pubkey option" where
  "account_at accs accounts i = do { k \<leftarrow> idx accs i; idx accounts (unat k) }"

text \<open>The swap of a decoder, when its pool account resolves.\<close>

definition found :: "swap_dex \<Rightarrow> pubkey option \<Rightarrow> u64 \<Rightarrow> u64 \<Rightarrow> bool \<Rightarrow> detected_swap option" where
  "found dex pool amount_in amount_out_min a_to_b =
     map_option (\<lambda>p. \<lparr>ds_dex = dex, ds_pool = p, ds_amount_in = amount_in, ds_amount_out_min = amount_out_min,
       ds_a_to_b = a_to_b\<rparr>) pool"

text \<open>The decoders whose instruction starts with one byte and two amounts.\<close>

definition decode_tagged :: "swap_dex \<Rightarrow> u8 \<Rightarrow> bytes \<Rightarrow> u8 list \<Rightarrow> pubkey list \<Rightarrow> detected_swap option option" where
  "decode_tagged dex disc data accs accounts =
     (if length data < 17 then Some None
      else do {
        tag \<leftarrow> idx data 0;
        if tag \<noteq> disc then Some None
        else do {
          amount_in \<leftarrow> read_u64 data 1;
          amount_out_min \<leftarrow> read_u64 data 9;
          Some (found dex (account_at accs accounts 1) amount_in amount_out_min True) } })"

definition decode_raydium_v4 :: "bytes \<Rightarrow> u8 list \<Rightarrow> pubkey list \<Rightarrow> detected_swap option option" where
  "decode_raydium_v4 = decode_tagged DexRaydiumAmmV4 RAYDIUM_SWAP_DISC"

definition decode_fluxbeam :: "bytes \<Rightarrow> u8 list \<Rightarrow> pubkey list \<Rightarrow> detected_swap option option" where
  "decode_fluxbeam = decode_tagged DexFluxbeam FLUXBEAM_SWAP_DISC"

definition decode_saber :: "bytes \<Rightarrow> u8 list \<Rightarrow> pubkey list \<Rightarrow> detected_swap option option" where
  "decode_saber = decode_tagged DexSaber SABER_SWAP_DISC"

text \<open>The minimum output of an instruction that may be short.\<close>

definition optional_u64 :: "bytes \<Rightarrow> u64 option" where
  "optional_u64 data = (if length data \<ge> 24 then read_u64 data 16 else Some 0)"

definition decode_raydium_clmm :: "bytes \<Rightarrow> u8 list \<Rightarrow> pubkey list \<Rightarrow> detected_swap option option" where
  "decode_raydium_clmm data accs accounts =
     (if length data < 16 then Some None
      else do {
        disc \<leftarrow> slice_get data 0 8;
        if disc \<noteq> RAYDIUM_CLMM_SWAP_DISC \<and> disc \<noteq> RAYDIUM_CLMM_SWAP_V2_DISC then Some None
        else do {
          amount_in \<leftarrow> read_u64 data 8;
          amount_out_min \<leftarrow> optional_u64 data;
          Some (found DexRaydiumClmm (account_at accs accounts 2) amount_in amount_out_min
            (unwrap_or 1 (idx data 24) \<noteq> 0)) } })"

definition decode_orca :: "bytes \<Rightarrow> u8 list \<Rightarrow> pubkey list \<Rightarrow> detected_swap option option" where
  "decode_orca data accs accounts =
     (if length data < 42 then Some None
      else do {
        disc \<leftarrow> slice_get data 0 8;
        if disc \<noteq> ORCA_SWAP_DISC then Some None
        else do {
          amount_in \<leftarrow> read_u64 data 8;
          amount_out_min \<leftarrow> read_u64 data 16;
          Some (found DexOrcaWhirlpool (account_at accs accounts 2) amount_in amount_out_min
            (unwrap_or 1 (idx data 41) \<noteq> 0)) } })"

text \<open>The decoders of an eight-byte discriminator and two amounts, with the index of their pool account.\<close>

definition decode_anchor :: "swap_dex \<Rightarrow> bytes list \<Rightarrow> nat \<Rightarrow> bytes \<Rightarrow> u8 list \<Rightarrow> pubkey list \<Rightarrow> detected_swap option option" where
  "decode_anchor dex discs pool_index data accs accounts =
     (if length data < 24 then Some None
      else do {
        disc \<leftarrow> slice_get data 0 8;
        if disc \<notin> set discs then Some None
        else do {
          amount_in \<leftarrow> read_u64 data 8;
          amount_out_min \<leftarrow> read_u64 data 16;
          Some (found dex (account_at accs accounts pool_index) amount_in amount_out_min True) } })"

definition decode_meteora :: "bytes \<Rightarrow> u8 list \<Rightarrow> pubkey list \<Rightarrow> detected_swap option option" where
  "decode_meteora = decode_anchor DexMeteoraDlmm [METEORA_SWAP_DISC] 0"

definition decode_raydium_cpmm :: "bytes \<Rightarrow> u8 list \<Rightarrow> pubkey list \<Rightarrow> detected_swap option option" where
  "decode_raydium_cpmm =
     decode_anchor DexRaydiumCpmm [RAYDIUM_CPMM_SWAP_BASE_INPUT_DISC, RAYDIUM_CPMM_SWAP_BASE_OUTPUT_DISC] 2"

definition decode_meteora_dynamic :: "bytes \<Rightarrow> u8 list \<Rightarrow> pubkey list \<Rightarrow> detected_swap option option" where
  "decode_meteora_dynamic = decode_anchor DexMeteoraDynamicAmm [METEORA_DYN_SWAP_DISC] 0"

text \<open>The decoders of the two pump programs, which tell buys from sells.\<close>

definition decode_buy_sell :: "swap_dex \<Rightarrow> bytes \<Rightarrow> bytes \<Rightarrow> nat \<Rightarrow> bytes \<Rightarrow> u8 list \<Rightarrow> pubkey list \<Rightarrow> detected_swap option option" where
  "decode_buy_sell dex buy sell pool_index data accs accounts =
     (if length data < 16 then Some None
      else do {
        disc \<leftarrow> slice_get data 0 8;
        if disc = buy then do {
          amount \<leftarrow> read_u64 data 8;
          limit \<leftarrow> optional_u64 data;
          Some (found dex (account_at accs accounts pool_index) amount limit True) }
        else if disc = sell then do {
          amount \<leftarrow> read_u64 data 8;
          limit \<leftarrow> optional_u64 data;
          Some (found dex (account_at accs accounts pool_index) amount limit False) }
        else Some None })"

definition decode_pumpswap :: "bytes \<Rightarrow> u8 list \<Rightarrow> pubkey list \<Rightarrow> detected_swap option option" where
  "decode_pumpswap = decode_buy_sell DexPumpSwap PUMPSWAP_BUY_DISC PUMPSWAP_SELL_DISC 0"

definition decode_pumpfun :: "bytes \<Rightarrow> u8 list \<Rightarrow> pubkey list \<Rightarrow> detected_swap option option" where
  "decode_pumpfun = decode_buy_sell DexPumpFun PUMPFUN_BUY_DISC PUMPFUN_SELL_DISC 2"

definition decode_jupiter :: "bytes \<Rightarrow> u8 list \<Rightarrow> pubkey list \<Rightarrow> detected_swap option option" where
  "decode_jupiter data accs accounts =
     (if length data < 8 then Some None
      else do {
        disc \<leftarrow> slice_get data 0 8;
        if disc \<noteq> JUPITER_ROUTE_DISC \<and> disc \<noteq> JUPITER_ROUTE2_DISC then Some None
        else Some (found DexJupiter (account_at accs accounts 0) 0 0 True) })"

definition decode_instruction :: "pubkey \<Rightarrow> bytes \<Rightarrow> u8 list \<Rightarrow> pubkey list \<Rightarrow> detected_swap option option" where
  "decode_instruction prog data accs accounts =
     (if prog = RAYDIUM_AMM_V4 then decode_raydium_v4 data accs accounts
      else if prog = RAYDIUM_CLMM then decode_raydium_clmm data accs accounts
      else if prog = ORCA_WHIRLPOOL then decode_orca data accs accounts
      else if prog = METEORA_DLMM then decode_meteora data accs accounts
      else if prog = PUMPSWAP then decode_pumpswap data accs accounts
      else if prog = FLUXBEAM then decode_fluxbeam data accs accounts
      else if prog = SABER then decode_saber data accs accounts
      else if prog = RAYDIUM_CPMM then decode_raydium_cpmm data accs accounts
      else if prog = PUMPFUN_BONDING then decode_pumpfun data accs accounts
      else if prog = JUPITER_V6 then decode_jupiter data accs accounts
      else if prog = METEORA_DYNAMIC_AMM then decode_meteora_dynamic data accs accounts
      else Some None)"

fun decode_loop :: "pubkey list \<Rightarrow> (nat \<times> bytes \<times> u8 list) list \<Rightarrow> detected_swap list option" where
  "decode_loop accounts [] = Some []"
| "decode_loop accounts ((prog_idx, data, acc_indices) # ixs) =
     (case idx accounts prog_idx of
        None \<Rightarrow> decode_loop accounts ixs
      | Some prog \<Rightarrow> do {
          swap \<leftarrow> decode_instruction prog data acc_indices accounts;
          rest \<leftarrow> decode_loop accounts ixs;
          Some (case swap of None \<Rightarrow> rest | Some s \<Rightarrow> s # rest) })"

definition decode_swaps :: "versioned_message \<Rightarrow> detected_swap list option" where
  "decode_swaps tx = decode_loop (static_accounts tx) (instructions_with_data tx)"

record swap_info =
  si_signer :: pubkey
  si_program_id :: pubkey
  si_pool :: pubkey
  si_token_in :: pubkey
  si_token_out :: pubkey
  si_amount_in :: u64
  si_amount_out :: u64
  si_a_to_b :: bool

definition enrich_swaps :: "versioned_message \<Rightarrow> detected_swap list \<Rightarrow> (pubkey \<Rightarrow> (pubkey \<times> pubkey) option)
    \<Rightarrow> (pubkey \<Rightarrow> u64 \<Rightarrow> bool \<Rightarrow> u64) \<Rightarrow> swap_info list" where
  "enrich_swaps tx swaps resolve_tokens quote_fn =
     List.map_filter (\<lambda>ds. do {
       (token_a, token_b) \<leftarrow> resolve_tokens (ds_pool ds);
       let (token_in, token_out) = (if ds_a_to_b ds then (token_a, token_b) else (token_b, token_a));
       Some \<lparr>si_signer = tx_signer tx, si_program_id = dex_to_program_id (ds_dex ds), si_pool = ds_pool ds,
         si_token_in = token_in, si_token_out = token_out, si_amount_in = ds_amount_in ds,
         si_amount_out = quote_fn (ds_pool ds) (ds_amount_in ds) (ds_a_to_b ds), si_a_to_b = ds_a_to_b ds\<rparr> }) swaps"

section \<open>Graduations\<close>

record graduation_event =
  ge_token_mint :: pubkey
  ge_pump_pool :: pubkey
  ge_creator :: "pubkey option"
  ge_pool_base_mint :: "pubkey option"
  ge_pool_quote_mint :: "pubkey option"

definition migration :: "pubkey \<Rightarrow> pubkey \<Rightarrow> graduation_event" where
  "migration token_mint pool = \<lparr>ge_token_mint = token_mint, ge_pump_pool = pool, ge_creator = None,
     ge_pool_base_mint = None, ge_pool_quote_mint = None\<rparr>"

text \<open>
  What the body of the loop does with one instruction: pass on to the next (\<open>Continue\<close>), or return from the
  whole function, with an event or, through a failing \<^verbatim>\<open>?\<close>, with \<^verbatim>\<open>None\<close>.
\<close>

datatype loop_result = Continue | Return "graduation_event option"

definition starts_with :: "bytes \<Rightarrow> bytes list \<Rightarrow> bool" where
  "starts_with data discs \<longleftrightarrow> 8 \<le> length data \<and> take 8 data \<in> set discs"

definition detect_create_pool :: "u8 list \<Rightarrow> pubkey list \<Rightarrow> loop_result" where
  "detect_create_pool accs accounts =
     (case (account_at accs accounts 0, idx accs 2, account_at accs accounts 3, account_at accs accounts 4) of
        (Some pump_pool, Some creator_index, Some mint_a, Some mint_b) \<Rightarrow>
          let token_mint = (if mint_a = SOL_MINT then mint_b else mint_a) in
          if token_mint = SOL_MINT then Continue
          else Return (Some \<lparr>ge_token_mint = token_mint, ge_pump_pool = pump_pool,
            ge_creator = idx accounts (unat creator_index), ge_pool_base_mint = Some mint_a,
            ge_pool_quote_mint = Some mint_b\<rparr>)
      | _ \<Rightarrow> Return None)"

definition detect_migration :: "nat \<Rightarrow> nat \<Rightarrow> u8 list \<Rightarrow> pubkey list \<Rightarrow> loop_result" where
  "detect_migration mint_index pool_index accs accounts =
     Return (do {
       token_mint \<leftarrow> account_at accs accounts mint_index;
       pool \<leftarrow> account_at accs accounts pool_index;
       Some (migration token_mint pool) })"

text \<open>The destination of a Moonshot migration: the fourth account, if a DEX program follows the third.\<close>

definition moonshot_pool :: "u8 list \<Rightarrow> pubkey list \<Rightarrow> pubkey \<Rightarrow> pubkey" where
  "moonshot_pool accs accounts fallback =
     (if \<exists>i \<in> set (drop 3 accs). idx accounts (unat i) \<in> Some ` {RAYDIUM_AMM_V4, METEORA_DLMM, METEORA_DYNAMIC_AMM}
      then unwrap_or fallback (account_at accs accounts 3) else fallback)"

definition detect_moonshot :: "u8 list \<Rightarrow> pubkey list \<Rightarrow> loop_result" where
  "detect_moonshot accs accounts =
     Return (do {
       token_mint \<leftarrow> account_at accs accounts 1;
       curve_account \<leftarrow> account_at accs accounts 2;
       Some (migration token_mint (moonshot_pool accs accounts curve_account)) })"

definition detect_instruction :: "pubkey \<Rightarrow> bytes \<Rightarrow> u8 list \<Rightarrow> pubkey list \<Rightarrow> loop_result" where
  "detect_instruction prog data accs accounts =
     (if prog = PUMPSWAP \<and> starts_with data [PUMPSWAP_CREATE_POOL_DISC] then detect_create_pool accs accounts
      else if prog = PUMPFUN_BONDING \<and> starts_with data [PUMPFUN_MIGRATE_DISC] then detect_migration 0 2 accs accounts
      else if prog = RAYDIUM_LAUNCHLAB \<and> starts_with data [LAUNCHLAB_MIGRATE_AMM_DISC, LAUNCHLAB_MIGRATE_CPSWAP_DISC]
      then detect_migration 2 1 accs accounts
      else if prog = MOONSHOT \<and> starts_with data [MOONSHOT_MIGRATE_CAMEL_DISC, MOONSHOT_MIGRATE_SNAKE_DISC,
        MOONIT_MIGRATE_METEORA_DISC, MOONIT_MIGRATION_DAMM_V2_DISC] then detect_moonshot accs accounts
      else Continue)"

fun graduation_loop :: "pubkey list \<Rightarrow> (nat \<times> bytes \<times> u8 list) list \<Rightarrow> graduation_event option" where
  "graduation_loop accounts [] = None"
| "graduation_loop accounts ((prog_idx, data, acc_indices) # ixs) =
     (case idx accounts prog_idx of
        None \<Rightarrow> graduation_loop accounts ixs
      | Some prog \<Rightarrow>
          (case detect_instruction prog data acc_indices accounts of
             Continue \<Rightarrow> graduation_loop accounts ixs
           | Return event \<Rightarrow> event))"

definition detect_graduation :: "versioned_message \<Rightarrow> graduation_event option" where
  "detect_graduation tx = graduation_loop (static_accounts tx) (instructions_with_data tx)"

section \<open>Pool creations\<close>

datatype pool_creation_dex = CreatedRaydiumAmmV4 | CreatedRaydiumCpmm | CreatedOrcaWhirlpool | CreatedMeteoraDlmm

record pool_creation_event =
  pe_pool :: pubkey
  pe_token_a :: pubkey
  pe_token_b :: pubkey
  pe_dex :: pool_creation_dex

text \<open>The event of one kind of creation: its pool and mints at fixed accounts, of which there must be enough.\<close>

definition creation :: "pool_creation_dex \<Rightarrow> nat \<Rightarrow> nat \<Rightarrow> nat \<Rightarrow> nat \<Rightarrow> u8 list \<Rightarrow> pubkey list \<Rightarrow> pool_creation_event list" where
  "creation dex at_least pool_index a_index b_index accs accounts =
     (if length accs > at_least
      then (let at = (\<lambda>i. idx accounts (unat (unwrap_or 0 (idx accs i)))) in
        case (at pool_index, at a_index, at b_index) of
          (Some pool, Some ma, Some mb) \<Rightarrow> [\<lparr>pe_pool = pool, pe_token_a = ma, pe_token_b = mb, pe_dex = dex\<rparr>]
        | _ \<Rightarrow> [])
      else [])"

definition creations_of :: "pubkey \<Rightarrow> bytes \<Rightarrow> u8 list \<Rightarrow> pubkey list \<Rightarrow> pool_creation_event list" where
  "creations_of prog data accs accounts =
     (if prog = RAYDIUM_AMM_V4 \<and> data \<noteq> [] \<and> hd data = RAYDIUM_V4_INITIALIZE2_DISC
      then creation CreatedRaydiumAmmV4 9 4 8 9 accs accounts else [])
     @ (if prog = ORCA_WHIRLPOOL \<and> starts_with data [ORCA_INITIALIZE_POOL_DISC]
        then creation CreatedOrcaWhirlpool 4 4 1 2 accs accounts else [])
     @ (if prog = METEORA_DLMM \<and> starts_with data [METEORA_INITIALIZE_LB_PAIR_DISC]
        then creation CreatedMeteoraDlmm 3 0 2 3 accs accounts else [])
     @ (if prog = RAYDIUM_CPMM \<and> starts_with data [RAYDIUM_CPMM_INITIALIZE_DISC]
        then creation CreatedRaydiumCpmm 6 3 5 6 accs accounts else [])"

definition detect_pool_creations :: "versioned_message \<Rightarrow> pool_creation_event list" where
  "detect_pool_creations tx =
     concat (map (\<lambda>(prog_idx, data, acc_indices).
       case idx (static_accounts tx) prog_idx of
         None \<Rightarrow> []
       | Some prog \<Rightarrow> creations_of prog data acc_indices (static_accounts tx)) (instructions_with_data tx))"

end
