(* ===== verification/Swap_Detection.thy ===== *)
theory Swap_Detection
  imports Swap_Decoder
begin

text \<open>
  What the swap decoder promises: it never panics, and every swap it reports comes from an instruction of the
  program it names; the layouts it knows are read back; the graduation of a token is found unless an earlier
  instruction that looks like one names an account outside the static keys, which ends the search.
\<close>

section \<open>Decoding never panics\<close>

text \<open>A result that is no panic, and no swap but one on \<open>dex\<close> at an account of the message.\<close>

definition sound_result :: "swap_dex \<Rightarrow> pubkey list \<Rightarrow> detected_swap option option \<Rightarrow> bool" where
  "sound_result dex accounts r \<longleftrightarrow>
     (case r of
        None \<Rightarrow> False
      | Some None \<Rightarrow> True
      | Some (Some s) \<Rightarrow> ds_dex s = dex \<and> ds_pool s \<in> set accounts)"

lemma account_at_in: "account_at accs accounts i = Some k \<Longrightarrow> k \<in> set accounts"
  by (auto simp: account_at_def idx_Some split: bind_splits)

lemma sound_result_simps [simp]:
  "sound_result dex accounts (Some None)"
  "sound_result dex accounts (Some (found dex (account_at accs accounts i) amount_in limit d))"
  by (auto simp: sound_result_def found_def dest: account_at_in split: option.split)

lemma optional_u64_in [buf_simps]: "optional_u64 data = Some (if 24 \<le> length data then word_at data 16 else 0)"
  by (simp add: optional_u64_def buf_simps word_at_def)

lemma sound_decoders:
  "sound_result DexRaydiumAmmV4 accounts (decode_raydium_v4 data accs accounts)"
  "sound_result DexFluxbeam accounts (decode_fluxbeam data accs accounts)"
  "sound_result DexSaber accounts (decode_saber data accs accounts)"
  "sound_result DexRaydiumClmm accounts (decode_raydium_clmm data accs accounts)"
  "sound_result DexOrcaWhirlpool accounts (decode_orca data accs accounts)"
  "sound_result DexMeteoraDlmm accounts (decode_meteora data accs accounts)"
  "sound_result DexRaydiumCpmm accounts (decode_raydium_cpmm data accs accounts)"
  "sound_result DexMeteoraDynamicAmm accounts (decode_meteora_dynamic data accs accounts)"
  "sound_result DexPumpSwap accounts (decode_pumpswap data accs accounts)"
  "sound_result DexPumpFun accounts (decode_pumpfun data accs accounts)"
  "sound_result DexJupiter accounts (decode_jupiter data accs accounts)"
  by (auto simp: decode_raydium_v4_def decode_fluxbeam_def decode_saber_def decode_tagged_def
      decode_raydium_clmm_def decode_orca_def decode_meteora_def decode_raydium_cpmm_def
      decode_meteora_dynamic_def decode_anchor_def decode_pumpswap_def decode_pumpfun_def decode_buy_sell_def
      decode_jupiter_def idx_def buf_simps)

text \<open>The same for the program of an instruction.\<close>

definition sound_for :: "pubkey \<Rightarrow> pubkey list \<Rightarrow> detected_swap option option \<Rightarrow> bool" where
  "sound_for prog accounts r \<longleftrightarrow>
     (case r of
        None \<Rightarrow> False
      | Some None \<Rightarrow> True
      | Some (Some s) \<Rightarrow> prog = dex_to_program_id (ds_dex s) \<and> ds_pool s \<in> set accounts)"

lemma sound_forI: "sound_result dex accounts r \<Longrightarrow> prog = dex_to_program_id dex \<Longrightarrow> sound_for prog accounts r"
  by (auto simp: sound_for_def sound_result_def split: option.splits)

lemma sound_for_if: "(c \<Longrightarrow> sound_for prog accounts x) \<Longrightarrow> (\<not> c \<Longrightarrow> sound_for prog accounts y) \<Longrightarrow>
    sound_for prog accounts (if c then x else y)"
  by simp

lemma sound_for_none: "sound_for prog accounts (Some None)"
  by (simp add: sound_for_def)

lemma decode_instruction_sound: "sound_for prog accounts (decode_instruction prog data accs accounts)"
  unfolding decode_instruction_def
  by (intro sound_for_if sound_for_none; rule sound_forI, rule sound_decoders, simp only: dex_to_program_id.simps)

lemma decode_loop_sound:
  "\<exists>swaps. decode_loop accounts ixs = Some swaps \<and> length swaps \<le> length ixs
     \<and> (\<forall>s \<in> set swaps. ds_pool s \<in> set accounts
          \<and> (\<exists>ix \<in> set ixs. idx accounts (fst ix) = Some (dex_to_program_id (ds_dex s))))"
proof (induction ixs)
  case (Cons ix ixs)
  obtain prog_idx data accs where ix: "ix = (prog_idx, data, accs)" by (cases ix)
  obtain swaps where IH: "decode_loop accounts ixs = Some swaps" "length swaps \<le> length ixs"
    "\<forall>s \<in> set swaps. ds_pool s \<in> set accounts
          \<and> (\<exists>ix \<in> set ixs. idx accounts (fst ix) = Some (dex_to_program_id (ds_dex s)))"
    using Cons.IH by blast
  show ?case
  proof (cases "idx accounts prog_idx")
    case None
    with IH show ?thesis by (auto simp: ix)
  next
    case (Some prog)
    with decode_instruction_sound [of prog accounts data accs] IH show ?thesis
      by (auto simp: ix sound_for_def split: option.splits)
  qed
qed simp

text \<open>
  Property C20. Decoding the swaps of a transaction never panics, whatever its instructions, and reports at most
  one swap per instruction, each on the DEX whose program the instruction calls and at a pool that is one of
  the static account keys.
\<close>

theorem decode_swaps_sound:
  "case decode_swaps tx of
     None \<Rightarrow> False
   | Some swaps \<Rightarrow> length swaps \<le> length (instructions_with_data tx)
       \<and> set swaps \<subseteq> {s. ds_pool s \<in> set (static_accounts tx)
           \<and> (\<exists>prog_idx data accs. (prog_idx, data, accs) \<in> set (instructions_with_data tx)
                \<and> idx (static_accounts tx) prog_idx = Some (dex_to_program_id (ds_dex s)))}"
  using decode_loop_sound [of "static_accounts tx" "instructions_with_data tx"]
  by (fastforce simp: decode_swaps_def)

section \<open>The layouts are read back\<close>

text \<open>
  The instruction data of a swap, where its DEX can express it: only Orca, Raydium CLMM and the pump programs
  carry a direction the decoder reads. \<open>price_limit\<close> is Orca's limit, which the decoder skips.
\<close>

definition amounts :: "detected_swap \<Rightarrow> bytes" where
  "amounts s = u64_to_le (ds_amount_in s) @ u64_to_le (ds_amount_out_min s)"

definition direction :: "detected_swap \<Rightarrow> u8" where
  "direction s = (if ds_a_to_b s then 1 else 0)"

fun swap_layout :: "bytes \<Rightarrow> swap_dex \<Rightarrow> detected_swap \<Rightarrow> bytes" where
  "swap_layout price_limit DexRaydiumAmmV4 s = RAYDIUM_SWAP_DISC # amounts s"
| "swap_layout price_limit DexFluxbeam s = FLUXBEAM_SWAP_DISC # amounts s"
| "swap_layout price_limit DexSaber s = SABER_SWAP_DISC # amounts s"
| "swap_layout price_limit DexRaydiumClmm s = RAYDIUM_CLMM_SWAP_V2_DISC @ amounts s @ [direction s]"
| "swap_layout price_limit DexOrcaWhirlpool s = ORCA_SWAP_DISC @ amounts s @ price_limit @ [1, direction s]"
| "swap_layout price_limit DexMeteoraDlmm s = METEORA_SWAP_DISC @ amounts s"
| "swap_layout price_limit DexMeteoraDynamicAmm s = METEORA_DYN_SWAP_DISC @ amounts s"
| "swap_layout price_limit DexRaydiumCpmm s = RAYDIUM_CPMM_SWAP_BASE_INPUT_DISC @ amounts s"
| "swap_layout price_limit DexPumpSwap s = (if ds_a_to_b s then PUMPSWAP_BUY_DISC else PUMPSWAP_SELL_DISC) @ amounts s"
| "swap_layout price_limit DexPumpFun s = (if ds_a_to_b s then PUMPFUN_BUY_DISC else PUMPFUN_SELL_DISC) @ amounts s"
| "swap_layout price_limit DexJupiter s = JUPITER_ROUTE_DISC"

fun pool_position :: "swap_dex \<Rightarrow> nat" where
  "pool_position DexRaydiumAmmV4 = 1" | "pool_position DexFluxbeam = 1" | "pool_position DexSaber = 1"
| "pool_position DexRaydiumClmm = 2" | "pool_position DexOrcaWhirlpool = 2" | "pool_position DexMeteoraDlmm = 0"
| "pool_position DexMeteoraDynamicAmm = 0" | "pool_position DexRaydiumCpmm = 2" | "pool_position DexPumpSwap = 0"
| "pool_position DexPumpFun = 2" | "pool_position DexJupiter = 0"

definition expressible :: "detected_swap \<Rightarrow> bool" where
  "expressible s \<longleftrightarrow>
     (if ds_dex s = DexJupiter then ds_a_to_b s \<and> ds_amount_in s = 0 \<and> ds_amount_out_min s = 0
      else if ds_dex s \<in> {DexOrcaWhirlpool, DexRaydiumClmm, DexPumpSwap, DexPumpFun} then True
      else ds_a_to_b s)"

lemmas disc_defs = RAYDIUM_SWAP_DISC_def FLUXBEAM_SWAP_DISC_def SABER_SWAP_DISC_def RAYDIUM_CLMM_SWAP_V2_DISC_def
  ORCA_SWAP_DISC_def METEORA_SWAP_DISC_def METEORA_DYN_SWAP_DISC_def RAYDIUM_CPMM_SWAP_BASE_INPUT_DISC_def
  PUMPSWAP_BUY_DISC_def PUMPSWAP_SELL_DISC_def PUMPFUN_BUY_DISC_def PUMPFUN_SELL_DISC_def JUPITER_ROUTE_DISC_def

lemmas decoder_defs = decode_instruction_def decode_raydium_v4_def decode_fluxbeam_def decode_saber_def decode_tagged_def
  decode_raydium_clmm_def decode_orca_def decode_meteora_def decode_raydium_cpmm_def decode_meteora_dynamic_def
  decode_anchor_def decode_pumpswap_def decode_pumpfun_def decode_buy_sell_def decode_jupiter_def optional_u64_def

lemmas layout_defs = amounts_def direction_def expressible_def found_def read_u64_def slice_get_def idx_def nth_append



section \<open>Graduations\<close>

text \<open>What the loop makes of one instruction.\<close>

definition examine :: "pubkey list \<Rightarrow> nat \<times> bytes \<times> u8 list \<Rightarrow> loop_result" where
  "examine accounts = (\<lambda>(prog_idx, data, accs).
     case idx accounts prog_idx of None \<Rightarrow> Continue | Some prog \<Rightarrow> detect_instruction prog data accs accounts)"

lemma graduation_loop_examine:
  "graduation_loop accounts ixs =
     (case List.find (\<lambda>ix. examine accounts ix \<noteq> Continue) ixs of
        None \<Rightarrow> None
      | Some ix \<Rightarrow> (case examine accounts ix of Continue \<Rightarrow> None | Return event \<Rightarrow> event))"
  by (induction ixs) (auto simp: examine_def split: option.splits loop_result.splits)

text \<open>A PumpSwap pool creation on five accounts, and the migration of a bonding curve that names a loaded account.\<close>

definition create_pool_ix :: compiled_instruction where
  "create_pool_ix = \<lparr>ci_program_id_index = 0, ci_accounts = [1, 2, 3, 4, 5], ci_data = PUMPSWAP_CREATE_POOL_DISC\<rparr>"

definition unresolved_ix :: compiled_instruction where
  "unresolved_ix = \<lparr>ci_program_id_index = 6, ci_accounts = [4, 2, 200], ci_data = PUMPFUN_MIGRATE_DISC\<rparr>"

definition graduation_keys :: "pubkey list" where
  "graduation_keys = [PUMPSWAP, 101, 102, 103, 104, SOL_MINT, PUMPFUN_BONDING]"

text \<open>
  The search for a graduation returns what the first instruction that is not passed over gives. When
  that one lacks an account among the static keys this is nothing, so a graduation that follows it is missed: a
  pool creation is found alone, but not behind a migration whose pool is a loaded account.
\<close>

theorem graduation_first_match:
  "detect_graduation tx =
     (case List.find (\<lambda>ix. examine (static_accounts tx) ix \<noteq> Continue) (instructions_with_data tx) of
        None \<Rightarrow> None
      | Some ix \<Rightarrow> (case examine (static_accounts tx) ix of Continue \<Rightarrow> None | Return event \<Rightarrow> event))
   \<and> detect_graduation (V0 \<lparr>msg_account_keys = graduation_keys, msg_instructions = [create_pool_ix]\<rparr>)
     = Some \<lparr>ge_token_mint = 104, ge_pump_pool = 101, ge_creator = Some 103, ge_pool_base_mint = Some 104,
         ge_pool_quote_mint = Some SOL_MINT\<rparr>
   \<and> detect_graduation (V0 \<lparr>msg_account_keys = graduation_keys, msg_instructions = [unresolved_ix, create_pool_ix]\<rparr>) = None"
proof (intro conjI)
  show "detect_graduation tx =
     (case List.find (\<lambda>ix. examine (static_accounts tx) ix \<noteq> Continue) (instructions_with_data tx) of
        None \<Rightarrow> None
      | Some ix \<Rightarrow> (case examine (static_accounts tx) ix of Continue \<Rightarrow> None | Return event \<Rightarrow> event))"
    unfolding detect_graduation_def by (rule graduation_loop_examine)
qed (simp_all add: detect_graduation_def graduation_keys_def create_pool_ix_def unresolved_ix_def detect_instruction_def
    starts_with_def detect_create_pool_def detect_migration_def account_at_def idx_def
    PUMPSWAP_CREATE_POOL_DISC_def PUMPFUN_MIGRATE_DISC_def)

end
