(* ===== verification/Shred_Delta.thy ===== *)
theory Shred_Delta
  imports Pool_Cache Swap_Decoder
begin

text \<open>
  The shred delta tracker, \<^verbatim>\<open>market-engine/src/shred_delta_tracker.rs\<close>: swaps and token transfers seen in the
  shreds move the reserves of the cached pools ahead of the polled balances. The tracker owns the pool cache
  it updates. The opportunity scanner is a parameter: what it finds on a cache after an update of a pool; \<open>dt_routes\<close> lists what
  was offered to the executor's channel. The clock is an argument.
\<close>

section \<open>State\<close>

definition TOKEN_2022 :: pubkey where \<comment> \<open>TokenzQdBNbLqP5VEhdkAS6EPFLC1PHnBqCXEpPxuEb\<close>
  [simp]: "TOKEN_2022 = 0x06DDF6E1EE758FDE18425DBCE46CCDDAB61AFC4D83B90D27FEBDF928D8A18BFC"

definition TRANSFER_DISC :: u8 where [simp]: "TRANSFER_DISC = 3"
definition TRANSFER_CHECKED_DISC :: u8 where [simp]: "TRANSFER_CHECKED_DISC = 12"

record 'r delta_tracker =
  dt_pool_cache :: pool_cache
  dt_vault_to_pool :: "(pubkey \<times> (pubkey \<times> bool)) list"
  dt_pool_swap_counts :: "(pubkey \<times> u64) list"
  dt_unknown_pools :: "(pubkey \<times> (string \<times> u64)) list"
  dt_dirty_vaults :: "(pubkey \<times> nat) list"
  dt_txs_scanned :: u64
  dt_transfers_found :: u64
  dt_vault_updates :: u64
  dt_routes :: "'r list"

text \<open>Inserting every entry of an index.\<close>

definition index_into :: "(pubkey \<times> (pubkey \<times> bool)) list \<Rightarrow> (pubkey \<times> (pubkey \<times> bool)) list \<Rightarrow> (pubkey \<times> (pubkey \<times> bool)) list" where
  "index_into index m = fold (\<lambda>(vault, entry) m. AList.update vault entry m) index m"

definition new_delta_tracker :: "pool_cache \<Rightarrow> 'r delta_tracker" where
  "new_delta_tracker cache = \<lparr>dt_pool_cache = cache, dt_vault_to_pool = index_into (build_vault_index cache) [],
     dt_pool_swap_counts = [], dt_unknown_pools = [], dt_dirty_vaults = [], dt_txs_scanned = 0,
     dt_transfers_found = 0, dt_vault_updates = 0, dt_routes = []\<rparr>"

definition register_vault :: "pubkey \<Rightarrow> pubkey \<Rightarrow> bool \<Rightarrow> 'r delta_tracker \<Rightarrow> 'r delta_tracker" where
  "register_vault vault pool is_vault_a t =
     t\<lparr>dt_vault_to_pool := AList.update vault (pool, is_vault_a) (dt_vault_to_pool t)\<rparr>"

definition reindex :: "'r delta_tracker \<Rightarrow> 'r delta_tracker" where
  "reindex t = t\<lparr>dt_vault_to_pool := index_into (build_vault_index (dt_pool_cache t)) (dt_vault_to_pool t)\<rparr>"

definition count_vault_update :: "'r delta_tracker \<Rightarrow> 'r delta_tracker" where
  "count_vault_update t = t\<lparr>dt_vault_updates := dt_vault_updates t + 1\<rparr>"

section \<open>Simulated swaps\<close>

definition swap_amount_in :: "pubkey \<Rightarrow> bytes \<Rightarrow> u64 option" where
  "swap_amount_in pid data =
     (if pid = RAYDIUM_AMM_V4 \<and> 9 \<le> length data \<and> hd data = 9 then Some (word_at data 1)
      else if pid = PUMPSWAP \<and> 16 \<le> length data then Some (word_at data 8)
      else None)"

text \<open>What a swap of \<open>amount_in\<close> pays on given reserves; the fee wraps in \<^verbatim>\<open>u64\<close>.\<close>

definition simulated_out :: "u64 \<Rightarrow> u64 \<Rightarrow> u64 \<Rightarrow> u64 \<Rightarrow> u64" where
  "simulated_out reserve_in reserve_out amount_in fee_bps =
     (let fee = amount_in * fee_bps div 10000;
          net_in = sat_sub amount_in fee in
      narrow (widen reserve_out * widen net_in div (widen reserve_in + widen net_in)))"

definition simulate_swap :: "nat \<Rightarrow> u64 \<Rightarrow> bool \<Rightarrow> dex_pool \<Rightarrow> dex_pool" where
  "simulate_swap now amount_in is_vault_a pool =
     (let (ra, rb) = effective_reserves now pool in
      if is_vault_a
      then apply_shred_delta now (sint amount_in)
        (wrap64 (- sint (simulated_out ra rb amount_in (dp_fee_bps pool)))) pool
      else apply_shred_delta now
        (wrap64 (- sint (simulated_out rb ra amount_in (dp_fee_bps pool)))) (sint amount_in) pool)"

text \<open>The search for a tracked vault among the accounts; a pool without reserves does not end it.\<close>

fun swap_accounts :: "nat \<Rightarrow> u64 \<Rightarrow> pubkey list \<Rightarrow> u8 list \<Rightarrow> 'r delta_tracker \<Rightarrow> 'r delta_tracker" where
  "swap_accounts now amount_in keys [] t = t"
| "swap_accounts now amount_in keys (acct # accts) t =
     (case idx keys (unat acct) of
        None \<Rightarrow> swap_accounts now amount_in keys accts t
      | Some key \<Rightarrow>
          (case map_of (dt_vault_to_pool t) key of
             None \<Rightarrow> swap_accounts now amount_in keys accts t
           | Some (pool_addr, is_vault_a) \<Rightarrow>
               (case get_pool (dt_pool_cache t) pool_addr of
                  None \<Rightarrow> t
                | Some pool \<Rightarrow>
                    let (ra, rb) = effective_reserves now pool in
                    if ra = 0 \<or> rb = 0 then swap_accounts now amount_in keys accts t
                    else (count_vault_update t)
                      \<lparr>dt_pool_cache := bump_swap_generation
                         (modify_pool pool_addr (simulate_swap now amount_in is_vault_a) (dt_pool_cache t)),
                       dt_dirty_vaults := AList.update key now (dt_dirty_vaults t)\<rparr>)))"

fun touch_accounts :: "pubkey list \<Rightarrow> u8 list \<Rightarrow> 'r delta_tracker \<Rightarrow> 'r delta_tracker" where
  "touch_accounts keys [] t = t"
| "touch_accounts keys (acct # accts) t =
     (case idx keys (unat acct) of
        None \<Rightarrow> touch_accounts keys accts t
      | Some key \<Rightarrow>
          if map_of (dt_vault_to_pool t) key \<noteq> None
          then (count_vault_update t)\<lparr>dt_pool_cache := bump_swap_generation (dt_pool_cache t)\<rparr>
          else touch_accounts keys accts t)"

definition swap_instruction :: "nat \<Rightarrow> pubkey list \<Rightarrow> compiled_instruction \<Rightarrow> 'r delta_tracker \<Rightarrow> 'r delta_tracker" where
  "swap_instruction now keys ix t =
     (case idx keys (unat (ci_program_id_index ix)) of
        None \<Rightarrow> t
      | Some pid \<Rightarrow>
          if pid = RAYDIUM_AMM_V4 \<or> pid = PUMPSWAP
          then (case swap_amount_in pid (ci_data ix) of
              None \<Rightarrow> t
            | Some amount_in \<Rightarrow> if amount_in = 0 then t else swap_accounts now amount_in keys (ci_accounts ix) t)
          else if pid = ORCA_WHIRLPOOL \<or> pid = METEORA_DLMM then touch_accounts keys (ci_accounts ix) t
          else t)"

section \<open>Token transfers\<close>

definition shift_reserve :: "bool \<Rightarrow> u64 \<Rightarrow> bool \<Rightarrow> dex_pool \<Rightarrow> dex_pool" where
  "shift_reserve is_a amount credit pool =
     (let shift = (\<lambda>old. if credit then sat_add old amount else sat_sub old amount) in
      if is_a then pool\<lparr>dp_reserve_a := shift (dp_reserve_a pool)\<rparr>
      else pool\<lparr>dp_reserve_b := shift (dp_reserve_b pool)\<rparr>)"

definition apply_delta :: "(pool_cache \<Rightarrow> pubkey \<Rightarrow> 'r list) option \<Rightarrow> pubkey \<Rightarrow> bool \<Rightarrow> u64 \<Rightarrow> bool \<Rightarrow> 'r delta_tracker \<Rightarrow> 'r delta_tracker" where
  "apply_delta scanner pool is_a amount credit t =
     (case get_pool (dt_pool_cache t) pool of
        None \<Rightarrow> count_vault_update t
      | Some _ \<Rightarrow>
          let cache = bump_swap_generation (modify_pool pool (shift_reserve is_a amount credit) (dt_pool_cache t));
              t = (count_vault_update t)\<lparr>dt_pool_cache := cache\<rparr> in
          (case scanner of None \<Rightarrow> t | Some scan \<Rightarrow> t\<lparr>dt_routes := dt_routes t @ scan cache pool\<rparr>))"

definition transfer_amount :: "compiled_instruction \<Rightarrow> u64 option" where
  "transfer_amount ix =
     (case ci_data ix of
        [] \<Rightarrow> None
      | disc # _ \<Rightarrow>
          if disc = TRANSFER_DISC \<and> 9 \<le> length (ci_data ix) \<and> 3 \<le> length (ci_accounts ix) then Some (word_at (ci_data ix) 1)
          else if disc = TRANSFER_CHECKED_DISC \<and> 9 \<le> length (ci_data ix) \<and> 4 \<le> length (ci_accounts ix)
          then Some (word_at (ci_data ix) 1)
          else None)"

definition apply_side :: "(pool_cache \<Rightarrow> pubkey \<Rightarrow> 'r list) option \<Rightarrow> pubkey option \<Rightarrow> u64 \<Rightarrow> bool \<Rightarrow> 'r delta_tracker \<Rightarrow> 'r delta_tracker" where
  "apply_side scanner side amount credit t =
     (case side of
        None \<Rightarrow> t
      | Some vault \<Rightarrow>
          (case map_of (dt_vault_to_pool t) vault of
             None \<Rightarrow> t
           | Some (pool, is_a) \<Rightarrow> apply_delta scanner pool is_a amount credit t))"

definition transfer_instruction :: "(pool_cache \<Rightarrow> pubkey \<Rightarrow> 'r list) option \<Rightarrow> pubkey list \<Rightarrow> compiled_instruction \<Rightarrow> 'r delta_tracker \<Rightarrow> 'r delta_tracker" where
  "transfer_instruction scanner keys ix t =
     (case idx keys (unat (ci_program_id_index ix)) of
        None \<Rightarrow> t
      | Some pid \<Rightarrow>
          if pid \<noteq> TOKEN_PROGRAM_ID \<and> pid \<noteq> TOKEN_2022 then t
          else case transfer_amount ix of
              None \<Rightarrow> t
            | Some amount \<Rightarrow>
                if amount = 0 then t
                else let t = t\<lparr>dt_transfers_found := dt_transfers_found t + 1\<rparr>;
                         dst_idx = (if hd (ci_data ix) = TRANSFER_DISC then 1 else 2);
                         source = account_at (ci_accounts ix) keys 0;
                         dest = account_at (ci_accounts ix) keys dst_idx in
                  apply_side scanner dest amount True (apply_side scanner source amount False t))"

definition process_transaction :: "(pool_cache \<Rightarrow> pubkey \<Rightarrow> 'r list) option \<Rightarrow> nat \<Rightarrow> message \<Rightarrow> 'r delta_tracker \<Rightarrow> 'r delta_tracker" where
  "process_transaction scanner now msg t =
     (let t = t\<lparr>dt_txs_scanned := dt_txs_scanned t + 1\<rparr>;
          keys = msg_account_keys msg;
          t = fold (swap_instruction now keys) (msg_instructions msg) t in
      fold (transfer_instruction scanner keys) (msg_instructions msg) t)"

section \<open>Activity\<close>

definition identify_dex :: "pubkey \<Rightarrow> string option" where
  "identify_dex program_id =
     (if program_id = RAYDIUM_AMM_V4 then Some ''raydium_v4''
      else if program_id = ORCA_WHIRLPOOL then Some ''orca''
      else if program_id = METEORA_DLMM then Some ''meteora''
      else if program_id = PUMPSWAP then Some ''pumpswap''
      else None)"

definition note_activity :: "u64 \<Rightarrow> pubkey list \<Rightarrow> compiled_instruction \<Rightarrow> 'r delta_tracker \<Rightarrow> 'r delta_tracker" where
  "note_activity slot keys ix t =
     (case Option.bind (idx keys (unat (ci_program_id_index ix))) identify_dex of
        None \<Rightarrow> t
      | Some dex \<Rightarrow>
          (case account_at (ci_accounts ix) keys 0 of
             None \<Rightarrow> t
           | Some pool \<Rightarrow>
               let t = t\<lparr>dt_pool_swap_counts := AList.update pool
                     (unwrap_or 0 (map_of (dt_pool_swap_counts t) pool) + 1) (dt_pool_swap_counts t)\<rparr> in
               if get_pool (dt_pool_cache t) pool = None \<and> map_of (dt_unknown_pools t) pool = None
               then t\<lparr>dt_unknown_pools := AList.update pool (dex, slot) (dt_unknown_pools t)\<rparr>
               else t))"

definition detect_dex_activity :: "u64 \<Rightarrow> message \<Rightarrow> 'r delta_tracker \<Rightarrow> 'r delta_tracker" where
  "detect_dex_activity slot msg = fold (note_activity slot (msg_account_keys msg)) (msg_instructions msg)"

definition hot_pools_by_activity :: "nat \<Rightarrow> 'r delta_tracker \<Rightarrow> (pubkey \<times> u64) list" where
  "hot_pools_by_activity top_n t = take top_n (sort_key (\<lambda>p. - uint (snd p)) (dt_pool_swap_counts t))"

definition unknown_pools_discovered :: "'r delta_tracker \<Rightarrow> (pubkey \<times> string \<times> u64) list" where
  "unknown_pools_discovered t = map (\<lambda>(k, dex, slot). (k, dex, slot)) (dt_unknown_pools t)"

definition reset_activity_counters :: "'r delta_tracker \<Rightarrow> 'r delta_tracker" where
  "reset_activity_counters t = t\<lparr>dt_pool_swap_counts := []\<rparr>"

section \<open>Vault refreshes\<close>

definition drain_dirty_vaults :: "nat \<Rightarrow> 'r delta_tracker \<Rightarrow> pubkey list \<times> 'r delta_tracker" where
  "drain_dirty_vaults limit t =
     (let vaults = take limit (map fst (dt_dirty_vaults t)) in
      (vaults, t\<lparr>dt_dirty_vaults := fold AList.delete vaults (dt_dirty_vaults t)\<rparr>))"

definition set_balance :: "nat \<Rightarrow> bool \<Rightarrow> u64 \<Rightarrow> dex_pool \<Rightarrow> dex_pool" where
  "set_balance now is_vault_a balance pool =
     (if is_vault_a then pool\<lparr>dp_reserve_a := balance, dp_reserve_a_optimistic := balance\<rparr>
      else pool\<lparr>dp_reserve_b := balance, dp_reserve_b_optimistic := balance\<rparr>)
     \<lparr>dp_last_shred_update := now, dp_last_updated := now\<rparr>"

definition apply_vault_balances :: "nat \<Rightarrow> (pubkey \<times> u64) list \<Rightarrow> 'r delta_tracker \<Rightarrow> 'r delta_tracker" where
  "apply_vault_balances now balances t =
     (let cache = fold (\<lambda>(vault_key, balance) cache.
            case map_of (dt_vault_to_pool t) vault_key of
              None \<Rightarrow> cache
            | Some (pool_addr, is_vault_a) \<Rightarrow> modify_pool pool_addr (set_balance now is_vault_a balance) cache)
            balances (dt_pool_cache t) in
      t\<lparr>dt_pool_cache := if balances = [] then cache else bump_swap_generation cache\<rparr>)"

end
