(* ===== verification/Delta_Tracking.thy ===== *)
theory Delta_Tracking
  imports Shred_Delta
begin

text \<open>
  What the delta tracker promises. Its calls and those of the pool cache it shares, interleaved in any order,
  never fail and keep the lookup of pools complete; draining hands out every dirty vault exactly once; and a
  simulated swap never lowers the product of the reserves the quotes use.
\<close>

section \<open>The tracker and its cache as a machine\<close>

datatype tracker_call =
    CacheCall pool_call
  | RegisterVault pubkey pubkey bool
  | Reindex
  | ProcessTransaction nat message
  | DetectDexActivity u64 message
  | DrainDirtyVaults nat
  | ApplyVaultBalances nat "(pubkey \<times> u64) list"
  | ResetActivityCounters

fun tracker_step :: "'f f64_ops \<Rightarrow> (pool_cache \<Rightarrow> pubkey \<Rightarrow> 'r list) option \<Rightarrow> tracker_call \<Rightarrow> 'r delta_tracker \<Rightarrow> 'r delta_tracker option" where
  "tracker_step fl scanner (CacheCall call) t =
     map_option (\<lambda>cache. t\<lparr>dt_pool_cache := cache\<rparr>) (cache_step fl call (dt_pool_cache t))"
| "tracker_step fl scanner (RegisterVault vault pool is_vault_a) t = Some (register_vault vault pool is_vault_a t)"
| "tracker_step fl scanner Reindex t = Some (reindex t)"
| "tracker_step fl scanner (ProcessTransaction now msg) t = Some (process_transaction scanner now msg t)"
| "tracker_step fl scanner (DetectDexActivity slot msg) t = Some (detect_dex_activity slot msg t)"
| "tracker_step fl scanner (DrainDirtyVaults limit) t = Some (snd (drain_dirty_vaults limit t))"
| "tracker_step fl scanner (ApplyVaultBalances now balances) t = Some (apply_vault_balances now balances t)"
| "tracker_step fl scanner ResetActivityCounters t = Some (reset_activity_counters t)"

definition tracker_inv :: "'r delta_tracker \<Rightarrow> bool" where
  "tracker_inv t \<longleftrightarrow> cache_inv (dt_pool_cache t) \<and> distinct (map fst (dt_dirty_vaults t))"

text \<open>What only touches other fields, or moves pools in place, keeps the invariant.\<close>

lemma tracker_inv_fields [simp]:
  "tracker_inv (t\<lparr>dt_vault_to_pool := x\<rparr>) = tracker_inv t"
  "tracker_inv (t\<lparr>dt_pool_swap_counts := c\<rparr>) = tracker_inv t"
  "tracker_inv (t\<lparr>dt_unknown_pools := u\<rparr>) = tracker_inv t"
  "tracker_inv (t\<lparr>dt_txs_scanned := n\<rparr>) = tracker_inv t"
  "tracker_inv (t\<lparr>dt_transfers_found := n\<rparr>) = tracker_inv t"
  "tracker_inv (t\<lparr>dt_vault_updates := n\<rparr>) = tracker_inv t"
  "tracker_inv (t\<lparr>dt_routes := r\<rparr>) = tracker_inv t"
  by (simp_all add: tracker_inv_def)

lemma tracker_inv_cache: "tracker_inv t \<Longrightarrow> cache_inv cache \<Longrightarrow> tracker_inv (t\<lparr>dt_pool_cache := cache\<rparr>)"
  by (simp add: tracker_inv_def)

lemma tracker_inv_dirty: "tracker_inv t \<Longrightarrow> tracker_inv (t\<lparr>dt_dirty_vaults := AList.update key now (dt_dirty_vaults t)\<rparr>)"
  by (simp add: tracker_inv_def distinct_update)

lemma tracker_inv_cacheD: "tracker_inv t \<Longrightarrow> cache_inv (dt_pool_cache t)"
  by (simp add: tracker_inv_def)

lemma keeps_identity_deltas:
  "keeps_identity (simulate_swap now amount_in is_vault_a)"
  "keeps_identity (shift_reserve is_a amount credit)"
  "keeps_identity (set_balance now is_vault_a balance)"
  by (auto simp: keeps_identity_def pair_of_pool_def simulate_swap_def apply_shred_delta_def shift_reserve_def
      set_balance_def Let_def split: prod.split)

lemma cache_inv_bump: "cache_inv s \<Longrightarrow> cache_inv (bump_swap_generation s)"
  by (simp add: bump_swap_generation_def inv_generation)

lemma tracker_inv_swap_accounts: "tracker_inv t \<Longrightarrow> tracker_inv (swap_accounts now amount_in keys accts t)"
proof (induction now amount_in keys accts t rule: swap_accounts.induct)
  case (2 now amount_in keys acct accts t)
  have "tracker_inv ((count_vault_update t)
      \<lparr>dt_pool_cache := bump_swap_generation (modify_pool addr (simulate_swap now amount_in a) (dt_pool_cache t)),
       dt_dirty_vaults := AList.update key now (dt_dirty_vaults t)\<rparr>)" for addr a key
    using 2(4) by (auto simp: tracker_inv_def count_vault_update_def distinct_update
        intro!: cache_inv_bump inv_modify keeps_identity_deltas)
  with 2 show ?case
    by (auto split: option.split prod.split)
qed simp

lemma tracker_inv_touch_accounts: "tracker_inv t \<Longrightarrow> tracker_inv (touch_accounts keys accts t)"
  by (induction keys accts t rule: touch_accounts.induct)
    (auto simp: count_vault_update_def intro!: tracker_inv_cache cache_inv_bump dest: tracker_inv_cacheD split: option.split)

lemma tracker_inv_swap_instruction: "tracker_inv t \<Longrightarrow> tracker_inv (swap_instruction now keys ix t)"
  by (simp add: swap_instruction_def tracker_inv_swap_accounts tracker_inv_touch_accounts split: option.split)

lemma tracker_inv_apply_delta: "tracker_inv t \<Longrightarrow> tracker_inv (apply_delta scanner pool is_a amount credit t)"
  by (auto simp: apply_delta_def count_vault_update_def Let_def intro!: tracker_inv_cache cache_inv_bump inv_modify
      keeps_identity_deltas dest: tracker_inv_cacheD split: option.split)

lemma tracker_inv_transfer_instruction: "tracker_inv t \<Longrightarrow> tracker_inv (transfer_instruction scanner keys ix t)"
  by (auto simp: transfer_instruction_def apply_side_def Let_def intro!: tracker_inv_apply_delta split: option.split prod.split)

lemma tracker_inv_fold: "(\<And>x t. tracker_inv t \<Longrightarrow> tracker_inv (f x t)) \<Longrightarrow> tracker_inv t \<Longrightarrow> tracker_inv (fold f xs t)"
  by (induction xs arbitrary: t) auto

lemma tracker_inv_process_transaction: "tracker_inv t \<Longrightarrow> tracker_inv (process_transaction scanner now msg t)"
  by (auto simp: process_transaction_def Let_def
      intro!: tracker_inv_fold tracker_inv_transfer_instruction tracker_inv_swap_instruction)

lemma tracker_inv_activity: "tracker_inv t \<Longrightarrow> tracker_inv (detect_dex_activity slot msg t)"
  by (auto simp: detect_dex_activity_def note_activity_def Let_def intro!: tracker_inv_fold split: option.split)

lemma cache_inv_fold: "(\<And>x s. cache_inv s \<Longrightarrow> cache_inv (f x s)) \<Longrightarrow> cache_inv s \<Longrightarrow> cache_inv (fold f xs s)"
  by (induction xs arbitrary: s) auto

lemma tracker_inv_balances: "tracker_inv t \<Longrightarrow> tracker_inv (apply_vault_balances now balances t)"
  by (auto simp: apply_vault_balances_def Let_def intro!: tracker_inv_cache cache_inv_bump cache_inv_fold inv_modify
      keeps_identity_deltas dest: tracker_inv_cacheD split: option.split prod.split)

text \<open>Draining takes the first vaults off.\<close>

lemma fold_delete_take:
  "distinct (map fst m) \<Longrightarrow> fold AList.delete (take n (map fst m)) m = drop n m"
proof (induction n arbitrary: m)
  case (Suc n)
  show ?case
  proof (cases m)
    case (Cons p m')
    have "AList.delete (fst p) m' = m'"
      using Suc.prems Cons by (simp add: delete_id image_iff)
    with Suc Cons show ?thesis by (cases p) simp
  qed simp
qed simp

lemma drain_dirty:
  assumes "tracker_inv t"
  shows "fst (drain_dirty_vaults n t) = take n (map fst (dt_dirty_vaults t))"
    and "map fst (dt_dirty_vaults (snd (drain_dirty_vaults n t))) = drop n (map fst (dt_dirty_vaults t))"
    and "tracker_inv (snd (drain_dirty_vaults n t))"
proof -
  have d: "distinct (map fst (dt_dirty_vaults t))" using assms by (simp add: tracker_inv_def)
  show "fst (drain_dirty_vaults n t) = take n (map fst (dt_dirty_vaults t))"
    by (simp add: drain_dirty_vaults_def Let_def)
  show m: "map fst (dt_dirty_vaults (snd (drain_dirty_vaults n t))) = drop n (map fst (dt_dirty_vaults t))"
    by (simp add: drain_dirty_vaults_def Let_def fold_delete_take [OF d] drop_map)
  have "dt_pool_cache (snd (drain_dirty_vaults n t)) = dt_pool_cache t"
    by (simp add: drain_dirty_vaults_def Let_def)
  with assms m d show "tracker_inv (snd (drain_dirty_vaults n t))"
    by (simp add: tracker_inv_def)
qed

lemma tracker_step_returns: "tracker_inv t \<Longrightarrow> \<exists>t'. tracker_step fl scanner call t = Some t' \<and> tracker_inv t'"
proof (cases call)
  case (CacheCall c)
  assume t: "tracker_inv t"
  obtain s where s: "cache_step fl c (dt_pool_cache t) = Some s" using cache_step_returns by blast
  from cache_step_inv [OF s] t have "cache_inv s" by (simp add: tracker_inv_def)
  with CacheCall s t show ?thesis by (simp add: tracker_inv_cache)
qed (simp_all add: register_vault_def reindex_def reset_activity_counters_def tracker_inv_process_transaction
    tracker_inv_activity drain_dirty(3) tracker_inv_balances)

lemma tracker_inv_new: "tracker_inv (new_delta_tracker new_pool_cache)"
  by (simp add: tracker_inv_def new_delta_tracker_def inv_new)

interpretation tracker: total_machine "new_delta_tracker new_pool_cache" "tracker_step fl scanner" "\<lambda>_. True" tracker_inv
  for fl scanner
proof unfold_locales
  show "tracker_inv (new_delta_tracker new_pool_cache)" by (rule tracker_inv_new)
  show "tracker_inv t \<Longrightarrow> True \<Longrightarrow> tracker_step fl scanner call t = Some t' \<Longrightarrow> tracker_inv t'" for t call t'
    using tracker_step_returns [of t fl scanner call] by simp
  show "tracker_inv t \<Longrightarrow> True \<Longrightarrow> \<exists>t'. tracker_step fl scanner call t = Some t'" for t call
    using tracker_step_returns by blast
qed


section \<open>Simulated swaps\<close>

text \<open>The output of a simulated swap on natural numbers, the fee taken off the input.\<close>

definition net_input :: "u64 \<Rightarrow> u64 \<Rightarrow> nat" where
  "net_input amount_in fee_bps = unat amount_in - unat amount_in * unat fee_bps div 10000"

lemma unat_simulated_out:
  assumes "unat amount_in * unat fee_bps < 2 ^ 64" and "ri \<noteq> 0"
  shows "unat (simulated_out ri ro amount_in fee_bps)
    = unat ro * net_input amount_in fee_bps div (unat ri + net_input amount_in fee_bps)"
proof -
  define fee net where "fee = amount_in * fee_bps div 10000" and "net = sat_sub amount_in fee"
  have "unat (amount_in * fee_bps) = unat amount_in * unat fee_bps"
    using assms(1) by (intro unat_mult_small) simp
  then have net: "unat net = net_input amount_in fee_bps"
    by (simp only: net_def fee_def unat_sat_sub net_input_def unat_div) simp
  have "unat ro * unat net < 18446744073709551616 * 18446744073709551616"
    by (intro mult_strict_mono) simp_all
  then have prod: "unat (widen ro * widen net) = unat ro * unat net"
    by (simp add: unat_mult_u128)
  have "unat ri + unat net < 18446744073709551616 + 18446744073709551616"
    by (intro add_strict_mono) simp_all
  then have sum: "unat (widen ri + widen net) = unat ri + unat net"
    by (simp add: unat_add_u128)
  have q: "unat (widen ro * widen net div (widen ri + widen net)) = unat ro * unat net div (unat ri + unat net)"
    by (simp only: unat_div prod sum)
  have "0 < unat ri" using assms(2) by (simp add: unat_gt_0)
  have "unat ro * unat net div (unat ri + unat net) \<le> unat ro * (unat ri + unat net) div (unat ri + unat net)"
    by (intro div_le_mono mult_le_mono2) simp
  also have "\<dots> = unat ro" using \<open>0 < unat ri\<close> by simp
  finally have "unat ro * unat net div (unat ri + unat net) \<le> unat ro" .
  then have "unat ro * unat net div (unat ri + unat net) < 18446744073709551616"
    by (rule le_less_trans) simp
  then show ?thesis
    by (simp only: simulated_out_def Let_def fee_def [symmetric] net_def [symmetric] unat_narrow_small q net)
qed

lemma product_kept_nat:
  fixes ri ro a n :: nat
  assumes "n \<le> a" and "0 < ri" and "q = ro * n div (ri + n)"
  shows "ri * ro \<le> (ri + a) * (ro - q)" and "q \<le> ro"
proof -
  have q: "q * (ri + n) \<le> ro * n" using assms(2) by (simp add: assms(3))
  also have "\<dots> \<le> ro * (ri + n)" by simp
  finally show le: "q \<le> ro" using assms(2) by simp
  have "ri * ro + q * (ri + n) \<le> (ri + n) * ro" using q by (simp add: algebra_simps)
  then have "ri * ro \<le> (ri + n) * (ro - q)" by (simp add: diff_mult_distrib2 algebra_simps)
  also have "\<dots> \<le> (ri + a) * (ro - q)" using assms(1) by (intro mult_le_mono1) simp
  finally show "ri * ro \<le> (ri + a) * (ro - q)" .
qed

lemma delta_paid_in:
  fixes r a :: u64
  assumes "uint r + uint a < 2 ^ 63" and "r \<noteq> 0"
  shows "delta_fits r (sint a)" and "uint (shifted r (sint a)) = uint r + uint a"
proof -
  have "uint a < 2 ^ 63" and r: "uint r < 2 ^ 63" "0 < uint r"
    using assms uint_ge_0 [of r] uint_ge_0 [of a] by (linarith, linarith, simp add: word_gt_0 uint_0_iff less_le)
  then have a: "sint a = uint a"
    by (simp only: sint_small)
  show fits: "delta_fits r (sint a)"
    using assms(1) r uint_ge_0 [of a] unfolding delta_fits_def a by (intro conjI) linarith+
  show "uint (shifted r (sint a)) = uint r + uint a"
    using uint_shifted_fits [OF fits] by (simp only: a)
qed

lemma delta_paid_out:
  fixes r q :: u64
  assumes "uint r < 2 ^ 63" and "uint q < uint r"
  shows "delta_fits r (wrap64 (- sint q))" and "uint (shifted r (wrap64 (- sint q))) = uint r - uint q"
proof -
  have "uint q < 2 ^ 63" using assms by linarith
  then have "sint q = uint q" by (rule sint_small)
  moreover have "wrap64 (- uint q) = - uint q"
    using \<open>uint q < 2 ^ 63\<close> [simplified] uint_ge_0 [of q] by (intro wrap64_in) linarith+
  ultimately have q: "wrap64 (- sint q) = - uint q" by simp
  show fits: "delta_fits r (wrap64 (- sint q))"
    using assms uint_ge_0 [of q] \<open>uint q < 2 ^ 63\<close> unfolding delta_fits_def q by (intro conjI) linarith+
  show "uint (shifted r (wrap64 (- sint q))) = uint r - uint q"
    using uint_shifted_fits [OF fits] by (simp add: q)
qed

text \<open>One direction of a simulated swap, on the reserve paid in and the one paid out.\<close>

lemma swap_sides:
  assumes "ri \<noteq> 0" and "ro \<noteq> 0" and "unat amount_in * unat fee_bps < 2 ^ 64"
    and "uint ri + uint amount_in < 2 ^ 63" and "uint ro < 2 ^ 63" and "q = simulated_out ri ro amount_in fee_bps"
  shows "delta_fits ri (sint amount_in)" and "delta_fits ro (wrap64 (- sint q))"
    and "unat (shifted ri (sint amount_in)) = unat ri + unat amount_in"
    and "unat (shifted ro (wrap64 (- sint q))) \<le> unat ro"
    and "unat ri * unat ro \<le> unat (shifted ri (sint amount_in)) * unat (shifted ro (wrap64 (- sint q)))"
proof -
  have pos: "0 < unat ri" "0 < unat ro" using assms(1,2) by (simp_all add: unat_gt_0)
  have q: "unat q = unat ro * net_input amount_in fee_bps div (unat ri + net_input amount_in fee_bps)"
    unfolding assms(6) by (rule unat_simulated_out [OF assms(3,1)])
  have net: "net_input amount_in fee_bps \<le> unat amount_in" by (simp add: net_input_def)
  have "unat ro * net_input amount_in fee_bps < unat ro * (unat ri + net_input amount_in fee_bps)"
    using pos by (intro mult_strict_left_mono) linarith+
  then have less: "unat q < unat ro"
    unfolding q by (rule less_mult_imp_div_less)
  then have less': "uint q < uint ro" unfolding uint_nat by (simp only: of_nat_less_iff)
  note pin = delta_paid_in [OF assms(4,1)] and out = delta_paid_out [OF assms(5) less']
  show "delta_fits ri (sint amount_in)" "delta_fits ro (wrap64 (- sint q))" by (rule pin, rule out)
  show i: "unat (shifted ri (sint amount_in)) = unat ri + unat amount_in"
    using pin(2) unfolding uint_nat by linarith
  have o: "unat (shifted ro (wrap64 (- sint q))) = unat ro - unat q"
    using out(2) less unfolding uint_nat by linarith
  then show "unat (shifted ro (wrap64 (- sint q))) \<le> unat ro" by simp
  show "unat ri * unat ro \<le> unat (shifted ri (sint amount_in)) * unat (shifted ro (wrap64 (- sint q)))"
    unfolding i o by (rule product_kept_nat(1) [OF net pos(1) q])
qed

text \<open>
  A swap simulated from the shreds adds its input to one optimistic reserve and takes from the
  other what the constant-product rule pays, so for the next ten seconds the quotes use reserves whose product
  is not lower; provided the fee computation does not wrap, and the delta is applied to the reserves the
  output was computed on, which fails when the optimistic reserves are stale.
\<close>

theorem simulated_swap_keeps_product:
  assumes "delta_base p = (ra, rb)" and "effective_reserves now p = (ra, rb)" and "ra \<noteq> 0" and "rb \<noteq> 0"
    and "unat amount_in * unat (dp_fee_bps p) < 2 ^ 64" and "later < now + 10000000000"
    and "uint ra + uint amount_in < 2 ^ 63" and "uint rb + uint amount_in < 2 ^ 63"
    and "effective_reserves later (simulate_swap now amount_in is_vault_a p) = (ra', rb')"
  shows "(if is_vault_a then unat ra' = unat ra + unat amount_in \<and> unat rb' \<le> unat rb
      else unat rb' = unat rb + unat amount_in \<and> unat ra' \<le> unat ra)
    \<and> unat ra * unat rb \<le> unat ra' * unat rb'"
proof (cases is_vault_a)
  case True
  have "uint rb < 2 ^ 63" using assms(8) uint_ge_0 [of amount_in] by linarith
  note sides = swap_sides [OF assms(3,4,5,7) this refl]
  from assms(9) True have "ra' = shifted ra (sint amount_in)"
    "rb' = shifted rb (wrap64 (- sint (simulated_out ra rb amount_in (dp_fee_bps p))))"
    by (simp_all add: simulate_swap_def assms(2) effective_after_delta [OF assms(1) sides(1,2) assms(6)])
  with True sides(3-5) show ?thesis by simp
next
  case False
  have "uint ra < 2 ^ 63" using assms(7) uint_ge_0 [of amount_in] by linarith
  note sides = swap_sides [OF assms(4,3,5,8) this refl]
  from assms(9) False have "rb' = shifted rb (sint amount_in)"
    "ra' = shifted ra (wrap64 (- sint (simulated_out rb ra amount_in (dp_fee_bps p))))"
    by (simp_all add: simulate_swap_def assms(2) effective_after_delta [OF assms(1) sides(2,1) assms(6)])
  with False sides(3-5) show ?thesis by (simp add: mult.commute)
qed

theorem simulated_swap_keeps_product_witness:
  "map_prod unat unat (effective_reserves 9 (simulate_swap 5 100 True (stale_pool\<lparr>dp_last_shred_update := 5\<rparr>))) = (500, 2000)
     \<and> (400 * 2500 :: nat) \<le> 500 * 2000"
proof -
  let ?p = "stale_pool\<lparr>dp_last_shred_update := 5\<rparr>"
  have e: "effective_reserves 9 (simulate_swap 5 100 True ?p) = (500, 2000)"
    by (simp add: simulate_swap_def effective_reserves_def apply_shred_delta_def stale_pool_def shifted_def wrap64_in
        simulated_out_def sat_sub_def Let_def)
  have "unat (500 :: u64) = unat (400 :: u64) + unat (100 :: u64) \<and> unat (2000 :: u64) \<le> unat (2500 :: u64)
      \<and> unat (400 :: u64) * unat (2500 :: u64) \<le> unat (500 :: u64) * unat (2000 :: u64)"
    using simulated_swap_keeps_product [of ?p 400 2500 5 100 9 True 500 2000] e
    by (simp add: delta_base_def stale_pool_def effective_reserves_def)
  with e show ?thesis by simp
qed

end
