(* ===== verification/Routes.thy ===== *)
theory Routes
  imports Prelude
begin

text \<open>
  Routes, \<^verbatim>\<open>market-engine/src/types.rs\<close>: what the market engine hands to the executor. The floating-point
  fields are of the type \<open>'f\<close> of the development's doubles.
\<close>

record 'f hop =
  hop_pool :: pubkey
  hop_dex_program :: pubkey
  hop_token_in :: pubkey
  hop_token_out :: pubkey
  hop_amount_out :: u64
  hop_price_impact :: 'f

record 'f route_params =
  rp_hops :: "'f hop list"
  rp_borrow_amount :: u64
  rp_gross_profit :: u64
  rp_net_profit :: int
  rp_risk_factor :: 'f
  rp_strategy :: string
  rp_tier :: u8

text \<open>The mints of a route, in the order the hops name them, and without repetitions.\<close>

definition hop_mints :: "'f hop list \<Rightarrow> pubkey list" where
  "hop_mints hops = concat (map (\<lambda>h. [hop_token_in h, hop_token_out h]) hops)"

fun first_seen :: "'a list \<Rightarrow> 'a list \<Rightarrow> 'a list" where
  "first_seen seen [] = []"
| "first_seen seen (x # xs) = (if x \<in> set seen then first_seen seen xs else x # first_seen (x # seen) xs)"

definition route_mints :: "'f route_params \<Rightarrow> pubkey list" where
  "route_mints route = first_seen [] (hop_mints (rp_hops route))"

lemma set_first_seen: "set (first_seen seen xs) = set xs - set seen"
  by (induction seen xs rule: first_seen.induct) auto

lemma distinct_first_seen [simp]: "distinct (first_seen seen xs)"
  by (induction seen xs rule: first_seen.induct) (auto simp: set_first_seen)

lemma set_route_mints: "set (route_mints route) = (\<Union>h \<in> set (rp_hops route). {hop_token_in h, hop_token_out h})"
  by (auto simp: route_mints_def hop_mints_def set_first_seen)

lemma length_hop_mints [simp]: "length (hop_mints hops) = 2 * length hops"
  by (induction hops) (simp_all add: hop_mints_def)

lemma length_route_mints: "length (route_mints route) \<le> 2 * length (rp_hops route)"
proof -
  have "length (first_seen seen xs) \<le> length xs" for seen xs :: "pubkey list"
    by (induction seen xs rule: first_seen.induct) auto
  from this [of "[]" "hop_mints (rp_hops route)"] show ?thesis by (simp add: route_mints_def)
qed

end
