(* ===== verification/Tx_Builder.thy ===== *)
theory Tx_Builder
  imports Flash_Loans Pool_State Routes
begin

text \<open>
  The transaction builder, \<^verbatim>\<open>executor/src/tx_builder.rs\<close>: a route of the market engine becomes the instruction
  of the on-chain arbitrage program, with the accounts and the data of every swap, inside the flash loan that
  pays for it. The outside is the record \<open>tx_env\<close>: the environment of the flash loans, address derivation
  that may fail, base-58 texts, the owners an RPC call reports, the SDK's compute-budget instructions,
  borsh, and the compilation and signing of a message. Log output is left out; \<open>simulation_mode\<close> is a
  parameter the source passes on and never reads.
\<close>

definition HELIOS_ARB_PROGRAM_ID :: pubkey where \<comment> \<open>84JRYmwdpmj3iEK6r968zwfZSusHtx2hpjfLPAoPgdW\<close>
  [simp]: "HELIOS_ARB_PROGRAM_ID = 0x01CECC24ED398B34E990525E27EB9F0303ACEDAADEC3CD848F2561842739EAB1"

definition TOKEN_2022_PROGRAM_ID :: pubkey where \<comment> \<open>TokenzQdBNbEquiGDJ66fqNWi9Ejh2To96pqV9pMBoY\<close>
  [simp]: "TOKEN_2022_PROGRAM_ID = 0x06DDF6E1EE758FDE17204FB0AF9CE9CDC4B4209AA2C34A3BE0624A997B033403"

definition ASSOCIATED_TOKEN_PROGRAM_ID :: pubkey where \<comment> \<open>ATokenGPvbdGVxr1b2hvZbsiqW5xWH25efTNsLJA8knL\<close>
  [simp]: "ASSOCIATED_TOKEN_PROGRAM_ID = 0x8C97258F4E2489F1BB3D1029148E0D830B5A1399DAFF1084048E7BD8DBE9F859"

definition METEORA_EVENT_AUTHORITY :: pubkey where \<comment> \<open>D8cy77uS2nZBWbS99Z6qc9CDjyYvPbcE969RYdhDkkE\<close>
  [simp]: "METEORA_EVENT_AUTHORITY = 0x031B95F7DDBC5008CB07A449259C4AFF487DFB8FD8A523B025FFCF5DCF202D77"

definition MEMO_PROGRAM_ID :: pubkey where \<comment> \<open>MemoSq4gqABAXKb96qnH8TysNcWxMyWCqXgDLGmfcHr\<close>
  [simp]: "MEMO_PROGRAM_ID = 0x054A535A992921064D24E87160DA387C7C35B5DDBC92BB81E41FA8404105448D"

definition PUMPSWAP_PROTOCOL_FEE_RECIPIENT :: pubkey where \<comment> \<open>62qc2CNXwrYqQScmEdiZFFAnJR262PxWEuNQtxfafNgV\<close>
  [simp]: "PUMPSWAP_PROTOCOL_FEE_RECIPIENT = 0x4AC2F8D0DD5CBC97E3289C197CB5062A54F3D956B9CE6E5115F96567AA5CB3E6"

definition PUMPSWAP_GLOBAL_CONFIG :: pubkey where \<comment> \<open>ADyA8hdefbFUHRNUTC6V2JNsFp6WqXyKcWVr2AfjFLaT\<close>
  [simp]: "PUMPSWAP_GLOBAL_CONFIG = 0x890BA644FE1F4AD26148E0B30484A0CB57E3A0D7419F58646D8F445C6F43E190"

definition PUMPSWAP_EVENT_AUTHORITY :: pubkey where \<comment> \<open>Ce6TQqeHC9p8KetsN6JsjHK7UTZk7nasjjnr7XxXp9F1\<close>
  [simp]: "PUMPSWAP_EVENT_AUTHORITY = 0xACF136EB01FC1C4E883D23C8B5844AB59A37F66ADD57C5E9AC3B53E059D35C64"

definition SYSTEM_PROGRAM_ID :: pubkey where
  [simp]: "SYSTEM_PROGRAM_ID = 0"

section \<open>The outside and the builder\<close>

record meteora_swap_args =
  msa_amount_in :: u64
  msa_min_amount_out :: u64

datatype orca_accounts_type = TransferHookA | TransferHookB | TransferHookReward | TransferHookInput
  | TransferHookIntermediate | TransferHookOutput | SupplementalTickArrays | SupplementalTickArraysOne
  | SupplementalTickArraysTwo

record remaining_accounts_slice =
  ras_accounts_type :: orca_accounts_type
  ras_length :: u8

record swap_v2_args =
  sva_amount :: u64
  sva_other_amount_threshold :: u64
  sva_sqrt_price_limit :: u128
  sva_amount_specified_is_input :: bool
  sva_a_to_b :: bool
  sva_remaining_accounts_info :: "remaining_accounts_slice list option"

datatype tx_error =
    RouteHasNoHops | PoolNotInCache | SameTokens nat | TokenInNotInPool nat | TokenOutNotInPool nat
  | RaydiumMetaMissing | RaydiumIncomplete | OrcaMetaMissing | OrcaIncomplete | MeteoraMetaMissing
  | DeriveFailed | DexUnsupported dex_type | TxFlash flash_error | CompileFailed | IndexPanic

record ('f, 'alt, 'tx) tx_env =
  te_flash :: flash_env
  te_try_find :: "bytes list \<Rightarrow> pubkey \<Rightarrow> pubkey option"
  te_base58 :: "pubkey \<Rightarrow> string"
  te_get_owners :: "pubkey list \<Rightarrow> pubkey option list option"
  te_parse_f64 :: "string \<Rightarrow> 'f option"
  te_cu_limit :: "u32 \<Rightarrow> instruction"
  te_cu_price :: "u64 \<Rightarrow> instruction"
  te_borsh_args :: "flash_arb_args \<Rightarrow> bytes"
  te_borsh_meteora :: "meteora_swap_args \<Rightarrow> bytes"
  te_borsh_swap_v2 :: "swap_v2_args \<Rightarrow> bytes"
  te_compile :: "pubkey \<Rightarrow> instruction list \<Rightarrow> 'alt list \<Rightarrow> pubkey \<Rightarrow> 'tx option"

record tx_builder =
  tb_payer :: pubkey
  tb_helios_program :: pubkey
  tb_mint_program_cache :: "(pubkey \<times> (pubkey \<times> nat)) list"

definition new_tx_builder :: "pubkey \<Rightarrow> tx_builder" where
  "new_tx_builder payer = \<lparr>tb_payer = payer, tb_helios_program = HELIOS_ARB_PROGRAM_ID, tb_mint_program_cache = []\<rparr>"

section \<open>Token programs\<close>

type_synonym token_programs = "(pubkey \<times> pubkey) list"

definition CACHE_TTL :: nat where "CACHE_TTL = 300000000000"

definition known_spl :: "string \<Rightarrow> bool" where
  "known_spl text \<longleftrightarrow> (\<exists>p \<in> set [''So111'', ''EPjFW'', ''Es9vM'', ''mSoLz'', ''7dHbW'', ''J1tos'', ''bSo13'']. take 5 text = p)"

text \<open>One mint of the first loop: its program, when known or cached, or a place in the list to fetch.\<close>

definition look_up_mint :: "('f, 'alt, 'tx) tx_env \<Rightarrow> nat \<Rightarrow> pubkey
    \<Rightarrow> token_programs \<times> pubkey list \<times> (pubkey \<times> (pubkey \<times> nat)) list
    \<Rightarrow> token_programs \<times> pubkey list \<times> (pubkey \<times> (pubkey \<times> nat)) list" where
  "look_up_mint env now mint = (\<lambda>(result, uncached, cache).
     if known_spl (te_base58 env mint)
     then (AList.update mint TOKEN_PROGRAM_ID result, uncached, AList.update mint (TOKEN_PROGRAM_ID, now) cache)
     else case map_of cache mint of
         Some (prog, cached_at) \<Rightarrow>
           if now - cached_at < CACHE_TTL then (AList.update mint prog result, uncached, cache)
           else (result, uncached @ [mint], cache)
       | None \<Rightarrow> (result, uncached @ [mint], cache))"

definition program_of_owner :: "pubkey option \<Rightarrow> pubkey" where
  "program_of_owner owner = (if owner = Some TOKEN_2022_PROGRAM_ID then TOKEN_2022_PROGRAM_ID else TOKEN_PROGRAM_ID)"

text \<open>The mints of the \<^verbatim>\<open>HashSet\<close> are taken in the order of the hops.\<close>

definition token_programs_for_route :: "('f, 'alt, 'tx) tx_env \<Rightarrow> nat \<Rightarrow> 'f route_params \<Rightarrow> tx_builder
    \<Rightarrow> token_programs \<times> tx_builder" where
  "token_programs_for_route env now route tb =
     (let (result, uncached, cache) =
        fold (look_up_mint env now) (route_mints route) ([], [], tb_mint_program_cache tb);
          (result, cache) =
        (if uncached = [] then (result, cache)
         else case te_get_owners env uncached of
             Some owners \<Rightarrow>
               fold (\<lambda>(mint, owner) (result, cache).
                   (AList.update mint (program_of_owner owner) result,
                    AList.update mint (program_of_owner owner, now) cache))
                 (zip uncached owners) (result, cache)
           | None \<Rightarrow> (fold (\<lambda>mint. AList.update mint TOKEN_PROGRAM_ID) uncached result, cache)) in
      (result, tb\<lparr>tb_mint_program_cache := cache\<rparr>))"

definition program_of_mint :: "token_programs \<Rightarrow> pubkey \<Rightarrow> pubkey" where
  "program_of_mint programs mint = unwrap_or TOKEN_PROGRAM_ID (map_of programs mint)"

definition resolve_token_program_for_mint :: "pubkey option option \<Rightarrow> pubkey" where
  "resolve_token_program_for_mint fetched =
     (case fetched of
        Some (Some owner) \<Rightarrow> if owner = TOKEN_2022_PROGRAM_ID then TOKEN_2022_PROGRAM_ID else TOKEN_PROGRAM_ID
      | _ \<Rightarrow> TOKEN_PROGRAM_ID)"

section \<open>Derived addresses\<close>

definition associated_token_address_with_program :: "('f, 'alt, 'tx) tx_env \<Rightarrow> pubkey \<Rightarrow> pubkey \<Rightarrow> pubkey \<Rightarrow> pubkey" where
  "associated_token_address_with_program env owner mint prog =
     fe_find_program_address (te_flash env)
       [pubkey_to_bytes owner, pubkey_to_bytes prog, pubkey_to_bytes mint] ASSOCIATED_TOKEN_PROGRAM_ID"

definition associated_token_address :: "('f, 'alt, 'tx) tx_env \<Rightarrow> pubkey \<Rightarrow> pubkey \<Rightarrow> pubkey" where
  "associated_token_address env owner mint = associated_token_address_with_program env owner mint TOKEN_PROGRAM_ID"

definition derive_orca_oracle :: "('f, 'alt, 'tx) tx_env \<Rightarrow> pubkey \<Rightarrow> tx_error + pubkey" where
  "derive_orca_oracle env whirlpool =
     ok_or DeriveFailed (te_try_find env [bytes_of_string ''oracle'', pubkey_to_bytes whirlpool] ORCA_WHIRLPOOL)"

definition derive_orca_whirlpool_authority :: "('f, 'alt, 'tx) tx_env \<Rightarrow> pubkey \<Rightarrow> tx_error + pubkey" where
  "derive_orca_whirlpool_authority env whirlpool =
     ok_or DeriveFailed (te_try_find env [bytes_of_string ''whirlpool'', pubkey_to_bytes whirlpool] ORCA_WHIRLPOOL)"

definition derive_meteora_oracle :: "('f, 'alt, 'tx) tx_env \<Rightarrow> pubkey \<Rightarrow> tx_error + pubkey" where
  "derive_meteora_oracle env lb_pair =
     ok_or DeriveFailed (te_try_find env [bytes_of_string ''oracle'', pubkey_to_bytes lb_pair] METEORA_DLMM)"

definition i64_to_le :: "int \<Rightarrow> bytes" where "i64_to_le i = u64_to_le (word_of_int i)"

definition derive_meteora_bin_array :: "('f, 'alt, 'tx) tx_env \<Rightarrow> pubkey \<Rightarrow> int \<Rightarrow> tx_error + pubkey" where
  "derive_meteora_bin_array env lb_pair bin_array_index =
     ok_or DeriveFailed (te_try_find env
       [bytes_of_string ''bin_array'', pubkey_to_bytes lb_pair, i64_to_le bin_array_index] METEORA_DLMM)"

definition meteora_bin_id_to_array_index :: "int \<Rightarrow> int" where
  "meteora_bin_id_to_array_index bin_id =
     (let i = bin_id sdiv 70; r = bin_id smod 70 in if bin_id < 0 \<and> r \<noteq> 0 then i - 1 else i)"

definition meteora_bin_array_indices :: "meteora_metadata \<Rightarrow> bool \<Rightarrow> int list" where
  "meteora_bin_array_indices meta a_to_b =
     (let current = meteora_bin_id_to_array_index (mm_active_id meta);
          direction = (if a_to_b then - 1 else 1);
          indices = sort (filter (\<lambda>i. if a_to_b then i \<le> current else current \<le> i) (map fst (mm_bin_arrays meta)));
          indices = (if a_to_b then rev indices else indices) in
      if indices = [] then [current, wrap64 (current + direction), wrap64 (current + direction * 2)] else indices)"

definition derive_meteora_bin_arrays :: "('f, 'alt, 'tx) tx_env \<Rightarrow> pubkey \<Rightarrow> meteora_metadata \<Rightarrow> bool \<Rightarrow> tx_error + pubkey list" where
  "derive_meteora_bin_arrays env lb_pair meta a_to_b =
     collect_results (derive_meteora_bin_array env lb_pair) (meteora_bin_array_indices meta a_to_b)"

text \<open>\<^verbatim>\<open>i32::to_string\<close> as bytes.\<close>

fun show_nat :: "nat \<Rightarrow> bytes" where
  "show_nat n = (if n < 10 then [word_of_nat (48 + n)] else show_nat (n div 10) @ [word_of_nat (48 + n mod 10)])"

declare show_nat.simps [simp del]

definition show_int :: "int \<Rightarrow> bytes" where
  "show_int i = (if i < 0 then 45 # show_nat (nat (- i)) else show_nat (nat i))"

definition derive_orca_tick_array :: "('f, 'alt, 'tx) tx_env \<Rightarrow> pubkey \<Rightarrow> int \<Rightarrow> tx_error + pubkey" where
  "derive_orca_tick_array env whirlpool start_tick_index =
     ok_or DeriveFailed (te_try_find env
       [bytes_of_string ''tick_array'', pubkey_to_bytes whirlpool, show_int start_tick_index] ORCA_WHIRLPOOL)"

text \<open>The division by a tick spacing of zero panics.\<close>

definition get_orca_tick_array_start_tick_index :: "int \<Rightarrow> u16 \<Rightarrow> int option" where
  "get_orca_tick_array_start_tick_index tick_index tick_spacing =
     (if tick_spacing = 0 then None
      else Some (wrap32 (wrap32 ((tick_index div uint tick_spacing) div ORCA_TICK_ARRAY_SIZE * uint tick_spacing)
        * ORCA_TICK_ARRAY_SIZE)))"

function extend_starts :: "int \<Rightarrow> int list \<Rightarrow> int list" where
  "extend_starts step starts =
     (if length starts < 5
      then let nxt = wrap32 (last starts + step) in
        if nxt \<notin> set starts then extend_starts step (starts @ [nxt]) else starts
      else starts)"
  by pat_completeness auto
termination by (relation "measure (\<lambda>(step, starts). 5 - length starts)") auto

declare extend_starts.simps [simp del]

definition orca_tick_starts :: "'f f64_ops \<Rightarrow> orca_metadata \<Rightarrow> u64 \<Rightarrow> u64 \<Rightarrow> bool \<Rightarrow> int list option" where
  "orca_tick_starts fl meta amount_in fee a_to_b = do {
     start_tick_index \<leftarrow> get_orca_tick_array_start_tick_index (om_tick_current_index meta) (om_tick_spacing meta);
     let offset = wrap32 (uint (om_tick_spacing meta) * ORCA_TICK_ARRAY_SIZE);
         direction = (if a_to_b then - 1 else 1);
         ordered = (if om_tick_arrays meta \<noteq> []
           then osq_traversed_arrays (Orca.quote_exact_in fl amount_in a_to_b (om_sqrt_price meta) (om_liquidity meta)
             (om_tick_current_index meta) (om_tick_spacing meta) fee (om_tick_arrays meta))
           else [start_tick_index]);
         ordered = (if ordered = [] then [start_tick_index] else ordered);
         ordered = (if hd ordered \<noteq> start_tick_index then start_tick_index # ordered else ordered);
         ordered = first_seen [] ordered;
         ordered = extend_starts (wrap32 (direction * offset)) ordered in
     Some ordered }"

record orca_tick_array_set =
  ota_primary :: "pubkey list"
  ota_supplemental :: "pubkey list"

definition derive_orca_tick_arrays :: "'f f64_ops \<Rightarrow> ('f, 'alt, 'tx) tx_env \<Rightarrow> pubkey \<Rightarrow> orca_metadata \<Rightarrow> u64 \<Rightarrow> u64 \<Rightarrow> bool
    \<Rightarrow> tx_error + orca_tick_array_set" where
  "derive_orca_tick_arrays fl env whirlpool meta amount_in fee a_to_b =
     and_then (ok_or IndexPanic (orca_tick_starts fl meta amount_in fee a_to_b)) (\<lambda>starts.
     and_then (guard_or IndexPanic (5 \<le> length starts)) (\<lambda>_.
     and_then (collect_results (derive_orca_tick_array env whirlpool) (take 3 starts)) (\<lambda>primary.
     and_then (collect_results (derive_orca_tick_array env whirlpool) (take 2 (drop 3 starts))) (\<lambda>supplemental.
       Inr \<lparr>ota_primary = primary, ota_supplemental = supplemental\<rparr>))))"

section \<open>Swap data\<close>

definition ORCA_SWAP_V2_DISC :: bytes where "ORCA_SWAP_V2_DISC = [43, 4, 237, 11, 26, 201, 30, 98]"

definition orca_swap_v2_args :: "u64 \<Rightarrow> u64 \<Rightarrow> bool \<Rightarrow> nat \<Rightarrow> swap_v2_args" where
  "orca_swap_v2_args amount_in min_out a_to_b supplemental =
     \<lparr>sva_amount = amount_in, sva_other_amount_threshold = min_out,
      sva_sqrt_price_limit = (if a_to_b then 4295048016 else 79226673515401279992447579055),
      sva_amount_specified_is_input = True, sva_a_to_b = a_to_b,
      sva_remaining_accounts_info = (if supplemental > 0
        then Some [\<lparr>ras_accounts_type = SupplementalTickArrays, ras_length = word_of_nat supplemental\<rparr>] else None)\<rparr>"

definition build_swap_data :: "('f, 'alt, 'tx) tx_env \<Rightarrow> dex_type \<Rightarrow> u64 \<Rightarrow> u64 \<Rightarrow> bool \<Rightarrow> nat \<Rightarrow> tx_error + bytes" where
  "build_swap_data env dex amount_in min_out a_to_b orca_supplemental_tick_arrays =
     (case dex of
        RaydiumAmmV4 \<Rightarrow> Inr (9 # u64_to_le amount_in @ u64_to_le min_out)
      | OrcaWhirlpool \<Rightarrow> Inr (ORCA_SWAP_V2_DISC
          @ te_borsh_swap_v2 env (orca_swap_v2_args amount_in min_out a_to_b orca_supplemental_tick_arrays))
      | MeteoraDlmm \<Rightarrow> Inr ([248, 198, 244, 145, 90, 24, 30, 227]
          @ te_borsh_meteora env \<lparr>msa_amount_in = amount_in, msa_min_amount_out = min_out\<rparr>)
      | PumpSwap \<Rightarrow> Inr ((if a_to_b then [51, 230, 133, 164, 1, 127, 131, 173] else [102, 6, 61, 18, 1, 218, 235, 234])
          @ u64_to_le amount_in @ u64_to_le min_out)
      | _ \<Rightarrow> Inl (DexUnsupported dex))"

section \<open>The accounts of a hop\<close>

text \<open>Each list starts with the program of the exchange, which the on-chain program takes as its call target.\<close>

definition raydium_complete :: "raydium_metadata \<Rightarrow> bool" where
  "raydium_complete meta \<longleftrightarrow> 0 \<notin> set [rm_market_program meta, rm_market_event_queue meta, rm_market_bids meta,
     rm_market_asks meta, rm_market_base_vault meta, rm_market_quote_vault meta, rm_market_vault_signer meta]"

definition raydium_hop_accounts :: "pubkey \<Rightarrow> 'f hop \<Rightarrow> raydium_metadata \<Rightarrow> pubkey \<Rightarrow> pubkey \<Rightarrow> account_meta list" where
  "raydium_hop_accounts payer hop meta user_source user_destination =
     [meta_readonly (hop_dex_program hop) False, meta_readonly TOKEN_PROGRAM_ID False, meta_new (hop_pool hop) False,
      meta_readonly (rm_authority meta) False, meta_new (rm_open_orders meta) False, meta_new (rm_vault_a meta) False,
      meta_new (rm_vault_b meta) False, meta_readonly (rm_market_program meta) False, meta_new (rm_market_id meta) False,
      meta_new (rm_market_bids meta) False, meta_new (rm_market_asks meta) False,
      meta_new (rm_market_event_queue meta) False, meta_new (rm_market_base_vault meta) False,
      meta_new (rm_market_quote_vault meta) False, meta_readonly (rm_market_vault_signer meta) False,
      meta_new user_source False, meta_new user_destination False, meta_readonly payer True]"

definition orca_hop_accounts :: "('f, 'alt, 'tx) tx_env \<Rightarrow> pubkey \<Rightarrow> 'f hop \<Rightarrow> dex_pool \<Rightarrow> orca_metadata \<Rightarrow> orca_tick_array_set
    \<Rightarrow> pubkey \<Rightarrow> account_meta list" where
  "orca_hop_accounts env payer hop pool meta arrays oracle =
     [meta_readonly (hop_dex_program hop) False, meta_readonly TOKEN_PROGRAM_ID False,
      meta_readonly TOKEN_PROGRAM_ID False, meta_readonly MEMO_PROGRAM_ID False, meta_readonly payer True,
      meta_new (hop_pool hop) False, meta_readonly (dp_token_a pool) False, meta_readonly (dp_token_b pool) False,
      meta_new (associated_token_address env payer (dp_token_a pool)) False, meta_new (om_token_vault_a meta) False,
      meta_new (associated_token_address env payer (dp_token_b pool)) False, meta_new (om_token_vault_b meta) False]
     @ map (\<lambda>k. meta_new k False) (ota_primary arrays) @ [meta_new oracle False]
     @ map (\<lambda>k. meta_new k False) (ota_supplemental arrays)"

definition meteora_hop_accounts :: "pubkey \<Rightarrow> 'f hop \<Rightarrow> dex_pool \<Rightarrow> meteora_metadata \<Rightarrow> pubkey list \<Rightarrow> pubkey
    \<Rightarrow> pubkey \<Rightarrow> pubkey \<Rightarrow> account_meta list" where
  "meteora_hop_accounts payer hop pool meta bin_arrays oracle user_source user_destination =
     [meta_readonly (hop_dex_program hop) False, meta_new (hop_pool hop) False, meta_new (mm_token_vault_a meta) False,
      meta_new (mm_token_vault_b meta) False, meta_new user_source False, meta_new user_destination False,
      meta_readonly (dp_token_a pool) False, meta_readonly (dp_token_b pool) False, meta_new oracle False,
      meta_readonly payer True, meta_readonly TOKEN_PROGRAM_ID False, meta_readonly METEORA_EVENT_AUTHORITY False,
      meta_readonly (hop_dex_program hop) False]
     @ map (\<lambda>k. meta_new k False) bin_arrays"

definition pumpswap_hop_accounts :: "('f, 'alt, 'tx) tx_env \<Rightarrow> pubkey \<Rightarrow> 'f hop \<Rightarrow> dex_pool \<Rightarrow> pubkey \<Rightarrow> pubkey \<Rightarrow> account_meta list" where
  "pumpswap_hop_accounts env payer hop pool prog_in prog_out =
     (let (base_mint, quote_mint) = (if dp_token_a pool = SOL_MINT then (dp_token_b pool, dp_token_a pool)
            else (dp_token_a pool, dp_token_b pool));
          global_config = fe_find_program_address (te_flash env) [bytes_of_string ''global_config''] PUMPSWAP;
          event_authority = fe_find_program_address (te_flash env) [bytes_of_string ''__event_authority''] PUMPSWAP in
      [meta_readonly PUMPSWAP False, meta_new (hop_pool hop) False, meta_readonly global_config False,
       meta_readonly base_mint False, meta_readonly quote_mint False,
       meta_new (associated_token_address env (hop_pool hop) base_mint) False,
       meta_new (associated_token_address env (hop_pool hop) quote_mint) False,
       meta_readonly PUMPSWAP_PROTOCOL_FEE_RECIPIENT False,
       meta_new (associated_token_address env PUMPSWAP_PROTOCOL_FEE_RECIPIENT base_mint) False,
       meta_new (associated_token_address env PUMPSWAP_PROTOCOL_FEE_RECIPIENT quote_mint) False,
       meta_new payer True,
       meta_new (associated_token_address_with_program env payer base_mint (min prog_in prog_out)) False,
       meta_new (associated_token_address_with_program env payer quote_mint (max prog_in prog_out)) False,
       meta_readonly SYSTEM_PROGRAM_ID False, meta_readonly TOKEN_PROGRAM_ID False,
       meta_readonly ASSOCIATED_TOKEN_PROGRAM_ID False, meta_readonly event_authority False,
       meta_readonly PUMPSWAP False])"

definition hop_accounts :: "'f f64_ops \<Rightarrow> ('f, 'alt, 'tx) tx_env \<Rightarrow> pubkey \<Rightarrow> token_programs \<Rightarrow> u64 \<Rightarrow> 'f hop \<Rightarrow> dex_pool
    \<Rightarrow> tx_error + account_meta list" where
  "hop_accounts fl env payer programs current_amount_in hop pool =
     (let prog_in = program_of_mint programs (hop_token_in hop);
          prog_out = program_of_mint programs (hop_token_out hop);
          user_source = associated_token_address_with_program env payer (hop_token_in hop) prog_in;
          user_destination = associated_token_address_with_program env payer (hop_token_out hop) prog_out;
          a_to_b = (hop_token_in hop = dp_token_a pool);
          dex = from_program_id (hop_dex_program hop) in
      case dex of
        RaydiumAmmV4 \<Rightarrow>
          and_then (ok_or RaydiumMetaMissing (dp_raydium_meta pool)) (\<lambda>meta.
          and_then (guard_or RaydiumIncomplete (raydium_complete meta)) (\<lambda>_.
            Inr (raydium_hop_accounts payer hop meta user_source user_destination)))
      | OrcaWhirlpool \<Rightarrow>
          and_then (ok_or OrcaMetaMissing (dp_orca_meta pool)) (\<lambda>meta.
          and_then (guard_or OrcaIncomplete (om_tick_spacing meta \<noteq> 0)) (\<lambda>_.
          and_then (derive_orca_tick_arrays fl env (hop_pool hop) meta current_amount_in (dp_fee_bps pool) a_to_b) (\<lambda>arrays.
          and_then (derive_orca_whirlpool_authority env (hop_pool hop)) (\<lambda>_.
          and_then (derive_orca_oracle env (hop_pool hop)) (\<lambda>oracle.
            Inr (orca_hop_accounts env payer hop pool meta arrays oracle))))))
      | MeteoraDlmm \<Rightarrow>
          and_then (ok_or MeteoraMetaMissing (dp_meteora_meta pool)) (\<lambda>meta.
          and_then (derive_meteora_bin_arrays env (hop_pool hop) meta a_to_b) (\<lambda>bin_arrays.
          and_then (derive_meteora_oracle env (hop_pool hop)) (\<lambda>oracle.
            Inr (meteora_hop_accounts payer hop pool meta bin_arrays oracle user_source user_destination))))
      | PumpSwap \<Rightarrow> Inr (pumpswap_hop_accounts env payer hop pool prog_in prog_out)
      | _ \<Rightarrow> Inl (DexUnsupported dex))"

section \<open>The instruction of the arbitrage program\<close>

definition check_hop :: "nat \<Rightarrow> 'f hop \<Rightarrow> dex_pool \<Rightarrow> tx_error + unit" where
  "check_hop hop_idx hop pool =
     and_then (guard_or (SameTokens hop_idx) (hop_token_in hop \<noteq> hop_token_out hop)) (\<lambda>_.
     and_then (guard_or (TokenInNotInPool hop_idx) (hop_token_in hop \<in> {dp_token_a pool, dp_token_b pool})) (\<lambda>_.
       guard_or (TokenOutNotInPool hop_idx) (hop_token_out hop \<in> {dp_token_a pool, dp_token_b pool})))"

definition safe_out :: "u64 \<Rightarrow> u64" where
  "safe_out amount_out = sat_mul amount_out 95 div 100"

text \<open>One round of the loop: the accounts and the data of a hop.\<close>

definition build_hop :: "'f f64_ops \<Rightarrow> ('f, 'alt, 'tx) tx_env \<Rightarrow> pubkey \<Rightarrow> pool_cache \<Rightarrow> token_programs \<Rightarrow> nat \<Rightarrow> u64 \<Rightarrow> 'f hop
    \<Rightarrow> tx_error + (account_meta list \<times> bytes)" where
  "build_hop fl env payer pools programs hop_idx current_amount_in hop =
     and_then (ok_or PoolNotInCache (get_pool pools (hop_pool hop))) (\<lambda>pool.
     and_then (check_hop hop_idx hop pool) (\<lambda>_.
     and_then (hop_accounts fl env payer programs current_amount_in hop pool) (\<lambda>accounts.
     (let dex = from_program_id (hop_dex_program hop) in
      and_then (build_swap_data env dex current_amount_in 1 (hop_token_in hop = dp_token_a pool)
          (if dex = OrcaWhirlpool then 2 else 0)) (\<lambda>data.
        Inr (accounts, data))))))"

fun build_hops :: "'f f64_ops \<Rightarrow> ('f, 'alt, 'tx) tx_env \<Rightarrow> pubkey \<Rightarrow> pool_cache \<Rightarrow> token_programs \<Rightarrow> nat \<Rightarrow> u64 \<Rightarrow> 'f hop list
    \<Rightarrow> tx_error + (account_meta list \<times> bytes) list" where
  "build_hops fl env payer pools programs hop_idx current_amount_in [] = Inr []"
| "build_hops fl env payer pools programs hop_idx current_amount_in (hop # hops) =
     and_then (build_hop fl env payer pools programs hop_idx current_amount_in hop) (\<lambda>built.
     and_then (build_hops fl env payer pools programs (Suc hop_idx) (safe_out (hop_amount_out hop)) hops) (\<lambda>rest.
       Inr (built # rest)))"

definition helios_args :: "u64 \<Rightarrow> (account_meta list \<times> bytes) list \<Rightarrow> flash_arb_args" where
  "helios_args borrow_amount built =
     \<lparr>faa_borrow_amount = borrow_amount, faa_min_profit = 0,
      faa_hop_account_counts = map (\<lambda>b. word_of_nat (length (fst b))) built, faa_hop_data = map snd built\<rparr>"

definition build_helios_instruction :: "'f f64_ops \<Rightarrow> ('f, 'alt, 'tx) tx_env \<Rightarrow> tx_builder \<Rightarrow> 'f route_params \<Rightarrow> pubkey
    \<Rightarrow> pool_cache \<Rightarrow> token_programs \<Rightarrow> bool \<Rightarrow> tx_error + instruction" where
  "build_helios_instruction fl env tb route user_token_account pools programs simulation_mode =
     and_then (build_hops fl env (tb_payer tb) pools programs 0 (rp_borrow_amount route) (rp_hops route)) (\<lambda>built.
     (let config_pda = fe_find_program_address (te_flash env) [bytes_of_string ''config''] (tb_helios_program tb) in
      Inr \<lparr>ix_program_id = tb_helios_program tb,
           ix_accounts = [meta_new (tb_payer tb) True, meta_new user_token_account False,
               meta_readonly config_pda False, meta_readonly TOKEN_PROGRAM_ID False] @ concat (map fst built),
           ix_data = [55, 189, 43, 168, 168, 89, 43, 57] @ te_borsh_args env (helios_args (rp_borrow_amount route) built)\<rparr>))"

end
