(* ===== verification/Tx_Transactions.thy ===== *)
theory Tx_Transactions
  imports Tx_Builder
begin

text \<open>
  The transactions of \<^verbatim>\<open>executor/src/tx_builder.rs\<close>: compute budget, creation of token accounts, the flash
  loan around the swap, the tip, in this order; and the variant that calls the exchanges directly. The clock
  is an argument, and every builder returns the token-program cache it leaves.
\<close>

section \<open>Token accounts\<close>

definition build_create_ata_idempotent_ix :: "('f, 'alt, 'tx) tx_env \<Rightarrow> pubkey \<Rightarrow> pubkey \<Rightarrow> pubkey \<Rightarrow> pubkey \<Rightarrow> instruction" where
  "build_create_ata_idempotent_ix env payer owner mint prog =
     \<lparr>ix_program_id = ASSOCIATED_TOKEN_PROGRAM_ID,
      ix_accounts = [meta_new payer True, meta_new (associated_token_address env owner mint) False,
        meta_readonly owner False, meta_readonly mint False, meta_readonly SYSTEM_PROGRAM_ID False,
        meta_readonly prog False],
      ix_data = [1]\<rparr>"

definition build_ata_setup_instructions :: "('f, 'alt, 'tx) tx_env \<Rightarrow> tx_builder \<Rightarrow> 'f route_params \<Rightarrow> token_programs \<Rightarrow> instruction list" where
  "build_ata_setup_instructions env tb route programs =
     map (\<lambda>mint. build_create_ata_idempotent_ix env (tb_payer tb) (tb_payer tb) mint (program_of_mint programs mint))
       (route_mints route)"

definition required_token_accounts :: "('f, 'alt, 'tx) tx_env \<Rightarrow> nat \<Rightarrow> 'f route_params \<Rightarrow> tx_builder
    \<Rightarrow> (pubkey \<times> pubkey) list \<times> tx_builder" where
  "required_token_accounts env now route tb =
     (let (programs, tb) = token_programs_for_route env now route tb in
      (map (\<lambda>mint. (mint, associated_token_address_with_program env (tb_payer tb) mint (program_of_mint programs mint)))
         (route_mints route), tb))"

definition build_ata_setup_transaction :: "('f, 'alt, 'tx) tx_env \<Rightarrow> nat \<Rightarrow> 'f route_params \<Rightarrow> pubkey \<Rightarrow> tx_builder
    \<Rightarrow> (tx_error + 'tx option) \<times> tx_builder" where
  "build_ata_setup_transaction env now route recent_blockhash tb =
     (let (programs, tb) = token_programs_for_route env now route tb;
          instructions = build_ata_setup_instructions env tb route programs in
      (if instructions = [] then Inr None
       else and_then (ok_or CompileFailed (te_compile env (tb_payer tb) instructions [] recent_blockhash)) (\<lambda>tx. Inr (Some tx)),
       tb))"

section \<open>Compute budget\<close>

text \<open>\<^verbatim>\<open>str::parse::<u64>\<close>: digits, with an optional plus sign, that fit.\<close>

definition is_digit :: "char \<Rightarrow> bool" where
  "is_digit c \<longleftrightarrow> (of_char c :: nat) \<in> {48..57}"

definition parse_decimal_u64 :: "string \<Rightarrow> u64 option" where
  "parse_decimal_u64 s =
     (let digits = (case s of c # cs \<Rightarrow> if c = CHR ''+'' then cs else s | [] \<Rightarrow> []);
          n = fold (\<lambda>c n. 10 * n + ((of_char c :: nat) - 48)) digits 0 in
      if digits \<noteq> [] \<and> list_all is_digit digits \<and> n < 2 ^ 64 then Some (word_of_nat n) else None)"

definition env_u64 :: "('f, 'alt, 'tx) tx_env \<Rightarrow> string \<Rightarrow> u64 \<Rightarrow> u64" where
  "env_u64 env key default_value = unwrap_or default_value (Option.bind (fe_var (te_flash env) key) parse_decimal_u64)"

definition priority_fee :: "'f f64_ops \<Rightarrow> ('f, 'alt, 'tx) tx_env \<Rightarrow> int \<Rightarrow> u32 \<Rightarrow> u64" where
  "priority_fee fl env net_profit cu_limit =
     (let priority_pct = unwrap_or (fl_lit fl ''10.0'')
            (Option.bind (fe_var (te_flash env) ''PRIORITY_FEE_PCT'') (te_parse_f64 env));
          priority_floor = env_u64 env ''PRIORITY_FEE_FLOOR'' 1000;
          priority_ceil = env_u64 env ''PRIORITY_FEE_CEIL'' 5000;
          budget = fl_to_u64 fl (fl_div fl (fl_mul fl (fl_of_int fl (max net_profit 0)) priority_pct) (fl_lit fl ''100.0''));
          dynamic_fee = (if cu_limit > 0 then sat_mul budget 1000000 div ucast cu_limit else priority_floor) in
      min (max dynamic_fee priority_floor) priority_ceil)"

definition compute_budget :: "'f f64_ops \<Rightarrow> ('f, 'alt, 'tx) tx_env \<Rightarrow> 'f route_params \<Rightarrow> u32 \<Rightarrow> instruction list" where
  "compute_budget fl env route cu_limit =
     [te_cu_limit env cu_limit, te_cu_price env (priority_fee fl env (rp_net_profit route) cu_limit)]"

section \<open>The transaction of a route\<close>

definition wrap_error :: "flash_error + 'a \<Rightarrow> tx_error + 'a" where
  "wrap_error r = (case r of Inl e \<Rightarrow> Inl (TxFlash e) | Inr x \<Rightarrow> Inr x)"

definition tip_list :: "instruction option \<Rightarrow> instruction list" where
  "tip_list tip = (case tip of None \<Rightarrow> [] | Some ix \<Rightarrow> [ix])"

definition route_instructions :: "'f f64_ops \<Rightarrow> ('f, 'alt, 'tx) tx_env \<Rightarrow> tx_builder \<Rightarrow> 'f route_params \<Rightarrow> flash_provider
    \<Rightarrow> pool_cache \<Rightarrow> bool \<Rightarrow> instruction option \<Rightarrow> token_programs \<Rightarrow> tx_error + instruction list" where
  "route_instructions fl env tb route provider pools simulation_mode tip programs =
     (case rp_hops route of
        [] \<Rightarrow> Inl RouteHasNoHops
      | hop # _ \<Rightarrow>
          let borrow_mint = hop_token_in hop;
              user_token_account = associated_token_address_with_program env (tb_payer tb) borrow_mint
                (program_of_mint programs borrow_mint) in
          and_then (build_helios_instruction fl env tb route user_token_account pools programs simulation_mode) (\<lambda>helios_ix.
          (let prologue = compute_budget fl env route 400000 @ build_ata_setup_instructions env tb route programs in
           and_then (wrap_error (build_wrapped_instructions (te_flash env) provider (tb_payer tb) borrow_mint
               (rp_borrow_amount route) user_token_account helios_ix (length prologue))) (\<lambda>wrapped.
             Inr (prologue @ wrapped @ tip_list tip)))))"

definition build_inner_cached :: "'f f64_ops \<Rightarrow> ('f, 'alt, 'tx) tx_env \<Rightarrow> tx_builder \<Rightarrow> 'f route_params \<Rightarrow> flash_provider
    \<Rightarrow> pubkey \<Rightarrow> 'alt list \<Rightarrow> pool_cache \<Rightarrow> bool \<Rightarrow> instruction option \<Rightarrow> token_programs \<Rightarrow> tx_error + 'tx" where
  "build_inner_cached fl env tb route provider recent_blockhash alts pools simulation_mode tip programs =
     and_then (route_instructions fl env tb route provider pools simulation_mode tip programs) (\<lambda>instructions.
       ok_or CompileFailed (te_compile env (tb_payer tb) instructions alts recent_blockhash))"

definition build_inner :: "'f f64_ops \<Rightarrow> ('f, 'alt, 'tx) tx_env \<Rightarrow> nat \<Rightarrow> tx_builder \<Rightarrow> 'f route_params \<Rightarrow> flash_provider
    \<Rightarrow> pubkey \<Rightarrow> 'alt list \<Rightarrow> pool_cache \<Rightarrow> bool \<Rightarrow> instruction option \<Rightarrow> (tx_error + 'tx) \<times> tx_builder" where
  "build_inner fl env now tb route provider recent_blockhash alts pools simulation_mode tip =
     (let (programs, tb) = token_programs_for_route env now route tb in
      (build_inner_cached fl env tb route provider recent_blockhash alts pools simulation_mode tip programs, tb))"

definition build :: "'f f64_ops \<Rightarrow> ('f, 'alt, 'tx) tx_env \<Rightarrow> nat \<Rightarrow> tx_builder \<Rightarrow> 'f route_params \<Rightarrow> flash_provider
    \<Rightarrow> pubkey \<Rightarrow> 'alt list \<Rightarrow> pool_cache \<Rightarrow> (tx_error + 'tx) \<times> tx_builder" where
  "build fl env now tb route provider recent_blockhash alts pools =
     build_inner fl env now tb route provider recent_blockhash alts pools False None"

definition build_with_tip :: "'f f64_ops \<Rightarrow> ('f, 'alt, 'tx) tx_env \<Rightarrow> nat \<Rightarrow> tx_builder \<Rightarrow> 'f route_params \<Rightarrow> flash_provider
    \<Rightarrow> pubkey \<Rightarrow> 'alt list \<Rightarrow> pool_cache \<Rightarrow> instruction \<Rightarrow> (tx_error + 'tx) \<times> tx_builder" where
  "build_with_tip fl env now tb route provider recent_blockhash alts pools tip =
     build_inner fl env now tb route provider recent_blockhash alts pools False (Some tip)"

definition build_for_simulation :: "'f f64_ops \<Rightarrow> ('f, 'alt, 'tx) tx_env \<Rightarrow> nat \<Rightarrow> tx_builder \<Rightarrow> 'f route_params \<Rightarrow> flash_provider
    \<Rightarrow> pubkey \<Rightarrow> 'alt list \<Rightarrow> pool_cache \<Rightarrow> (tx_error + 'tx) \<times> tx_builder" where
  "build_for_simulation fl env now tb route provider recent_blockhash alts pools =
     build_inner fl env now tb route provider recent_blockhash alts pools True None"

definition build_for_simulation_cached :: "'f f64_ops \<Rightarrow> ('f, 'alt, 'tx) tx_env \<Rightarrow> tx_builder \<Rightarrow> 'f route_params \<Rightarrow> flash_provider
    \<Rightarrow> pubkey \<Rightarrow> 'alt list \<Rightarrow> pool_cache \<Rightarrow> token_programs \<Rightarrow> tx_error + 'tx" where
  "build_for_simulation_cached fl env tb route provider recent_blockhash alts pools programs =
     build_inner_cached fl env tb route provider recent_blockhash alts pools True None programs"

definition build_with_tip_cached :: "'f f64_ops \<Rightarrow> ('f, 'alt, 'tx) tx_env \<Rightarrow> tx_builder \<Rightarrow> 'f route_params \<Rightarrow> flash_provider
    \<Rightarrow> pubkey \<Rightarrow> 'alt list \<Rightarrow> pool_cache \<Rightarrow> instruction \<Rightarrow> token_programs \<Rightarrow> tx_error + 'tx" where
  "build_with_tip_cached fl env tb route provider recent_blockhash alts pools tip programs =
     build_inner_cached fl env tb route provider recent_blockhash alts pools False (Some tip) programs"

section \<open>Jupiter swaps in a flash loan\<close>

definition jupiter_flash_instructions :: "('f, 'alt, 'tx) tx_env \<Rightarrow> tx_builder \<Rightarrow> instruction list \<Rightarrow> u64 \<Rightarrow> flash_provider
    \<Rightarrow> instruction option \<Rightarrow> tx_error + instruction list" where
  "jupiter_flash_instructions env tb jupiter_swap_ixs borrow_amount provider tip =
     (let user_token_account = associated_token_address_with_program env (tb_payer tb) SOL_MINT TOKEN_PROGRAM_ID;
          prologue = [te_cu_limit env 1000000, te_cu_price env 1000] in
      and_then (wrap_error (build_wrapped_instructions_direct (te_flash env) provider (tb_payer tb) SOL_MINT borrow_amount
          user_token_account jupiter_swap_ixs (length prologue))) (\<lambda>wrapped.
        Inr (prologue @ wrapped @ (if provider \<noteq> Kamino then tip_list tip else []))))"

definition build_jupiter_flash_tx :: "('f, 'alt, 'tx) tx_env \<Rightarrow> tx_builder \<Rightarrow> instruction list \<Rightarrow> u64 \<Rightarrow> flash_provider
    \<Rightarrow> pubkey \<Rightarrow> 'alt list \<Rightarrow> instruction option \<Rightarrow> tx_error + 'tx" where
  "build_jupiter_flash_tx env tb jupiter_swap_ixs borrow_amount provider recent_blockhash alts tip =
     and_then (jupiter_flash_instructions env tb jupiter_swap_ixs borrow_amount provider tip) (\<lambda>instructions.
       ok_or CompileFailed (te_compile env (tb_payer tb) instructions alts recent_blockhash))"

section \<open>Direct swaps\<close>

definition direct_raydium :: "pubkey \<Rightarrow> 'f hop \<Rightarrow> raydium_metadata \<Rightarrow> pubkey \<Rightarrow> pubkey \<Rightarrow> u64 \<Rightarrow> instruction" where
  "direct_raydium payer hop meta user_source user_dest current_amount =
     \<lparr>ix_program_id = hop_dex_program hop,
      ix_accounts = [meta_readonly TOKEN_PROGRAM_ID False, meta_new (hop_pool hop) False,
        meta_readonly (rm_authority meta) False, meta_new (rm_open_orders meta) False,
        meta_new (rm_target_orders meta) False, meta_new (rm_vault_a meta) False, meta_new (rm_vault_b meta) False,
        meta_readonly (rm_market_program meta) False, meta_new (rm_market_id meta) False,
        meta_new (rm_market_bids meta) False, meta_new (rm_market_asks meta) False,
        meta_new (rm_market_event_queue meta) False, meta_new (rm_market_base_vault meta) False,
        meta_new (rm_market_quote_vault meta) False, meta_readonly (rm_market_vault_signer meta) False,
        meta_new user_source False, meta_new user_dest False, meta_readonly payer True],
      ix_data = [9, 0, 0, 0, 0, 0, 0, 0] @ u64_to_le current_amount @ u64_to_le 1\<rparr>"

definition direct_pumpswap :: "('f, 'alt, 'tx) tx_env \<Rightarrow> pubkey \<Rightarrow> 'f hop \<Rightarrow> dex_pool \<Rightarrow> pubkey \<Rightarrow> pubkey \<Rightarrow> pubkey \<Rightarrow> pubkey
    \<Rightarrow> u64 \<Rightarrow> instruction" where
  "direct_pumpswap env payer hop pool prog_in prog_out user_source user_dest current_amount =
     \<lparr>ix_program_id = hop_dex_program hop,
      ix_accounts = [meta_new (hop_pool hop) False, meta_new payer True, meta_readonly PUMPSWAP_GLOBAL_CONFIG False,
        meta_readonly (dp_token_a pool) False, meta_readonly (dp_token_b pool) False, meta_new user_source False,
        meta_new user_dest False, meta_new (associated_token_address env (hop_pool hop) (dp_token_a pool)) False,
        meta_new (associated_token_address env (hop_pool hop) (dp_token_b pool)) False,
        meta_new PUMPSWAP_PROTOCOL_FEE_RECIPIENT False,
        meta_new (associated_token_address env PUMPSWAP_PROTOCOL_FEE_RECIPIENT (dp_token_b pool)) False,
        meta_readonly prog_in False, meta_readonly prog_out False, meta_readonly SYSTEM_PROGRAM_ID False,
        meta_readonly ASSOCIATED_TOKEN_PROGRAM_ID False, meta_readonly PUMPSWAP_EVENT_AUTHORITY False,
        meta_readonly (hop_dex_program hop) False],
      ix_data = [0x33, 0xe6, 0x85, 0xa4, 0x01, 0x7f, 0x83, 0xad] @ u64_to_le current_amount @ u64_to_le 1\<rparr>"

text \<open>The bin arrays in the order of the map.\<close>

definition direct_meteora :: "('f, 'alt, 'tx) tx_env \<Rightarrow> pubkey \<Rightarrow> 'f hop \<Rightarrow> meteora_metadata \<Rightarrow> pubkey \<Rightarrow> pubkey \<Rightarrow> pubkey
    \<Rightarrow> pubkey \<Rightarrow> u64 \<Rightarrow> instruction" where
  "direct_meteora env payer hop meta prog_in prog_out user_source user_dest current_amount =
     \<lparr>ix_program_id = hop_dex_program hop,
      ix_accounts = [meta_new (hop_pool hop) False, meta_readonly METEORA_DLMM False, meta_readonly payer True,
        meta_new (mm_token_vault_a meta) False, meta_new (mm_token_vault_b meta) False, meta_new user_source False,
        meta_new user_dest False, meta_readonly prog_in False, meta_readonly prog_out False,
        meta_readonly METEORA_EVENT_AUTHORITY False, meta_readonly METEORA_DLMM False]
        @ map (\<lambda>(i, _). meta_new (fe_find_program_address (te_flash env)
            [bytes_of_string ''bin_array'', pubkey_to_bytes (hop_pool hop), i64_to_le i] METEORA_DLMM) False)
          (mm_bin_arrays meta),
      ix_data = [0xf8, 0xc6, 0x9e, 0x91, 0xe1, 0x75, 0x87, 0xc8]
        @ te_borsh_meteora env \<lparr>msa_amount_in = current_amount, msa_min_amount_out = 1\<rparr>\<rparr>"

definition direct_orca :: "('f, 'alt, 'tx) tx_env \<Rightarrow> pubkey \<Rightarrow> 'f hop \<Rightarrow> dex_pool \<Rightarrow> orca_metadata \<Rightarrow> pubkey \<Rightarrow> pubkey \<Rightarrow> u64
    \<Rightarrow> tx_error + instruction" where
  "direct_orca env payer hop pool meta prog_in prog_out current_amount =
     and_then (guard_or OrcaIncomplete (om_tick_spacing meta \<noteq> 0)) (\<lambda>_.
     and_then (derive_orca_oracle env (hop_pool hop)) (\<lambda>oracle.
     (let a_to_b = (hop_token_in hop = dp_token_a pool);
          offset = wrap32 (uint (om_tick_spacing meta) * ORCA_TICK_ARRAY_SIZE);
          dir = (if a_to_b then - 1 else 1) in
      and_then (ok_or IndexPanic (get_orca_tick_array_start_tick_index (om_tick_current_index meta) (om_tick_spacing meta))) (\<lambda>start0.
      (let start1 = wrap32 (start0 + wrap32 (dir * offset)); start2 = wrap32 (start1 + wrap32 (dir * offset)) in
       and_then (collect_results (derive_orca_tick_array env (hop_pool hop)) [start0, start1, start2]) (\<lambda>arrays.
       and_then (build_swap_data env OrcaWhirlpool current_amount 1 a_to_b 0) (\<lambda>data.
         Inr \<lparr>ix_program_id = hop_dex_program hop,
              ix_accounts = [meta_readonly TOKEN_PROGRAM_ID False, meta_readonly TOKEN_PROGRAM_ID False,
                meta_readonly MEMO_PROGRAM_ID False, meta_readonly payer True, meta_new (hop_pool hop) False,
                meta_readonly (dp_token_a pool) False, meta_readonly (dp_token_b pool) False,
                meta_new (associated_token_address_with_program env payer (dp_token_a pool) prog_in) False,
                meta_new (om_token_vault_a meta) False,
                meta_new (associated_token_address_with_program env payer (dp_token_b pool) prog_out) False,
                meta_new (om_token_vault_b meta) False] @ map (\<lambda>k. meta_new k False) arrays @ [meta_new oracle False],
              ix_data = data\<rparr>)))))))"

definition direct_swap_ix :: "('f, 'alt, 'tx) tx_env \<Rightarrow> pubkey \<Rightarrow> pool_cache \<Rightarrow> token_programs \<Rightarrow> u64 \<Rightarrow> 'f hop
    \<Rightarrow> tx_error + instruction" where
  "direct_swap_ix env payer pools programs current_amount hop =
     and_then (ok_or PoolNotInCache (get_pool pools (hop_pool hop))) (\<lambda>pool.
     (let prog_in = program_of_mint programs (hop_token_in hop);
          prog_out = program_of_mint programs (hop_token_out hop);
          user_source = associated_token_address_with_program env payer (hop_token_in hop) prog_in;
          user_dest = associated_token_address_with_program env payer (hop_token_out hop) prog_out;
          dex = from_program_id (hop_dex_program hop) in
      case dex of
        RaydiumAmmV4 \<Rightarrow>
          and_then (ok_or RaydiumMetaMissing (dp_raydium_meta pool)) (\<lambda>meta.
            Inr (direct_raydium payer hop meta user_source user_dest current_amount))
      | PumpSwap \<Rightarrow> Inr (direct_pumpswap env payer hop pool prog_in prog_out user_source user_dest current_amount)
      | MeteoraDlmm \<Rightarrow>
          and_then (ok_or MeteoraMetaMissing (dp_meteora_meta pool)) (\<lambda>meta.
            Inr (direct_meteora env payer hop meta prog_in prog_out user_source user_dest current_amount))
      | OrcaWhirlpool \<Rightarrow>
          and_then (ok_or OrcaMetaMissing (dp_orca_meta pool)) (\<lambda>meta.
            direct_orca env payer hop pool meta prog_in prog_out current_amount)
      | _ \<Rightarrow> Inl (DexUnsupported dex)))"

fun direct_swap_ixs :: "('f, 'alt, 'tx) tx_env \<Rightarrow> pubkey \<Rightarrow> pool_cache \<Rightarrow> token_programs \<Rightarrow> u64 \<Rightarrow> 'f hop list
    \<Rightarrow> tx_error + instruction list" where
  "direct_swap_ixs env payer pools programs current_amount [] = Inr []"
| "direct_swap_ixs env payer pools programs current_amount (hop # hops) =
     and_then (direct_swap_ix env payer pools programs current_amount hop) (\<lambda>ix.
     and_then (direct_swap_ixs env payer pools programs (hop_amount_out hop) hops) (\<lambda>ixs.
       Inr (ix # ixs)))"

definition direct_instructions :: "'f f64_ops \<Rightarrow> ('f, 'alt, 'tx) tx_env \<Rightarrow> tx_builder \<Rightarrow> 'f route_params \<Rightarrow> flash_provider
    \<Rightarrow> pool_cache \<Rightarrow> instruction option \<Rightarrow> token_programs \<Rightarrow> tx_error + instruction list" where
  "direct_instructions fl env tb route provider pools tip programs =
     (case rp_hops route of
        [] \<Rightarrow> Inl RouteHasNoHops
      | hop # _ \<Rightarrow>
          let borrow_mint = hop_token_in hop;
              user_borrow_ata = associated_token_address_with_program env (tb_payer tb) borrow_mint
                (program_of_mint programs borrow_mint);
              prologue = compute_budget fl env route 250000 @ build_ata_setup_instructions env tb route programs in
          and_then (direct_swap_ixs env (tb_payer tb) pools programs (rp_borrow_amount route) (rp_hops route)) (\<lambda>swap_ixs.
          and_then (wrap_error (build_wrapped_instructions_direct (te_flash env) provider (tb_payer tb) borrow_mint
              (rp_borrow_amount route) user_borrow_ata swap_ixs (length prologue))) (\<lambda>wrapped.
            Inr (prologue @ wrapped @ tip_list tip))))"

definition build_direct_swap_tx :: "'f f64_ops \<Rightarrow> ('f, 'alt, 'tx) tx_env \<Rightarrow> nat \<Rightarrow> tx_builder \<Rightarrow> 'f route_params \<Rightarrow> flash_provider
    \<Rightarrow> pubkey \<Rightarrow> 'alt list \<Rightarrow> pool_cache \<Rightarrow> instruction option \<Rightarrow> (tx_error + 'tx) \<times> tx_builder" where
  "build_direct_swap_tx fl env now tb route provider recent_blockhash alts pools tip =
     (let (programs, tb) = token_programs_for_route env now route tb in
      (and_then (direct_instructions fl env tb route provider pools tip programs) (\<lambda>instructions.
         ok_or CompileFailed (te_compile env (tb_payer tb) instructions alts recent_blockhash)), tb))"

end
