(* ===== verification/Tx_Building.thy ===== *)
theory Tx_Building
  imports Tx_Transactions Helios_Arb Shred_Delta Orca_Quote
begin

text \<open>
  What the transaction builder promises. The on-chain program cuts the accounts of the instruction back into
  the hops the builder laid out; the tick arrays of a whirlpool hop are five adjacent ones; the data of a swap
  reads back as the amounts it was built from; the flash loan's indices are right in the finished transaction;
  and every token account a route needs is created first, unless its mint is a Token-2022 one.
\<close>

section \<open>The hops, off chain and on chain\<close>

text \<open>A cache whose DLMM pools keep few enough bin arrays for the account count of a hop, a byte.\<close>

definition few_bin_arrays :: "pool_cache \<Rightarrow> bool" where
  "few_bin_arrays pools \<longleftrightarrow> list_all (\<lambda>(_, pool). case dp_meteora_meta pool of
     None \<Rightarrow> True | Some meta \<Rightarrow> length (mm_bin_arrays meta) \<le> 242) (cache_inner pools)"

lemma few_bin_arraysD:
  assumes "few_bin_arrays pools" and "get_pool pools addr = Some pool" and "dp_meteora_meta pool = Some meta"
  shows "length (mm_bin_arrays meta) \<le> 242"
  using assms map_of_SomeD [of "cache_inner pools" addr pool]
  by (auto simp: few_bin_arrays_def get_pool_def list_all_iff split: option.splits)

lemma length_meteora_bin_array_indices:
  "length (mm_bin_arrays meta) \<le> 242 \<Longrightarrow> length (meteora_bin_array_indices meta a_to_b) \<le> 242"
proof -
  assume few: "length (mm_bin_arrays meta) \<le> 242"
  have "length (filter P (mm_bin_arrays meta)) \<le> 242" for P
    by (rule order_trans [OF length_filter_le few])
  then show ?thesis by (simp add: meteora_bin_array_indices_def Let_def filter_map)
qed

lemma collect_results_length: "collect_results f xs = Inr ys \<Longrightarrow> length ys = length xs"
  by (auto simp: collect_results_Inr list_all2_lengthD)

lemma derive_orca_tick_arrays_length:
  assumes "derive_orca_tick_arrays fl env whirlpool meta amount_in fee a_to_b = Inr arrays"
  shows "length (ota_primary arrays) = 3 \<and> length (ota_supplemental arrays) = 2"
  using assms by (auto simp: derive_orca_tick_arrays_def dest!: collect_results_length)

lemma supported_whitelisted:
  "from_program_id pk \<in> {RaydiumAmmV4, OrcaWhirlpool, MeteoraDlmm, PumpSwap} \<Longrightarrow> pk \<in> set default_whitelist"
  by (simp add: from_program_id_def default_whitelist_def split: if_splits)

lemma pumpswap_program: "from_program_id pk = PumpSwap \<Longrightarrow> pk = PUMPSWAP"
  by (simp add: from_program_id_def split: if_splits)

lemma hop_accounts_shape:
  assumes "hop_accounts fl env payer programs amount hop pool = Inr accounts"
    and "\<And>meta. dp_meteora_meta pool = Some meta \<Longrightarrow> length (mm_bin_arrays meta) \<le> 242"
  shows "accounts \<noteq> [] \<and> am_pubkey (hd accounts) = hop_dex_program hop \<and> length accounts < 256
    \<and> hop_dex_program hop \<in> set default_whitelist"
proof (cases "from_program_id (hop_dex_program hop)")
  case RaydiumAmmV4
  with assms(1) show ?thesis
    by (auto simp: hop_accounts_def Let_def raydium_hop_accounts_def intro: supported_whitelisted)
next
  case OrcaWhirlpool
  with assms(1) obtain meta arrays orc where accounts: "accounts = orca_hop_accounts env payer hop pool meta arrays orc"
    and "derive_orca_tick_arrays fl env (hop_pool hop) meta amount (dp_fee_bps pool) (hop_token_in hop = dp_token_a pool) = Inr arrays"
    by (auto simp: hop_accounts_def Let_def)
  from derive_orca_tick_arrays_length [OF this(2)] OrcaWhirlpool show ?thesis
    by (simp add: accounts orca_hop_accounts_def supported_whitelisted)
next
  case MeteoraDlmm
  with assms(1) obtain meta bin_arrays orc s d where meta: "dp_meteora_meta pool = Some meta"
    and bins: "derive_meteora_bin_arrays env (hop_pool hop) meta (hop_token_in hop = dp_token_a pool) = Inr bin_arrays"
    and accounts: "accounts = meteora_hop_accounts payer hop pool meta bin_arrays orc s d"
    by (auto simp: hop_accounts_def Let_def)
  have "length bin_arrays \<le> 242"
    using collect_results_length [OF bins [unfolded derive_meteora_bin_arrays_def]]
      length_meteora_bin_array_indices [OF assms(2) [OF meta]] by simp
  with MeteoraDlmm show ?thesis
    by (simp add: accounts meteora_hop_accounts_def supported_whitelisted)
next
  case PumpSwap
  have "accounts = pumpswap_hop_accounts env payer hop pool (program_of_mint programs (hop_token_in hop))
      (program_of_mint programs (hop_token_out hop))"
    using assms(1) PumpSwap by (simp add: hop_accounts_def Let_def)
  then have "accounts \<noteq> [] \<and> am_pubkey (hd accounts) = PUMPSWAP \<and> length accounts = 18"
    by (simp only: pumpswap_hop_accounts_def Let_def split: prod.split) simp
  moreover have "hop_dex_program hop \<in> set default_whitelist"
    using PumpSwap by (simp add: supported_whitelisted)
  ultimately show ?thesis
    by (simp only: pumpswap_program [OF PumpSwap]) simp
qed (use assms(1) in \<open>simp_all add: hop_accounts_def Let_def\<close>)

lemma build_hop_shape:
  assumes "few_bin_arrays pools" and "build_hop fl env payer pools programs i amount hop = Inr (accounts, data)"
  shows "accounts \<noteq> []" and "am_pubkey (hd accounts) = hop_dex_program hop" and "length accounts < 256"
    and "hop_dex_program hop \<in> set default_whitelist"
proof -
  obtain pool where pool: "get_pool pools (hop_pool hop) = Some pool"
    and "hop_accounts fl env payer programs amount hop pool = Inr accounts"
    using assms(2) by (auto simp: build_hop_def Let_def)
  from hop_accounts_shape [OF this(2) few_bin_arraysD [OF assms(1) pool]]
  show "accounts \<noteq> []" "am_pubkey (hd accounts) = hop_dex_program hop" "length accounts < 256"
    "hop_dex_program hop \<in> set default_whitelist" by auto
qed

lemma build_hops_shape:
  assumes "few_bin_arrays pools" and "build_hops fl env payer pools programs i amount hops = Inr built"
  shows "list_all (\<lambda>b. fst b \<noteq> [] \<and> length (fst b) < 256) built
    \<and> map (\<lambda>b. am_pubkey (hd (fst b))) built = map hop_dex_program hops
    \<and> set (map hop_dex_program hops) \<subseteq> set default_whitelist"
  using assms(2)
proof (induction hops arbitrary: i amount built)
  case (Cons hop hops)
  then obtain accounts data rest where hop: "build_hop fl env payer pools programs i amount hop = Inr (accounts, data)"
    and rest: "build_hops fl env payer pools programs (Suc i) (safe_out (hop_amount_out hop)) hops = Inr rest"
    and built: "built = (accounts, data) # rest" by auto
  from build_hop_shape [OF assms(1) hop] Cons.IH [OF rest] show ?case
    by (simp add: built)
qed simp

text \<open>Cutting the accounts of a route at the counts of its hops gives the accounts of the hops.\<close>

lemma cut_hops_concat:
  "map f infos = concat xss \<Longrightarrow> map (map f) (cut_hops infos (map length xss)) = xss"
proof (induction xss arbitrary: infos)
  case (Cons xs xss)
  have "map f (take (length xs) infos) = xs" "map f (drop (length xs) infos) = concat xss"
    using Cons.prems by (simp_all add: take_map [symmetric] drop_map [symmetric])
  with Cons.IH show ?case by simp
qed simp

lemma hd_cut_hops:
  assumes "map (map ai_key) cuts = map (map am_pubkey) xss" and "list_all (\<lambda>xs. xs \<noteq> []) xss"
  shows "map (\<lambda>c. ai_key (hd c)) cuts = map (\<lambda>xs. am_pubkey (hd xs)) xss" and "list_all (\<lambda>c. c \<noteq> []) cuts"
proof -
  have "list_all2 (\<lambda>c xs. map ai_key c = map am_pubkey xs \<and> xs \<noteq> []) cuts xss"
    using assms
  proof (induction xss arbitrary: cuts)
    case (Cons xs xss)
    then show ?case by (cases cuts) auto
  qed simp
  then show "map (\<lambda>c. ai_key (hd c)) cuts = map (\<lambda>xs. am_pubkey (hd xs)) xss" "list_all (\<lambda>c. c \<noteq> []) cuts"
  proof (induction rule: list_all2_induct)
    case (Cons c cuts xs xss)
    { case 1 from Cons show ?case by (cases c; cases xs) auto }
    { case 2 from Cons show ?case by (cases c; cases xs) auto }
  qed simp_all
qed

lemma unat_of_length: "n < 256 \<Longrightarrow> unat (word_of_nat n :: u8) = n"
  by (simp add: unat_of_nat)

lemma counts_of_built:
  "list_all (\<lambda>b. fst b \<noteq> [] \<and> length (fst b) < 256) built \<Longrightarrow>
   map unat (faa_hop_account_counts (helios_args amount built)) = map length (map fst built)"
  by (induction built) (auto simp: helios_args_def unat_of_length)

text \<open>
  Property C23. The instruction the builder makes for a route carries its hops to the on-chain program intact.
  The program, which decodes the arguments and cuts the remaining accounts by the counts in them, gets for
  every hop exactly the accounts and the data built for it, with the exchange of the hop as call target; and
  it succeeds exactly if its whitelist has the exchanges, they are executable, and those calls, made in the
  order of the hops, succeed. The exchanges the builder supports are all in the default whitelist.
\<close>

theorem hops_delivered:
  assumes "build_hops fl env (tb_payer tb) pools programs 0 (rp_borrow_amount route) (rp_hops route) = Inr built"
    and "few_bin_arrays pools"
    and "fe_decode_args (te_flash env) (te_borsh_args env (helios_args (rp_borrow_amount route) built))
      = Some (helios_args (rp_borrow_amount route) built)"
    and "map ai_key infos = map am_pubkey (concat (map fst built))"
  shows "\<exists>ix args. build_helios_instruction fl env tb route user_token_account pools programs simulation_mode = Inr ix
    \<and> map ai_key infos = map am_pubkey (drop 4 (ix_accounts ix))
    \<and> decode_helios_flash_arb_args (te_flash env) ix = (if rp_borrow_amount route = 0 then Inl ZeroBorrow else Inr args)
    \<and> faa_borrow_amount args = rp_borrow_amount route
    \<and> set (map hop_dex_program (rp_hops route)) \<subseteq> set default_whitelist
    \<and> (let cuts = cut_hops infos (map length (map fst built)) in
        map (map ai_key) cuts = map (map am_pubkey) (map fst built)
        \<and> (execute_hops rt config infos (faa_hop_account_counts args) (faa_hop_data args) w = Inr w'
          \<longleftrightarrow> set (map hop_dex_program (rp_hops route)) \<subseteq> set (hc_dex_whitelist config)
            \<and> list_all (\<lambda>c. ai_executable (hd c)) cuts
            \<and> invoke_all rt (map2 hop_call cuts (map snd built)) w = Inr w'))"
proof -
  let ?args = "helios_args (rp_borrow_amount route) built"
  let ?cuts = "cut_hops infos (map length (map fst built))"
  note shape = build_hops_shape [OF assms(2,1)]
  obtain ix where ix: "build_helios_instruction fl env tb route user_token_account pools programs simulation_mode = Inr ix"
    and accounts: "drop 4 (ix_accounts ix) = concat (map fst built)"
    and data: "8 \<le> length (ix_data ix)" "drop 8 (ix_data ix) = te_borsh_args env ?args"
    using assms(1) by (auto simp: build_helios_instruction_def Let_def)
  have cuts: "map (map ai_key) ?cuts = map (map am_pubkey) (map fst built)"
    using cut_hops_concat [of ai_key infos "map (map am_pubkey) (map fst built)"] assms(4)
    by (simp add: map_concat comp_def)
  have ne: "list_all (\<lambda>xs. xs \<noteq> []) (map fst built)"
    using shape by (simp add: list_all_iff)
  have targets: "map (\<lambda>c. ai_key (hd c)) ?cuts = map hop_dex_program (rp_hops route)"
    using hd_cut_hops(1) [OF cuts ne] shape by (simp add: comp_def)
  have counts: "map unat (faa_hop_account_counts ?args) = map length (map fst built)"
    by (rule counts_of_built) (use shape in blast)
  have lengths: "sum_list (map length (map fst built)) = length infos"
    using arg_cong [OF assms(4), of length] by (simp add: length_concat comp_def)
  have trusted: "list_all (trusted_hop config) ?cuts \<longleftrightarrow>
      set (map hop_dex_program (rp_hops route)) \<subseteq> set (hc_dex_whitelist config) \<and> list_all (\<lambda>c. ai_executable (hd c)) ?cuts"
    unfolding targets [symmetric] using hd_cut_hops(2) [OF cuts ne]
    by (auto simp: trusted_hop_def list_all_iff)
  have "list_all (\<lambda>n. 0 < n) (map length (map fst built))"
    using ne by (simp add: list_all_iff)
  with trusted lengths have "well_formed_route config infos (map length (map fst built)) \<longleftrightarrow>
      set (map hop_dex_program (rp_hops route)) \<subseteq> set (hc_dex_whitelist config) \<and> list_all (\<lambda>c. ai_executable (hd c)) ?cuts"
    by (simp add: well_formed_route_def)
  then have exec: "execute_hops rt config infos (faa_hop_account_counts ?args) (faa_hop_data ?args) w = Inr w' \<longleftrightarrow>
      set (map hop_dex_program (rp_hops route)) \<subseteq> set (hc_dex_whitelist config)
      \<and> list_all (\<lambda>c. ai_executable (hd c)) ?cuts \<and> invoke_all rt (map2 hop_call ?cuts (map snd built)) w = Inr w'"
    unfolding execute_hops_spec counts by (simp add: helios_args_def)
  have decode: "decode_helios_flash_arb_args (te_flash env) ix
      = (if rp_borrow_amount route = 0 then Inl ZeroBorrow else Inr ?args)"
    using data assms(3) by (simp add: decode_helios_flash_arb_args_def) (simp add: helios_args_def)
  show ?thesis
    unfolding Let_def using ix accounts assms(4) decode shape cuts exec
    by (intro exI [of _ ix] exI [of _ ?args]) (simp add: helios_args_def)
qed


section \<open>A hop of each kind in an example\<close>

definition example_pump_pool :: dex_pool where
  "example_pump_pool = \<lparr>dp_pool_address = 11, dp_dex_type = PumpSwap, dp_token_a = 12, dp_token_b = SOL_MINT,
     dp_decimals_a = 6, dp_decimals_b = 9, dp_reserve_a = 1000000, dp_reserve_b = 2000000, dp_reserve_a_optimistic = 0,
     dp_reserve_b_optimistic = 0, dp_last_shred_update = 0, dp_pool_vault_a_balance = 0, dp_pool_vault_b_balance = 0,
     dp_market_vault_a_balance = 0, dp_market_vault_b_balance = 0, dp_last_updated = 0, dp_fee_bps = 25,
     dp_raydium_meta = None, dp_orca_meta = None, dp_meteora_meta = None\<rparr>"

definition example_pools :: pool_cache where
  "example_pools = upsert example_pump_pool new_pool_cache"

definition example_route :: "unit route_params" where
  "example_route = \<lparr>rp_hops = [\<lparr>hop_pool = 11, hop_dex_program = PUMPSWAP, hop_token_in = SOL_MINT, hop_token_out = 12,
     hop_amount_out = 200, hop_price_impact = ()\<rparr>], rp_borrow_amount = 100, rp_gross_profit = 0, rp_net_profit = 0,
     rp_risk_factor = (), rp_strategy = ''bellman-ford'', rp_tier = 0\<rparr>"

definition example_tx_env :: "(unit, unit, instruction list) tx_env" where
  "example_tx_env = \<lparr>te_flash = example_env\<lparr>fe_decode_args := \<lambda>_. Some \<lparr>faa_borrow_amount = 100, faa_min_profit = 0,
       faa_hop_account_counts = [18],
       faa_hop_data = [[102, 6, 61, 18, 1, 218, 235, 234] @ u64_to_le 100 @ u64_to_le 1]\<rparr>\<rparr>,
     te_try_find = (\<lambda>_ _. Some 9), te_base58 = (\<lambda>_. []), te_get_owners = (\<lambda>_. None), te_parse_f64 = (\<lambda>_. None),
     te_cu_limit = (\<lambda>_. example_helios_ix), te_cu_price = (\<lambda>_. example_helios_ix), te_borsh_args = (\<lambda>_. []),
     te_borsh_meteora = (\<lambda>args. u64_to_le (msa_amount_in args) @ u64_to_le (msa_min_amount_out args)), te_borsh_swap_v2 = (\<lambda>_. []), te_compile = (\<lambda>_ ixs _ _. Some ixs)\<rparr>"

definition example_built :: "(account_meta list \<times> bytes) list" where
  "example_built = [(pumpswap_hop_accounts example_tx_env 5 (hd (rp_hops example_route)) example_pump_pool
       TOKEN_PROGRAM_ID TOKEN_PROGRAM_ID, [102, 6, 61, 18, 1, 218, 235, 234] @ u64_to_le 100 @ u64_to_le 1)]"

lemma example_get_pool: "get_pool example_pools 11 = Some example_pump_pool"
  by (simp add: example_pools_def get_pool_def upsert_def new_pool_cache_def Let_def example_pump_pool_def)

lemma pumpswap_supported: "from_program_id PUMPSWAP = PumpSwap"
  by (simp add: from_program_id_def)

lemma example_build_hops: "build_hops fl example_tx_env 5 example_pools [] 0 100 (rp_hops example_route) = Inr example_built"
  by (simp add: example_route_def build_hop_def example_get_pool check_hop_def hop_accounts_def
      pumpswap_supported [simplified] build_swap_data_def example_built_def program_of_mint_def Let_def)
    (simp add: example_pump_pool_def)

lemma example_few: "few_bin_arrays example_pools"
  by (simp add: few_bin_arrays_def example_pools_def upsert_def new_pool_cache_def Let_def example_pump_pool_def)

definition accounts_of_metas :: "account_meta list \<Rightarrow> account_info list" where
  "accounts_of_metas = map (\<lambda>m. \<lparr>ai_key = am_pubkey m, ai_is_signer = am_is_signer m,
     ai_is_writable = am_is_writable m, ai_executable = True\<rparr>)"

lemma accounts_of_metas_keys: "map ai_key (accounts_of_metas ms) = map am_pubkey ms"
  by (simp add: accounts_of_metas_def)

theorem hops_delivered_witness:
  "\<exists>infos. \<forall>(fl :: unit f64_ops) (rt :: (nat, unit) runtime) config w w'. \<exists>ix (args :: flash_arb_args).
     build_helios_instruction fl example_tx_env (new_tx_builder 5) example_route 7 example_pools [] False = Inr ix
     \<and> map ai_key infos = map am_pubkey (drop 4 (ix_accounts ix))
     \<and> (execute_hops rt config infos (faa_hop_account_counts args) (faa_hop_data args) w = Inr w'
       \<longleftrightarrow> {PUMPSWAP} \<subseteq> set (hc_dex_whitelist config)
         \<and> list_all (\<lambda>c. ai_executable (hd c)) (cut_hops infos (map length (map fst example_built)))
         \<and> invoke_all rt (map2 hop_call (cut_hops infos (map length (map fst example_built))) (map snd example_built)) w = Inr w')"
proof -
  let ?infos = "accounts_of_metas (concat (map fst example_built))"
  have payer: "tb_payer (new_tx_builder 5) = 5" by (simp add: new_tx_builder_def)
  have amount: "rp_borrow_amount example_route = 100" by (simp add: example_route_def)
  have built: "build_hops fl example_tx_env (tb_payer (new_tx_builder 5)) example_pools [] 0 (rp_borrow_amount example_route)
      (rp_hops example_route) = Inr example_built" for fl
    unfolding payer amount by (rule example_build_hops)
  have "helios_args 100 example_built = \<lparr>faa_borrow_amount = 100, faa_min_profit = 0, faa_hop_account_counts = [18],
       faa_hop_data = [[102, 6, 61, 18, 1, 218, 235, 234] @ u64_to_le 100 @ u64_to_le 1]\<rparr>"
    by (simp add: helios_args_def example_built_def pumpswap_hop_accounts_def Let_def split: prod.split)
  then have decode: "fe_decode_args (te_flash example_tx_env) (te_borsh_args example_tx_env
      (helios_args (rp_borrow_amount example_route) example_built)) = Some (helios_args (rp_borrow_amount example_route) example_built)"
    unfolding amount by (simp add: example_tx_env_def)
  have hops: "set (map hop_dex_program (rp_hops example_route)) = {PUMPSWAP}" by (simp add: example_route_def)
  show ?thesis
  proof (intro exI [of _ ?infos] allI)
    fix fl :: "unit f64_ops" and rt :: "(nat, unit) runtime" and config w w'
    from hops_delivered [OF built example_few decode accounts_of_metas_keys, of fl 7 False rt config w w']
    show "\<exists>ix (args :: flash_arb_args).
     build_helios_instruction fl example_tx_env (new_tx_builder 5) example_route 7 example_pools [] False = Inr ix
     \<and> map ai_key ?infos = map am_pubkey (drop 4 (ix_accounts ix))
     \<and> (execute_hops rt config ?infos (faa_hop_account_counts args) (faa_hop_data args) w = Inr w'
       \<longleftrightarrow> {PUMPSWAP} \<subseteq> set (hc_dex_whitelist config)
         \<and> list_all (\<lambda>c. ai_executable (hd c)) (cut_hops ?infos (map length (map fst example_built)))
         \<and> invoke_all rt (map2 hop_call (cut_hops ?infos (map length (map fst example_built))) (map snd example_built)) w = Inr w')"
      unfolding hops Let_def by (elim exE conjE) (intro exI conjI, assumption+)
  qed
qed

section \<open>Tick arrays\<close>

definition tick_run :: "orca_metadata \<Rightarrow> bool \<Rightarrow> nat \<Rightarrow> int list" where
  "tick_run meta a_to_b n = map (\<lambda>i. tick_array_start_index (om_tick_current_index meta) (om_tick_spacing meta)
     + (if a_to_b then - 1 else 1) * int i * span (om_tick_spacing meta)) [0..<n]"

lemma first_seen_distinct: "distinct xs \<Longrightarrow> set seen \<inter> set xs = {} \<Longrightarrow> first_seen seen xs = xs"
  by (induction seen xs rule: first_seen.induct) auto

definition spacious :: "orca_metadata \<Rightarrow> bool" where
  "spacious meta \<longleftrightarrow> om_tick_spacing meta \<noteq> 0
     \<and> \<bar>om_tick_current_index meta\<bar> + 517 * span (om_tick_spacing meta) < 2147483648"

lemma tick_run_distinct: "om_tick_spacing meta \<noteq> 0 \<Longrightarrow> distinct (tick_run meta a_to_b n)"
  using span_pos [of "om_tick_spacing meta"] by (auto simp: tick_run_def distinct_map inj_on_def)

lemma last_tick_run:
  "last (tick_run meta a_to_b (Suc n)) = tick_array_start_index (om_tick_current_index meta) (om_tick_spacing meta)
     + (if a_to_b then - 1 else 1) * int n * span (om_tick_spacing meta)"
  by (simp add: tick_run_def)

lemma tick_run_Suc: "tick_run meta a_to_b (Suc n) = tick_run meta a_to_b n
    @ [tick_array_start_index (om_tick_current_index meta) (om_tick_spacing meta)
     + (if a_to_b then - 1 else 1) * int n * span (om_tick_spacing meta)]"
  by (simp add: tick_run_def)

lemma length_tick_run [simp]: "length (tick_run meta a_to_b n) = n"
  by (simp add: tick_run_def)

lemma extend_tick_run:
  assumes "spacious meta" and "0 < n"
  shows "extend_starts (wrap32 ((if a_to_b then - 1 else 1) * wrap32 (uint (om_tick_spacing meta) * ORCA_TICK_ARRAY_SIZE)))
    (tick_run meta a_to_b n) = tick_run meta a_to_b (max 5 n)"
  using assms(2)
proof (induction "5 - n" arbitrary: n)
  case 0
  then show ?case by (simp add: extend_starts.simps max_def)
next
  case (Suc k)
  let ?w = "span (om_tick_spacing meta)"
  let ?start = "tick_array_start_index (om_tick_current_index meta) (om_tick_spacing meta)"
  have ts: "om_tick_spacing meta \<noteq> 0" and room: "\<bar>om_tick_current_index meta\<bar> + 517 * ?w < 2147483648"
    using assms(1) by (simp_all add: spacious_def)
  have w: "0 < ?w" by (rule span_pos [OF ts])
  have step: "wrap32 ((if a_to_b then - 1 else 1) * wrap32 (uint (om_tick_spacing meta) * ORCA_TICK_ARRAY_SIZE))
      = (if a_to_b then - 1 else 1) * ?w"
    using offset_span [of "om_tick_spacing meta"] w room
    by (simp add: tick_array_offset_def wrap32_in)
  have start: "?start = ?w * array_of (om_tick_spacing meta) (om_tick_current_index meta)"
    using start_index [OF ts] room w by simp
  have near: "?start \<le> om_tick_current_index meta" "om_tick_current_index meta < ?start + ?w"
    unfolding start by (rule array_of_bounds [OF ts])+
  obtain n' where n': "n = Suc n'" "n' < 4" using Suc by (cases n) auto
  have bounds: "int n * ?w \<le> 5 * ?w" "0 \<le> int n * ?w" using w n' by (auto intro!: mult_right_mono)
  have fits: "wrap32 (?start + d) = ?start + d" if "d = int n * ?w \<or> d = - (int n * ?w)" for d
    using that bounds near room w by (intro wrap32_in) linarith+
  have "wrap32 (?start + (if a_to_b then - 1 else 1) * int n * ?w) = ?start + (if a_to_b then - 1 else 1) * int n * ?w"
    using fits [of "int n * ?w"] fits [of "- (int n * ?w)"] by (cases a_to_b) simp_all
  then have nxt: "wrap32 (last (tick_run meta a_to_b n) + (if a_to_b then - 1 else 1) * ?w)
      = ?start + (if a_to_b then - 1 else 1) * int n * ?w"
    unfolding n' last_tick_run by (simp add: algebra_simps split: if_splits)
  have new: "?start + (if a_to_b then - 1 else 1) * int n * ?w \<notin> set (tick_run meta a_to_b n)"
    using tick_run_distinct [OF ts, of a_to_b "Suc n"] by (simp add: tick_run_Suc)
  have "extend_starts ((if a_to_b then - 1 else 1) * ?w) (tick_run meta a_to_b n)
      = extend_starts ((if a_to_b then - 1 else 1) * ?w) (tick_run meta a_to_b (Suc n))"
    using n' new nxt by (subst extend_starts.simps) (simp add: Let_def tick_run_Suc)
  also have "\<dots> = tick_run meta a_to_b (max 5 (Suc n))"
    using Suc.hyps(1) [of "Suc n"] Suc.hyps(2) unfolding step by simp
  finally show ?case
    unfolding step using n' by (cases "n' = 3") (simp_all add: max_def)
qed

lemma tick_starts_run:
  assumes "spacious meta"
  shows "\<exists>n \<ge> 5. orca_tick_starts fl meta amount_in fee a_to_b = Some (tick_run meta a_to_b n)"
proof -
  let ?start = "tick_array_start_index (om_tick_current_index meta) (om_tick_spacing meta)"
  let ?step = "wrap32 ((if a_to_b then - 1 else 1) * wrap32 (uint (om_tick_spacing meta) * ORCA_TICK_ARRAY_SIZE))"
  have ts: "om_tick_spacing meta \<noteq> 0" using assms by (simp add: spacious_def)
  have start: "get_orca_tick_array_start_tick_index (om_tick_current_index meta) (om_tick_spacing meta) = Some ?start"
    using ts by (simp add: get_orca_tick_array_start_tick_index_def tick_array_start_index_def)
  define ordered where "ordered = (if om_tick_arrays meta \<noteq> []
      then osq_traversed_arrays (Orca.quote_exact_in fl amount_in a_to_b (om_sqrt_price meta) (om_liquidity meta)
        (om_tick_current_index meta) (om_tick_spacing meta) fee (om_tick_arrays meta))
      else [?start])"
  have "\<exists>m. ordered = tick_run meta a_to_b (Suc m)"
  proof (cases "om_tick_arrays meta = []")
    case True
    then have "ordered = tick_run meta a_to_b (Suc 0)" by (simp add: ordered_def tick_run_def)
    then show ?thesis by blast
  next
    case False
    have room: "\<bar>om_tick_current_index meta\<bar> + 517 * span (om_tick_spacing meta) < 2147483648"
      using assms by (simp add: spacious_def)
    from quote_traversed [OF room, of fl amount_in a_to_b "om_sqrt_price meta" "om_liquidity meta" fee "om_tick_arrays meta"]
      False show ?thesis by (auto simp: ordered_def tick_run_def simp del: upt_Suc)
  qed
  then obtain m where run: "ordered = tick_run meta a_to_b (Suc m)" by blast
  have "hd ordered = ?start" by (simp add: run tick_run_def hd_map del: upt_Suc)
  moreover have "ordered \<noteq> []" by (simp add: run tick_run_Suc)
  ultimately have "orca_tick_starts fl meta amount_in fee a_to_b = Some (extend_starts ?step (first_seen [] ordered))"
    by (simp only: orca_tick_starts_def start Option.bind_lunit Let_def ordered_def [symmetric] if_False not_True_eq_False
        simp_thms if_cancel)
  also have "extend_starts ?step (first_seen [] ordered) = tick_run meta a_to_b (max 5 (Suc m))"
    using extend_tick_run [OF assms, of "Suc m" a_to_b] tick_run_distinct [OF ts]
    unfolding run by (simp add: first_seen_distinct)
  finally show ?thesis by (intro exI [of _ "max 5 (Suc m)"]) simp
qed

lemma take_tick_run: "k \<le> n \<Longrightarrow> take k (tick_run meta a_to_b n) = tick_run meta a_to_b k"
  by (simp add: tick_run_def take_map take_upt)

text \<open>
  Property C25. The tick arrays of a whirlpool hop are the five adjacent ones that start with the array of the
  current tick and go in the direction of the swap: three primary and two supplemental, derived from those
  start ticks, whatever the quote traverses and whatever arrays are cached; taking them apart never panics,
  as long as the ticks the quote can reach fit \<^verbatim>\<open>i32\<close>.
\<close>

theorem tick_arrays_contiguous:
  assumes "spacious meta"
  shows "derive_orca_tick_arrays fl env whirlpool meta amount_in fee a_to_b =
    and_then (collect_results (derive_orca_tick_array env whirlpool) (tick_run meta a_to_b 3)) (\<lambda>primary.
    and_then (collect_results (derive_orca_tick_array env whirlpool) (drop 3 (tick_run meta a_to_b 5))) (\<lambda>supplemental.
      Inr \<lparr>ota_primary = primary, ota_supplemental = supplemental\<rparr>))"
proof -
  obtain n where n: "5 \<le> n" and starts: "orca_tick_starts fl meta amount_in fee a_to_b = Some (tick_run meta a_to_b n)"
    using tick_starts_run [OF assms] by blast
  have "take 3 (tick_run meta a_to_b n) = tick_run meta a_to_b 3"
    using n by (simp add: take_tick_run)
  moreover have "take 2 (drop 3 (tick_run meta a_to_b n)) = drop 3 (tick_run meta a_to_b 5)"
    using n by (simp add: take_drop take_tick_run)
  ultimately show ?thesis
    using n by (simp add: derive_orca_tick_arrays_def starts)
qed

definition example_whirlpool_meta :: orca_metadata where
  "example_whirlpool_meta = \<lparr>om_token_vault_a = 1, om_token_vault_b = 2, om_liquidity = 1000000,
     om_sqrt_price = 18446744073709551616, om_tick_spacing = 128, om_tick_current_index = - 62080, om_tick_arrays = []\<rparr>"

theorem tick_arrays_contiguous_witness:
  "\<forall>(fl :: unit f64_ops). derive_orca_tick_arrays fl example_tx_env 3 example_whirlpool_meta 1000000 30 True
      = Inr \<lparr>ota_primary = [9, 9, 9], ota_supplemental = [9, 9]\<rparr>
    \<and> tick_run example_whirlpool_meta True 3 = [- 67584, - 78848, - 90112]"
proof -
  have spacious: "spacious example_whirlpool_meta" by (simp add: spacious_def example_whirlpool_meta_def span_def)
  have "tick_run example_whirlpool_meta True 5 = [- 67584, - 78848, - 90112, - 101376, - 112640]"
    by (simp add: tick_run_def example_whirlpool_meta_def span_def tick_array_start_index_def wrap32_in upt_rec)
  moreover from this have "tick_run example_whirlpool_meta True 3 = [- 67584, - 78848, - 90112]"
    using take_tick_run [of 3 5 example_whirlpool_meta True] by simp
  moreover have "derive_orca_tick_array example_tx_env 3 i = Inr 9" for i
    by (simp add: derive_orca_tick_array_def example_tx_env_def)
  ultimately show ?thesis
    by (simp add: tick_arrays_contiguous [OF spacious])
qed

section \<open>Swap data\<close>

lemma le_nat_append: "le_nat (xs @ ys) = le_nat xs + 256 ^ length xs * le_nat ys"
  by (induction xs) (simp_all add: algebra_simps)

lemma u64_to_le_Cons: "u64_to_le a = word_of_nat (unat a) # nat_le 7 (unat a div 256)"
proof -
  have "(8 :: nat) = Suc 7" by simp
  then show ?thesis unfolding u64_to_le_def by (simp only: nat_le.simps)
qed

lemma word_of_nat_mod_u64: "(word_of_nat (n mod 18446744073709551616) :: u64) = word_of_nat n"
  by (simp add: word_unat_eq_iff unat_of_nat)

lemma unat_low_byte: "unat (word_of_nat (unat a) :: u8) = unat a mod 256"
  by (simp add: unat_of_nat del: of_nat_unat)

text \<open>An amount read seven bytes early, and the minimum read where its end and the real minimum meet.\<close>

lemma shifted_amount: "u64_of_le [0, 0, 0, 0, 0, 0, 0, word_of_nat (unat (a :: u64))] = a * 72057594037927936"
proof -
  have "le_nat [0, 0, 0, 0, 0, 0, 0, word_of_nat (unat a)] = 72057594037927936 * (unat a mod 256)"
    by (simp add: unat_low_byte del: of_nat_unat)
  also have "\<dots> = (72057594037927936 * unat a) mod 18446744073709551616"
    using mult_mod_right [of 72057594037927936 "unat a" 256] by simp
  finally have "u64_of_le [0, 0, 0, 0, 0, 0, 0, word_of_nat (unat a)]
      = word_of_nat (72057594037927936 * unat a)"
    by (simp only: u64_of_le_def word_of_nat_mod_u64)
  then show ?thesis by (simp add: mult.commute)
qed

lemma late_minimum: "u64_of_le (nat_le 7 (unat (a :: u64) div 256) @ [1]) = a div 256 + 72057594037927936"
proof -
  have small: "unat a div 256 < 72057594037927936"
    using unat_lt2p [of a] by (simp add: less_mult_imp_div_less)
  have "le_nat (nat_le 7 (unat a div 256) @ [1]) = unat a div 256 + 72057594037927936"
    using small by (simp add: le_nat_append le_nat_nat_le)
  then have "u64_of_le (nat_le 7 (unat a div 256) @ [1]) = word_of_nat (unat a div 256) + 72057594037927936"
    by (simp add: u64_of_le_def)
  also have "(word_of_nat (unat a div 256) :: u64) = a div 256"
    by (simp add: word_unat_eq_iff unat_div unat_of_nat) (use small in simp)
  finally show ?thesis .
qed


lemma nat_le_zero: "nat_le n 0 = replicate n 0"
  by (induction n) simp_all

lemma seven_zeros: "replicate 7 x = [x, x, x, x, x, x, x]"
  by (simp add: numeral_eq_Suc)

lemma u64_to_le_one: "u64_to_le 1 = [1, 0, 0, 0, 0, 0, 0, 0]"
  by (simp add: u64_to_le_Cons nat_le_zero seven_zeros)

lemma take_amounts:
  "take 8 (u64_to_le a @ u64_to_le m) = u64_to_le a" "take 8 (drop 8 (u64_to_le a @ u64_to_le m)) = u64_to_le m"
  by simp_all

lemma raydium_reads:
  "length xs = 8 \<Longrightarrow> length ys = 8 \<Longrightarrow> decode_raydium_v4 (9 # xs @ ys @ zs) accs accounts
     = Some (found DexRaydiumAmmV4 (account_at accs accounts 1) (u64_of_le xs) (u64_of_le ys) True)"
  by (simp add: decode_raydium_v4_def decode_tagged_def RAYDIUM_SWAP_DISC_def idx_def read_u64_def slice_get_def)



section \<open>The finished transaction\<close>

lemma wrap_error_Inr [simp]: "wrap_error r = Inr x \<longleftrightarrow> r = Inr x"
  by (cases r) (simp_all add: wrap_error_def)

lemma length_prologue: "length (compute_budget fl env route limit @ build_ata_setup_instructions env tb route programs)
    = 2 + length (route_mints route)"
  by (simp add: compute_budget_def build_ata_setup_instructions_def)

text \<open>
  Property C24. A finished transaction sets the compute budget, creates one token account per mint of the route,
  borrows, runs the arbitrage instruction and repays, and ends with the tip. The indices the loan embeds are those
  of this transaction: the MarginFi begin names the end that stands three instructions on, the Solend and Kamino
  repayments name their borrow. The tip follows the repayment also for Kamino, whose repayment the builder's
  own comment wants last.
\<close>

theorem loan_indices_in_transaction:
  assumes "route_instructions fl env tb route provider pools simulation_mode tip programs = Inr ixs"
    and "length (rp_hops route) \<le> 100"
  shows "let pre = 2 + length (route_mints route) in
    take 2 ixs = compute_budget fl env route 400000
    \<and> take (length (route_mints route)) (drop 2 ixs) = build_ata_setup_instructions env tb route programs
    \<and> drop (length ixs - length (tip_list tip)) ixs = tip_list tip
    \<and> (\<exists>user helios. build_helios_instruction fl env tb route user pools programs simulation_mode = Inr helios
      \<and> (case provider of
          MarginFi \<Rightarrow> ixs ! (pre + 2) = helios \<and> declared_end (ixs ! pre) = pre + 3
            \<and> ix_data (ixs ! (pre + 3)) = marginfi_end_flashloan_data
            \<and> ix_data (ixs ! (pre + 1)) = marginfi_borrow_data (rp_borrow_amount route)
        | PortFinance \<Rightarrow> length ixs = pre + 2 + length (tip_list tip)
        | Solend \<Rightarrow> ixs ! (pre + 1) = helios \<and> named_borrow (ixs ! (pre + 2)) = pre
            \<and> ix_data (ixs ! pre) = solend_data 19 (rp_borrow_amount route)
        | Kamino \<Rightarrow> ixs ! (pre + 1) = helios \<and> named_borrow (ixs ! (pre + 2)) = pre
            \<and> length ixs = pre + 3 + length (tip_list tip)))"
proof -
  define pre where "pre = 2 + length (route_mints route)"
  define prologue where "prologue = compute_budget fl env route 400000 @ build_ata_setup_instructions env tb route programs"
  have pre: "length prologue = pre" by (simp only: prologue_def pre_def length_prologue)
  have small: "pre < 256" using length_route_mints [of route] assms(2) by (simp add: pre_def)
  obtain mint user helios wrapped where
    helios: "build_helios_instruction fl env tb route user pools programs simulation_mode = Inr helios"
    and w: "build_wrapped_instructions (te_flash env) provider (tb_payer tb) mint (rp_borrow_amount route) user helios pre = Inr wrapped"
    and ixs: "ixs = prologue @ wrapped @ tip_list tip"
    using assms(1) unfolding pre [symmetric] prologue_def
    by (auto simp: route_instructions_def Let_def split: list.splits)
  have len: "length wrapped = (case provider of MarginFi \<Rightarrow> 4 | PortFinance \<Rightarrow> 2 | _ \<Rightarrow> 3)"
    using w by (cases provider) (auto simp: build_wrapped_instructions_def build_marginfi_wrapped_instructions_def
        build_solend_wrapped_instructions_def build_kamino_wrapped_instructions_def build_port_wrapped_instructions_def Let_def)
  have "take 2 ixs = compute_budget fl env route 400000"
    "take (length (route_mints route)) (drop 2 ixs) = build_ata_setup_instructions env tb route programs"
    "drop (length ixs - length (tip_list tip)) ixs = tip_list tip"
    by (simp_all add: ixs prologue_def compute_budget_def build_ata_setup_instructions_def)
  moreover have "length ixs = pre + length wrapped + length (tip_list tip)"
    by (simp add: ixs pre)
  ultimately show ?thesis
    using wrapped_positions [OF w pre small, of "tip_list tip", folded ixs, unfolded Let_def] len helios
    unfolding Let_def pre_def [symmetric] by (cases provider) auto
qed

section \<open>Token accounts\<close>

text \<open>No cached program is the builder's Token-2022 id, and no owner an RPC call reports is.\<close>

definition only_spl :: "('f, 'alt, 'tx) tx_env \<Rightarrow> tx_builder \<Rightarrow> bool" where
  "only_spl env tb \<longleftrightarrow> fst ` snd ` set (tb_mint_program_cache tb) \<subseteq> {TOKEN_PROGRAM_ID}
     \<and> (\<forall>mints owners. te_get_owners env mints = Some owners \<longrightarrow> Some TOKEN_2022_PROGRAM_ID \<notin> set owners)"

definition spl_maps :: "token_programs \<Rightarrow> (pubkey \<times> (pubkey \<times> nat)) list \<Rightarrow> bool" where
  "spl_maps result cache \<longleftrightarrow> snd ` set result \<subseteq> {TOKEN_PROGRAM_ID} \<and> fst ` snd ` set cache \<subseteq> {TOKEN_PROGRAM_ID}"

lemma set_update_snd: "snd ` set (AList.update k v al) \<subseteq> insert v (snd ` set al)"
  by (induction al) auto

lemma spl_maps_update:
  "spl_maps result cache \<Longrightarrow> spl_maps (AList.update k TOKEN_PROGRAM_ID result) cache"
  "spl_maps result cache \<Longrightarrow> spl_maps result (AList.update k (TOKEN_PROGRAM_ID, now) cache)"
  using set_update_snd [of k TOKEN_PROGRAM_ID result] set_update_snd [of k "(TOKEN_PROGRAM_ID, now)" cache]
  by (force simp: spl_maps_def simp del: TOKEN_PROGRAM_ID_def)+

lemma spl_maps_cached: "spl_maps result cache \<Longrightarrow> map_of cache mint = Some (prog, at) \<Longrightarrow> prog = TOKEN_PROGRAM_ID"
  using map_of_SomeD [of cache mint "(prog, at)"] by (force simp: spl_maps_def)

lemma spl_maps_update_cached:
  "spl_maps result cache \<Longrightarrow> map_of cache mint = Some (prog, at) \<Longrightarrow> spl_maps (AList.update mint prog result) cache"
  using spl_maps_update(1) [of result cache mint] spl_maps_cached [of result cache mint prog at] by metis

lemma look_up_mints_spl:
  assumes "spl_maps result cache"
    and "fold (look_up_mint env now) mints (result, uncached, cache) = (result', uncached', cache')"
  shows "spl_maps result' cache'"
  using assms
proof (induction mints arbitrary: result uncached cache)
  case (Cons mint mints)
  obtain r u c where step: "look_up_mint env now mint (result, uncached, cache) = (r, u, c)"
    by (cases "look_up_mint env now mint (result, uncached, cache)")
  have "spl_maps r c"
    using step Cons.prems(1)
    by (auto simp: look_up_mint_def spl_maps_update intro: spl_maps_update_cached split: if_splits option.splits prod.splits
        simp del: TOKEN_PROGRAM_ID_def)
  with Cons step show ?case by simp
qed simp

lemma program_of_owner_spl: "owner \<noteq> Some TOKEN_2022_PROGRAM_ID \<Longrightarrow> program_of_owner owner = TOKEN_PROGRAM_ID"
  by (simp only: program_of_owner_def if_False)

lemma fetched_spl:
  assumes "spl_maps result cache" and "Some TOKEN_2022_PROGRAM_ID \<notin> snd ` set pairs"
    and "fold (\<lambda>(mint, owner) (result, cache).
                   (AList.update mint (program_of_owner owner) result,
                    AList.update mint (program_of_owner owner, now) cache)) pairs (result, cache) = (result', cache')"
  shows "spl_maps result' cache'"
  using assms
proof (induction pairs arbitrary: result cache)
  case (Cons p pairs)
  then have "program_of_owner (snd p) = TOKEN_PROGRAM_ID"
    by (intro program_of_owner_spl) auto
  with Cons show ?case
    by (cases p) (auto intro: spl_maps_update simp del: TOKEN_PROGRAM_ID_def)
qed simp

lemma defaults_spl:
  "spl_maps result cache \<Longrightarrow> spl_maps (fold (\<lambda>mint. AList.update mint TOKEN_PROGRAM_ID) mints result) cache"
  by (induction mints arbitrary: result) (simp_all add: spl_maps_update del: TOKEN_PROGRAM_ID_def)

lemma token_programs_spl:
  assumes "only_spl env tb" and "token_programs_for_route env now route tb = (programs, tb')"
  shows "spl_maps programs (tb_mint_program_cache tb') \<and> tb_payer tb' = tb_payer tb"
proof -
  obtain result uncached cache where step: "fold (look_up_mint env now) (route_mints route) ([], [], tb_mint_program_cache tb)
      = (result, uncached, cache)"
    by (cases "fold (look_up_mint env now) (route_mints route) ([], [], tb_mint_program_cache tb)")
  have "spl_maps [] (tb_mint_program_cache tb)"
    using assms(1) by (simp add: only_spl_def spl_maps_def del: TOKEN_PROGRAM_ID_def)
  then have spl: "spl_maps result cache" using step by (rule look_up_mints_spl)
  show ?thesis
  proof (cases "uncached = []")
    case True
    with assms(2) step spl show ?thesis by (auto simp: token_programs_for_route_def Let_def)
  next
    case False
    show ?thesis
    proof (cases "te_get_owners env uncached")
      case None
      with False assms(2) step defaults_spl [OF spl, of uncached] show ?thesis
        by (auto simp: token_programs_for_route_def Let_def)
    next
      case (Some owners)
      then have "Some TOKEN_2022_PROGRAM_ID \<notin> snd ` set (zip uncached owners)"
        using assms(1) by (auto simp: only_spl_def simp del: TOKEN_2022_PROGRAM_ID_def dest: set_zip_rightD)
      with False Some assms(2) step fetched_spl [OF spl this] show ?thesis
        by (fastforce simp: token_programs_for_route_def Let_def split: prod.splits simp del: TOKEN_PROGRAM_ID_def)
    qed
  qed
qed

lemma program_of_mint_spl: "spl_maps programs cache \<Longrightarrow> program_of_mint programs mint = TOKEN_PROGRAM_ID"
proof (cases "map_of programs mint")
  case (Some prog)
  assume "spl_maps programs cache"
  with map_of_SomeD [OF Some] have "prog = TOKEN_PROGRAM_ID" by (force simp: spl_maps_def)
  with Some show ?thesis by (simp only: program_of_mint_def unwrap_or_simps)
qed (simp only: program_of_mint_def unwrap_or_simps)

text \<open>
  As long as no program is cached, or reported by the RPC node, under the identifier the builder
  takes for Token-2022, every mint of a route counts as one of the token program, the cache stays so, and the
  accounts the builder creates before the loan are exactly those it later asks for. The identifier is a
  misspelt one: an owner that is the real Token-2022 program, which the delta tracker names, is taken for
  the token program.
\<close>

theorem token_accounts_created:
  assumes "only_spl env tb" and "token_programs_for_route env now route tb = (programs, tb')"
  shows "(\<forall>mint. program_of_mint programs mint = TOKEN_PROGRAM_ID) \<and> only_spl env tb'
    \<and> map (\<lambda>ix. am_pubkey (ix_accounts ix ! 1)) (build_ata_setup_instructions env tb' route programs)
      = map snd (fst (required_token_accounts env now route tb))
    \<and> program_of_owner (Some TOKEN_2022) = TOKEN_PROGRAM_ID"
proof -
  note spl = token_programs_spl [OF assms]
  have programs: "program_of_mint programs mint = TOKEN_PROGRAM_ID" for mint
    by (rule program_of_mint_spl [OF conjunct1 [OF spl]])
  moreover have "only_spl env tb'"
    using assms(1) spl unfolding only_spl_def spl_maps_def by (elim conjE) (intro conjI, assumption+)
  moreover have "program_of_owner (Some TOKEN_2022) = TOKEN_PROGRAM_ID"
    by (simp add: program_of_owner_def)
  moreover have "map (\<lambda>ix. am_pubkey (ix_accounts ix ! 1)) (build_ata_setup_instructions env tb' route programs)
      = map snd (fst (required_token_accounts env now route tb))"
    by (simp add: required_token_accounts_def assms(2) build_ata_setup_instructions_def build_create_ata_idempotent_ix_def
        associated_token_address_def programs del: TOKEN_PROGRAM_ID_def)
  ultimately show ?thesis by (intro conjI allI)
qed

theorem token_accounts_created_witness:
  "only_spl example_tx_env (new_tx_builder 5)
    \<and> program_of_mint (fst (token_programs_for_route example_tx_env 0 example_route (new_tx_builder 5))) 12 = TOKEN_PROGRAM_ID"
proof -
  have "only_spl example_tx_env (new_tx_builder 5)"
    by (simp add: only_spl_def example_tx_env_def new_tx_builder_def)
  then show ?thesis
    using token_accounts_created [of example_tx_env "new_tx_builder 5" 0 example_route] by (metis prod.collapse)
qed

text \<open>A transaction of the example route.\<close>

lemma other_decoder:
  "lookup_config_value (env\<lparr>fe_decode_args := d\<rparr>) key = lookup_config_value env key"
  "parse_env_pubkey (env\<lparr>fe_decode_args := d\<rparr>) key = parse_env_pubkey env key"
  "parse_optional_env_pubkey (env\<lparr>fe_decode_args := d\<rparr>) key = parse_optional_env_pubkey env key"
proof -
  have "first_in_files (env\<lparr>fe_decode_args := d\<rparr>) key paths = first_in_files env key paths" for paths
    by (induction paths) (simp_all split: option.split)
  then show l: "lookup_config_value (env\<lparr>fe_decode_args := d\<rparr>) key = lookup_config_value env key"
    by (simp add: lookup_config_value_def config_files_def split: option.split)
  have "parse_pubkey (env\<lparr>fe_decode_args := d\<rparr>) key = parse_pubkey env key"
    by (simp add: parse_pubkey_def fun_eq_iff)
  with l show "parse_env_pubkey (env\<lparr>fe_decode_args := d\<rparr>) key = parse_env_pubkey env key"
    "parse_optional_env_pubkey (env\<lparr>fe_decode_args := d\<rparr>) key = parse_optional_env_pubkey env key"
    by (simp_all add: parse_env_pubkey_def parse_optional_env_pubkey_def split: option.split)
qed

lemma example_wrapped:
  "\<exists>ixs. build_wrapped_instructions (te_flash example_tx_env) Solend payer SOL_MINT amount user helios n = Inr ixs"
  by (simp add: example_tx_env_def other_decoder build_wrapped_instructions_def build_solend_wrapped_instructions_def
      resolve_solend_config_def mint_env_suffix_def classify_mint_def parse_env_pubkey_def parse_optional_env_pubkey_def
      parse_pubkey_def example_env_rules Let_def)

theorem loan_indices_in_transaction_witness:
  "\<forall>(fl :: unit f64_ops). \<exists>ixs. route_instructions fl example_tx_env (new_tx_builder 5) example_route Solend
       example_pools False None [] = Inr ixs \<and> named_borrow (ixs ! 6) = 4"
proof
  fix fl :: "unit f64_ops"
  obtain hop where hops: "rp_hops example_route = [hop]" and "hop_token_in hop = SOL_MINT" "hop_token_out hop = 12"
    by (simp add: example_route_def)
  then have mints: "route_mints example_route = [SOL_MINT, 12]" by (simp add: route_mints_def hop_mints_def)
  have payer: "tb_payer (new_tx_builder 5) = 5" by (simp add: new_tx_builder_def)
  have amount: "rp_borrow_amount example_route = 100" by (simp add: example_route_def)
  have "\<exists>helios. build_helios_instruction fl example_tx_env (new_tx_builder 5) example_route user example_pools [] False
      = Inr helios" for user
    by (simp only: build_helios_instruction_def payer amount example_build_hops and_then_simps Let_def) blast
  moreover have "\<exists>wrapped. build_wrapped_instructions (te_flash example_tx_env) Solend 5 (hop_token_in hop) 100 user helios n
      = Inr wrapped" for user helios n
    unfolding \<open>hop_token_in hop = SOL_MINT\<close> by (rule example_wrapped)
  ultimately obtain ixs where ixs: "route_instructions fl example_tx_env (new_tx_builder 5) example_route Solend
      example_pools False None [] = Inr ixs"
    unfolding route_instructions_def hops list.case Let_def payer amount and_then_Inr wrap_error_Inr by metis
  from loan_indices_in_transaction [OF this] have "named_borrow (ixs ! 6) = 4"
    by (simp add: mints hops Let_def)
  with ixs show "\<exists>ixs. route_instructions fl example_tx_env (new_tx_builder 5) example_route Solend
       example_pools False None [] = Inr ixs \<and> named_borrow (ixs ! 6) = 4" by blast
qed

end
