(* ===== verification/Pool_Quotes.thy ===== *)
theory Pool_Quotes
  imports Pool_State Routes
begin

text \<open>
  What the route finders of \<^verbatim>\<open>market-engine\<close> share: the quote of a pool in the direction of a token, the
  price impact they estimate from it, the tables of programs and stablecoins, and the vocabulary of their
  results: routes whose hops close a cycle and carry the amounts the cached pools quote.
\<close>

definition USDT_MINT :: pubkey where \<comment> \<open>Es9vMFrzaCERmJfrF4H2FYD4KCoNkY11McCe8BenwNYB\<close>
  [simp]: "USDT_MINT = 0xCE010E60AFEDB22717BD63192F54145A3F965A33BB82D2C7029EB2CE1E208264"

definition quote_from :: "'f f64_ops \<Rightarrow> nat \<Rightarrow> dex_pool \<Rightarrow> pubkey \<Rightarrow> u64 \<Rightarrow> u64 option" where
  "quote_from fl now pool token_in amount_in =
     (if token_in = dp_token_a pool then quote_a_to_b fl now amount_in pool else quote_b_to_a fl now amount_in pool)"

definition reserve_from :: "dex_pool \<Rightarrow> pubkey \<Rightarrow> u64" where
  "reserve_from pool token_in = (if token_in = dp_token_a pool then dp_reserve_a pool else dp_reserve_b pool)"

definition impact_pct :: "'f f64_ops \<Rightarrow> u64 \<Rightarrow> u64 \<Rightarrow> 'f" where
  "impact_pct fl amount reserve =
     fl_mul fl (fl_div fl (fl_of_int fl (uint amount)) (fl_of_int fl (uint (max reserve 1)))) (fl_lit fl ''100.0'')"

definition program_of_dex :: "dex_type \<Rightarrow> pubkey" where
  "program_of_dex dex =
     (case dex of
        RaydiumAmmV4 \<Rightarrow> RAYDIUM_AMM_V4
      | RaydiumClmm \<Rightarrow> RAYDIUM_CLMM
      | OrcaWhirlpool \<Rightarrow> ORCA_WHIRLPOOL
      | MeteoraDlmm \<Rightarrow> METEORA_DLMM
      | PumpSwap \<Rightarrow> PUMPSWAP
      | Fluxbeam \<Rightarrow> FLUXBEAM
      | Saber \<Rightarrow> SABER
      | RaydiumCpmm \<Rightarrow> RAYDIUM_CPMM
      | Unknown \<Rightarrow> 0)"

lemma from_program_of_dex [simp]: "from_program_id (program_of_dex dex) = dex"
  by (cases dex) (simp_all add: program_of_dex_def from_program_id_def)

text \<open>\<^verbatim>\<open>sort_by(|a, b| b.net_profit.cmp(&a.net_profit))\<close>, and the running best of a loop.\<close>

definition by_profit :: "'f route_params list \<Rightarrow> 'f route_params list" where
  "by_profit routes = sort_key (\<lambda>r. - rp_net_profit r) routes"

definition keep_better :: "'f route_params \<Rightarrow> 'f route_params option \<Rightarrow> 'f route_params option" where
  "keep_better route best =
     (case best of None \<Rightarrow> Some route | Some b \<Rightarrow> if rp_net_profit b < rp_net_profit route then Some route else best)"

lemma set_by_profit [simp]: "set (by_profit routes) = set routes"
  by (simp add: by_profit_def)

lemma by_profit_sorted: "sorted_wrt (\<lambda>r s. rp_net_profit s \<le> rp_net_profit r) (by_profit routes)"
proof -
  have "sorted (map (\<lambda>r. - rp_net_profit r) (by_profit routes))" unfolding by_profit_def by (rule sorted_sort_key)
  then show ?thesis by (simp add: sorted_map)
qed

text \<open>Loops that may panic: a fold in the option monad.\<close>

lemma fold_bind_None [simp]: "fold (\<lambda>x acc. Option.bind acc (f x)) xs None = None"
  by (induction xs) simp_all

lemma fold_bind_Cons:
  "fold (\<lambda>x acc. Option.bind acc (f x)) (x # xs) (Some a) = Some c
    \<longleftrightarrow> (\<exists>b. f x a = Some b \<and> fold (\<lambda>x acc. Option.bind acc (f x)) xs (Some b) = Some c)"
  by (cases "f x a") simp_all

lemma fold_bind_invariant:
  assumes "fold (\<lambda>x acc. Option.bind acc (f x)) xs (Some a) = Some b" and "P a"
    and "\<And>x a b. x \<in> set xs \<Longrightarrow> P a \<Longrightarrow> f x a = Some b \<Longrightarrow> P b"
  shows "P b"
  using assms
proof (induction xs arbitrary: a)
  case (Cons x xs)
  obtain c where c: "f x a = Some c" and rest: "fold (\<lambda>x acc. Option.bind acc (f x)) xs (Some c) = Some b"
    using Cons.prems(1) unfolding fold_bind_Cons by blast
  have "P c" by (rule Cons.prems(3) [OF _ Cons.prems(2) c]) simp
  then show ?case by (rule Cons.IH [OF rest]) (rule Cons.prems(3), simp_all)
qed simp

section \<open>Closed routes with the amounts the pools quote\<close>

definition closed_route :: "'f hop list \<Rightarrow> bool" where
  "closed_route hops \<longleftrightarrow> hops \<noteq> [] \<and> map hop_token_out hops = rotate1 (map hop_token_in hops)"

fun quoted_hops :: "'f f64_ops \<Rightarrow> nat \<Rightarrow> pool_cache \<Rightarrow> u64 \<Rightarrow> 'f hop list \<Rightarrow> bool" where
  "quoted_hops fl now pools amount [] \<longleftrightarrow> True"
| "quoted_hops fl now pools amount (hop # hops) \<longleftrightarrow>
     (\<exists>pool. get_pool pools (hop_pool hop) = Some pool
       \<and> quote_from fl now pool (hop_token_in hop) amount = Some (hop_amount_out hop))
     \<and> 0 < hop_amount_out hop \<and> quoted_hops fl now pools (hop_amount_out hop) hops"

definition final_amount :: "'f route_params \<Rightarrow> u64" where
  "final_amount route = hop_amount_out (last (rp_hops route))"

lemma closed_rotate: "closed_route hops \<Longrightarrow> closed_route (rotate n hops)"
  by (simp add: closed_route_def rotate1_rotate_swap flip: rotate_map)

lemma closed_bridged:
  assumes "closed_route hops"
    and "hop_token_in first = anchor" "hop_token_out first = hop_token_in (hd hops)"
    and "hop_token_in back_hop = hop_token_in (hd hops)" "hop_token_out back_hop = anchor"
  shows "closed_route (first # hops @ [back_hop])"
  using assms by (cases hops) (auto simp: closed_route_def)

lemma closed_chain: "closed_route hops \<Longrightarrow> i < length hops
  \<Longrightarrow> hop_token_out (hops ! i) = hop_token_in (hops ! (Suc i mod length hops))"
proof -
  assume closed: "closed_route hops" and i: "i < length hops"
  have "hop_token_out (hops ! i) = rotate1 (map hop_token_in hops) ! i"
    using closed i by (simp add: closed_route_def flip: nth_map [of i hops hop_token_out])
  also have "\<dots> = map hop_token_in hops ! (Suc i mod length hops)"
    using i by (simp add: nth_rotate1)
  also have "\<dots> = hop_token_in (hops ! (Suc i mod length hops))" using i by (intro nth_map mod_less_divisor) linarith
  finally show ?thesis .
qed

lemma closed_returns:
  assumes "closed_route hops" shows "hop_token_out (last hops) = hop_token_in (hd hops)"
proof -
  have "hops \<noteq> []" using assms by (simp add: closed_route_def)
  moreover have "Suc (length hops - 1) mod length hops = 0" using \<open>hops \<noteq> []\<close> by (simp add: Suc_diff_Suc)
  ultimately show ?thesis
    using closed_chain [OF assms, of "length hops - 1"] by (simp add: last_conv_nth hd_conv_nth)
qed

end
