(* ===== verification/Route_Engine.thy ===== *)
theory Route_Engine
  imports Pool_Quotes Flash_Config
begin

text \<open>
  The route engine, \<^verbatim>\<open>market-engine/src/route_engine.rs\<close>: a directed graph with one edge per pool and
  direction, kept between calls and refreshed from the reserves; Bellman-Ford cycles of the graph become
  routes that are quoted again with the cached pools. The graph library \<^verbatim>\<open>petgraph\<close>, \<^verbatim>\<open>f64\<close>, the key parser
  and the environment variable \<^verbatim>\<open>POOL_BLACKLIST\<close>, read once, are the record \<open>route_env\<close>. A graph is its
  list of nodes and its list of edges, addressed by index. The clock is an argument of each call; a panic of
  a quote is \<open>QuotePanic\<close> or \<open>None\<close>.
\<close>

section \<open>Constants\<close>

definition MIN_NET_PROFIT_LAMPORTS :: int where [simp]: "MIN_NET_PROFIT_LAMPORTS = 1000"
definition MAX_HOPS :: nat where [simp]: "MAX_HOPS = 5"
definition MAX_RETURN_BPS :: u64 where [simp]: "MAX_RETURN_BPS = 2000"
definition MIN_RESERVE_WITHOUT_ORACLE :: u64 where [simp]: "MIN_RESERVE_WITHOUT_ORACLE = 1000000"
definition TX_FEE_PER_HOP :: u64 where [simp]: "TX_FEE_PER_HOP = 5000"

definition MAX_HOP_IMPACT_PCT :: "'f f64_ops \<Rightarrow> 'f" where "MAX_HOP_IMPACT_PCT fl = fl_lit fl ''10.0''"
definition MIN_KNOWN_TVL_USD :: "'f f64_ops \<Rightarrow> 'f" where "MIN_KNOWN_TVL_USD fl = fl_lit fl ''10000.0''"

definition ANCHOR_TOKENS :: "pubkey list" where "ANCHOR_TOKENS = [SOL_MINT, USDC_MINT, USDT_MINT]"
definition BORROWABLE_MINTS :: "pubkey list" where "BORROWABLE_MINTS = [SOL_MINT, USDC_MINT]"

section \<open>The token graph\<close>

record 'f edge_data =
  ed_pool :: pubkey
  ed_dex_program :: pubkey
  ed_token_in :: pubkey
  ed_token_out :: pubkey
  ed_weight :: 'f
  ed_rate :: 'f
  ed_fee_bps :: u64

type_synonym 'f edges = "(nat \<times> nat \<times> 'f edge_data) list"

record 'f token_graph =
  tg_nodes :: "pubkey list"
  tg_edges :: "'f edges"
  tg_node_map :: "(pubkey \<times> nat) list"

record 'f route_env =
  re_floats :: "'f f64_ops"
  re_parse_pubkey :: "string \<Rightarrow> pubkey option"
  re_pool_blacklist :: "string option"
  re_edges_order :: "'f edges \<Rightarrow> 'f edges"
  re_find_edge :: "'f edges \<Rightarrow> nat \<Rightarrow> nat \<Rightarrow> 'f edge_data option"
  re_find_negative_cycle :: "nat \<Rightarrow> (nat \<times> nat \<times> 'f) list \<Rightarrow> nat \<Rightarrow> nat list option"

definition new_token_graph :: "'f token_graph" where
  "new_token_graph = \<lparr>tg_nodes = [], tg_edges = [], tg_node_map = []\<rparr>"

definition get_or_insert_node :: "pubkey \<Rightarrow> 'f token_graph \<Rightarrow> nat \<times> 'f token_graph" where
  "get_or_insert_node token tg =
     (case map_of (tg_node_map tg) token of
        Some i \<Rightarrow> (i, tg)
      | None \<Rightarrow>
          let i = length (tg_nodes tg) in
          (i, tg\<lparr>tg_nodes := tg_nodes tg @ [token], tg_node_map := AList.update token i (tg_node_map tg)\<rparr>))"

definition blacklist :: "'f route_env \<Rightarrow> pubkey list" where
  "blacklist env =
     [0xC53FC0B87F9FC457443FA5E38582951DF6367B37F3801EE2DBACACDCEF89991D,
      0x60FBECE83C8BE0C602EB8D31BE7C03BDCDB735707DFFEEFEF2447E4016C222AA]
     @ (case re_pool_blacklist env of
          None \<Rightarrow> []
        | Some addrs \<Rightarrow> List.map_filter (\<lambda>addr. re_parse_pubkey env (trim addr)) (split_on (CHR '','') addrs))"

definition is_stablecoin_mint :: "pubkey \<Rightarrow> bool" where
  "is_stablecoin_mint mint \<longleftrightarrow> mint = USDC_MINT \<or> mint = USDT_MINT"

definition infer_dex_program :: "dex_pool \<Rightarrow> pubkey" where
  "infer_dex_program pool = program_of_dex (dp_dex_type pool)"

definition reference_amount :: "dex_pool \<Rightarrow> u64" where
  "reference_amount pool =
     (if is_stablecoin_mint (dp_token_a pool) \<and> is_stablecoin_mint (dp_token_b pool) then 100000 else 100000000)"

text \<open>The directions in which the tick arrays of a whirlpool allow a swap.\<close>

definition allowed_directions :: "dex_pool \<Rightarrow> bool \<times> bool" where
  "allowed_directions pool =
     (if dp_dex_type pool = OrcaWhirlpool
      then case dp_orca_meta pool of
          None \<Rightarrow> (False, False)
        | Some meta \<Rightarrow>
            if om_tick_arrays meta \<noteq> [] \<and> om_tick_spacing meta > 0
            then let start = tick_array_start_index (om_tick_current_index meta) (om_tick_spacing meta);
                     offset = wrap32 (uint (om_tick_spacing meta) * ORCA_TICK_ARRAY_SIZE);
                     has = (\<lambda>i. i \<in> set (map fst (om_tick_arrays meta))) in
              (has start \<and> has (wrap32 (start - offset)), has start \<and> has (wrap32 (start + offset)))
            else (False, False)
      else (True, True))"

text \<open>The two halves of \<^verbatim>\<open>add_edge\<close>: the edge of one direction, if the pool quotes anything.\<close>

definition add_direction :: "'f f64_ops \<Rightarrow> nat \<Rightarrow> bool \<Rightarrow> dex_pool \<Rightarrow> 'f token_graph \<Rightarrow> 'f token_graph option" where
  "add_direction fl now a_to_b pool tg = do {
     let ref_amount = reference_amount pool;
     out \<leftarrow> (if a_to_b then quote_a_to_b fl now ref_amount pool else quote_b_to_a fl now ref_amount pool);
     Some (if out > 0
       then let rate = fl_div fl (fl_of_int fl (uint out)) (fl_of_int fl (uint ref_amount));
                (a_idx, tg) = get_or_insert_node (dp_token_a pool) tg;
                (b_idx, tg) = get_or_insert_node (dp_token_b pool) tg;
                edge = \<lparr>ed_pool = dp_pool_address pool, ed_dex_program = infer_dex_program pool,
                  ed_token_in = (if a_to_b then dp_token_a pool else dp_token_b pool),
                  ed_token_out = (if a_to_b then dp_token_b pool else dp_token_a pool),
                  ed_weight = fl_neg fl (fl_ln fl rate), ed_rate = rate, ed_fee_bps = dp_fee_bps pool\<rparr> in
         tg\<lparr>tg_edges := tg_edges tg @ [if a_to_b then (a_idx, b_idx, edge) else (b_idx, a_idx, edge)]\<rparr>
       else tg) }"

definition add_edge :: "'f route_env \<Rightarrow> nat \<Rightarrow> dex_pool \<Rightarrow> 'f token_graph \<Rightarrow> 'f token_graph option" where
  "add_edge env now pool tg =
     (if dp_reserve_a pool < 10000000 \<or> dp_reserve_b pool < 10000000 then Some tg
      else if dp_pool_address pool \<in> set (blacklist env) then Some tg
      else let (allow_a_to_b, allow_b_to_a) = allowed_directions pool in do {
        tg \<leftarrow> (if allow_a_to_b then add_direction (re_floats env) now True pool tg else Some tg);
        (if allow_b_to_a then add_direction (re_floats env) now False pool tg else Some tg) })"

definition compute_rate :: "'f f64_ops \<Rightarrow> u64 \<Rightarrow> u64 \<Rightarrow> u64 \<Rightarrow> 'f \<times> 'f" where
  "compute_rate fl reserve_in reserve_out fee =
     (let zero = (fl_lit fl ''0.0'', fl_lit fl ''0.0'') in
      if reserve_in = 0 \<or> reserve_out = 0 then zero
      else let amount_in = min 100000000 (reserve_in div 10) in
        if amount_in = 0 then zero
        else let net_in = sat_sub amount_in (amount_in * fee div 10000);
                 amount_out = narrow (widen reserve_out * widen net_in div (widen reserve_in + widen net_in)) in
          if amount_out = 0 then zero
          else let rate = fl_div fl (fl_of_int fl (uint amount_out)) (fl_of_int fl (uint amount_in)) in
            (rate, fl_neg fl (fl_ln fl rate)))"

section \<open>Eligible pools\<close>

definition raydium_usable :: "raydium_metadata \<Rightarrow> bool" where
  "raydium_usable meta \<longleftrightarrow> list_all (\<lambda>k. k \<noteq> 0)
     [rm_vault_a meta, rm_vault_b meta, rm_market_program meta, rm_market_event_queue meta, rm_market_bids meta,
      rm_market_asks meta, rm_market_base_vault meta, rm_market_quote_vault meta, rm_market_vault_signer meta]"

definition metadata_eligible :: "dex_pool \<Rightarrow> bool" where
  "metadata_eligible pool =
     (case dp_dex_type pool of
        RaydiumClmm \<Rightarrow>
          (case dp_orca_meta pool of
             Some m \<Rightarrow> om_tick_spacing m > 0 \<and> om_liquidity m > 0 \<and> om_sqrt_price m > 0
           | None \<Rightarrow> False)
      | RaydiumCpmm \<Rightarrow> False
      | RaydiumAmmV4 \<Rightarrow> (case dp_raydium_meta pool of None \<Rightarrow> False | Some meta \<Rightarrow> raydium_usable meta)
      | _ \<Rightarrow> True)"

definition pool_is_eligible :: "'f f64_ops \<Rightarrow> (pubkey \<times> 'f) list option \<Rightarrow> dex_pool \<Rightarrow> bool" where
  "pool_is_eligible fl oracle_prices pool =
     (if \<not> metadata_eligible pool then False
      else case Option.bind oracle_prices (\<lambda>prices. known_tvl_usd_lower_bound fl prices pool) of
          Some known_tvl_usd \<Rightarrow> fl_le fl (MIN_KNOWN_TVL_USD fl) known_tvl_usd
        | None \<Rightarrow>
            if dp_reserve_a pool < MIN_RESERVE_WITHOUT_ORACLE \<or> dp_reserve_b pool < MIN_RESERVE_WITHOUT_ORACLE then False
            else let ratio = (if dp_reserve_a pool > dp_reserve_b pool
                   then fl_div fl (fl_of_int fl (uint (dp_reserve_a pool))) (fl_of_int fl (uint (max (dp_reserve_b pool) 1)))
                   else fl_div fl (fl_of_int fl (uint (dp_reserve_b pool))) (fl_of_int fl (uint (max (dp_reserve_a pool) 1)))) in
              \<not> fl_lt fl (fl_lit fl ''100000.0'') ratio)"

section \<open>From a cycle to a route\<close>

datatype no_route = CycleLength | NoEdge nat | HopImpact nat | TooFewHops | NoAnchor | NotBorrowable | PoolGone nat
  | ZeroQuote nat | ThinReserve nat | ImpactAfterRotation nat | Implausible | QuotePanic

definition try_edge :: "'f f64_ops \<Rightarrow> nat \<Rightarrow> pool_cache \<Rightarrow> u64 \<Rightarrow> 'f edge_data
    \<Rightarrow> ('f edge_data \<times> u64 \<times> 'f) option \<Rightarrow> ('f edge_data \<times> u64 \<times> 'f) option option" where
  "try_edge fl now pools amount_in edge best =
     (case get_pool pools (ed_pool edge) of
        None \<Rightarrow> Some best
      | Some pool \<Rightarrow> do {
          amount_out \<leftarrow> quote_from fl now pool (ed_token_in edge) amount_in;
          if amount_out = 0 then Some best
          else let impact = impact_pct fl amount_in (reserve_from pool (ed_token_in edge)) in
            case best of
              Some (_, best_out, best_impact) \<Rightarrow>
                if amount_out < best_out \<or> amount_out = best_out \<and> fl_le fl best_impact impact then Some best
                else Some (Some (edge, amount_out, impact))
            | None \<Rightarrow> Some (Some (edge, amount_out, impact)) })"

definition edges_between :: "'f route_env \<Rightarrow> 'f token_graph \<Rightarrow> nat \<Rightarrow> nat \<Rightarrow> 'f edge_data list" where
  "edges_between env tg from_node to_node =
     map (\<lambda>(_, _, e). e) (filter (\<lambda>(_, t, _). t = to_node)
       (re_edges_order env (filter (\<lambda>(s, _, _). s = from_node) (tg_edges tg))))"

definition best_edge_for_pair :: "'f route_env \<Rightarrow> nat \<Rightarrow> pool_cache \<Rightarrow> 'f token_graph \<Rightarrow> nat \<Rightarrow> nat \<Rightarrow> u64
    \<Rightarrow> ('f edge_data \<times> u64 \<times> 'f) option option" where
  "best_edge_for_pair env now pools tg from_node to_node amount_in =
     fold (\<lambda>edge acc. Option.bind acc (try_edge (re_floats env) now pools amount_in edge))
       (edges_between env tg from_node to_node) (Some None)"

text \<open>The hops along the nodes of the cycle, each through the best of its parallel edges.\<close>

fun cycle_hops :: "'f route_env \<Rightarrow> nat \<Rightarrow> pool_cache \<Rightarrow> 'f token_graph \<Rightarrow> nat \<Rightarrow> u64 \<Rightarrow> (nat \<times> nat) list
    \<Rightarrow> no_route + 'f hop list" where
  "cycle_hops env now pools tg i current_amount [] = Inr []"
| "cycle_hops env now pools tg i current_amount ((from_node, to_node) # steps) =
     and_then (ok_or QuotePanic (best_edge_for_pair env now pools tg from_node to_node current_amount)) (\<lambda>best.
     and_then (ok_or (NoEdge i) best) (\<lambda>(edge, amount_out, impact).
     and_then (guard_or (HopImpact i) (\<not> fl_lt (re_floats env) (MAX_HOP_IMPACT_PCT (re_floats env)) impact)) (\<lambda>_.
     and_then (cycle_hops env now pools tg (Suc i) amount_out steps) (\<lambda>hops.
       Inr (\<lparr>hop_pool = ed_pool edge, hop_dex_program = ed_dex_program edge, hop_token_in = ed_token_in edge,
             hop_token_out = ed_token_out edge, hop_amount_out = amount_out, hop_price_impact = impact\<rparr> # hops)))))"

text \<open>
  A cycle without a borrowable mint is bridged from WSOL. The two searches of the source have the same
  condition and thus the same result, the first pool of the pair in the order of the cache.
\<close>

definition pool_between :: "pool_cache \<Rightarrow> pubkey \<Rightarrow> pubkey \<Rightarrow> pubkey option" where
  "pool_between pools x y = map_option fst (find (\<lambda>(_, p).
     dp_token_a p = x \<and> dp_token_b p = y \<or> dp_token_b p = x \<and> dp_token_a p = y) (cache_inner pools))"

definition add_bridge :: "'f f64_ops \<Rightarrow> pool_cache \<Rightarrow> pubkey \<Rightarrow> u64 \<Rightarrow> 'f \<Rightarrow> 'f hop list \<Rightarrow> no_route + 'f hop list" where
  "add_bridge fl pools first_token bridge_out bridge_impact hops =
     and_then (ok_or NoAnchor (pool_between pools SOL_MINT first_token)) (\<lambda>bp.
     and_then (ok_or NoAnchor (pool_between pools first_token SOL_MINT)) (\<lambda>rp.
       Inr (case get_pool pools bp of
           None \<Rightarrow> hops
         | Some bp_entry \<Rightarrow>
             \<lparr>hop_pool = bp, hop_dex_program = infer_dex_program bp_entry, hop_token_in = SOL_MINT,
              hop_token_out = first_token, hop_amount_out = bridge_out, hop_price_impact = bridge_impact\<rparr> # hops
             @ (case get_pool pools rp of
                  None \<Rightarrow> []
                | Some rp_entry \<Rightarrow>
                    [\<lparr>hop_pool = rp, hop_dex_program = infer_dex_program rp_entry, hop_token_in = first_token,
                      hop_token_out = SOL_MINT, hop_amount_out = 0, hop_price_impact = fl_lit fl ''0.0''\<rparr>]))))"

definition bridge_cycle :: "'f route_env \<Rightarrow> nat \<Rightarrow> pool_cache \<Rightarrow> 'f token_graph \<Rightarrow> u64 \<Rightarrow> 'f hop list
    \<Rightarrow> no_route + 'f hop list" where
  "bridge_cycle env now pools tg borrow_amount hops =
     (let first_token = hop_token_in (hd hops);
          node = (\<lambda>token. unwrap_or 0 (map_of (tg_node_map tg) token)) in
      and_then (ok_or QuotePanic (best_edge_for_pair env now pools tg (node SOL_MINT) (node first_token) borrow_amount)) (\<lambda>best.
      and_then (ok_or NoAnchor best) (\<lambda>(_, bridge_out, bridge_impact).
        add_bridge (re_floats env) pools first_token bridge_out bridge_impact hops)))"

definition rotate_to_borrowable :: "'f route_env \<Rightarrow> nat \<Rightarrow> pool_cache \<Rightarrow> 'f token_graph \<Rightarrow> u64 \<Rightarrow> 'f hop list
    \<Rightarrow> no_route + 'f hop list" where
  "rotate_to_borrowable env now pools tg borrow_amount hops =
     (let pos = length (takeWhile (\<lambda>h. hop_token_in h \<notin> set BORROWABLE_MINTS) hops) in
      if pos < length hops then Inr (rotate pos hops) else bridge_cycle env now pools tg borrow_amount hops)"

fun requote :: "'f f64_ops \<Rightarrow> nat \<Rightarrow> pool_cache \<Rightarrow> nat \<Rightarrow> u64 \<Rightarrow> 'f hop list \<Rightarrow> no_route + 'f hop list \<times> u64" where
  "requote fl now pools hi current_amount [] = Inr ([], current_amount)"
| "requote fl now pools hi current_amount (hop # hops) =
     and_then (ok_or (PoolGone hi) (get_pool pools (hop_pool hop))) (\<lambda>pool.
     and_then (ok_or QuotePanic (quote_from fl now pool (hop_token_in hop) current_amount)) (\<lambda>amount_out.
     and_then (guard_or (ZeroQuote hi) (amount_out \<noteq> 0)) (\<lambda>_.
     (let reserve_in = reserve_from pool (hop_token_in hop); impact = impact_pct fl current_amount reserve_in in
      and_then (guard_or (ThinReserve hi) (\<not> reserve_in < sat_mul current_amount 2)) (\<lambda>_.
      and_then (guard_or (ImpactAfterRotation hi) (\<not> fl_lt fl (MAX_HOP_IMPACT_PCT fl) impact)) (\<lambda>_.
      and_then (requote fl now pools (Suc hi) amount_out hops) (\<lambda>(hops, last_amount).
        Inr (hop\<lparr>hop_amount_out := amount_out, hop_price_impact := impact\<rparr> # hops, last_amount))))))))"

definition compute_risk_factor :: "'f f64_ops \<Rightarrow> 'f hop list \<Rightarrow> 'f" where
  "compute_risk_factor fl hops =
     (let max_impact = fold (\<lambda>h m. fl_max fl m (hop_price_impact h)) hops (fl_lit fl ''0.0'') in
      fl_min fl (fl_div fl max_impact (fl_lit fl ''100.0'')) (fl_lit fl ''1.0''))"

definition max_return :: "u64 \<Rightarrow> u64" where
  "max_return borrow_amount = sat_add borrow_amount (borrow_amount div 10000 * MAX_RETURN_BPS)"

definition priced_route :: "'f f64_ops \<Rightarrow> u64 \<Rightarrow> 'f hop list \<Rightarrow> u64 \<Rightarrow> 'f route_params" where
  "priced_route fl borrow_amount hops current_amount =
     (let gross_profit = sat_sub current_amount borrow_amount;
          tx_fee = TX_FEE_PER_HOP * word_of_nat (length hops) in
      \<lparr>rp_hops = hops, rp_borrow_amount = borrow_amount, rp_gross_profit = gross_profit,
       rp_net_profit = wrap64 (sint gross_profit - sint tx_fee), rp_risk_factor = compute_risk_factor fl hops,
       rp_strategy = ''bellman-ford'', rp_tier = 0\<rparr>)"

definition cycle_to_route :: "'f route_env \<Rightarrow> nat \<Rightarrow> pool_cache \<Rightarrow> 'f token_graph \<Rightarrow> nat list \<Rightarrow> u64
    \<Rightarrow> no_route + 'f route_params" where
  "cycle_to_route env now pools tg cycle_nodes borrow_amount =
     and_then (guard_or CycleLength (2 \<le> length cycle_nodes \<and> length cycle_nodes \<le> MAX_HOPS)) (\<lambda>_.
     and_then (cycle_hops env now pools tg 0 borrow_amount (zip cycle_nodes (rotate1 cycle_nodes))) (\<lambda>hops.
     and_then (guard_or TooFewHops (2 \<le> length hops)) (\<lambda>_.
     and_then (rotate_to_borrowable env now pools tg borrow_amount hops) (\<lambda>hops.
     and_then (guard_or NotBorrowable (hop_token_in (hd hops) \<in> set BORROWABLE_MINTS)) (\<lambda>_.
     and_then (requote (re_floats env) now pools 0 borrow_amount hops) (\<lambda>(hops, current_amount).
     and_then (guard_or Implausible (current_amount \<le> max_return borrow_amount)) (\<lambda>_.
       Inr (priced_route (re_floats env) borrow_amount hops current_amount))))))))"

section \<open>The engine\<close>

record 'f route_cache =
  rc_swap_gen :: u64
  rc_borrow_amount :: u64
  rc_routes :: "'f route_params list"
  rc_computed_at :: nat

record 'f persistent_graph =
  pg_graph :: "'f token_graph"
  pg_pool_edges :: "(pubkey \<times> nat list) list"
  pg_n_pools :: nat
  pg_built_at :: nat

record 'f route_engine =
  eng_route_cache :: "'f route_cache"
  eng_persistent_graph :: "'f persistent_graph option"
  eng_last_total_pools :: nat
  eng_last_pools_in_graph :: nat
  eng_rejected_cycles :: "(pubkey list \<times> nat) list"

definition empty_route_cache :: "nat \<Rightarrow> 'f route_cache" where
  "empty_route_cache now = \<lparr>rc_swap_gen = - 1, rc_borrow_amount = 0, rc_routes = [], rc_computed_at = now\<rparr>"

definition new_route_engine :: "nat \<Rightarrow> 'f route_engine" where
  "new_route_engine now =
     \<lparr>eng_route_cache = empty_route_cache now, eng_persistent_graph = None, eng_last_total_pools = 0,
      eng_last_pools_in_graph = 0, eng_rejected_cycles = []\<rparr>"

text \<open>The full rebuild: one pool, then all of them.\<close>

definition add_pool :: "'f route_env \<Rightarrow> nat \<Rightarrow> (pubkey \<times> 'f) list option \<Rightarrow> dex_pool
    \<Rightarrow> 'f token_graph \<times> (pubkey \<times> nat list) list \<times> nat \<Rightarrow> ('f token_graph \<times> (pubkey \<times> nat list) list \<times> nat) option" where
  "add_pool env now oracle_prices pool = (\<lambda>(tg, pool_edges, pools_added).
     if \<not> pool_is_eligible (re_floats env) oracle_prices pool then Some (tg, pool_edges, pools_added)
     else do {
       tg' \<leftarrow> add_edge env now pool tg;
       let edges_before = length (tg_edges tg); edges_after = length (tg_edges tg') in
       Some (if edges_after > edges_before
         then (tg', AList.update (dp_pool_address pool) [edges_before..<edges_after] pool_edges, pools_added + 1)
         else (tg', pool_edges, pools_added)) })"

definition rebuild_graph :: "'f route_env \<Rightarrow> nat \<Rightarrow> (pubkey \<times> 'f) list option \<Rightarrow> dex_pool list
    \<Rightarrow> 'f route_engine \<Rightarrow> ('f persistent_graph \<times> 'f route_engine) option" where
  "rebuild_graph env now oracle_prices pools engine = do {
     (tg, pool_edges, pools_added) \<leftarrow>
       fold (\<lambda>pool acc. Option.bind acc (add_pool env now oracle_prices pool)) pools (Some (new_token_graph, [], 0));
     let pg = \<lparr>pg_graph = tg, pg_pool_edges = pool_edges, pg_n_pools = length pools, pg_built_at = now\<rparr>;
     Some (pg, engine\<lparr>eng_persistent_graph := Some pg, eng_last_total_pools := length pools,
       eng_last_pools_in_graph := pools_added\<rparr>) }"

text \<open>The fast path: new weights for the edges of the pools that are still there.\<close>

definition reweigh_edge :: "'f f64_ops \<Rightarrow> dex_pool \<Rightarrow> 'f edge_data \<Rightarrow> 'f edge_data" where
  "reweigh_edge fl pool edge =
     (let (new_rate, new_weight) = (if ed_token_in edge = dp_token_a pool
            then compute_rate fl (dp_reserve_a pool) (dp_reserve_b pool) (dp_fee_bps pool)
            else compute_rate fl (dp_reserve_b pool) (dp_reserve_a pool) (dp_fee_bps pool)) in
      if fl_lt fl (fl_lit fl ''0.0'') new_rate then edge\<lparr>ed_rate := new_rate, ed_weight := new_weight\<rparr> else edge)"

definition reweigh_pool :: "'f f64_ops \<Rightarrow> (pubkey \<times> nat list) list \<Rightarrow> dex_pool \<Rightarrow> 'f edges \<Rightarrow> 'f edges" where
  "reweigh_pool fl pool_edges pool edges =
     (if dp_reserve_a pool = 0 \<or> dp_reserve_b pool = 0 then edges
      else case map_of pool_edges (dp_pool_address pool) of
          None \<Rightarrow> edges
        | Some edge_indices \<Rightarrow>
            fold (\<lambda>i es. if i < length es
              then es[i := (case es ! i of (s, t, edge) \<Rightarrow> (s, t, reweigh_edge fl pool edge))] else es) edge_indices edges)"

definition update_weights :: "'f f64_ops \<Rightarrow> dex_pool list \<Rightarrow> 'f persistent_graph \<Rightarrow> 'f persistent_graph" where
  "update_weights fl pools pg =
     pg\<lparr>pg_graph := (pg_graph pg)\<lparr>tg_edges := fold (reweigh_pool fl (pg_pool_edges pg)) pools (tg_edges (pg_graph pg))\<rparr>\<rparr>"

definition refresh_graph :: "'f route_env \<Rightarrow> nat \<Rightarrow> (pubkey \<times> 'f) list option \<Rightarrow> dex_pool list
    \<Rightarrow> 'f route_engine \<Rightarrow> ('f persistent_graph \<times> 'f route_engine) option" where
  "refresh_graph env now oracle_prices pools engine =
     (case eng_persistent_graph engine of
        None \<Rightarrow> rebuild_graph env now oracle_prices pools engine
      | Some pg \<Rightarrow>
          if pg_n_pools pg \<noteq> length pools \<or> (now - pg_built_at pg) div 1000000000 > 60
          then rebuild_graph env now oracle_prices pools engine
          else let pg = update_weights (re_floats env) pools pg in
            Some (pg, engine\<lparr>eng_persistent_graph := Some pg, eng_last_total_pools := length pools\<rparr>))"

text \<open>The key of a cycle: its pools, sorted.\<close>

definition cycle_key :: "'f route_env \<Rightarrow> 'f token_graph \<Rightarrow> nat list \<Rightarrow> pubkey list" where
  "cycle_key env tg cycle_nodes =
     (let steps = zip cycle_nodes (tl cycle_nodes)
            @ (if 2 \<le> length cycle_nodes then [(last cycle_nodes, hd cycle_nodes)] else []) in
      sort (List.map_filter (\<lambda>(s, t). map_option ed_pool (re_find_edge env (tg_edges tg) s t)) steps))"

text \<open>The borrow amounts of one cycle: the best route of them, and whether any amount gave a route.\<close>

fun try_amounts :: "'f route_env \<Rightarrow> nat \<Rightarrow> pool_cache \<Rightarrow> 'f token_graph \<Rightarrow> nat list \<Rightarrow> u64 list
    \<Rightarrow> 'f route_params option \<times> bool \<Rightarrow> ('f route_params option \<times> bool) option" where
  "try_amounts env now pools tg cycle_nodes [] acc = Some acc"
| "try_amounts env now pools tg cycle_nodes (borrow_amount # amounts) (best_route, any_passed_requote) =
     (case cycle_to_route env now pools tg cycle_nodes borrow_amount of
        Inl QuotePanic \<Rightarrow> None
      | Inl _ \<Rightarrow> try_amounts env now pools tg cycle_nodes amounts (best_route, any_passed_requote)
      | Inr route \<Rightarrow>
          try_amounts env now pools tg cycle_nodes amounts
            (if rp_net_profit route \<ge> MIN_NET_PROFIT_LAMPORTS then keep_better route best_route else best_route, True))"

type_synonym 'f search_result = "'f route_params list \<times> (pubkey list \<times> nat) list"

definition search_start :: "'f route_env \<Rightarrow> nat \<Rightarrow> pool_cache \<Rightarrow> 'f token_graph \<Rightarrow> u64 list \<Rightarrow> nat \<Rightarrow> 'f search_result \<Rightarrow> 'f search_result option" where
  "search_start env now pools tg borrow_amounts start = (\<lambda>(routes, rejected).
     case re_find_negative_cycle env (length (tg_nodes tg)) (map (\<lambda>(s, t, e). (s, t, ed_weight e)) (tg_edges tg)) start of
       None \<Rightarrow> Some (routes, rejected)
     | Some cycle_nodes \<Rightarrow>
         let key = cycle_key env tg cycle_nodes in
         if key \<noteq> [] \<and> key \<in> set (map fst rejected) then Some (routes, rejected)
         else do {
           (best_route, any_passed_requote) \<leftarrow> try_amounts env now pools tg cycle_nodes borrow_amounts (None, False);
           Some (case best_route of None \<Rightarrow> routes | Some route \<Rightarrow> routes @ [route],
             if \<not> any_passed_requote \<and> key \<noteq> [] then AList.update key now rejected else rejected) })"

definition find_opportunities_inner :: "'f route_env \<Rightarrow> nat \<Rightarrow> pool_cache \<Rightarrow> (pubkey \<times> 'f) list option \<Rightarrow> u64 list
    \<Rightarrow> 'f route_engine \<Rightarrow> ('f route_params list \<times> 'f route_engine) option" where
  "find_opportunities_inner env now pools oracle_prices borrow_amounts engine = do {
     (pg, engine) \<leftarrow> refresh_graph env now oracle_prices (map snd (cache_inner pools)) engine;
     let tg = pg_graph pg;
     if length (tg_nodes tg) < 2 then Some ([], engine)
     else do {
       let start_nodes = List.map_filter (map_of (tg_node_map tg)) ANCHOR_TOKENS;
       let rejected = filter (\<lambda>(_, t). (now - t) div 1000000000 < 10) (eng_rejected_cycles engine);
       (routes, rejected) \<leftarrow> fold (\<lambda>start acc. Option.bind acc (search_start env now pools tg borrow_amounts start))
         start_nodes (Some ([], rejected));
       Some (by_profit routes, engine\<lparr>eng_rejected_cycles := rejected\<rparr>) } }"

definition find_opportunities_multi :: "'f route_env \<Rightarrow> nat \<Rightarrow> pool_cache \<Rightarrow> (pubkey \<times> 'f) list option \<Rightarrow> u64 list
    \<Rightarrow> 'f route_engine \<Rightarrow> ('f route_params list \<times> 'f route_engine) option" where
  "find_opportunities_multi env now pools oracle_prices borrow_amounts engine =
     (let cache = eng_route_cache engine; current_swap_gen = cache_swap_gen pools in
      if rc_swap_gen cache = current_swap_gen \<and> (now - rc_computed_at cache) div 1000000 < 500
      then Some (rc_routes cache, engine)
      else do {
        (routes, engine) \<leftarrow> find_opportunities_inner env now pools oracle_prices borrow_amounts engine;
        Some (routes, engine\<lparr>eng_route_cache :=
          \<lparr>rc_swap_gen = current_swap_gen, rc_borrow_amount = 0, rc_routes = routes, rc_computed_at = now\<rparr>\<rparr>) })"

definition find_opportunities :: "'f route_env \<Rightarrow> nat \<Rightarrow> pool_cache \<Rightarrow> (pubkey \<times> 'f) list option \<Rightarrow> u64
    \<Rightarrow> 'f route_engine \<Rightarrow> ('f route_params list \<times> 'f route_engine) option" where
  "find_opportunities env now pools oracle_prices borrow_amount =
     find_opportunities_multi env now pools oracle_prices [borrow_amount]"

end
