(* ===== verification/Route_Contract.thy ===== *)
theory Route_Contract
  imports Pool_Quotes Tx_Builder
begin

text \<open>
  The contract between the route finders and the transaction builder. A finder reports closed routes over
  cached pools, with the amounts those pools quote and the program of each pool. The builder then accepts
  the pool, the tokens and the program of every hop, and can only fail for what is missing in the metadata
  of a pool, for an exchange it has no layout for, or in the derivation of an address.
\<close>

definition hop_fits :: "pool_cache \<Rightarrow> 'f hop \<Rightarrow> bool" where
  "hop_fits pools hop \<longleftrightarrow> (\<exists>pool. get_pool pools (hop_pool hop) = Some pool
     \<and> (hop_token_in hop, hop_token_out hop) \<in> {(dp_token_a pool, dp_token_b pool), (dp_token_b pool, dp_token_a pool)}
     \<and> hop_dex_program hop = program_of_dex (dp_dex_type pool))"

definition distinct_tokens :: "pool_cache \<Rightarrow> bool" where
  "distinct_tokens pools \<longleftrightarrow> (\<forall>(_, pool) \<in> set (cache_inner pools). dp_token_a pool \<noteq> dp_token_b pool)"

text \<open>What the builder can report of a pool that fits.\<close>

definition pool_error :: "dex_pool \<Rightarrow> tx_error \<Rightarrow> bool" where
  "pool_error pool e \<longleftrightarrow>
     (case dp_dex_type pool of
        RaydiumAmmV4 \<Rightarrow> e = RaydiumMetaMissing \<and> dp_raydium_meta pool = None
          \<or> e = RaydiumIncomplete \<and> (\<exists>meta. dp_raydium_meta pool = Some meta \<and> \<not> raydium_complete meta)
      | OrcaWhirlpool \<Rightarrow> e = OrcaMetaMissing \<and> dp_orca_meta pool = None
          \<or> e = OrcaIncomplete \<and> (\<exists>meta. dp_orca_meta pool = Some meta \<and> om_tick_spacing meta = 0)
          \<or> e \<in> {DeriveFailed, IndexPanic}
      | MeteoraDlmm \<Rightarrow> e = MeteoraMetaMissing \<and> dp_meteora_meta pool = None \<or> e = DeriveFailed
      | PumpSwap \<Rightarrow> False
      | dex \<Rightarrow> e = DexUnsupported dex)"

definition supported_dex :: "dex_type \<Rightarrow> bool" where
  "supported_dex dex \<longleftrightarrow> dex \<in> {RaydiumAmmV4, OrcaWhirlpool, MeteoraDlmm, PumpSwap}"

lemma derive_orca_tick_arrays_error:
  "derive_orca_tick_arrays fl env whirlpool meta amount_in fee a_to_b = Inl e \<Longrightarrow> e \<in> {DeriveFailed, IndexPanic}"
  by (auto simp: derive_orca_tick_arrays_def and_then_Inl guard_or_Inl ok_or_Inl derive_orca_tick_array_def
      dest!: collect_results_Inl)

lemma derive_meteora_bin_arrays_error:
  "derive_meteora_bin_arrays env lb_pair meta a_to_b = Inl e \<Longrightarrow> e = DeriveFailed"
  by (auto simp: derive_meteora_bin_arrays_def derive_meteora_bin_array_def ok_or_Inl dest!: collect_results_Inl)

lemma hop_accounts_error:
  assumes "hop_accounts fl env payer programs amount hop pool = Inl e"
    and "hop_dex_program hop = program_of_dex (dp_dex_type pool)"
  shows "pool_error pool e"
  using assms
  by (cases "dp_dex_type pool")
    (auto simp: hop_accounts_def pool_error_def and_then_Inl guard_or_Inl ok_or_Inl Let_def derive_orca_oracle_def
      derive_orca_whirlpool_authority_def derive_meteora_oracle_def
      dest!: derive_orca_tick_arrays_error derive_meteora_bin_arrays_error)

lemma check_hop_fits:
  assumes "get_pool pools (hop_pool hop) = Some pool" and "hop_fits pools hop" and "distinct_tokens pools"
  shows "check_hop i hop pool = Inr ()"
proof -
  have "dp_token_a pool \<noteq> dp_token_b pool"
    using assms(1,3) by (auto simp: distinct_tokens_def get_pool_def dest!: map_of_SomeD)
  then show ?thesis using assms(1,2) by (auto simp: hop_fits_def check_hop_def)
qed

lemma build_hop_error:
  assumes "build_hop fl env payer pools programs i amount hop = Inl e" and "hop_fits pools hop" and "distinct_tokens pools"
  shows "\<exists>pool. get_pool pools (hop_pool hop) = Some pool \<and> pool_error pool e"
proof -
  obtain pool where pool: "get_pool pools (hop_pool hop) = Some pool"
    and program: "hop_dex_program hop = program_of_dex (dp_dex_type pool)"
    using assms(2) by (auto simp: hop_fits_def)
  have "hop_accounts fl env payer programs amount hop pool = Inl e
    \<or> (\<exists>accounts. hop_accounts fl env payer programs amount hop pool = Inr accounts
      \<and> (\<exists>a_to_b n. build_swap_data env (dp_dex_type pool) amount 1 a_to_b n = Inl e))"
    using assms(1) by (auto simp: build_hop_def pool check_hop_fits [OF pool assms(2,3)] and_then_Inl Let_def program)
  then show ?thesis
  proof
    assume "hop_accounts fl env payer programs amount hop pool = Inl e"
    then show ?thesis using hop_accounts_error program pool by blast
  next
    assume "\<exists>accounts. hop_accounts fl env payer programs amount hop pool = Inr accounts
      \<and> (\<exists>a_to_b n. build_swap_data env (dp_dex_type pool) amount 1 a_to_b n = Inl e)"
    then show ?thesis
      using pool program
      by (cases "dp_dex_type pool") (auto simp: build_swap_data_def hop_accounts_def pool_error_def Let_def)
  qed
qed

lemma build_hops_error:
  assumes "build_hops fl env payer pools programs i amount hops = Inl e"
    and "\<forall>hop \<in> set hops. hop_fits pools hop" and "distinct_tokens pools"
  shows "\<exists>hop \<in> set hops. \<exists>pool. get_pool pools (hop_pool hop) = Some pool \<and> pool_error pool e"
  using assms(1,2)
proof (induction hops arbitrary: i amount)
  case (Cons hop hops)
  then show ?case
    using build_hop_error [OF _ _ assms(3)] by (fastforce simp: and_then_Inl)
qed simp

lemma build_hop_unsupported:
  assumes "get_pool pools (hop_pool hop) = Some pool" and "hop_fits pools hop" and "\<not> supported_dex (dp_dex_type pool)"
  shows "\<exists>e. build_hop fl env payer pools programs i amount hop = Inl e"
proof -
  have "hop_dex_program hop = program_of_dex (dp_dex_type pool)" using assms(1,2) by (auto simp: hop_fits_def)
  then have "hop_accounts fl env payer programs amount hop pool = Inl (DexUnsupported (dp_dex_type pool))"
    using assms(3) by (cases "dp_dex_type pool") (auto simp: hop_accounts_def supported_dex_def Let_def)
  then show ?thesis
    by (cases "check_hop i hop pool") (simp_all add: build_hop_def assms(1))
qed

lemma build_hops_unsupported:
  assumes "hop \<in> set hops" and "get_pool pools (hop_pool hop) = Some pool" and "hop_fits pools hop"
    and "\<not> supported_dex (dp_dex_type pool)"
  shows "\<exists>e. build_hops fl env payer pools programs i amount hops = Inl e"
  using assms(1)
proof (induction hops arbitrary: i amount)
  case (Cons h hops)
  show ?case
  proof (cases "build_hop fl env payer pools programs i amount h")
    case (Inr built)
    have "h \<noteq> hop"
      using Inr build_hop_unsupported [OF assms(2-4), of fl env payer programs i amount] by auto
    then have "hop \<in> set hops" using Cons.prems by simp
    from Cons.IH [OF this] obtain e where
      "build_hops fl env payer pools programs (Suc i) (safe_out (hop_amount_out h)) hops = Inl e" ..
    then show ?thesis by (simp add: Inr)
  qed simp
qed simp

section \<open>The contract\<close>

locale route_source =
  fixes reported :: "'f f64_ops \<Rightarrow> nat \<Rightarrow> pool_cache \<Rightarrow> 'f route_params \<Rightarrow> bool"
  assumes closed: "reported fl now pools route \<Longrightarrow> closed_route (rp_hops route)"
    and fits: "reported fl now pools route \<Longrightarrow> hop \<in> set (rp_hops route) \<Longrightarrow> hop_fits pools hop"
    and quoted: "reported fl now pools route \<Longrightarrow> quoted_hops fl now pools (rp_borrow_amount route) (rp_hops route)"
begin

lemma returns_what_it_borrows:
  "reported fl now pools route \<Longrightarrow> hop_token_out (last (rp_hops route)) = hop_token_in (hd (rp_hops route))"
  by (rule closed_returns) (rule closed)

lemma build_error:
  assumes "reported fl now pools route" and "distinct_tokens pools"
    and "build_hops fl' env payer pools programs 0 (rp_borrow_amount route) (rp_hops route) = Inl e"
  shows "\<exists>hop \<in> set (rp_hops route). \<exists>pool. get_pool pools (hop_pool hop) = Some pool \<and> pool_error pool e"
  using build_hops_error [OF assms(3) _ assms(2)] fits [OF assms(1)] by blast

lemma unsupported:
  assumes "reported fl now pools route" and "hop \<in> set (rp_hops route)"
    and "get_pool pools (hop_pool hop) = Some pool" and "\<not> supported_dex (dp_dex_type pool)"
  shows "\<exists>e. build_helios_instruction fl' env tb route user pools programs mode = Inl e"
proof -
  obtain e where "build_hops fl' env (tb_payer tb) pools programs 0 (rp_borrow_amount route) (rp_hops route) = Inl e"
    using build_hops_unsupported [OF assms(2,3) fits [OF assms(1,2)] assms(4)] by blast
  then show ?thesis by (simp add: build_helios_instruction_def)
qed

end

end
