(* ===== verification/Route_Soundness.thy ===== *)
theory Route_Soundness
  imports Route_Engine Route_Contract Machine
begin

text \<open>
  What the route engine reports. The graph keeps its labels through rebuilds and new weights; so a route is
  a closed chain of hops that starts at a mint a flash loan can borrow, its amounts are those the cached
  pools quote, and its profit is accounted exactly. The transaction builder accepts its pools and tokens.
\<close>

section \<open>The graph\<close>

definition nodes_ok :: "'f token_graph \<Rightarrow> bool" where
  "nodes_ok tg \<longleftrightarrow> (\<forall>token i. map_of (tg_node_map tg) token = Some i
     \<longrightarrow> i < length (tg_nodes tg) \<and> tg_nodes tg ! i = token)"

text \<open>An edge joins the nodes of its tokens and belongs to a pool with them, as \<open>ident\<close> knows the pools.\<close>

type_synonym pool_ident = "pubkey \<Rightarrow> pubkey \<times> pubkey \<times> dex_type"

definition edge_ok :: "pool_ident \<Rightarrow> pubkey list \<Rightarrow> nat \<times> nat \<times> 'f edge_data \<Rightarrow> bool" where
  "edge_ok ident nodes = (\<lambda>(s, t, e).
     s < length nodes \<and> t < length nodes \<and> nodes ! s = ed_token_in e \<and> nodes ! t = ed_token_out e
     \<and> (case ident (ed_pool e) of (a, b, dex) \<Rightarrow>
          (ed_token_in e, ed_token_out e) \<in> {(a, b), (b, a)} \<and> ed_dex_program e = program_of_dex dex))"

definition graph_ok :: "pool_ident \<Rightarrow> 'f token_graph \<Rightarrow> bool" where
  "graph_ok ident tg \<longleftrightarrow> nodes_ok tg \<and> (\<forall>edge \<in> set (tg_edges tg). edge_ok ident (tg_nodes tg) edge)"

definition pool_known :: "pool_ident \<Rightarrow> dex_pool \<Rightarrow> bool" where
  "pool_known ident pool \<longleftrightarrow>
     ident (dp_pool_address pool) = (dp_token_a pool, dp_token_b pool, dp_dex_type pool)"

lemma edge_ok_append: "edge_ok ident nodes edge \<Longrightarrow> edge_ok ident (nodes @ tail) edge"
  by (auto simp: edge_ok_def nth_append)

lemma graph_ok_new [simp]: "graph_ok ident new_token_graph"
  by (simp add: graph_ok_def nodes_ok_def new_token_graph_def)

lemma get_or_insert_node_ok:
  assumes "graph_ok ident tg" and "get_or_insert_node token tg = (i, tg')"
  shows "graph_ok ident tg'" and "i < length (tg_nodes tg')" and "tg_nodes tg' ! i = token"
    and "\<exists>tail. tg_nodes tg' = tg_nodes tg @ tail" and "tg_edges tg' = tg_edges tg"
proof -
  have "graph_ok ident tg' \<and> i < length (tg_nodes tg') \<and> tg_nodes tg' ! i = token
    \<and> (\<exists>tail. tg_nodes tg' = tg_nodes tg @ tail) \<and> tg_edges tg' = tg_edges tg"
  proof (cases "map_of (tg_node_map tg) token")
    case None
    then have tg': "tg' = tg\<lparr>tg_nodes := tg_nodes tg @ [token],
        tg_node_map := AList.update token (length (tg_nodes tg)) (tg_node_map tg)\<rparr>" and i: "i = length (tg_nodes tg)"
      using assms(2) by (auto simp: get_or_insert_node_def Let_def)
    have "nodes_ok tg'"
      using assms(1) by (auto simp: tg' graph_ok_def nodes_ok_def update_conv' nth_append less_SucI)
    then show ?thesis
      using assms(1) by (auto simp: tg' i graph_ok_def intro: edge_ok_append)
  next
    case (Some j)
    then show ?thesis using assms by (auto simp: get_or_insert_node_def graph_ok_def nodes_ok_def)
  qed
  then show "graph_ok ident tg'" "i < length (tg_nodes tg')" "tg_nodes tg' ! i = token"
    "\<exists>tail. tg_nodes tg' = tg_nodes tg @ tail" "tg_edges tg' = tg_edges tg" by blast+
qed

lemma add_direction_ok:
  assumes "add_direction fl now a_to_b pool tg = Some tg'" and "graph_ok ident tg" and "pool_known ident pool"
  shows "graph_ok ident tg'"
proof -
  obtain a_idx tg1 where n1: "get_or_insert_node (dp_token_a pool) tg = (a_idx, tg1)" by fastforce
  obtain b_idx tg2 where n2: "get_or_insert_node (dp_token_b pool) tg1 = (b_idx, tg2)" by fastforce
  note ok1 = get_or_insert_node_ok [OF assms(2) n1]
  note ok2 = get_or_insert_node_ok [OF ok1(1) n2]
  obtain tail where tail: "tg_nodes tg2 = tg_nodes tg1 @ tail" using ok2(4) by blast
  have a_idx: "a_idx < length (tg_nodes tg2)" "tg_nodes tg2 ! a_idx = dp_token_a pool"
    using ok1(2,3) by (simp_all add: tail nth_append)
  have known: "ident (dp_pool_address pool) = (dp_token_a pool, dp_token_b pool, dp_dex_type pool)"
    using assms(3) by (simp add: pool_known_def)
  have "tg' = tg \<or> (\<exists>edge. tg' = tg2\<lparr>tg_edges := tg_edges tg2 @ [edge]\<rparr> \<and> edge_ok ident (tg_nodes tg2) edge)"
  proof (cases "if a_to_b then quote_a_to_b fl now (reference_amount pool) pool
      else quote_b_to_a fl now (reference_amount pool) pool")
    case None
    then show ?thesis using assms(1) by (simp add: add_direction_def)
  next
    case (Some out)
    define rate where "rate = fl_div fl (fl_of_int fl (uint out)) (fl_of_int fl (uint (reference_amount pool)))"
    define edge where "edge = \<lparr>ed_pool = dp_pool_address pool, ed_dex_program = infer_dex_program pool,
      ed_token_in = (if a_to_b then dp_token_a pool else dp_token_b pool),
      ed_token_out = (if a_to_b then dp_token_b pool else dp_token_a pool),
      ed_weight = fl_neg fl (fl_ln fl rate), ed_rate = rate, ed_fee_bps = dp_fee_bps pool\<rparr>"
    define joined where "joined = (if a_to_b then (a_idx, b_idx, edge) else (b_idx, a_idx, edge))"
    have "tg' = (if out > 0 then tg2\<lparr>tg_edges := tg_edges tg2 @ [joined]\<rparr> else tg)"
      using assms(1) Some by (simp add: add_direction_def n1 n2 Let_def rate_def edge_def joined_def split: if_splits)
    moreover have "edge_ok ident (tg_nodes tg2) joined"
      using a_idx ok2(2,3) by (simp add: edge_ok_def known joined_def edge_def infer_dex_program_def)
    ultimately show ?thesis by metis
  qed
  then show ?thesis
    using assms(2) ok2(1) by (auto simp: graph_ok_def nodes_ok_def)
qed

lemma add_edge_ok:
  assumes "add_edge env now pool tg = Some tg'" and "graph_ok ident tg" and "pool_known ident pool"
  shows "graph_ok ident tg'"
  using assms
  by (auto simp: add_edge_def split: if_splits prod.splits bind_splits intro: add_direction_ok)

lemma add_pool_ok:
  assumes "add_pool env now oracle_prices pool acc = Some acc'" and "graph_ok ident (fst acc)" and "pool_known ident pool"
  shows "graph_ok ident (fst acc')"
  using assms
  by (cases acc) (auto simp: add_pool_def Let_def split: if_splits bind_splits intro: add_edge_ok)

lemma rebuild_graph_ok:
  assumes "rebuild_graph env now oracle_prices pools engine = Some (pg, engine')" and "\<forall>pool \<in> set pools. pool_known ident pool"
  shows "graph_ok ident (pg_graph pg)"
proof -
  obtain tg pool_edges pools_added where
    fold: "fold (\<lambda>pool acc. Option.bind acc (add_pool env now oracle_prices pool)) pools (Some (new_token_graph, [], 0))
      = Some (tg, pool_edges, pools_added)" and pg: "pg_graph pg = tg"
    using assms(1) by (auto simp: rebuild_graph_def Let_def split: bind_splits)
  have "graph_ok ident (fst (tg, pool_edges, pools_added))"
    by (rule fold_bind_invariant [OF fold, where P = "\<lambda>acc. graph_ok ident (fst acc)"])
      (simp, use assms(2) in \<open>blast intro: add_pool_ok\<close>)
  then show ?thesis by (simp add: pg)
qed

text \<open>New weights leave everything but rate and weight in place.\<close>

definition skeleton :: "nat \<times> nat \<times> 'f edge_data \<Rightarrow> nat \<times> nat \<times> pubkey \<times> pubkey \<times> pubkey \<times> pubkey \<times> u64" where
  "skeleton = (\<lambda>(s, t, e). (s, t, ed_pool e, ed_dex_program e, ed_token_in e, ed_token_out e, ed_fee_bps e))"

lemma skeleton_reweigh [simp]: "skeleton (s, t, reweigh_edge fl pool e) = skeleton (s, t, e)"
  by (simp add: skeleton_def reweigh_edge_def split: prod.split)

lemma skeleton_reweigh_pool: "map skeleton (reweigh_pool fl pool_edges pool edges) = map skeleton edges"
proof -
  have step: "map skeleton (fold (\<lambda>i es. if i < length es
      then es[i := (case es ! i of (s, t, edge) \<Rightarrow> (s, t, reweigh_edge fl pool edge))] else es) is es)
    = map skeleton es" for "is" es
  proof (induction "is" arbitrary: es)
    case (Cons i "is")
    have "map skeleton (es[i := (case es ! i of (s, t, edge) \<Rightarrow> (s, t, reweigh_edge fl pool edge))]) = map skeleton es"
      if "i < length es"
      using that by (auto simp: map_update list_update_same_conv split: prod.splits)
    then show ?case by (simp add: Cons.IH)
  qed simp
  then show ?thesis by (simp add: reweigh_pool_def split: option.split)
qed

lemma edges_ok_skeleton:
  assumes "map skeleton es = map skeleton es'" and "\<forall>edge \<in> set es'. edge_ok ident nodes edge"
  shows "\<forall>edge \<in> set es. edge_ok ident nodes edge"
proof
  fix edge assume "edge \<in> set es"
  then have "skeleton edge \<in> set (map skeleton es')" unfolding assms(1) [symmetric] by simp
  then obtain edge' where "edge' \<in> set es'" "skeleton edge = skeleton edge'" by auto
  with assms(2) show "edge_ok ident nodes edge"
    by (cases edge, cases edge') (auto simp: edge_ok_def skeleton_def split: prod.splits)
qed

lemma skeleton_update_weights:
  "map skeleton (tg_edges (pg_graph (update_weights fl pools pg))) = map skeleton (tg_edges (pg_graph pg))"
proof -
  have "map skeleton (fold (reweigh_pool fl pool_edges) pools es) = map skeleton es" for pool_edges es
    by (induction pools arbitrary: es) (simp_all add: skeleton_reweigh_pool)
  then show ?thesis by (simp add: update_weights_def)
qed

lemma update_weights_ok: "graph_ok ident (pg_graph pg) \<Longrightarrow> graph_ok ident (pg_graph (update_weights fl pools pg))"
  using edges_ok_skeleton [OF skeleton_update_weights [of fl pools pg]]
  by (auto simp: graph_ok_def nodes_ok_def update_weights_def)

section \<open>The best of parallel edges\<close>

definition edges_listed :: "'f route_env \<Rightarrow> bool" where
  "edges_listed env \<longleftrightarrow> (\<forall>es. set (re_edges_order env es) = set es)"

lemma edges_between_iff:
  "edges_listed env \<Longrightarrow> e \<in> set (edges_between env tg s t) \<longleftrightarrow> (s, t, e) \<in> set (tg_edges tg)"
  by (force simp: edges_between_def edges_listed_def)

lemma try_edge_cached:
  assumes "get_pool pools (ed_pool edge) = Some pool"
  shows "try_edge fl now pools amount edge best = Some best' \<longleftrightarrow>
     (\<exists>out. quote_from fl now pool (ed_token_in edge) amount = Some out
        \<and> best' = (let impact = impact_pct fl amount (reserve_from pool (ed_token_in edge)) in
            if out = 0 \<or> (\<exists>b_out b_impact. map_option snd best = Some (b_out, b_impact)
              \<and> (out < b_out \<or> out = b_out \<and> fl_le fl b_impact impact)) then best
            else Some (edge, out, impact)))"
proof (cases "quote_from fl now pool (ed_token_in edge) amount")
  case (Some out)
  show ?thesis
    by (cases best) (auto simp: try_edge_def assms Some Let_def)
qed (simp add: try_edge_def assms)

text \<open>A selected edge carries the quote of its pool, and no edge of the list is quoted higher.\<close>

definition edge_quoted :: "'f f64_ops \<Rightarrow> nat \<Rightarrow> pool_cache \<Rightarrow> u64 \<Rightarrow> 'f edge_data \<times> u64 \<times> 'f \<Rightarrow> bool" where
  "edge_quoted fl now pools amount = (\<lambda>(e, out, impact). 0 < out
     \<and> (\<exists>pool. get_pool pools (ed_pool e) = Some pool \<and> quote_from fl now pool (ed_token_in e) amount = Some out
        \<and> impact = impact_pct fl amount (reserve_from pool (ed_token_in e))))"

definition best_out :: "('f edge_data \<times> u64 \<times> 'f) option \<Rightarrow> u64" where
  "best_out best = (case best of None \<Rightarrow> 0 | Some (_, out, _) \<Rightarrow> out)"

lemma try_edge_step:
  assumes "try_edge fl now pools amount edge best = Some best'"
  shows "best_out best \<le> best_out best'"
    and "get_pool pools (ed_pool edge) = Some pool \<Longrightarrow> quote_from fl now pool (ed_token_in edge) amount = Some out
      \<Longrightarrow> out \<le> best_out best'"
    and "best' = best \<or> (\<exists>out impact. best' = Some (edge, out, impact) \<and> edge_quoted fl now pools amount (edge, out, impact))"
proof -
  have "best_out best \<le> best_out best'
    \<and> (\<forall>pool out. get_pool pools (ed_pool edge) = Some pool \<longrightarrow> quote_from fl now pool (ed_token_in edge) amount = Some out
        \<longrightarrow> out \<le> best_out best')
    \<and> (best' = best \<or> (\<exists>out impact. best' = Some (edge, out, impact) \<and> edge_quoted fl now pools amount (edge, out, impact)))"
  proof (cases "get_pool pools (ed_pool edge)")
    case None
    then show ?thesis using assms by (simp add: try_edge_def)
  next
    case (Some pool)
    define impact where "impact = impact_pct fl amount (reserve_from pool (ed_token_in edge))"
    obtain out where out: "quote_from fl now pool (ed_token_in edge) amount = Some out"
      and best': "best' = (if out = 0 \<or> (\<exists>b_out b_impact. map_option snd best = Some (b_out, b_impact)
              \<and> (out < b_out \<or> out = b_out \<and> fl_le fl b_impact impact)) then best
            else Some (edge, out, impact))"
      using assms unfolding try_edge_cached [OF Some] Let_def impact_def [symmetric] by blast
    have quoted: "edge_quoted fl now pools amount (edge, out, impact)" if "out \<noteq> 0"
      using that Some out by (simp add: edge_quoted_def impact_def word_gt_0)
    have "best_out best \<le> best_out best' \<and> out \<le> best_out best' \<and> (best' = best \<or> out \<noteq> 0 \<and> best' = Some (edge, out, impact))"
      by (cases best) (auto simp: best' best_out_def not_less)
    then show ?thesis using Some out quoted by auto
  qed
  then show "best_out best \<le> best_out best'"
    and "get_pool pools (ed_pool edge) = Some pool \<Longrightarrow> quote_from fl now pool (ed_token_in edge) amount = Some out
      \<Longrightarrow> out \<le> best_out best'"
    and "best' = best \<or> (\<exists>out impact. best' = Some (edge, out, impact) \<and> edge_quoted fl now pools amount (edge, out, impact))"
    by blast+
qed

lemma best_edge_fold:
  assumes "fold (\<lambda>edge acc. Option.bind acc (try_edge fl now pools amount edge)) edges (Some best) = Some best'"
  shows "best_out best \<le> best_out best'
    \<and> (\<forall>edge \<in> set edges. \<forall>pool out. get_pool pools (ed_pool edge) = Some pool
        \<longrightarrow> quote_from fl now pool (ed_token_in edge) amount = Some out \<longrightarrow> out \<le> best_out best')
    \<and> (best' = best \<or> (\<exists>edge \<in> set edges. \<exists>out impact. best' = Some (edge, out, impact)
        \<and> edge_quoted fl now pools amount (edge, out, impact)))"
  using assms
proof (induction edges arbitrary: best)
  case (Cons edge edges)
  obtain mid where mid: "try_edge fl now pools amount edge best = Some mid"
    and rest: "fold (\<lambda>edge acc. Option.bind acc (try_edge fl now pools amount edge)) edges (Some mid) = Some best'"
    using Cons.prems unfolding fold_bind_Cons by blast
  note step = try_edge_step [OF mid]
  note IH = Cons.IH [OF rest]
  have up: "best_out mid \<le> best_out best'" using IH by blast
  have "\<forall>pool out. get_pool pools (ed_pool edge) = Some pool
      \<longrightarrow> quote_from fl now pool (ed_token_in edge) amount = Some out \<longrightarrow> out \<le> best_out best'"
    using step(2) up order_trans by blast
  moreover have "best' = best \<or> (\<exists>e \<in> set (edge # edges). \<exists>out impact. best' = Some (e, out, impact)
        \<and> edge_quoted fl now pools amount (e, out, impact))"
    using step(3) IH by (metis list.set_intros)
  ultimately show ?case using IH step(1) up by (auto intro: order_trans)
qed simp

lemma best_edge_spec:
  assumes "best_edge_for_pair env now pools tg s t amount = Some best" and "edges_listed env"
  shows "case best of
      None \<Rightarrow> \<forall>e pool out. (s, t, e) \<in> set (tg_edges tg) \<longrightarrow> get_pool pools (ed_pool e) = Some pool
        \<longrightarrow> quote_from (re_floats env) now pool (ed_token_in e) amount = Some out \<longrightarrow> out = 0
    | Some (edge, out, impact) \<Rightarrow> (s, t, edge) \<in> set (tg_edges tg)
        \<and> edge_quoted (re_floats env) now pools amount (edge, out, impact)
        \<and> (\<forall>e pool out'. (s, t, e) \<in> set (tg_edges tg) \<longrightarrow> get_pool pools (ed_pool e) = Some pool
            \<longrightarrow> quote_from (re_floats env) now pool (ed_token_in e) amount = Some out' \<longrightarrow> out' \<le> out)"
proof -
  note spec = best_edge_fold [OF assms(1) [unfolded best_edge_for_pair_def]]
  show ?thesis
  proof (cases best)
    case None
    then show ?thesis
      using spec by (auto simp: best_out_def edges_between_iff [OF assms(2)])
  next
    case (Some b)
    obtain edge out impact where b: "b = (edge, out, impact)" by (cases b)
    show ?thesis
      using spec by (auto simp: Some b best_out_def edges_between_iff [OF assms(2)])
  qed
qed

section \<open>From the cycle to the route\<close>

definition hop_known :: "pool_ident \<Rightarrow> 'f hop \<Rightarrow> bool" where
  "hop_known ident hop \<longleftrightarrow> (case ident (hop_pool hop) of (a, b, dex) \<Rightarrow>
     (hop_token_in hop, hop_token_out hop) \<in> {(a, b), (b, a)} \<and> hop_dex_program hop = program_of_dex dex)"

lemma cycle_hops_spec:
  assumes "cycle_hops env now pools tg i amount steps = Inr hops" and "edges_listed env" and "graph_ok ident tg"
  shows "map hop_token_in hops = map (\<lambda>(s, _). tg_nodes tg ! s) steps
    \<and> map hop_token_out hops = map (\<lambda>(_, t). tg_nodes tg ! t) steps
    \<and> quoted_hops (re_floats env) now pools amount hops
    \<and> (\<forall>hop \<in> set hops. hop_known ident hop)"
  using assms
proof (induction env now pools tg i amount steps arbitrary: hops rule: cycle_hops.induct)
  case (2 env now pools tg i amount s t steps)
  obtain edge out impact rest where
    best: "best_edge_for_pair env now pools tg s t amount = Some (Some (edge, out, impact))"
    and rest: "cycle_hops env now pools tg (Suc i) out steps = Inr rest"
    and hops: "hops = \<lparr>hop_pool = ed_pool edge, hop_dex_program = ed_dex_program edge, hop_token_in = ed_token_in edge,
      hop_token_out = ed_token_out edge, hop_amount_out = out, hop_price_impact = impact\<rparr> # rest"
    using "2.prems"(1) by (auto split: prod.splits)
  have "(s, t, edge) \<in> set (tg_edges tg)" and quoted: "edge_quoted (re_floats env) now pools amount (edge, out, impact)"
    using best_edge_spec [OF best "2.prems"(2)] by simp_all
  then have "edge_ok ident (tg_nodes tg) (s, t, edge)"
    using "2.prems"(3) by (simp add: graph_ok_def)
  then show ?case
    using quoted "2.IH" rest "2.prems"(2,3) best
    by (auto simp: hops edge_ok_def edge_quoted_def hop_known_def)
qed simp

definition cache_known :: "pool_ident \<Rightarrow> pool_cache \<Rightarrow> bool" where
  "cache_known ident pools \<longleftrightarrow>
     (\<forall>(k, pool) \<in> set (cache_inner pools). dp_pool_address pool = k \<and> pool_known ident pool)"

lemma cache_known_get:
  "cache_known ident pools \<Longrightarrow> get_pool pools k = Some pool \<Longrightarrow> dp_pool_address pool = k \<and> pool_known ident pool"
  by (auto simp: cache_known_def get_pool_def dest!: map_of_SomeD)

lemma pool_between_commute: "pool_between pools x y = pool_between pools y x"
  unfolding pool_between_def by (intro arg_cong [where f = "map_option fst"] arg_cong2 [where f = find] ext refl) auto

lemma pool_between_cached:
  assumes "pool_between pools x y = Some k" and "cache_known ident pools"
  shows "\<exists>pool. get_pool pools k = Some pool
    \<and> (case ident k of (a, b, dex) \<Rightarrow> (x, y) \<in> {(a, b), (b, a)} \<and> infer_dex_program pool = program_of_dex dex)"
proof -
  obtain p where p: "(k, p) \<in> set (cache_inner pools)"
    and tokens: "dp_token_a p = x \<and> dp_token_b p = y \<or> dp_token_b p = x \<and> dp_token_a p = y"
  proof -
    obtain p where "find (\<lambda>(_, p). dp_token_a p = x \<and> dp_token_b p = y \<or> dp_token_b p = x \<and> dp_token_a p = y)
        (cache_inner pools) = Some (k, p)"
      using assms(1) by (auto simp: pool_between_def)
    then show thesis by (intro that [of p]) (auto simp: find_Some_iff in_set_conv_nth)
  qed
  then obtain pool where pool: "get_pool pools k = Some pool"
    by (cases "get_pool pools k") (force simp: get_pool_def map_of_eq_None_iff)+
  have "pool_known ident p" "pool_known ident pool" "dp_pool_address p = k" "dp_pool_address pool = k"
    using assms(2) p cache_known_get [OF assms(2) pool] by (auto simp: cache_known_def)
  with pool tokens show ?thesis by (auto simp: pool_known_def infer_dex_program_def)
qed

lemma add_bridge_pool:
  assumes "add_bridge fl pools t out impact hops = Inr hops'" shows "pool_between pools SOL_MINT t \<noteq> None"
  using assms unfolding add_bridge_def
  by (cases "pool_between pools SOL_MINT t")
    (simp_all only: ok_or_simps and_then_simps not_None_eq option.simps sum.simps, simp_all)

lemma add_bridge_spec:
  assumes "add_bridge fl pools (hop_token_in (hd hops)) out impact hops = Inr hops'" and "closed_route hops"
    and "\<forall>hop \<in> set hops. hop_known ident hop" and "cache_known ident pools"
  shows "closed_route hops' \<and> (\<forall>hop \<in> set hops'. hop_known ident hop) \<and> length hops' = length hops + 2"
proof -
  let ?t = "hop_token_in (hd hops)"
  obtain bp where bp: "pool_between pools SOL_MINT ?t = Some bp" 
    using add_bridge_pool [OF assms(1)] unfolding not_None_eq by (elim exE)
  then have rp: "pool_between pools ?t SOL_MINT = Some bp" by (simp only: pool_between_commute)
  obtain pool where pool: "get_pool pools bp = Some pool"
    and ident: "case ident bp of (a, b, dex) \<Rightarrow> (SOL_MINT, ?t) \<in> {(a, b), (b, a)} \<and> infer_dex_program pool = program_of_dex dex"
    using pool_between_cached [OF bp assms(4)] by (elim exE conjE)
  let ?outward = "\<lparr>hop_pool = bp, hop_dex_program = infer_dex_program pool, hop_token_in = SOL_MINT,
    hop_token_out = ?t, hop_amount_out = out, hop_price_impact = impact\<rparr>"
  let ?return = "\<lparr>hop_pool = bp, hop_dex_program = infer_dex_program pool, hop_token_in = ?t,
    hop_token_out = SOL_MINT, hop_amount_out = 0, hop_price_impact = fl_lit fl ''0.0''\<rparr>"
  have hops': "hops' = ?outward # hops @ [?return]"
    using assms(1) by (simp add: add_bridge_def bp rp pool del: SOL_MINT_def)
  have known: "hop_known ident ?outward" "hop_known ident ?return"
    using ident by (auto simp: hop_known_def simp del: SOL_MINT_def split: prod.splits)
  have "closed_route (?outward # hops @ [?return])"
    by (rule closed_bridged [OF assms(2), where anchor = SOL_MINT]) (simp_all del: SOL_MINT_def)
  with known assms(3) show ?thesis by (simp add: hops' del: SOL_MINT_def)
qed

lemma bridge_cycle_spec:
  assumes "bridge_cycle env now pools tg amount hops = Inr hops'" and "closed_route hops"
    and "\<forall>hop \<in> set hops. hop_known ident hop" and "cache_known ident pools"
  shows "closed_route hops' \<and> (\<forall>hop \<in> set hops'. hop_known ident hop) \<and> length hops' = length hops + 2"
proof -
  obtain out impact where "add_bridge (re_floats env) pools (hop_token_in (hd hops)) out impact hops = Inr hops'"
    using assms(1) by (auto simp: bridge_cycle_def Let_def split: prod.splits simp del: SOL_MINT_def)
  then show ?thesis using assms(2-4) by (rule add_bridge_spec)
qed

lemma rotate_to_borrowable_spec:
  assumes "rotate_to_borrowable env now pools tg amount hops = Inr hops'" and "closed_route hops"
    and "\<forall>hop \<in> set hops. hop_known ident hop" and "cache_known ident pools"
  shows "closed_route hops' \<and> (\<forall>hop \<in> set hops'. hop_known ident hop)
    \<and> length hops \<le> length hops' \<and> length hops' \<le> length hops + 2"
  using assms closed_rotate [OF assms(2)] bridge_cycle_spec [of env now pools tg amount hops hops' ident]
  by (auto simp: rotate_to_borrowable_def Let_def split: if_splits)

section \<open>The second quote\<close>

text \<open>Every pool holds twice what is swapped into it, as the saturating product has it, at a bounded impact.\<close>

fun deep_hops :: "'f f64_ops \<Rightarrow> pool_cache \<Rightarrow> u64 \<Rightarrow> 'f hop list \<Rightarrow> bool" where
  "deep_hops fl pools amount [] \<longleftrightarrow> True"
| "deep_hops fl pools amount (hop # hops) \<longleftrightarrow>
     (\<exists>pool. get_pool pools (hop_pool hop) = Some pool
       \<and> sat_mul amount 2 \<le> reserve_from pool (hop_token_in hop)
       \<and> hop_price_impact hop = impact_pct fl amount (reserve_from pool (hop_token_in hop))
       \<and> \<not> fl_lt fl (MAX_HOP_IMPACT_PCT fl) (hop_price_impact hop))
     \<and> deep_hops fl pools (hop_amount_out hop) hops"

lemma requote_spec:
  assumes "requote fl now pools hi amount hops = Inr (hops', out)"
  shows "map (\<lambda>h. (hop_pool h, hop_dex_program h, hop_token_in h, hop_token_out h)) hops'
      = map (\<lambda>h. (hop_pool h, hop_dex_program h, hop_token_in h, hop_token_out h)) hops
    \<and> quoted_hops fl now pools amount hops' \<and> deep_hops fl pools amount hops'
    \<and> out = (if hops' = [] then amount else hop_amount_out (last hops'))"
  using assms
proof (induction fl now pools hi amount hops arbitrary: hops' out rule: requote.induct)
  case (2 fl now pools hi amount hop hops)
  obtain pool amount_out rest where pool: "get_pool pools (hop_pool hop) = Some pool"
    and quote: "quote_from fl now pool (hop_token_in hop) amount = Some amount_out" "amount_out \<noteq> 0"
    and deep: "\<not> reserve_from pool (hop_token_in hop) < sat_mul amount 2"
    and impact: "\<not> fl_lt fl (MAX_HOP_IMPACT_PCT fl) (impact_pct fl amount (reserve_from pool (hop_token_in hop)))"
    and rest: "requote fl now pools (Suc hi) amount_out hops = Inr (rest, out)"
    and hops': "hops' = hop\<lparr>hop_amount_out := amount_out,
      hop_price_impact := impact_pct fl amount (reserve_from pool (hop_token_in hop))\<rparr> # rest"
    using "2.prems" by (auto simp: Let_def split: prod.splits)
  have "map (\<lambda>h. (hop_pool h, hop_dex_program h, hop_token_in h, hop_token_out h)) rest
      = map (\<lambda>h. (hop_pool h, hop_dex_program h, hop_token_in h, hop_token_out h)) hops
    \<and> quoted_hops fl now pools amount_out rest \<and> deep_hops fl pools amount_out rest
    \<and> out = (if rest = [] then amount_out else hop_amount_out (last rest))"
    using "2.IH" pool quote deep impact rest by (simp add: Let_def)
  then show ?case
    using pool quote deep impact by (simp add: hops' word_gt_0 not_less)
qed simp

section \<open>Profit\<close>

lemma max_return_le: "uint (max_return b) \<le> uint b + uint b div 5"
proof -
  have "unat (b div 10000 * MAX_RETURN_BPS) \<le> unat (b div 10000) * 2000"
    by (simp add: unat_word_ariths)
  also have "\<dots> = unat b div 10000 * 2000" by (simp add: unat_div)
  also have "\<dots> \<le> unat b div 5" by linarith
  finally have "unat (max_return b) \<le> unat b + unat b div 5"
    by (simp add: max_return_def unat_sat_add del: MAX_RETURN_BPS_def)
  then have "int (unat (max_return b)) \<le> int (unat b + unat b div 5)" by (simp only: of_nat_le_iff)
  then show ?thesis by (simp add: zdiv_int)
qed

lemma priced_route_profit:
  fixes out borrow :: u64
  assumes "out \<le> max_return borrow" and "length hops \<le> 7"
  shows "uint (rp_gross_profit (priced_route fl borrow hops out)) = max 0 (uint out - uint borrow)"
    and "rp_net_profit (priced_route fl borrow hops out) = max 0 (uint out - uint borrow) - 5000 * int (length hops)"
proof -
  let ?g = "sat_sub out borrow"
  have "int (unat ?g) = max 0 (uint out - uint borrow)"
    unfolding uint_nat unat_sat_sub by linarith
  then have g: "uint ?g = max 0 (uint out - uint borrow)" by simp
  then show "uint (rp_gross_profit (priced_route fl borrow hops out)) = max 0 (uint out - uint borrow)"
    by (simp add: priced_route_def Let_def)
  have "uint out \<le> uint borrow + uint borrow div 5"
    using assms(1) max_return_le [of borrow] by (simp add: word_le_def)
  moreover have "uint borrow < 2 ^ 64" using uint_bounded [of borrow] by simp
  ultimately have small: "uint ?g < 4611686018427387904" unfolding g by simp
  define fee where "fee = TX_FEE_PER_HOP * word_of_nat (length hops)"
  have "unat fee = 5000 * length hops"
    using assms(2) by (simp add: fee_def unat_word_ariths unat_of_nat)
  then have "int (unat fee) = 5000 * int (length hops)" by simp
  then have fee: "uint fee = 5000 * int (length hops)" by simp
  have "sint ?g = uint ?g" using small by (intro sint_small) simp
  moreover have "sint fee = uint fee" using assms(2) by (intro sint_small) (simp add: fee)
  moreover have "rp_net_profit (priced_route fl borrow hops out) = wrap64 (sint ?g - sint fee)"
    by (simp only: priced_route_def Let_def route_params.simps fee_def)
  ultimately have "rp_net_profit (priced_route fl borrow hops out) = wrap64 (uint ?g - 5000 * int (length hops))"
    by (simp only: fee)
  also have "\<dots> = uint ?g - 5000 * int (length hops)"
    using small assms(2) uint_ge_0 [of ?g] by (intro wrap64_in) linarith+
  finally show "rp_net_profit (priced_route fl borrow hops out) = max 0 (uint out - uint borrow) - 5000 * int (length hops)"
    by (simp add: g)
qed

section \<open>The route of a cycle\<close>

definition sound_route :: "'f route_env \<Rightarrow> nat \<Rightarrow> pool_cache \<Rightarrow> pool_ident \<Rightarrow> 'f route_params \<Rightarrow> bool" where
  "sound_route env now pools ident route \<longleftrightarrow>
     closed_route (rp_hops route)
     \<and> hop_token_in (hd (rp_hops route)) \<in> set BORROWABLE_MINTS
     \<and> length (rp_hops route) \<in> {2..7}
     \<and> (\<forall>hop \<in> set (rp_hops route). hop_known ident hop)
     \<and> quoted_hops (re_floats env) now pools (rp_borrow_amount route) (rp_hops route)
     \<and> deep_hops (re_floats env) pools (rp_borrow_amount route) (rp_hops route)
     \<and> uint (final_amount route) \<le> uint (rp_borrow_amount route) + uint (rp_borrow_amount route) div 5
     \<and> uint (rp_gross_profit route) = max 0 (uint (final_amount route) - uint (rp_borrow_amount route))
     \<and> rp_net_profit route = uint (rp_gross_profit route) - 5000 * int (length (rp_hops route))"

lemma closed_cong:
  "map (\<lambda>h. (hop_pool h, hop_dex_program h, hop_token_in h, hop_token_out h)) hops'
      = map (\<lambda>h. (hop_pool h, hop_dex_program h, hop_token_in h, hop_token_out h)) hops
    \<Longrightarrow> map hop_token_in hops' = map hop_token_in hops \<and> map hop_token_out hops' = map hop_token_out hops
      \<and> length hops' = length hops \<and> ((\<forall>hop \<in> set hops'. hop_known ident hop) \<longleftrightarrow> (\<forall>hop \<in> set hops. hop_known ident hop))"
proof (induction hops arbitrary: hops')
  case (Cons hop hops)
  then show ?case by (cases hops') (auto simp: hop_known_def)
qed simp

lemma cycle_route_sound:
  assumes "cycle_to_route env now pools tg cycle_nodes borrow_amount = Inr route"
    and "edges_listed env" and "graph_ok ident tg" and "cache_known ident pools"
  shows "sound_route env now pools ident route \<and> rp_borrow_amount route = borrow_amount"
proof -
  let ?steps = "zip cycle_nodes (rotate1 cycle_nodes)"
  obtain hops rotated requoted out where
    len: "2 \<le> length cycle_nodes" "length cycle_nodes \<le> 5"
    and hops: "cycle_hops env now pools tg 0 borrow_amount ?steps = Inr hops"
    and rotated: "rotate_to_borrowable env now pools tg borrow_amount hops = Inr rotated"
    and start: "hop_token_in (hd rotated) \<in> set BORROWABLE_MINTS"
    and requoted: "requote (re_floats env) now pools 0 borrow_amount rotated = Inr (requoted, out)"
    and out: "out \<le> max_return borrow_amount"
    and route: "route = priced_route (re_floats env) borrow_amount requoted out"
    using assms(1) by (auto simp: cycle_to_route_def split: prod.splits)
  note spec = cycle_hops_spec [OF hops assms(2,3)]
  have proj: "map (\<lambda>(s, _). f s) xs = map f (map fst xs)" "map (\<lambda>(_, t). f t) xs = map f (map snd xs)"
    for f :: "nat \<Rightarrow> pubkey" and xs by auto
  have ins: "map hop_token_in hops = map ((!) (tg_nodes tg)) cycle_nodes"
    and outs: "map hop_token_out hops = map ((!) (tg_nodes tg)) (rotate1 cycle_nodes)"
    using spec by (simp_all add: proj)
  have n: "length hops = length cycle_nodes" using arg_cong [OF ins, of length] by simp
  have closed: "closed_route hops"
    using len n unfolding closed_route_def ins outs by (auto simp: rotate1_map)
  note rot = rotate_to_borrowable_spec [OF rotated closed _ assms(4)]
  have rot': "closed_route rotated" "\<forall>hop \<in> set rotated. hop_known ident hop" "length rotated \<in> {2..7}"
    using rot spec len n by auto
  note rq = requote_spec [OF requoted]
  note same = closed_cong [OF rq [THEN conjunct1], of ident]
  have ne: "requoted \<noteq> []" using same rot'(3) by auto
  have closed': "closed_route requoted" using rot'(1) same by (auto simp: closed_route_def)
  have "hop_token_in (hd requoted) = hop_token_in (hd rotated)"
    using same ne by (metis (no_types) hd_map list.map_disc_iff)
  moreover have "length requoted \<le> 7" using same rot'(3) by simp
  note profit = priced_route_profit [OF out this, of "re_floats env"]
  have final: "hop_amount_out (last requoted) = out" using rq ne by simp
  have "uint out \<le> uint borrow_amount + uint borrow_amount div 5"
    using out max_return_le [of borrow_amount] by (simp add: word_le_def)
  moreover have "rp_hops route = requoted" "rp_borrow_amount route = borrow_amount" "final_amount route = out"
    using final by (simp_all add: route priced_route_def Let_def final_amount_def)
  moreover have "\<forall>hop \<in> set requoted. hop_known ident hop" "length requoted \<in> {2..7}" using same rot'(2,3) by simp_all
  moreover have "quoted_hops (re_floats env) now pools borrow_amount requoted" "deep_hops (re_floats env) pools borrow_amount requoted"
    using rq by simp_all
  moreover note closed' start profit [folded route]
  ultimately show ?thesis unfolding sound_route_def by simp
qed

section \<open>The engine\<close>

lemma try_amounts_spec:
  assumes "try_amounts env now pools tg cycle_nodes amounts (best, passed) = Some (best', passed')"
    and "\<And>amount route. amount \<in> set amounts \<Longrightarrow> cycle_to_route env now pools tg cycle_nodes amount = Inr route
      \<Longrightarrow> MIN_NET_PROFIT_LAMPORTS \<le> rp_net_profit route \<Longrightarrow> P route"
    and "\<And>route. best = Some route \<Longrightarrow> P route"
  shows "\<forall>route. best' = Some route \<longrightarrow> P route"
  using assms
proof (induction amounts arbitrary: best passed)
  case (Cons amount amounts)
  note step = Cons.prems(1)
  have later: "P route" if "a \<in> set amounts" "cycle_to_route env now pools tg cycle_nodes a = Inr route"
    "MIN_NET_PROFIT_LAMPORTS \<le> rp_net_profit route" for a route
    using that by (intro Cons.prems(2) [of a]) simp_all
  show ?case
  proof (cases "cycle_to_route env now pools tg cycle_nodes amount")
    case (Inl e)
    then have "try_amounts env now pools tg cycle_nodes amounts (best, passed) = Some (best', passed')"
      using step by (cases e) simp_all
    then show ?thesis using later Cons.prems(3) by (rule Cons.IH)
  next
    case (Inr r)
    let ?best = "if MIN_NET_PROFIT_LAMPORTS \<le> rp_net_profit r then keep_better r best else best"
    have rest: "try_amounts env now pools tg cycle_nodes amounts (?best, True) = Some (best', passed')"
      using step Inr by simp
    have "P q" if "?best = Some q" for q
      using that Cons.prems(2) [of amount r] Cons.prems(3) [of q] Inr
      by (auto simp: keep_better_def split: if_splits option.splits)
    with rest later show ?thesis by (rule Cons.IH)
  qed
qed simp

lemma search_start_spec:
  assumes "search_start env now pools tg amounts start (routes, rejected) = Some (routes', rejected')"
    and "\<And>cycle_nodes amount route. amount \<in> set amounts \<Longrightarrow> cycle_to_route env now pools tg cycle_nodes amount = Inr route
      \<Longrightarrow> MIN_NET_PROFIT_LAMPORTS \<le> rp_net_profit route \<Longrightarrow> P route"
    and "\<forall>route \<in> set routes. P route"
  shows "(\<forall>route \<in> set routes'. P route) \<and> length routes' \<le> Suc (length routes)"
proof -
  consider "routes' = routes"
    | cycle_nodes best passed where "try_amounts env now pools tg cycle_nodes amounts (None, False) = Some (best, passed)"
        "routes' = (case best of None \<Rightarrow> routes | Some route \<Rightarrow> routes @ [route])"
    using assms(1) by (auto simp: search_start_def Let_def split: option.splits if_splits bind_splits)
  then show ?thesis
  proof cases
    case 2
    have "P route" if "best = Some route" for route
      using try_amounts_spec [OF 2(1), of P] assms(2) that by auto
    then show ?thesis using assms(3) 2(2) by (cases best) auto
  qed (use assms(3) in simp)
qed

definition engine_ok :: "pool_ident \<Rightarrow> 'f route_engine \<Rightarrow> bool" where
  "engine_ok ident engine \<longleftrightarrow> (\<forall>pg. eng_persistent_graph engine = Some pg \<longrightarrow> graph_ok ident (pg_graph pg))"

lemma refresh_graph_ok:
  assumes "refresh_graph env now oracle_prices pools engine = Some (pg, engine')"
    and "engine_ok ident engine" and "\<forall>pool \<in> set pools. pool_known ident pool"
  shows "graph_ok ident (pg_graph pg) \<and> engine_ok ident engine'"
proof -
  have rebuilt: "graph_ok ident (pg_graph pg) \<and> engine_ok ident engine'"
    if "rebuild_graph env now oracle_prices pools engine = Some (pg, engine')"
  proof -
    have "eng_persistent_graph engine' = Some pg" using that by (auto simp: rebuild_graph_def Let_def split: bind_splits)
    then show ?thesis using rebuild_graph_ok [OF that assms(3)] by (simp add: engine_ok_def)
  qed
  show ?thesis
  proof (cases "eng_persistent_graph engine")
    case None
    then show ?thesis using assms(1) rebuilt by (simp add: refresh_graph_def)
  next
    case (Some old)
    then have old: "graph_ok ident (pg_graph old)" using assms(2) by (simp add: engine_ok_def)
    show ?thesis
      using assms(1) rebuilt update_weights_ok [OF old]
      by (auto simp: refresh_graph_def Some Let_def engine_ok_def split: if_splits)
  qed
qed

lemma start_nodes_few: "length (List.map_filter f ANCHOR_TOKENS) \<le> 3"
proof -
  have "length (List.map_filter f xs) \<le> length xs" for xs by (simp add: List.map_filter_def)
  from this [of ANCHOR_TOKENS] show ?thesis by (simp add: ANCHOR_TOKENS_def del: SOL_MINT_def USDC_MINT_def USDT_MINT_def)
qed

lemma cache_known_pools: "cache_known ident pools \<Longrightarrow> \<forall>pool \<in> set (map snd (cache_inner pools)). pool_known ident pool"
  by (auto simp: cache_known_def)

lemma find_inner_spec:
  assumes "find_opportunities_inner env now pools oracle_prices amounts engine = Some (routes, engine')"
    and "engine_ok ident engine" and "cache_known ident pools" and "edges_listed env"
  shows "engine_ok ident engine'"
    and "\<forall>route \<in> set routes. sound_route env now pools ident route
      \<and> rp_borrow_amount route \<in> set amounts \<and> 1000 \<le> rp_net_profit route"
    and "sorted_wrt (\<lambda>r s. rp_net_profit s \<le> rp_net_profit r) routes" and "length routes \<le> 3"
proof -
  obtain pg mid where refreshed:
    "refresh_graph env now oracle_prices (map snd (cache_inner pools)) engine = Some (pg, mid)"
    using assms(1) by (auto simp: find_opportunities_inner_def split: bind_splits)
  note ok = refresh_graph_ok [OF refreshed assms(2) cache_known_pools [OF assms(3)]]
  let ?P = "\<lambda>route. sound_route env now pools ident route
      \<and> rp_borrow_amount route \<in> set amounts \<and> 1000 \<le> rp_net_profit route"
  let ?search = "search_start env now pools (pg_graph pg) amounts"
  have found: "?P route" if "amount \<in> set amounts" "cycle_to_route env now pools (pg_graph pg) cycle_nodes amount = Inr route"
    "MIN_NET_PROFIT_LAMPORTS \<le> rp_net_profit route" for amount route cycle_nodes
    using cycle_route_sound [OF that(2) assms(4) ok [THEN conjunct1] assms(3)] that(1,3) by simp
  have search: "(\<forall>route \<in> set (fst acc'). ?P route) \<and> length (fst acc') \<le> length starts + length (fst acc)"
    if "fold (\<lambda>start acc. Option.bind acc (?search start)) starts (Some acc) = Some acc'" "\<forall>route \<in> set (fst acc). ?P route"
    for starts acc acc'
    using that
  proof (induction starts arbitrary: acc)
    case (Cons start starts)
    obtain acc1 where acc1: "?search start acc = Some acc1"
      and rest: "fold (\<lambda>start acc. Option.bind acc (?search start)) starts (Some acc1) = Some acc'"
      using Cons.prems(1) unfolding fold_bind_Cons by blast
    have "(\<forall>route \<in> set (fst acc1). ?P route) \<and> length (fst acc1) \<le> Suc (length (fst acc))"
      using search_start_spec [of env now pools "pg_graph pg" amounts start "fst acc" "snd acc" "fst acc1" "snd acc1" ?P]
        acc1 found Cons.prems(2) by simp
    then have P1: "\<forall>route \<in> set (fst acc1). ?P route" and len: "length (fst acc1) \<le> Suc (length (fst acc))"
      by (rule conjunct1, rule conjunct2)
    have "(\<forall>route \<in> set (fst acc'). ?P route)" and "length (fst acc') \<le> length starts + length (fst acc1)"
      using Cons.IH [OF rest P1] by (rule conjunct1, rule conjunct2)
    then show ?case using len by (intro conjI) simp_all
  qed simp
  let ?few = "length (tg_nodes (pg_graph pg)) < 2"
  let ?rejected = "filter (\<lambda>(_, t). (now - t) div 1000000000 < 10) (eng_rejected_cycles mid)"
  let ?starts = "List.map_filter (map_of (tg_node_map (pg_graph pg))) ANCHOR_TOKENS"
  have result: "?few \<and> routes = [] \<and> engine' = mid
    \<or> \<not> ?few \<and> (\<exists>found rejected. fold (\<lambda>start acc. Option.bind acc (?search start)) ?starts (Some ([], ?rejected)) = Some (found, rejected)
        \<and> routes = by_profit found \<and> engine' = mid\<lparr>eng_rejected_cycles := rejected\<rparr>)"
    using assms(1) by (auto simp: find_opportunities_inner_def refreshed Let_def split: if_splits bind_splits)
  show "engine_ok ident engine'" using result ok by (auto simp: engine_ok_def)
  have all: "(\<forall>route \<in> set routes. ?P route) \<and> length routes \<le> 3"
    using result
  proof (elim disjE conjE exE)
    fix reported rejected
    assume run: "fold (\<lambda>start acc. Option.bind acc (?search start)) ?starts (Some ([], ?rejected)) = Some (reported, rejected)"
      and routes: "routes = by_profit reported"
    have "(\<forall>route \<in> set reported. ?P route) \<and> length reported \<le> length ?starts"
      using search [OF run] by simp
    then show ?thesis using start_nodes_few [of "map_of (tg_node_map (pg_graph pg))"]
      by (simp add: routes by_profit_def)
  qed simp
  then show "\<forall>route \<in> set routes. ?P route" "length routes \<le> 3" by blast+
  show "sorted_wrt (\<lambda>r s. rp_net_profit s \<le> rp_net_profit r) routes"
    using result by (auto simp: by_profit_sorted)
qed

section \<open>No call panics\<close>

definition fees_sane :: "pool_cache \<Rightarrow> bool" where
  "fees_sane pools \<longleftrightarrow> (\<forall>(_, pool) \<in> set (cache_inner pools). dp_fee_bps pool \<le> 10000)"

lemma xyk_quote_returns:
  assumes "fee \<le> 10000" and "ra \<noteq> 0" shows "\<exists>q. xyk_quote ra rb amount fee = Some q"
proof -
  have "product_fits 0 amount fee" by (simp add: product_fits_def)
  note w = curve_words(3) [OF assms(1) this, of ra]
  have "0 < unat ra" using assms(2) by (simp add: unat_gt_0)
  then have "widen ra * 10000 + widen amount * (10000 - widen fee) \<noteq> 0"
    using w by (metis add_is_0 mult_is_0 neq0_conv unat_0 zero_neq_numeral)
  then show ?thesis by (simp add: xyk_quote_def Let_def)
qed

lemma pool_quotes_return:
  assumes "dp_fee_bps pool \<le> 10000"
  shows "\<exists>q. quote_a_to_b fl now amount pool = Some q" and "\<exists>q. quote_b_to_a fl now amount pool = Some q"
proof -
  obtain ra rb where "effective_reserves now pool = (ra, rb)" by fastforce
  then show "\<exists>q. quote_a_to_b fl now amount pool = Some q" and "\<exists>q. quote_b_to_a fl now amount pool = Some q"
    using xyk_quote_returns [OF assms, of ra rb amount] xyk_quote_returns [OF assms, of rb ra amount]
    by (auto simp: quote_a_to_b_def quote_b_to_a_def split: option.splits)
qed

lemma quote_from_returns: "dp_fee_bps pool \<le> 10000 \<Longrightarrow> \<exists>q. quote_from fl now pool token amount = Some q"
  using pool_quotes_return [of pool fl now amount] by (simp add: quote_from_def)

lemma cached_quote_returns:
  assumes "fees_sane pools" and "get_pool pools k = Some pool"
  shows "\<exists>q. quote_from fl now pool token amount = Some q"
  using assms by (intro quote_from_returns) (auto simp: fees_sane_def get_pool_def dest!: map_of_SomeD)

lemma fold_bind_returns:
  "(\<And>x a. x \<in> set xs \<Longrightarrow> \<exists>b. f x a = Some b) \<Longrightarrow> \<exists>b. fold (\<lambda>x acc. Option.bind acc (f x)) xs (Some a) = Some b"
proof (induction xs arbitrary: a)
  case (Cons x xs)
  obtain b where "f x a = Some b" using Cons.prems [of x a] by auto
  then show ?case using Cons.IH [of b] Cons.prems by simp
qed simp

lemma best_edge_returns: "fees_sane pools \<Longrightarrow> \<exists>best. best_edge_for_pair env now pools tg s t amount = Some best"
  unfolding best_edge_for_pair_def
proof (rule fold_bind_returns)
  fix edge best assume sane: "fees_sane pools"
  show "\<exists>best'. try_edge (re_floats env) now pools amount edge best = Some best'"
  proof (cases "get_pool pools (ed_pool edge)")
    case (Some pool)
    obtain q where "quote_from (re_floats env) now pool (ed_token_in edge) amount = Some q"
      using cached_quote_returns [OF sane Some] by blast
    then show ?thesis by (simp add: try_edge_def Some Let_def split: option.split)
  qed (simp add: try_edge_def)
qed

lemma cycle_hops_no_panic:
  "fees_sane pools \<Longrightarrow> cycle_hops env now pools tg i amount steps \<noteq> Inl QuotePanic"
proof (induction steps arbitrary: i amount)
  case (Cons step steps)
  obtain s t where step: "step = (s, t)" by (cases step)
  obtain best where best: "best_edge_for_pair env now pools tg s t amount = Some best"
    using best_edge_returns [OF Cons.prems] by blast
  show ?case
  proof (cases best)
    case (Some b)
    obtain e out impact where b: "b = (e, out, impact)" by (cases b)
    show ?thesis
      using Cons.IH [OF Cons.prems, of "Suc i" out] best by (auto simp: step Some b and_then_Inl guard_or_Inl)
  qed (simp add: step best)
qed simp

lemma requote_no_panic: "fees_sane pools \<Longrightarrow> requote fl now pools hi amount hops \<noteq> Inl QuotePanic"
proof (induction hops arbitrary: hi amount)
  case (Cons hop hops)
  show ?case
  proof (cases "get_pool pools (hop_pool hop)")
    case (Some pool)
    obtain q where "quote_from fl now pool (hop_token_in hop) amount = Some q"
      using cached_quote_returns [OF Cons.prems Some] by blast
    then show ?thesis
      using Cons.IH [OF Cons.prems, of "Suc hi" q] by (auto simp: Some Let_def and_then_Inl guard_or_Inl)
  qed simp
qed simp

lemma cycle_to_route_no_panic:
  assumes "fees_sane pools" shows "cycle_to_route env now pools tg cycle_nodes amount \<noteq> Inl QuotePanic"
proof -
  have "rotate_to_borrowable env now pools tg amount hops \<noteq> Inl QuotePanic" for hops
  proof -
    have "add_bridge fl pools t out impact hops \<noteq> Inl QuotePanic" for fl :: "'a f64_ops" and t out impact
      by (simp add: add_bridge_def and_then_Inl ok_or_Inl)
    then show ?thesis
      using best_edge_returns [OF assms, of env now tg]
      by (auto simp: rotate_to_borrowable_def bridge_cycle_def Let_def and_then_Inl ok_or_Inl split: prod.splits)
  qed
  then show ?thesis
    using cycle_hops_no_panic [OF assms, of env now tg] requote_no_panic [OF assms, of "re_floats env" now]
    by (auto simp: cycle_to_route_def and_then_Inl guard_or_Inl)
qed

lemma add_edge_returns:
  assumes "dp_fee_bps pool \<le> 10000" shows "\<exists>tg'. add_edge env now pool tg = Some tg'"
proof -
  have direction: "\<exists>tg'. add_direction fl now a_to_b pool tg = Some tg'" for fl :: "'a f64_ops" and a_to_b tg
    using pool_quotes_return [OF assms, of fl now "reference_amount pool"]
    by (cases a_to_b) (auto simp: add_direction_def)
  obtain allow_a_to_b allow_b_to_a where "allowed_directions pool = (allow_a_to_b, allow_b_to_a)" by fastforce
  then show ?thesis
    using direction [of "re_floats env" True tg] direction [of "re_floats env" False]
    by (auto simp: add_edge_def)
qed

lemma refresh_graph_returns:
  assumes "\<forall>pool \<in> set pools. dp_fee_bps pool \<le> 10000"
  shows "\<exists>pg engine'. refresh_graph env now oracle_prices pools engine = Some (pg, engine')"
proof -
  have "\<exists>b. fold (\<lambda>pool acc. Option.bind acc (add_pool env now oracle_prices pool)) pools (Some (new_token_graph, [], 0)) = Some b"
  proof (rule fold_bind_returns)
    fix pool and acc :: "'a token_graph \<times> (pubkey \<times> nat list) list \<times> nat" assume "pool \<in> set pools"
    then have "\<exists>tg'. add_edge env now pool (fst acc) = Some tg'" using assms by (intro add_edge_returns) simp
    then show "\<exists>acc'. add_pool env now oracle_prices pool acc = Some acc'"
      by (cases acc) (auto simp: add_pool_def Let_def)
  qed
  then have "\<exists>pg engine'. rebuild_graph env now oracle_prices pools engine = Some (pg, engine')"
    by (auto simp: rebuild_graph_def Let_def)
  then show ?thesis by (auto simp: refresh_graph_def Let_def split: option.split)
qed

lemma try_amounts_returns:
  assumes "fees_sane pools" shows "\<exists>acc'. try_amounts env now pools tg cycle_nodes amounts acc = Some acc'"
proof (induction amounts arbitrary: acc)
  case (Cons amount amounts)
  obtain best passed where acc: "acc = (best, passed)" by (cases acc)
  show ?case
  proof (cases "cycle_to_route env now pools tg cycle_nodes amount")
    case (Inl e)
    then have "e \<noteq> QuotePanic" using cycle_to_route_no_panic [OF assms, of env now tg cycle_nodes amount] by auto
    then show ?thesis using Cons.IH by (cases e) (simp_all add: acc Inl)
  next
    case (Inr route)
    then show ?thesis using Cons.IH by (simp add: acc)
  qed
qed simp

lemma search_start_returns:
  assumes "fees_sane pools" shows "\<exists>acc'. search_start env now pools tg amounts start acc = Some acc'"
proof (cases "re_find_negative_cycle env (length (tg_nodes tg)) (map (\<lambda>(s, t, e). (s, t, ed_weight e)) (tg_edges tg)) start")
  case None
  then show ?thesis by (cases acc) (simp add: search_start_def)
next
  case (Some cycle_nodes)
  obtain best passed where "try_amounts env now pools tg cycle_nodes amounts (None, False) = Some (best, passed)"
    using try_amounts_returns [OF assms, of env now tg cycle_nodes amounts "(None, False)"] by auto
  then show ?thesis by (cases acc) (simp add: search_start_def Some Let_def)
qed

lemma find_multi_returns:
  assumes "fees_sane pools"
  shows "\<exists>routes engine'. find_opportunities_multi env now pools oracle_prices amounts engine = Some (routes, engine')"
proof -
  have "\<forall>pool \<in> set (map snd (cache_inner pools)). dp_fee_bps pool \<le> 10000"
    using assms by (auto simp: fees_sane_def)
  then obtain pg mid where refreshed: "refresh_graph env now oracle_prices (map snd (cache_inner pools)) engine = Some (pg, mid)"
    using refresh_graph_returns by blast
  have search: "\<exists>acc'. fold (\<lambda>start acc. Option.bind acc (search_start env now pools (pg_graph pg) amounts start)) starts (Some acc)
      = Some acc'" for starts acc
    by (rule fold_bind_returns) (rule search_start_returns [OF assms])
  have "\<exists>routes engine'. find_opportunities_inner env now pools oracle_prices amounts engine = Some (routes, engine')"
  proof (cases "length (tg_nodes (pg_graph pg)) < 2")
    case True
    then show ?thesis by (simp add: find_opportunities_inner_def refreshed Let_def)
  next
    case False
    obtain found rejected where
      "fold (\<lambda>start acc. Option.bind acc (search_start env now pools (pg_graph pg) amounts start))
        (List.map_filter (map_of (tg_node_map (pg_graph pg))) ANCHOR_TOKENS)
        (Some ([], filter (\<lambda>(_, t). (now - t) div 1000000000 < 10) (eng_rejected_cycles mid))) = Some (found, rejected)"
      using search by (metis prod.exhaust)
    then show ?thesis using False by (simp add: find_opportunities_inner_def refreshed Let_def)
  qed
  then show ?thesis by (auto simp: find_opportunities_multi_def Let_def)
qed

section \<open>Runs of the engine\<close>

record 'f search_call =
  sc_now :: nat
  sc_pools :: pool_cache
  sc_prices :: "(pubkey \<times> 'f) list option"
  sc_amounts :: "u64 list"

definition engine_step :: "'f route_env \<Rightarrow> 'f search_call \<Rightarrow> 'f route_engine \<Rightarrow> 'f route_engine option" where
  "engine_step env call engine =
     map_option snd (find_opportunities_multi env (sc_now call) (sc_pools call) (sc_prices call) (sc_amounts call) engine)"

definition call_ok :: "pool_ident \<Rightarrow> 'f search_call \<Rightarrow> bool" where
  "call_ok ident call \<longleftrightarrow> cache_known ident (sc_pools call) \<and> fees_sane (sc_pools call)"

lemma find_multi_cases:
  assumes "find_opportunities_multi env now pools oracle_prices amounts engine = Some (routes, engine')"
  obtains "rc_swap_gen (eng_route_cache engine) = cache_swap_gen pools"
      "(now - rc_computed_at (eng_route_cache engine)) div 1000000 < 500"
      "routes = rc_routes (eng_route_cache engine)" "engine' = engine"
    | mid where "find_opportunities_inner env now pools oracle_prices amounts engine = Some (routes, mid)"
      "engine' = mid\<lparr>eng_route_cache :=
        \<lparr>rc_swap_gen = cache_swap_gen pools, rc_borrow_amount = 0, rc_routes = routes, rc_computed_at = now\<rparr>\<rparr>"
proof (cases "rc_swap_gen (eng_route_cache engine) = cache_swap_gen pools \<and> (now - rc_computed_at (eng_route_cache engine)) div 1000000 < 500")
  case True
  then have "routes = rc_routes (eng_route_cache engine)" "engine' = engine"
    using assms by (auto simp: find_opportunities_multi_def Let_def)
  with True that(1) show thesis by blast
next
  case False
  then have step: "Option.bind (find_opportunities_inner env now pools oracle_prices amounts engine)
      (\<lambda>(routes, engine). Some (routes, engine\<lparr>eng_route_cache :=
        \<lparr>rc_swap_gen = cache_swap_gen pools, rc_borrow_amount = 0, rc_routes = routes, rc_computed_at = now\<rparr>\<rparr>))
    = Some (routes, engine')"
    using assms unfolding find_opportunities_multi_def Let_def by (simp only: if_False)
  then obtain r mid where inner: "find_opportunities_inner env now pools oracle_prices amounts engine = Some (r, mid)"
    by (cases "find_opportunities_inner env now pools oracle_prices amounts engine") auto
  show thesis using step unfolding inner by (intro that(2) [of mid]) (auto simp: inner)
qed

lemma engine_step_ok:
  assumes "engine_ok ident engine" and "call_ok ident call" and "edges_listed env" and "engine_step env call engine = Some engine'"
  shows "engine_ok ident engine'"
proof -
  obtain routes where "find_opportunities_multi env (sc_now call) (sc_pools call) (sc_prices call) (sc_amounts call) engine
      = Some (routes, engine')"
    using assms(4) by (auto simp: engine_step_def)
  then show ?thesis
  proof (cases rule: find_multi_cases)
    case 1
    then show ?thesis using assms(1) by simp
  next
    case (2 mid)
    have "engine_ok ident mid"
      using find_inner_spec(1) [OF 2(1) assms(1) _ assms(3)] assms(2) by (simp add: call_ok_def)
    then show ?thesis using 2(2) by (simp add: engine_ok_def)
  qed
qed

text \<open>The library's contract of a machine that never panics, on the engine; the graph library has to list edges.\<close>

definition listing :: "'f route_env \<Rightarrow> 'f route_env" where
  "listing env = (if edges_listed env then env else env\<lparr>re_edges_order := \<lambda>es. es\<rparr>)"

lemma edges_listed_listing [simp]: "edges_listed (listing env)"
  by (simp add: listing_def edges_listed_def)

lemma listing_id: "edges_listed env \<Longrightarrow> listing env = env"
  by (simp add: listing_def)

interpretation route_engine: total_machine "new_route_engine t0" "engine_step (listing env)" "call_ok ident" "engine_ok ident"
  for t0 env ident
proof unfold_locales
  show "engine_ok ident (new_route_engine t0)" by (simp add: engine_ok_def new_route_engine_def)
  show "engine_ok ident s \<Longrightarrow> call_ok ident a \<Longrightarrow> engine_step (listing env) a s = Some s' \<Longrightarrow> engine_ok ident s'" for s a s'
    by (rule engine_step_ok) simp_all
  show "engine_ok ident s \<Longrightarrow> call_ok ident a \<Longrightarrow> \<exists>s'. engine_step (listing env) a s = Some s'" for s a
    using find_multi_returns [of "sc_pools a" "listing env" "sc_now a" "sc_prices a" "sc_amounts a" s]
    by (auto simp: engine_step_def call_ok_def)
qed

text \<open>The contract of a route finder, on the engine.\<close>

lemma quoted_cached: "quoted_hops fl now pools amount hops \<Longrightarrow> hop \<in> set hops \<Longrightarrow> \<exists>pool. get_pool pools (hop_pool hop) = Some pool"
  by (induction hops arbitrary: amount) auto

interpretation engine_routes: route_source "\<lambda>fl now pools route. \<exists>env ident.
    re_floats env = fl \<and> cache_known ident pools \<and> sound_route env now pools ident route"
proof unfold_locales
  fix fl :: "'a f64_ops" and now pools and route :: "'a route_params"
  assume "\<exists>env ident. re_floats env = fl \<and> cache_known ident pools \<and> sound_route env now pools ident route"
  then obtain env ident where fl: "re_floats env = fl" and known: "cache_known ident pools"
    and sound: "sound_route env now pools ident route" by blast
  show "closed_route (rp_hops route)" using sound by (simp add: sound_route_def)
  show quoted: "quoted_hops fl now pools (rp_borrow_amount route) (rp_hops route)"
    using sound by (simp add: sound_route_def fl)
  fix hop assume hop: "hop \<in> set (rp_hops route)"
  obtain pool where pool: "get_pool pools (hop_pool hop) = Some pool" using quoted_cached [OF quoted hop] by blast
  have "hop_known ident hop" using sound hop by (simp add: sound_route_def)
  then show "hop_fits pools hop"
    using cache_known_get [OF known pool] pool by (auto simp: hop_fits_def hop_known_def pool_known_def)
qed

end
