(* ===== verification/Route_Reports.thy ===== *)
theory Route_Reports
  imports Route_Soundness
begin

text \<open>
  The properties of the route engine, with an example market of two pools between WSOL and another token in
  which a cycle is profitable.
\<close>

section \<open>An example market\<close>

definition example_floats :: "unit f64_ops" where
  "example_floats = \<lparr>fl_lit = \<lambda>_. (), fl_epsilon = (), fl_of_int = \<lambda>_. (), fl_to_u64 = \<lambda>_. 0, fl_to_i128 = \<lambda>_. 0,
     fl_add = \<lambda>_ _. (), fl_sub = \<lambda>_ _. (), fl_mul = \<lambda>_ _. (), fl_div = \<lambda>_ _. (), fl_max = \<lambda>_ _. (),
     fl_powf = \<lambda>_ _. (), fl_powi = \<lambda>_ _. (), fl_lt = \<lambda>_ _. False, fl_le = \<lambda>_ _. True, fl_finite = \<lambda>_. True,
     fl_min = \<lambda>_ _. (), fl_neg = \<lambda>_. (), fl_abs = \<lambda>_. (), fl_ln = \<lambda>_. (), fl_exp = \<lambda>_. (), fl_sqrt = \<lambda>_. (),
     fl_floor = \<lambda>_. (), fl_to_i32 = \<lambda>_. 0, fl_to_i64 = \<lambda>_. 0, fl_to_u128 = \<lambda>_. 0\<rparr>"

definition example_pool :: "pubkey \<Rightarrow> u64 \<Rightarrow> dex_pool" where
  "example_pool k wsol = \<lparr>dp_pool_address = k, dp_dex_type = PumpSwap, dp_token_a = 12, dp_token_b = SOL_MINT,
     dp_decimals_a = 6, dp_decimals_b = 9, dp_reserve_a = 1000000000, dp_reserve_b = wsol,
     dp_reserve_a_optimistic = 0, dp_reserve_b_optimistic = 0, dp_last_shred_update = 0,
     dp_pool_vault_a_balance = 0, dp_pool_vault_b_balance = 0, dp_market_vault_a_balance = 0,
     dp_market_vault_b_balance = 0, dp_last_updated = 0, dp_fee_bps = 0, dp_raydium_meta = None,
     dp_orca_meta = None, dp_meteora_meta = None\<rparr>"

definition example_market :: pool_cache where
  "example_market = upsert (example_pool 13 1100000000) (upsert (example_pool 11 1000000000) new_pool_cache)"

definition example_route_env :: "unit route_env" where
  "example_route_env = \<lparr>re_floats = example_floats, re_parse_pubkey = \<lambda>_. None, re_pool_blacklist = None,
     re_edges_order = \<lambda>es. es, re_find_edge = \<lambda>es s t. map_option (\<lambda>(_, _, e). e) (find (\<lambda>(a, b, _). a = s \<and> b = t) es),
     re_find_negative_cycle = \<lambda>_ _ start. if start = 1 then Some [1, 0] else None\<rparr>"

lemma example_market_pools: "cache_inner example_market = [(11, example_pool 11 1000000000), (13, example_pool 13 1100000000)]"
  by (simp add: example_market_def upsert_def new_pool_cache_def Let_def example_pool_def)

lemma example_get: "get_pool example_market 11 = Some (example_pool 11 1000000000)"
    "get_pool example_market 13 = Some (example_pool 13 1100000000)"
  by (simp_all add: get_pool_def example_market_pools)

lemma example_quote_a: "quote_a_to_b fl now amount (example_pool k wsol)
    = (if wsol = 0 then Some 0 else xyk_quote 1000000000 wsol amount 0)"
  by (simp add: quote_a_to_b_def effective_reserves_def example_pool_def)

lemma example_quote_b: "quote_b_to_a fl now amount (example_pool k wsol)
    = (if wsol = 0 then Some 0 else xyk_quote wsol 1000000000 amount 0)"
  by (simp add: quote_b_to_a_def effective_reserves_def example_pool_def)

lemma example_curve:
  "xyk_quote 1000000000 1000000000 100000000 0 = Some 90909090"
  "xyk_quote 1000000000 1100000000 100000000 0 = Some 100000000"
  "xyk_quote 1100000000 1000000000 100000000 0 = Some 83333333"
  "xyk_quote 1000000000 1000000000 10000000 0 = Some 9900990"
  "xyk_quote 1100000000 1000000000 10000000 0 = Some 9009009"
  "xyk_quote 1000000000 1000000000 9900990 0 = Some 9803921"
  "xyk_quote 1000000000 1100000000 9900990 0 = Some 10784313"
  by (simp_all add: xyk_quote_def Let_def)

definition example_edge :: "pubkey \<Rightarrow> bool \<Rightarrow> unit edge_data" where
  "example_edge k a_to_b = \<lparr>ed_pool = k, ed_dex_program = PUMPSWAP, ed_token_in = (if a_to_b then 12 else SOL_MINT),
     ed_token_out = (if a_to_b then SOL_MINT else 12), ed_weight = (), ed_rate = (), ed_fee_bps = 0\<rparr>"

definition example_graph :: "pubkey list \<Rightarrow> unit token_graph" where
  "example_graph ks = \<lparr>tg_nodes = (if ks = [] then [] else [12, SOL_MINT]),
     tg_edges = concat (map (\<lambda>k. [(0, 1, example_edge k True), (1, 0, example_edge k False)]) ks),
     tg_node_map = (if ks = [] then [] else [(12, 0), (SOL_MINT, 1)])\<rparr>"

lemma example_mints: "SOL_MINT \<noteq> 12" "12 \<noteq> SOL_MINT" "12 \<noteq> USDC_MINT" "SOL_MINT \<noteq> USDC_MINT" "12 \<noteq> USDT_MINT" "SOL_MINT \<noteq> USDT_MINT"
  by simp_all

lemma example_tokens [simp]:
  "dp_token_a (example_pool k wsol) = 12" "dp_token_b (example_pool k wsol) = SOL_MINT"
  "dp_pool_address (example_pool k wsol) = k" "dp_dex_type (example_pool k wsol) = PumpSwap"
  "dp_fee_bps (example_pool k wsol) = 0" "dp_reserve_a (example_pool k wsol) = 1000000000"
  "dp_reserve_b (example_pool k wsol) = wsol"
  by (simp_all add: example_pool_def)

definition example_ident :: pool_ident where
  "example_ident k = (12, SOL_MINT, PumpSwap)"

lemma example_known: "cache_known example_ident example_market"
  by (simp add: cache_known_def example_market_pools pool_known_def example_ident_def)

lemma example_fees: "fees_sane example_market"
  by (simp add: fees_sane_def example_market_pools)

lemma example_distinct: "distinct_tokens example_market"
  by (simp add: distinct_tokens_def example_market_pools)

lemma example_listed: "edges_listed example_route_env"
  by (simp add: edges_listed_def example_route_env_def)

lemma example_graph_ok: "graph_ok example_ident (example_graph [11, 13])"
  by (auto simp: graph_ok_def nodes_ok_def edge_ok_def example_graph_def example_edge_def example_ident_def
      program_of_dex_def simp del: SOL_MINT_def PUMPSWAP_def split: if_splits)

lemma example_between:
  "edges_between example_route_env (example_graph [11, 13]) 1 0 = [example_edge 11 False, example_edge 13 False]"
  "edges_between example_route_env (example_graph [11, 13]) 0 1 = [example_edge 11 True, example_edge 13 True]"
  by (simp_all add: edges_between_def example_route_env_def example_graph_def)

lemma example_env_floats [simp]: "re_floats example_route_env = example_floats"
  by (simp add: example_route_env_def)

lemma example_edge_fields [simp]:
  "ed_pool (example_edge k d) = k" "ed_token_in (example_edge k d) = (if d then 12 else SOL_MINT)"
  "ed_token_out (example_edge k d) = (if d then SOL_MINT else 12)" "ed_dex_program (example_edge k d) = PUMPSWAP"
  by (simp_all add: example_edge_def)

lemma example_quote:
  "quote_from fl now (example_pool k wsol) SOL_MINT amount = (if wsol = 0 then Some 0 else xyk_quote wsol 1000000000 amount 0)"
  "quote_from fl now (example_pool k wsol) 12 amount = (if wsol = 0 then Some 0 else xyk_quote 1000000000 wsol amount 0)"
  by (simp_all add: quote_from_def example_quote_a example_quote_b example_mints del: SOL_MINT_def)

lemma example_best:
  "best_edge_for_pair example_route_env now example_market (example_graph [11, 13]) 1 0 10000000
    = Some (Some (example_edge 11 False, 9900990, ()))"
  "best_edge_for_pair example_route_env now example_market (example_graph [11, 13]) 0 1 9900990
    = Some (Some (example_edge 13 True, 10784313, ()))"
  by (simp_all add: best_edge_for_pair_def example_between try_edge_def example_get example_quote example_curve Let_def
      del: SOL_MINT_def One_nat_def)

lemma example_lt [simp]: "fl_lt example_floats a b = False"
  by (simp add: example_floats_def)

definition example_hops :: "unit hop list" where
  "example_hops =
     [\<lparr>hop_pool = 11, hop_dex_program = PUMPSWAP, hop_token_in = SOL_MINT, hop_token_out = 12,
       hop_amount_out = 9900990, hop_price_impact = ()\<rparr>,
      \<lparr>hop_pool = 13, hop_dex_program = PUMPSWAP, hop_token_in = 12, hop_token_out = SOL_MINT,
       hop_amount_out = 10784313, hop_price_impact = ()\<rparr>]"

lemma example_cycle_hops:
  "cycle_hops example_route_env now example_market (example_graph [11, 13]) 0 10000000 [(1, 0), (0, 1)] = Inr example_hops"
  by (simp add: example_best example_hops_def del: SOL_MINT_def PUMPSWAP_def One_nat_def)

lemma example_requote: "requote example_floats now example_market 0 10000000 example_hops = Inr (example_hops, 10784313)"
  by (simp add: example_hops_def example_get example_quote example_curve reserve_from_def sat_mul_def Let_def
      example_mints del: SOL_MINT_def PUMPSWAP_def)

lemma example_route_found:
  "cycle_to_route example_route_env now example_market (example_graph [11, 13]) [1, 0] 10000000
    = Inr (priced_route example_floats 10000000 example_hops 10784313)"
proof -
  have "rotate_to_borrowable example_route_env now example_market (example_graph [11, 13]) 10000000 example_hops = Inr example_hops"
    by (simp add: rotate_to_borrowable_def example_hops_def BORROWABLE_MINTS_def Let_def del: SOL_MINT_def PUMPSWAP_def)
  moreover have "(10784313 :: u64) \<le> max_return 10000000" by (simp add: max_return_def sat_add_def)
  moreover have "hop_token_in (hd example_hops) \<in> set BORROWABLE_MINTS"
    by (simp add: example_hops_def BORROWABLE_MINTS_def del: SOL_MINT_def)
  moreover have "length example_hops = 2" by (simp add: example_hops_def)
  ultimately show ?thesis
    by (simp add: cycle_to_route_def example_cycle_hops example_requote del: One_nat_def cycle_hops.simps)
qed

section \<open>Properties\<close>



text \<open>
  Property C28. Whatever calls came before, as long as no cached pool has a fee above 10000 basis points and
  no pool changes its tokens or its exchange, the engine answers: no call panics. An answer that is not the
  stored one has at most three routes, in descending order of net profit, each a sound arbitrage for one of
  the borrow amounts of the call with a net profit of at least 1000 lamports on the pools of the call. The
  stored answer is given only within half a second of its computation and if no swap has been seen since.
\<close>

theorem engine_answers:
  assumes "edges_listed env" and "\<forall>c \<in> set calls. call_ok ident c" and "call_ok ident call"
  shows "\<exists>engine routes engine'. run (engine_step env) calls (new_route_engine t0) = Some engine
    \<and> find_opportunities_multi env (sc_now call) (sc_pools call) (sc_prices call) (sc_amounts call) engine = Some (routes, engine')
    \<and> (rc_swap_gen (eng_route_cache engine) = cache_swap_gen (sc_pools call)
          \<and> (sc_now call - rc_computed_at (eng_route_cache engine)) div 1000000 < 500
          \<and> routes = rc_routes (eng_route_cache engine) \<and> engine' = engine
      \<or> length routes \<le> 3 \<and> sorted_wrt (\<lambda>r s. rp_net_profit s \<le> rp_net_profit r) routes
          \<and> (\<forall>route \<in> set routes. sound_route env (sc_now call) (sc_pools call) ident route
              \<and> rp_borrow_amount route \<in> set (sc_amounts call) \<and> 1000 \<le> rp_net_profit route))"
proof -
  obtain engine where run: "run (engine_step env) calls (new_route_engine t0) = Some engine" and ok: "engine_ok ident engine"
    using route_engine.run_returns [OF assms(2), of env t0] by (auto simp: listing_id [OF assms(1)])
  have known: "cache_known ident (sc_pools call)" and "fees_sane (sc_pools call)"
    using assms(3) by (simp_all add: call_ok_def)
  then obtain routes engine' where found:
    "find_opportunities_multi env (sc_now call) (sc_pools call) (sc_prices call) (sc_amounts call) engine = Some (routes, engine')"
    using find_multi_returns by blast
  show ?thesis
    using found
  proof (cases rule: find_multi_cases)
    case 1
    with run found show ?thesis by blast
  next
    case (2 mid)
    note spec = find_inner_spec [OF 2(1) ok known assms(1)]
    show ?thesis using run found spec(2-4) by (intro exI conjI) (assumption+, blast)
  qed
qed

theorem engine_answers_witness:
  "\<exists>routes engine'. find_opportunities_multi example_route_env 0 example_market None [10000000] (new_route_engine 0)
      = Some (routes, engine')
    \<and> length routes \<le> 3 \<and> (\<forall>route \<in> set routes. sound_route example_route_env 0 example_market example_ident route
      \<and> rp_borrow_amount route = 10000000)"
proof -
  define call :: "unit search_call" where
    "call = \<lparr>sc_now = 0, sc_pools = example_market, sc_prices = None, sc_amounts = [10000000]\<rparr>"
  have "call_ok example_ident call" by (simp add: call_ok_def call_def example_known example_fees)
  moreover have "cache_swap_gen example_market = 0" by (simp add: example_market_def upsert_def new_pool_cache_def Let_def)
  ultimately show ?thesis
    using engine_answers [OF example_listed, of "[]" example_ident call 0]
    by (auto simp: call_def new_route_engine_def empty_route_cache_def)
qed

text \<open>
  Of the parallel pools between two tokens the engine takes the one with the highest quote, and it
  finds no pool only if none of them quotes a positive amount.
\<close>

theorem best_pool_taken:
  assumes "best_edge_for_pair env now pools tg s t amount = Some best" and "edges_listed env"
  shows "case best of
      None \<Rightarrow> \<forall>e pool out. (s, t, e) \<in> set (tg_edges tg) \<longrightarrow> get_pool pools (ed_pool e) = Some pool
        \<longrightarrow> quote_from (re_floats env) now pool (ed_token_in e) amount = Some out \<longrightarrow> out = 0
    | Some (edge, out, impact) \<Rightarrow> (s, t, edge) \<in> set (tg_edges tg)
        \<and> edge_quoted (re_floats env) now pools amount (edge, out, impact)
        \<and> (\<forall>e pool out'. (s, t, e) \<in> set (tg_edges tg) \<longrightarrow> get_pool pools (ed_pool e) = Some pool
            \<longrightarrow> quote_from (re_floats env) now pool (ed_token_in e) amount = Some out' \<longrightarrow> out' \<le> out)"
  using assms by (rule best_edge_spec)

theorem best_pool_taken_witness:
  "edge_quoted example_floats 0 example_market 10000000 (example_edge 11 False, 9900990, ())"
  using best_pool_taken [OF example_best(1) example_listed, of 0] by simp



end
