(* ===== verification/Scan_Support.thy ===== *)
theory Scan_Support
  imports Route_Contract
begin

text \<open>
  What the opportunity scanners of \<^verbatim>\<open>market-engine\<close> share: loops whose body may \<^verbatim>\<open>continue\<close> or panic, the
  extrema of iterators, the grouping of pools in hash maps, the estimated fee of an exchange, and the tier of a route.
\<close>

section \<open>Loops that skip\<close>

text \<open>The body of a loop: \<^verbatim>\<open>continue\<close>, the panic of a quote, or the element it pushes.\<close>

datatype skip = Skip | Panic

fun collect_kept :: "('a \<Rightarrow> skip + 'b) \<Rightarrow> 'a list \<Rightarrow> 'b list option" where
  "collect_kept f [] = Some []"
| "collect_kept f (x # xs) =
     (case f x of
        Inl Panic \<Rightarrow> None
      | Inl Skip \<Rightarrow> collect_kept f xs
      | Inr y \<Rightarrow> map_option ((#) y) (collect_kept f xs))"

definition collect_concat :: "('a \<Rightarrow> skip + 'b list) \<Rightarrow> 'a list \<Rightarrow> 'b list option" where
  "collect_concat f xs = map_option concat (collect_kept f xs)"

lemma collect_kept_set: "collect_kept f xs = Some ys \<Longrightarrow> y \<in> set ys \<longleftrightarrow> (\<exists>x \<in> set xs. f x = Inr y)"
proof (induction xs arbitrary: ys)
  case (Cons x xs)
  then show ?case by (cases "f x") (auto split: skip.splits)
qed simp

lemma collect_kept_from: "collect_kept f xs = Some ys \<Longrightarrow> y \<in> set ys \<Longrightarrow> \<exists>x \<in> set xs. f x = Inr y"
  by (simp add: collect_kept_set)

lemma collect_kept_length: "collect_kept f xs = Some ys \<Longrightarrow> length ys \<le> length xs"
proof (induction xs arbitrary: ys)
  case (Cons x xs)
  then show ?case by (cases "f x") (fastforce split: skip.splits)+
qed simp

lemma collect_concat_set: "collect_concat f xs = Some ys \<Longrightarrow> y \<in> set ys \<longleftrightarrow> (\<exists>x \<in> set xs. \<exists>l. f x = Inr l \<and> y \<in> set l)"
proof -
  assume "collect_concat f xs = Some ys"
  then obtain z where z: "collect_kept f xs = Some z" and ys: "ys = concat z" by (auto simp: collect_concat_def)
  have "l \<in> set z \<longleftrightarrow> (\<exists>x \<in> set xs. f x = Inr l)" for l by (rule collect_kept_set [OF z])
  then show ?thesis unfolding ys set_concat by blast
qed

text \<open>
  Panic freedom, rule by rule: \<open>no_panic\<close> of a loop body, and a scan that is not \<open>None\<close>.
\<close>

definition no_panic :: "skip + 'a \<Rightarrow> bool" where
  "no_panic r \<longleftrightarrow> r \<noteq> Inl Panic"

lemma collect_kept_returns: "(\<And>x. x \<in> set xs \<Longrightarrow> no_panic (f x)) \<Longrightarrow> collect_kept f xs \<noteq> None"
proof (induction xs)
  case (Cons x xs)
  have "collect_kept f xs \<noteq> None" using Cons by simp
  then show ?case using Cons.prems [of x] by (auto simp: no_panic_def split: sum.splits skip.splits)
qed simp

lemma collect_concat_returns: "(\<And>x. x \<in> set xs \<Longrightarrow> no_panic (f x)) \<Longrightarrow> collect_concat f xs \<noteq> None"
  using collect_kept_returns [of xs f] by (simp add: collect_concat_def)

lemma no_panic_and_then: "no_panic r \<Longrightarrow> (\<And>x. r = Inr x \<Longrightarrow> no_panic (f x)) \<Longrightarrow> no_panic (and_then r f)"
  by (cases r) (simp_all add: no_panic_def)

lemma no_panic_simple:
  "no_panic (Inr x)" "no_panic (Inl Skip)" "no_panic (guard_or Skip b)" "no_panic (ok_or Skip y)"
  by (auto simp: no_panic_def error_simps)

lemma no_panic_ok: "x \<noteq> None \<Longrightarrow> no_panic (ok_or Panic x)"
  by (auto simp: no_panic_def error_simps)

lemma no_panic_if: "(P \<Longrightarrow> no_panic x) \<Longrightarrow> (\<not> P \<Longrightarrow> no_panic y) \<Longrightarrow> no_panic (if P then x else y)"
  by simp

lemma no_panic_let: "no_panic (f x) \<Longrightarrow> no_panic (Let x f)"
  by simp

lemma no_panic_prod: "(\<And>a b. p = (a, b) \<Longrightarrow> no_panic (f a b)) \<Longrightarrow> no_panic (case p of (a, b) \<Rightarrow> f a b)"
  by (cases p) simp

lemma no_panic_option:
  "(x = None \<Longrightarrow> no_panic y) \<Longrightarrow> (\<And>v. x = Some v \<Longrightarrow> no_panic (f v)) \<Longrightarrow> no_panic (case x of None \<Rightarrow> y | Some v \<Rightarrow> f v)"
  by (cases x) simp_all

lemma returns_bind: "r \<noteq> None \<Longrightarrow> (\<And>x. r = Some x \<Longrightarrow> f x \<noteq> None) \<Longrightarrow> Option.bind r f \<noteq> None"
  by (cases r) simp_all

lemma returns_if: "(P \<Longrightarrow> x \<noteq> None) \<Longrightarrow> (\<not> P \<Longrightarrow> y \<noteq> None) \<Longrightarrow> (if P then x else y) \<noteq> None"
  by simp

lemma returns_let: "f x \<noteq> None \<Longrightarrow> Let x f \<noteq> None"
  by simp

lemma returns_prod: "(\<And>a b. p = (a, b) \<Longrightarrow> f a b \<noteq> None) \<Longrightarrow> (case p of (a, b) \<Rightarrow> f a b) \<noteq> None"
  by (cases p) simp

lemma returns_option:
  "(x = None \<Longrightarrow> y \<noteq> None) \<Longrightarrow> (\<And>v. x = Some v \<Longrightarrow> f v \<noteq> None) \<Longrightarrow> (case x of None \<Rightarrow> y | Some v \<Rightarrow> f v) \<noteq> None"
  by (cases x) simp_all

lemma returns_Some: "Some x \<noteq> None"
  by simp

lemmas no_panic_intros = no_panic_simple no_panic_ok no_panic_if no_panic_let no_panic_prod no_panic_option no_panic_and_then
  collect_kept_returns collect_concat_returns returns_bind returns_if returns_let returns_prod returns_option returns_Some

text \<open>The best of a loop over the borrow amounts.\<close>

definition best_route :: "'f route_params list \<Rightarrow> 'f route_params option" where
  "best_route routes = fold keep_better routes None"

lemma fold_keep_better:
  "fold keep_better routes best = Some r \<Longrightarrow> (r \<in> set routes \<or> best = Some r)
    \<and> (\<forall>s \<in> set routes. rp_net_profit s \<le> rp_net_profit r) \<and> (\<forall>s. best = Some s \<longrightarrow> rp_net_profit s \<le> rp_net_profit r)"
proof (induction routes arbitrary: best)
  case (Cons route routes)
  have "(r \<in> set routes \<or> keep_better route best = Some r) \<and> (\<forall>s \<in> set routes. rp_net_profit s \<le> rp_net_profit r)
    \<and> (\<forall>s. keep_better route best = Some s \<longrightarrow> rp_net_profit s \<le> rp_net_profit r)"
    using Cons.IH [of "keep_better route best"] Cons.prems by simp
  then show ?case by (auto simp: keep_better_def split: option.splits if_splits)
qed simp

lemma best_route_spec:
  "best_route routes = Some r \<Longrightarrow> r \<in> set routes \<and> (\<forall>s \<in> set routes. rp_net_profit s \<le> rp_net_profit r)"
  using fold_keep_better [of routes None r] by (simp add: best_route_def)

section \<open>Iterators and hash maps\<close>

text \<open>\<^verbatim>\<open>max_by\<close> returns the last of several greatest elements, \<^verbatim>\<open>min_by\<close> the first of several least.\<close>

definition last_max :: "('a \<Rightarrow> 'a \<Rightarrow> bool) \<Rightarrow> 'a list \<Rightarrow> 'a option" where
  "last_max lt xs = (case xs of [] \<Rightarrow> None | x # xs \<Rightarrow> Some (fold (\<lambda>y x. if lt y x then x else y) xs x))"

definition first_min :: "('a \<Rightarrow> 'a \<Rightarrow> bool) \<Rightarrow> 'a list \<Rightarrow> 'a option" where
  "first_min lt xs = (case xs of [] \<Rightarrow> None | x # xs \<Rightarrow> Some (fold (\<lambda>y x. if lt y x then y else x) xs x))"

lemma fold_choice: "(\<And>x y. f y x \<in> {x, y}) \<Longrightarrow> fold f xs x \<in> insert x (set xs)"
proof (induction xs arbitrary: x)
  case (Cons y xs)
  have "fold f xs (f y x) \<in> insert (f y x) (set xs)" by (rule Cons.IH) (rule Cons.prems)
  moreover have "f y x \<in> {x, y}" by (rule Cons.prems)
  ultimately show ?case by auto
qed simp

lemma last_max_in: "last_max lt xs = Some x \<Longrightarrow> x \<in> set xs"
  using fold_choice [of "\<lambda>y x. if lt y x then x else y" "tl xs" "hd xs"] by (cases xs) (auto simp: last_max_def)

lemma first_min_in: "first_min lt xs = Some x \<Longrightarrow> x \<in> set xs"
  using fold_choice [of "\<lambda>y x. if lt y x then y else x" "tl xs" "hd xs"] by (cases xs) (auto simp: first_min_def)

lemma last_max_None [simp]: "last_max lt xs = None \<longleftrightarrow> xs = []"
  by (cases xs) (simp_all add: last_max_def)

lemma last_max_greatest:
  fixes key :: "'a \<Rightarrow> 'k::linorder"
  assumes "last_max (\<lambda>y x. key y < key x) xs = Some m" and "x \<in> set xs"
  shows "key x \<le> key m"
proof -
  have "\<forall>x \<in> insert a (set ys). key x \<le> key (fold (\<lambda>y x. if key y < key x then x else y) ys a)" for a ys
  proof (induction ys arbitrary: a)
    case (Cons y ys)
    show ?case using Cons.IH [of a] Cons.IH [of y] by (auto intro: order_trans)
  qed simp
  then show ?thesis using assms by (cases xs) (auto simp: last_max_def)
qed

text \<open>\<^verbatim>\<open>map.entry(key).or_default().push(x)\<close>.\<close>

definition push_to :: "'k \<Rightarrow> 'v \<Rightarrow> ('k \<times> 'v list) list \<Rightarrow> ('k \<times> 'v list) list" where
  "push_to key x groups = AList.update key (unwrap_or [] (map_of groups key) @ [x]) groups"

definition grouped :: "('k \<times> 'v) list \<Rightarrow> ('k \<times> 'v list) list" where
  "grouped entries = fold (\<lambda>(key, x). push_to key x) entries []"

definition group_inv :: "('k \<times> 'v) set \<Rightarrow> ('k \<times> 'v list) list \<Rightarrow> bool" where
  "group_inv entries groups \<longleftrightarrow> distinct (map fst groups)
     \<and> (\<forall>(key, xs) \<in> set groups. xs \<noteq> [] \<and> (\<forall>x. x \<in> set xs \<longleftrightarrow> (key, x) \<in> entries)) \<and> fst ` entries = fst ` set groups"

lemma group_inv_push:
  assumes "group_inv entries groups" shows "group_inv (insert (key, x) entries) (push_to key x groups)"
proof -
  let ?groups = "push_to key x groups"
  have d: "distinct (map fst ?groups)"
    using assms by (simp add: push_to_def group_inv_def distinct_update)
  have m: "map_of ?groups k = (if k = key then Some (unwrap_or [] (map_of groups key) @ [x]) else map_of groups k)" for k
    by (simp add: push_to_def update_conv')
  have keys: "fst ` set ?groups = insert key (fst ` set groups)"
    unfolding push_to_def by (simp add: dom_update flip: dom_map_of_conv_image_fst)
  have old: "xs \<noteq> [] \<and> (\<forall>y. y \<in> set xs \<longleftrightarrow> (k, y) \<in> entries)" if "map_of groups k = Some xs" for k xs
    using assms map_of_SomeD [OF that] unfolding group_inv_def by blast
  have none: "(k, y) \<notin> entries" if "map_of groups k = None" for k y
  proof
    assume "(k, y) \<in> entries"
    then have "k \<in> fst ` entries" by (rule image_eqI [rotated]) simp
    then show False using assms that by (simp add: group_inv_def map_of_eq_None_iff)
  qed
  have "xs \<noteq> [] \<and> (\<forall>y. y \<in> set xs \<longleftrightarrow> (k, y) \<in> insert (key, x) entries)" if "(k, xs) \<in> set ?groups" for k xs
  proof -
    have k: "map_of ?groups k = Some xs" using d that by (rule map_of_is_SomeI)
    show ?thesis
    proof (cases "k = key")
      case True
      then have xs: "xs = unwrap_or [] (map_of groups key) @ [x]" using k m by simp
      show ?thesis using old [of key] none [of key] by (cases "map_of groups key") (auto simp: xs True)
    next
      case False
      then have "map_of groups k = Some xs" using k m by simp
      from old [OF this] show ?thesis using False by simp
    qed
  qed
  then show ?thesis using d assms by (auto simp: group_inv_def keys)
qed

lemma grouped_inv: "group_inv (set entries) (grouped entries)"
proof -
  have "group_inv (E \<union> set entries) (fold (\<lambda>(key, x). push_to key x) entries groups)" if "group_inv E groups" for E groups
    using that
  proof (induction entries arbitrary: E groups)
    case (Cons entry entries)
    obtain key x where entry: "entry = (key, x)" by (cases entry)
    show ?case using Cons.IH [OF group_inv_push [OF Cons.prems, of key x]] by (simp add: entry)
  qed simp
  from this [of "{}" "[]"] show ?thesis by (simp add: grouped_def group_inv_def)
qed

lemma grouped_entry: "(key, xs) \<in> set (grouped entries) \<Longrightarrow> x \<in> set xs \<longleftrightarrow> (key, x) \<in> set entries"
  using grouped_inv [of entries] by (auto simp: group_inv_def)

lemma map_of_grouped: "map_of (grouped entries) key = Some xs \<Longrightarrow> x \<in> set xs \<longleftrightarrow> (key, x) \<in> set entries"
  by (rule grouped_entry) (rule map_of_SomeD)

section \<open>Fees, tiers and the pools of a route\<close>

text \<open>\<^verbatim>\<open>dex_fee_bps\<close> and \<^verbatim>\<open>route_tier\<close> of \<^verbatim>\<open>cross_dex.rs\<close>, used by all scanners.\<close>

definition dex_fee_bps :: "dex_type \<Rightarrow> u64" where
  "dex_fee_bps dex =
     (case dex of
        RaydiumAmmV4 \<Rightarrow> 25
      | RaydiumClmm \<Rightarrow> 25
      | OrcaWhirlpool \<Rightarrow> 30
      | MeteoraDlmm \<Rightarrow> 30
      | PumpSwap \<Rightarrow> 100
      | Fluxbeam \<Rightarrow> 30
      | Saber \<Rightarrow> 4
      | RaydiumCpmm \<Rightarrow> 25
      | Unknown \<Rightarrow> 50)"

definition fragile_orca :: "dex_pool \<Rightarrow> bool" where
  "fragile_orca pool \<longleftrightarrow> dp_dex_type pool = OrcaWhirlpool
     \<and> (case dp_orca_meta pool of None \<Rightarrow> True | Some meta \<Rightarrow> om_liquidity meta < 1000000000)"

definition route_tier :: "'f route_params \<Rightarrow> pool_cache \<Rightarrow> u8" where
  "route_tier route pool_cache =
     (let pools = List.map_filter (\<lambda>h. get_pool pool_cache (hop_pool h)) (rp_hops route);
          dex_types = map dp_dex_type pools in
      if list_all (\<lambda>d. d = RaydiumAmmV4) dex_types then 1
      else if list_all (\<lambda>d. d \<in> {RaydiumAmmV4, MeteoraDlmm}) dex_types then 2
      else if list_ex (\<lambda>d. d = PumpSwap) dex_types then 3
      else if list_ex (\<lambda>d. d = OrcaWhirlpool) dex_types then (if list_ex fragile_orca pools then 99 else 4)
      else 5)"

definition with_tier :: "pool_cache \<Rightarrow> 'f route_params \<Rightarrow> 'f route_params" where
  "with_tier pool_cache route = route\<lparr>rp_tier := route_tier route pool_cache\<rparr>"

text \<open>\<^verbatim>\<open>retain(|r| r.tier < 99)\<close> after the tiers are set, and the order of the reports.\<close>

definition ranked :: "pool_cache \<Rightarrow> 'f route_params list \<Rightarrow> 'f route_params list" where
  "ranked pool_cache routes = by_profit (filter (\<lambda>r. rp_tier r < 99) (map (with_tier pool_cache) routes))"

lemma ranked_sorted: "sorted_wrt (\<lambda>r s. rp_net_profit s \<le> rp_net_profit r) (ranked pool_cache routes)"
  by (simp add: ranked_def by_profit_sorted)

lemma ranked_in: "route \<in> set (ranked pool_cache routes)
    \<longleftrightarrow> (\<exists>r \<in> set routes. route = with_tier pool_cache r \<and> rp_tier route < 99)"
  by (auto simp: ranked_def)

text \<open>A cached pool, and the hop through it.\<close>

definition cache_keyed :: "pool_cache \<Rightarrow> bool" where
  "cache_keyed pools \<longleftrightarrow> distinct (map fst (cache_inner pools)) \<and> (\<forall>(k, pool) \<in> set (cache_inner pools). dp_pool_address pool = k)"

definition hop_through :: "dex_pool \<Rightarrow> pubkey \<Rightarrow> pubkey \<Rightarrow> u64 \<Rightarrow> 'f \<Rightarrow> 'f hop" where
  "hop_through pool token_in token_out amount_out impact =
     \<lparr>hop_pool = dp_pool_address pool, hop_dex_program = program_of_dex (dp_dex_type pool), hop_token_in = token_in,
      hop_token_out = token_out, hop_amount_out = amount_out, hop_price_impact = impact\<rparr>"

definition joins :: "dex_pool \<Rightarrow> pubkey \<Rightarrow> pubkey \<Rightarrow> bool" where
  "joins pool x y \<longleftrightarrow> (x, y) \<in> {(dp_token_a pool, dp_token_b pool), (dp_token_b pool, dp_token_a pool)}"

lemma joins_commute: "joins pool x y \<longleftrightarrow> joins pool y x"
  by (auto simp: joins_def)

lemma hop_through_simps [simp]:
  "hop_token_in (hop_through pool x y out impact) = x" "hop_token_out (hop_through pool x y out impact) = y"
  "hop_amount_out (hop_through pool x y out impact) = out" "hop_pool (hop_through pool x y out impact) = dp_pool_address pool"
  "hop_dex_program (hop_through pool x y out impact) = program_of_dex (dp_dex_type pool)"
  "hop_price_impact (hop_through pool x y out impact) = impact"
  by (simp_all add: hop_through_def)

lemma cached_pool:
  "cache_keyed pools \<Longrightarrow> (k, pool) \<in> set (cache_inner pools) \<Longrightarrow> get_pool pools (dp_pool_address pool) = Some pool"
  by (auto simp: cache_keyed_def get_pool_def)

lemma cached_address: "cache_keyed pools \<Longrightarrow> get_pool pools k = Some pool \<Longrightarrow> dp_pool_address pool = k"
  by (auto simp: cache_keyed_def get_pool_def dest!: map_of_SomeD)

lemma hop_through_fits:
  assumes "get_pool pools (dp_pool_address pool) = Some pool" and "joins pool x y"
  shows "hop_fits pools (hop_through pool x y out impact)"
  using assms by (auto simp: hop_fits_def joins_def)

lemma with_tier_simps [simp]:
  "rp_hops (with_tier pools route) = rp_hops route" "rp_borrow_amount (with_tier pools route) = rp_borrow_amount route"
  "rp_gross_profit (with_tier pools route) = rp_gross_profit route" "rp_net_profit (with_tier pools route) = rp_net_profit route"
  "rp_strategy (with_tier pools route) = rp_strategy route" "rp_risk_factor (with_tier pools route) = rp_risk_factor route"
  "rp_tier (with_tier pools route) = route_tier route pools"
  by (simp_all add: with_tier_def)

section \<open>Sound arbitrage\<close>

text \<open>
  What a scanner promises of a route: its hops are a closed chain over cached pools, at the amounts these pools
  quote; it ends with more than it borrows; and gross and net profit are the difference and what \<open>cost\<close> leaves of it.
  The gross profit is cast to \<^verbatim>\<open>i64\<close>, so that net profit is exact below \<open>2^63\<close>.
\<close>

definition arbitrage :: "'f f64_ops \<Rightarrow> nat \<Rightarrow> pool_cache \<Rightarrow> int \<Rightarrow> 'f route_params \<Rightarrow> bool" where
  "arbitrage fl now pools cost route \<longleftrightarrow> closed_route (rp_hops route)
     \<and> (\<forall>hop \<in> set (rp_hops route). hop_fits pools hop)
     \<and> quoted_hops fl now pools (rp_borrow_amount route) (rp_hops route)
     \<and> rp_borrow_amount route < final_amount route
     \<and> rp_gross_profit route = final_amount route - rp_borrow_amount route
     \<and> (uint (rp_gross_profit route) < 2 ^ 63 \<longrightarrow> rp_net_profit route = uint (rp_gross_profit route) - cost)"

lemma arbitrage_with_tier [simp]: "arbitrage fl now pools cost (with_tier pools' route) = arbitrage fl now pools cost route"
  by (simp add: arbitrage_def final_amount_def)

lemma net_exact:
  fixes gross :: u64
  assumes "uint gross < 2 ^ 63" and "0 \<le> cost" and "cost < 2 ^ 62"
  shows "wrap64 (sint gross - cost) = uint gross - cost"
proof -
  have "sint gross = uint gross" using assms(1) by (intro sint_small) simp
  moreover have "wrap64 (uint gross - cost) = uint gross - cost"
  proof -
    have "0 \<le> uint gross" "uint gross < 9223372036854775808" "cost < 4611686018427387904" using assms by simp_all
    then show ?thesis using assms(2) by (intro wrap64_in) linarith+
  qed
  ultimately show ?thesis by simp
qed

end
