(* ===== verification/Cross_Dex.thy ===== *)
theory Cross_Dex
  imports Scan_Support
begin

text \<open>
  Arbitrage between pools of the same pair and along triangles, \<^verbatim>\<open>market-engine/src/cross_dex.rs\<close>. Every quote may
  panic; a scan is then \<open>None\<close>. The iteration orders of the hash maps built on the way are parameters. The
  log lines, and the arguments that only they use, are left out; the loading of the hot routes from PostgreSQL
  is not modelled.
\<close>

section \<open>Constants and rates\<close>

definition MIN_MARGIN_ABOVE_FEES_BPS :: u64 where [simp]: "MIN_MARGIN_ABOVE_FEES_BPS = 30"
definition CROSS_ANCHORS :: "pubkey list" where "CROSS_ANCHORS = [SOL_MINT, USDC_MINT]"
definition MAX_RETURN_MULTIPLIER :: "'f f64_ops \<Rightarrow> 'f" where "MAX_RETURN_MULTIPLIER fl = fl_lit fl ''1.05''"
definition MIN_RESERVE :: u64 where [simp]: "MIN_RESERVE = 1000000"
definition MAX_IMPACT_PCT :: "'f f64_ops \<Rightarrow> 'f" where "MAX_IMPACT_PCT fl = fl_lit fl ''5.0''"
definition CROSS_FEE_PER_HOP :: u64 where [simp]: "CROSS_FEE_PER_HOP = 5000"

definition pair_key :: "pubkey \<Rightarrow> pubkey \<Rightarrow> pubkey \<times> pubkey" where
  "pair_key a b = (if a < b then (a, b) else (b, a))"

record 'f pool_rate =
  pr_pool :: dex_pool
  pr_rate_a_to_b :: 'f
  pr_canonical_order :: bool

record 'f scan_env =
  sv_floats :: "'f f64_ops"
  sv_pair_order :: "((pubkey \<times> pubkey) \<times> 'f pool_rate list) list \<Rightarrow> ((pubkey \<times> pubkey) \<times> 'f pool_rate list) list"
  sv_token_order :: "pubkey list \<Rightarrow> pubkey list"

definition dex_program_for :: "dex_type \<Rightarrow> pubkey" where
  "dex_program_for dex =
     (case dex of
        RaydiumAmmV4 \<Rightarrow> RAYDIUM_AMM_V4
      | RaydiumClmm \<Rightarrow> RAYDIUM_CLMM
      | OrcaWhirlpool \<Rightarrow> ORCA_WHIRLPOOL
      | MeteoraDlmm \<Rightarrow> METEORA_DLMM
      | PumpSwap \<Rightarrow> PUMPSWAP
      | Fluxbeam \<Rightarrow> FLUXBEAM
      | Saber \<Rightarrow> SABER
      | RaydiumCpmm \<Rightarrow> RAYDIUM_CPMM
      | Unknown \<Rightarrow> 0)"

definition reference_borrow :: "u64 list \<Rightarrow> u64" where
  "reference_borrow borrow_amounts = (case borrow_amounts of [] \<Rightarrow> 100000000 | amount # _ \<Rightarrow> amount)"

definition quoted_rate :: "'f f64_ops \<Rightarrow> nat \<Rightarrow> u64 \<Rightarrow> bool \<Rightarrow> dex_pool \<Rightarrow> skip + 'f" where
  "quoted_rate fl now reference_amount canonical_order pool =
     and_then (ok_or Panic (if canonical_order then quote_a_to_b fl now reference_amount pool
                            else quote_b_to_a fl now reference_amount pool)) (\<lambda>out.
     and_then (guard_or Skip (out \<noteq> 0)) (\<lambda>_.
       Inr (fl_div fl (fl_of_int fl (uint out)) (fl_of_int fl (uint reference_amount)))))"

definition usable_rate :: "'f f64_ops \<Rightarrow> 'f \<Rightarrow> bool" where
  "usable_rate fl rate \<longleftrightarrow> \<not> (fl_le fl rate (fl_lit fl ''0.0'') \<or> \<not> fl_finite fl rate)"

section \<open>Eligible pools and pairs\<close>

definition dust :: "dex_pool \<Rightarrow> bool" where
  "dust pool \<longleftrightarrow> dp_reserve_a pool < MIN_RESERVE \<or> dp_reserve_b pool < MIN_RESERVE"

definition phantom_raydium :: "dex_pool \<Rightarrow> bool" where
  "phantom_raydium pool \<longleftrightarrow> dp_dex_type pool = RaydiumAmmV4
     \<and> (case dp_raydium_meta pool of Some meta \<Rightarrow> rm_vault_a meta = 0 \<or> rm_vault_b meta = 0 | None \<Rightarrow> True)"

definition metadata_complete :: "dex_pool \<Rightarrow> bool" where
  "metadata_complete pool =
     (case dp_dex_type pool of
        RaydiumAmmV4 \<Rightarrow> (case dp_raydium_meta pool of None \<Rightarrow> False | Some m \<Rightarrow> \<not> (rm_vault_a m = 0 \<or> rm_market_id m = 0))
      | OrcaWhirlpool \<Rightarrow> (case dp_orca_meta pool of None \<Rightarrow> False | Some m \<Rightarrow> \<not> (om_tick_spacing m = 0 \<or> om_token_vault_a m = 0))
      | MeteoraDlmm \<Rightarrow> (case dp_meteora_meta pool of None \<Rightarrow> False | Some m \<Rightarrow> mm_token_vault_a m \<noteq> 0)
      | _ \<Rightarrow> True)"

definition cross_eligible :: "dex_pool \<Rightarrow> bool" where
  "cross_eligible pool \<longleftrightarrow> \<not> dust pool \<and> metadata_complete pool
     \<and> dp_dex_type pool \<notin> {Unknown, RaydiumClmm, RaydiumCpmm} \<and> \<not> phantom_raydium pool"

definition pair_eligible :: "dex_pool \<Rightarrow> bool" where
  "pair_eligible pool \<longleftrightarrow> \<not> dust pool \<and> dp_dex_type pool \<notin> {Unknown, RaydiumClmm} \<and> \<not> phantom_raydium pool"

definition lendable_pair :: "pubkey \<times> pubkey \<Rightarrow> bool" where
  "lendable_pair = (\<lambda>(token_a, token_b).
     (token_a \<in> set CROSS_ANCHORS \<or> token_b \<in> set CROSS_ANCHORS)
     \<and> \<not> (token_a = USDC_MINT \<and> token_b = USDT_MINT \<or> token_a = USDT_MINT \<and> token_b = USDC_MINT)
     \<and> \<not> (token_a \<in> set CROSS_ANCHORS \<and> token_b \<in> set CROSS_ANCHORS \<and> token_a \<noteq> SOL_MINT \<and> token_b \<noteq> SOL_MINT))"

section \<open>Routes of two hops\<close>

text \<open>What the two builders have in common: the hops, and the profit of the last amount.\<close>

definition impact_of :: "'f f64_ops \<Rightarrow> u64 \<Rightarrow> u64 \<Rightarrow> 'f" where
  "impact_of fl amount reserve =
     fl_mul fl (fl_div fl (fl_of_int fl (uint amount)) (fl_of_int fl (uint (max reserve 1)))) (fl_lit fl ''100.0'')"

definition cross_hop :: "dex_pool \<Rightarrow> pubkey \<Rightarrow> pubkey \<Rightarrow> u64 \<Rightarrow> 'f \<Rightarrow> 'f hop" where
  "cross_hop pool token_in token_out amount_out impact =
     \<lparr>hop_pool = dp_pool_address pool, hop_dex_program = dex_program_for (dp_dex_type pool), hop_token_in = token_in,
      hop_token_out = token_out, hop_amount_out = amount_out, hop_price_impact = impact\<rparr>"

definition settle_two_hops :: "'f f64_ops \<Rightarrow> u64 \<Rightarrow> 'f hop \<Rightarrow> 'f hop \<Rightarrow> skip + 'f route_params" where
  "settle_two_hops fl borrow_amount hop1 hop2 =
     (let final_amount = hop_amount_out hop2 in
      and_then (guard_or Skip (\<not> final_amount \<le> borrow_amount)) (\<lambda>_.
      and_then (guard_or Skip (\<not> fl_lt fl (fl_mul fl (fl_of_int fl (uint borrow_amount)) (MAX_RETURN_MULTIPLIER fl))
        (fl_of_int fl (uint final_amount)))) (\<lambda>_.
      (let gross_profit = final_amount - borrow_amount;
           net_profit = wrap64 (sint gross_profit - sint (CROSS_FEE_PER_HOP * 2)) in
       and_then (guard_or Skip (\<not> net_profit \<le> 0)) (\<lambda>_.
       (let max_impact = fl_max fl (hop_price_impact hop1) (hop_price_impact hop2);
            risk_factor = fl_min fl (fl_div fl max_impact (fl_lit fl ''100.0'')) (fl_lit fl ''0.95'') in
        Inr \<lparr>rp_hops = [hop1, hop2], rp_borrow_amount = borrow_amount, rp_gross_profit = gross_profit,
             rp_net_profit = net_profit, rp_risk_factor = risk_factor, rp_strategy = ''cross-dex'', rp_tier = 0\<rparr>))))))"

definition build_cross_dex_route :: "'f f64_ops \<Rightarrow> nat \<Rightarrow> dex_pool \<Rightarrow> bool \<Rightarrow> dex_pool \<Rightarrow> bool \<Rightarrow> pubkey \<Rightarrow> pubkey
    \<Rightarrow> u64 \<Rightarrow> skip + 'f route_params" where
  "build_cross_dex_route fl now buy_pool buy_canonical sell_pool sell_canonical token_a token_b borrow_amount =
     (let buy_reserve_in = (if buy_canonical then dp_reserve_a buy_pool else dp_reserve_b buy_pool) in
      and_then (guard_or Skip (\<not> buy_reserve_in < sat_mul borrow_amount 10)) (\<lambda>_.
      and_then (if buy_canonical
        then and_then (ok_or Panic (quote_a_to_b fl now borrow_amount buy_pool)) (\<lambda>out.
          Inr (out, impact_of fl borrow_amount (dp_reserve_a buy_pool)))
        else and_then (ok_or Panic (quote_b_to_a fl now borrow_amount buy_pool)) (\<lambda>out.
          Inr (out, impact_of fl borrow_amount (dp_reserve_b buy_pool)))) (\<lambda>(mid_amount, impact_1).
      and_then (guard_or Skip (\<not> (mid_amount = 0 \<or> fl_lt fl (MAX_IMPACT_PCT fl) impact_1))) (\<lambda>_.
      and_then (if sell_canonical
        then and_then (ok_or Panic (quote_b_to_a fl now mid_amount sell_pool)) (\<lambda>out.
          Inr (out, impact_of fl mid_amount (dp_reserve_b sell_pool)))
        else and_then (ok_or Panic (quote_a_to_b fl now mid_amount sell_pool)) (\<lambda>out.
          Inr (out, impact_of fl mid_amount (dp_reserve_a sell_pool)))) (\<lambda>(final_amount, impact_2).
      and_then (guard_or Skip (\<not> (final_amount = 0 \<or> fl_lt fl (MAX_IMPACT_PCT fl) impact_2))) (\<lambda>_.
        settle_two_hops fl borrow_amount (cross_hop buy_pool token_a token_b mid_amount impact_1)
          (cross_hop sell_pool token_b token_a final_amount impact_2)))))))"

definition build_cross_dex_route_reverse :: "'f f64_ops \<Rightarrow> nat \<Rightarrow> dex_pool \<Rightarrow> bool \<Rightarrow> dex_pool \<Rightarrow> bool \<Rightarrow> pubkey \<Rightarrow> pubkey
    \<Rightarrow> u64 \<Rightarrow> skip + 'f route_params" where
  "build_cross_dex_route_reverse fl now buy_a_pool buy_a_canonical sell_a_pool sell_a_canonical token_a token_b borrow_amount =
     and_then (if buy_a_canonical
       then and_then (ok_or Panic (quote_b_to_a fl now borrow_amount buy_a_pool)) (\<lambda>out.
         Inr (out, impact_of fl borrow_amount (dp_reserve_b buy_a_pool)))
       else and_then (ok_or Panic (quote_a_to_b fl now borrow_amount buy_a_pool)) (\<lambda>out.
         Inr (out, impact_of fl borrow_amount (dp_reserve_a buy_a_pool)))) (\<lambda>(mid_amount, impact_1).
     and_then (guard_or Skip (\<not> (mid_amount = 0 \<or> fl_lt fl (MAX_IMPACT_PCT fl) impact_1))) (\<lambda>_.
     and_then (if sell_a_canonical
       then and_then (ok_or Panic (quote_a_to_b fl now mid_amount sell_a_pool)) (\<lambda>out.
         Inr (out, impact_of fl mid_amount (dp_reserve_a sell_a_pool)))
       else and_then (ok_or Panic (quote_b_to_a fl now mid_amount sell_a_pool)) (\<lambda>out.
         Inr (out, impact_of fl mid_amount (dp_reserve_b sell_a_pool)))) (\<lambda>(final_amount, impact_2).
     and_then (guard_or Skip (\<not> (final_amount = 0 \<or> fl_lt fl (MAX_IMPACT_PCT fl) impact_2))) (\<lambda>_.
       settle_two_hops fl borrow_amount (cross_hop buy_a_pool token_b token_a mid_amount impact_1)
         (cross_hop sell_a_pool token_a token_b final_amount impact_2)))))"

section \<open>Scans of pairs\<close>

text \<open>The pools with the greatest and the least rate of a pair, and how far they differ.\<close>

definition divergence_bps :: "'f f64_ops \<Rightarrow> 'f \<Rightarrow> 'f \<Rightarrow> u64" where
  "divergence_bps fl high low =
     fl_to_u64 fl (fl_mul fl (fl_sub fl (fl_div fl high low) (fl_lit fl ''1.0'')) (fl_lit fl ''10000.0''))"

definition widest_spread :: "'f f64_ops \<Rightarrow> u64 \<Rightarrow> 'f pool_rate list \<Rightarrow> ('f pool_rate \<times> 'f pool_rate) option" where
  "widest_spread fl margin pools = do {
     high \<leftarrow> last_max (\<lambda>y x. fl_lt fl (pr_rate_a_to_b y) (pr_rate_a_to_b x)) pools;
     low \<leftarrow> first_min (\<lambda>y x. fl_lt fl (pr_rate_a_to_b y) (pr_rate_a_to_b x)) pools;
     if dp_pool_address (pr_pool high) = dp_pool_address (pr_pool low)
        \<or> fl_le fl (pr_rate_a_to_b high) (pr_rate_a_to_b low) then None
     else if divergence_bps fl (pr_rate_a_to_b high) (pr_rate_a_to_b low)
        < dex_fee_bps (dp_dex_type (pr_pool high)) + dex_fee_bps (dp_dex_type (pr_pool low)) + margin then None
     else Some (high, low) }"

text \<open>The routes that borrow the first token of the pair, and those that borrow the second.\<close>

definition forward_routes :: "'f f64_ops \<Rightarrow> nat \<Rightarrow> pubkey \<times> pubkey \<Rightarrow> u64 list \<Rightarrow> 'f pool_rate \<Rightarrow> 'f pool_rate
    \<Rightarrow> 'f route_params list option" where
  "forward_routes fl now key borrow_amounts high low =
     (if fst key \<in> set CROSS_ANCHORS
      then collect_kept (build_cross_dex_route fl now (pr_pool high) (pr_canonical_order high)
        (pr_pool low) (pr_canonical_order low) (fst key) (snd key)) borrow_amounts
      else Some [])"

definition reverse_routes :: "'f f64_ops \<Rightarrow> nat \<Rightarrow> pubkey \<times> pubkey \<Rightarrow> u64 list \<Rightarrow> 'f pool_rate \<Rightarrow> 'f pool_rate
    \<Rightarrow> 'f route_params list option" where
  "reverse_routes fl now key borrow_amounts high low =
     (if snd key \<in> set CROSS_ANCHORS
      then collect_kept (build_cross_dex_route_reverse fl now (pr_pool low) (pr_canonical_order low)
        (pr_pool high) (pr_canonical_order high) (fst key) (snd key)) borrow_amounts
      else Some [])"

definition best_both_ways :: "'f f64_ops \<Rightarrow> nat \<Rightarrow> pubkey \<times> pubkey \<Rightarrow> u64 list \<Rightarrow> 'f pool_rate \<Rightarrow> 'f pool_rate
    \<Rightarrow> skip + 'f route_params list" where
  "best_both_ways fl now key borrow_amounts high low =
     and_then (ok_or Panic (forward_routes fl now key borrow_amounts high low)) (\<lambda>forward.
     and_then (ok_or Panic (reverse_routes fl now key borrow_amounts high low)) (\<lambda>reverse.
       Inr (List.map_filter best_route [forward, reverse])))"

definition rate_entry :: "'f f64_ops \<Rightarrow> nat \<Rightarrow> u64 list \<Rightarrow> dex_pool \<Rightarrow> skip + (pubkey \<times> pubkey) \<times> 'f pool_rate" where
  "rate_entry fl now borrow_amounts pool =
     and_then (guard_or Skip (cross_eligible pool)) (\<lambda>_.
     (let key = pair_key (dp_token_a pool) (dp_token_b pool); canonical_order = (dp_token_a pool = fst key) in
      and_then (quoted_rate fl now (reference_borrow borrow_amounts) canonical_order pool) (\<lambda>rate.
      and_then (guard_or Skip (usable_rate fl rate)) (\<lambda>_.
        Inr (key, \<lparr>pr_pool = pool, pr_rate_a_to_b = rate, pr_canonical_order = canonical_order\<rparr>)))))"

definition pair_group_routes :: "'f f64_ops \<Rightarrow> nat \<Rightarrow> u64 list \<Rightarrow> (pubkey \<times> pubkey) \<times> 'f pool_rate list
    \<Rightarrow> skip + 'f route_params list" where
  "pair_group_routes fl now borrow_amounts = (\<lambda>(key, pools).
     and_then (guard_or Skip (\<not> length pools < 2)) (\<lambda>_.
     and_then (guard_or Skip (lendable_pair key)) (\<lambda>_.
     and_then (ok_or Skip (widest_spread fl MIN_MARGIN_ABOVE_FEES_BPS pools)) (\<lambda>(high, low).
       best_both_ways fl now key borrow_amounts high low))))"

definition scan_cross_dex_opportunities :: "'f scan_env \<Rightarrow> nat \<Rightarrow> pool_cache \<Rightarrow> u64 list \<Rightarrow> 'f route_params list option" where
  "scan_cross_dex_opportunities env now pool_cache borrow_amounts = do {
     entries \<leftarrow> collect_kept (rate_entry (sv_floats env) now borrow_amounts) (map snd (cache_inner pool_cache));
     routes \<leftarrow> collect_concat (pair_group_routes (sv_floats env) now borrow_amounts) (sv_pair_order env (grouped entries));
     Some (ranked pool_cache routes) }"

text \<open>The scan after a large swap of one pair, with half the margin and the three best routes.\<close>

definition pair_entry :: "'f f64_ops \<Rightarrow> nat \<Rightarrow> pubkey \<times> pubkey \<Rightarrow> u64 list \<Rightarrow> dex_pool \<Rightarrow> skip + 'f pool_rate" where
  "pair_entry fl now key borrow_amounts pool =
     and_then (guard_or Skip (pair_eligible pool)) (\<lambda>_.
     and_then (guard_or Skip (pair_key (dp_token_a pool) (dp_token_b pool) = key)) (\<lambda>_.
     (let canonical_order = (dp_token_a pool = fst key) in
      and_then (quoted_rate fl now (reference_borrow borrow_amounts) canonical_order pool) (\<lambda>rate.
      and_then (guard_or Skip (usable_rate fl rate)) (\<lambda>_.
        Inr \<lparr>pr_pool = pool, pr_rate_a_to_b = rate, pr_canonical_order = canonical_order\<rparr>)))))"

definition scan_pair_opportunities :: "'f f64_ops \<Rightarrow> nat \<Rightarrow> pool_cache \<Rightarrow> pubkey \<Rightarrow> pubkey \<Rightarrow> u64 list
    \<Rightarrow> 'f route_params list option" where
  "scan_pair_opportunities fl now pool_cache token_a token_b borrow_amounts =
     (let key = pair_key token_a token_b in
      if \<not> lendable_pair key then Some []
      else do {
        pools \<leftarrow> collect_kept (pair_entry fl now key borrow_amounts) (map snd (cache_inner pool_cache));
        if length pools < 2 then Some []
        else case widest_spread fl 15 pools of
            None \<Rightarrow> Some []
          | Some (high, low) \<Rightarrow> do {
              forward \<leftarrow> forward_routes fl now key borrow_amounts high low;
              reverse \<leftarrow> reverse_routes fl now key borrow_amounts high low;
              Some (take 3 (ranked pool_cache (map (\<lambda>r. r\<lparr>rp_strategy := ''whale-backrun''\<rparr>) (forward @ reverse)))) } })"

section \<open>Triangles\<close>

definition triangle_eligible :: "dex_pool \<Rightarrow> bool" where
  "triangle_eligible pool \<longleftrightarrow> \<not> dust pool \<and> dp_dex_type pool \<notin> {Unknown, RaydiumClmm, RaydiumCpmm} \<and> \<not> phantom_raydium pool"

definition adjacency :: "pool_cache \<Rightarrow> (pubkey \<times> (pubkey \<times> dex_pool) list) list" where
  "adjacency pool_cache =
     grouped (concat (map (\<lambda>pool. [(dp_token_a pool, dp_token_b pool, pool), (dp_token_b pool, dp_token_a pool, pool)])
       (filter triangle_eligible (map snd (cache_inner pool_cache)))))"

definition best_quote :: "'f f64_ops \<Rightarrow> nat \<Rightarrow> pubkey \<Rightarrow> u64 \<Rightarrow> dex_pool list \<Rightarrow> skip + dex_pool \<times> u64" where
  "best_quote fl now token_in amount pools =
     and_then (ok_or Panic (collect_kept (\<lambda>p.
       and_then (ok_or Panic (quote_from fl now p token_in amount)) (\<lambda>out.
       and_then (guard_or Skip (out > 0)) (\<lambda>_. Inr (p, out)))) pools)) (\<lambda>quotes.
     ok_or Skip (last_max (\<lambda>y x. snd y < snd x) quotes))"

definition wide_impact :: "'f f64_ops \<Rightarrow> u64 \<Rightarrow> dex_pool \<Rightarrow> 'f" where
  "wide_impact fl amount pool = impact_of fl amount (max (dp_reserve_a pool) (dp_reserve_b pool))"

definition triangle_route :: "'f f64_ops \<Rightarrow> nat \<Rightarrow> pubkey \<Rightarrow> dex_pool \<Rightarrow> pubkey \<Rightarrow> dex_pool \<Rightarrow> pubkey \<Rightarrow> dex_pool
    \<Rightarrow> u64 \<Rightarrow> skip + 'f route_params" where
  "triangle_route fl now anchor pool1 token_x pool2 token_y pool3 borrow_amount =
     and_then (ok_or Panic (quote_from fl now pool1 anchor borrow_amount)) (\<lambda>a1.
     and_then (guard_or Skip (a1 \<noteq> 0)) (\<lambda>_.
     and_then (ok_or Panic (quote_from fl now pool2 token_x a1)) (\<lambda>a2.
     and_then (guard_or Skip (a2 \<noteq> 0)) (\<lambda>_.
     and_then (ok_or Panic (quote_from fl now pool3 token_y a2)) (\<lambda>a3.
     and_then (guard_or Skip (\<not> (a3 = 0 \<or> a3 \<le> borrow_amount))) (\<lambda>_.
     and_then (guard_or Skip (\<not> fl_lt fl (MAX_RETURN_MULTIPLIER fl)
       (fl_div fl (fl_of_int fl (uint a3)) (fl_of_int fl (uint borrow_amount))))) (\<lambda>_.
     (let gp = a3 - borrow_amount; np = wrap64 (sint gp - sint (CROSS_FEE_PER_HOP * 3));
          impact1 = wide_impact fl borrow_amount pool1; impact2 = wide_impact fl a1 pool2;
          impact3 = wide_impact fl a2 pool3 in
      and_then (guard_or Skip (\<not> np \<le> 0)) (\<lambda>_.
      and_then (guard_or Skip (\<not> (fl_lt fl (MAX_IMPACT_PCT fl) impact1 \<or> fl_lt fl (MAX_IMPACT_PCT fl) impact2
        \<or> fl_lt fl (MAX_IMPACT_PCT fl) impact3))) (\<lambda>_.
        Inr \<lparr>rp_hops = [cross_hop pool1 anchor token_x a1 impact1, cross_hop pool2 token_x token_y a2 impact2,
               cross_hop pool3 token_y anchor a3 impact3],
             rp_borrow_amount = borrow_amount, rp_gross_profit = gp, rp_net_profit = np,
             rp_risk_factor = fl_lit fl ''0.3'', rp_strategy = ''cross_dex_3hop'', rp_tier = 0\<rparr>))))))))))"

text \<open>The triangle over one pool between the second and the third token, if the reference amount pays.\<close>

definition triangle_via :: "'f f64_ops \<Rightarrow> nat \<Rightarrow> (pubkey \<times> (pubkey \<times> dex_pool) list) list \<Rightarrow> u64 list \<Rightarrow> pubkey \<Rightarrow> pubkey
    \<Rightarrow> dex_pool \<times> u64 \<Rightarrow> pubkey \<times> dex_pool \<Rightarrow> skip + 'f route_params" where
  "triangle_via fl now adj borrow_amounts anchor token_x = (\<lambda>(pool1, amount_x) (token_y, pool2).
     (let ref_amount = reference_borrow borrow_amounts in
      and_then (guard_or Skip (\<not> (token_y = anchor \<or> token_y = token_x))) (\<lambda>_.
      and_then (ok_or Skip (map_of adj token_y)) (\<lambda>hop3_neighbors.
      (let hop3_pools = map snd (filter (\<lambda>(t, _). t = anchor) hop3_neighbors) in
       and_then (guard_or Skip (hop3_pools \<noteq> [])) (\<lambda>_.
       and_then (ok_or Panic (quote_from fl now pool2 token_x amount_x)) (\<lambda>amount_y.
       and_then (guard_or Skip (amount_y \<noteq> 0)) (\<lambda>_.
       and_then (best_quote fl now token_y amount_y hop3_pools) (\<lambda>(pool3, final_amount).
       and_then (guard_or Skip (\<not> final_amount \<le> ref_amount)) (\<lambda>_.
       (let return_pct = fl_div fl (fl_of_int fl (uint final_amount)) (fl_of_int fl (uint ref_amount)) in
        and_then (guard_or Skip (\<not> fl_lt fl (MAX_RETURN_MULTIPLIER fl) return_pct)) (\<lambda>_.
        (let gross_profit = final_amount - ref_amount; fees = CROSS_FEE_PER_HOP * 3;
             net_profit = wrap64 (sint gross_profit - sint fees);
             combined_fee_bps = dex_fee_bps (dp_dex_type pool1) + dex_fee_bps (dp_dex_type pool2) + dex_fee_bps (dp_dex_type pool3);
             margin_bps = fl_to_u64 fl (fl_mul fl (fl_sub fl return_pct (fl_lit fl ''1.0'')) (fl_lit fl ''10000.0'')) in
         and_then (guard_or Skip (\<not> margin_bps < combined_fee_bps + 20)) (\<lambda>_.
         and_then (guard_or Skip (\<not> net_profit < 1000)) (\<lambda>_.
         and_then (ok_or Panic (collect_kept (triangle_route fl now anchor pool1 token_x pool2 token_y pool3) borrow_amounts)) (\<lambda>routes.
           ok_or Skip (best_route routes)))))))))))))))))"

definition triangles_through :: "'f f64_ops \<Rightarrow> nat \<Rightarrow> (pubkey \<times> (pubkey \<times> dex_pool) list) list \<Rightarrow> u64 list \<Rightarrow> pubkey
    \<Rightarrow> (pubkey \<times> dex_pool) list \<Rightarrow> pubkey \<Rightarrow> skip + 'f route_params list" where
  "triangles_through fl now adj borrow_amounts anchor hop1_neighbors token_x =
     and_then (best_quote fl now anchor (reference_borrow borrow_amounts)
       (map snd (filter (\<lambda>(t, _). t = token_x) hop1_neighbors))) (\<lambda>best_hop1.
     and_then (ok_or Skip (map_of adj token_x)) (\<lambda>hop2_neighbors.
       ok_or Panic (collect_kept (triangle_via fl now adj borrow_amounts anchor token_x best_hop1) hop2_neighbors)))"

definition triangles_from :: "'f scan_env \<Rightarrow> nat \<Rightarrow> (pubkey \<times> (pubkey \<times> dex_pool) list) list \<Rightarrow> u64 list \<Rightarrow> pubkey
    \<Rightarrow> skip + 'f route_params list" where
  "triangles_from env now adj borrow_amounts anchor =
     and_then (ok_or Skip (map_of adj anchor)) (\<lambda>hop1_neighbors.
     (let unique_x = remdups (map fst (filter (\<lambda>(t, _). t \<noteq> anchor \<and> t \<notin> set CROSS_ANCHORS) hop1_neighbors)) in
      and_then (guard_or Skip (\<not> length unique_x > 200)) (\<lambda>_.
        ok_or Panic (collect_concat (triangles_through (sv_floats env) now adj borrow_amounts anchor hop1_neighbors)
          (sv_token_order env unique_x)))))"

definition scan_cross_dex_3hop :: "'f scan_env \<Rightarrow> nat \<Rightarrow> pool_cache \<Rightarrow> u64 list \<Rightarrow> 'f route_params list option" where
  "scan_cross_dex_3hop env now pool_cache borrow_amounts = do {
     routes \<leftarrow> collect_concat (triangles_from env now (adjacency pool_cache) borrow_amounts) CROSS_ANCHORS;
     Some (take 20 (ranked pool_cache routes)) }"

section \<open>Hot routes\<close>

record hot_route =
  hr_pool_a :: pubkey
  hr_pool_b :: pubkey
  hr_token_a :: pubkey
  hr_token_b :: pubkey
  hr_freq :: u64
  hr_avg_profit :: int
  hr_max_profit :: int

definition by_rate :: "'f f64_ops \<Rightarrow> 'f pool_rate \<Rightarrow> 'f pool_rate \<Rightarrow> ('f pool_rate \<times> 'f pool_rate) option" where
  "by_rate fl a b =
     (if fl_lt fl (pr_rate_a_to_b b) (pr_rate_a_to_b a) then Some (a, b)
      else if fl_lt fl (pr_rate_a_to_b a) (pr_rate_a_to_b b) then Some (b, a) else None)"

definition hot_route_routes :: "'f f64_ops \<Rightarrow> nat \<Rightarrow> pool_cache \<Rightarrow> u64 list \<Rightarrow> hot_route \<Rightarrow> skip + 'f route_params list" where
  "hot_route_routes fl now pool_cache borrow_amounts hr =
     and_then (ok_or Skip (get_pool pool_cache (hr_pool_a hr))) (\<lambda>pool_a.
     and_then (ok_or Skip (get_pool pool_cache (hr_pool_b hr))) (\<lambda>pool_b.
     and_then (guard_or Skip (\<not> dust pool_a \<and> \<not> dust pool_b)) (\<lambda>_.
     (let key = pair_key (hr_token_a hr) (hr_token_b hr); reference_amount = reference_borrow borrow_amounts;
          pool_a_canonical = (dp_token_a pool_a = fst key); pool_b_canonical = (dp_token_a pool_b = fst key) in
      and_then (guard_or Skip (lendable_pair key)) (\<lambda>_.
      and_then (quoted_rate fl now reference_amount pool_a_canonical pool_a) (\<lambda>rate_a.
      and_then (quoted_rate fl now reference_amount pool_b_canonical pool_b) (\<lambda>rate_b.
      and_then (guard_or Skip (usable_rate fl rate_a \<and> usable_rate fl rate_b)) (\<lambda>_.
      (let a = \<lparr>pr_pool = pool_a, pr_rate_a_to_b = rate_a, pr_canonical_order = pool_a_canonical\<rparr>;
           b = \<lparr>pr_pool = pool_b, pr_rate_a_to_b = rate_b, pr_canonical_order = pool_b_canonical\<rparr> in
       and_then (ok_or Skip (by_rate fl a b)) (\<lambda>(high, low).
       (let high_rate = fl_max fl rate_a rate_b; low_rate = fl_min fl rate_a rate_b;
            min_divergence = dex_fee_bps (dp_dex_type (pr_pool high)) + dex_fee_bps (dp_dex_type (pr_pool low))
              + MIN_MARGIN_ABOVE_FEES_BPS div 2 in
        and_then (guard_or Skip (\<not> divergence_bps fl high_rate low_rate < min_divergence)) (\<lambda>_.
        and_then (best_both_ways fl now key borrow_amounts high low) (\<lambda>routes.
          Inr (map (\<lambda>r. r\<lparr>rp_strategy := ''hot-route''\<rparr>) routes))))))))))))))"

definition scan_hot_routes :: "'f f64_ops \<Rightarrow> nat \<Rightarrow> pool_cache \<Rightarrow> hot_route list \<Rightarrow> u64 list \<Rightarrow> 'f route_params list option" where
  "scan_hot_routes fl now pool_cache hot_routes borrow_amounts = do {
     routes \<leftarrow> collect_concat (hot_route_routes fl now pool_cache borrow_amounts) hot_routes;
     Some (ranked pool_cache routes) }"

record 'f multi_hop_hot_route =
  mh_pools :: "pubkey list"
  mh_tokens :: "pubkey list"
  mh_dex_types :: "string list"
  mh_borrow_mint :: pubkey
  mh_borrow_amount :: u64
  mh_expected_profit :: int
  mh_ml_score :: 'f
  mh_competition :: 'f

definition multihop_impact :: "'f f64_ops \<Rightarrow> u64 \<Rightarrow> u64 \<Rightarrow> 'f" where
  "multihop_impact fl current reserve =
     (if reserve > 0
      then fl_mul fl (fl_div fl (fl_of_int fl (uint current)) (fl_of_int fl (uint reserve))) (fl_lit fl ''100.0'')
      else fl_lit fl ''100.0'')"

text \<open>The loop over the pools, with the tokens that are left; \<open>Skip\<close> is \<^verbatim>\<open>valid = false\<close>.\<close>

fun multihop_hops :: "'f f64_ops \<Rightarrow> nat \<Rightarrow> u64 \<Rightarrow> pubkey list \<Rightarrow> dex_pool list \<Rightarrow> skip + 'f hop list \<times> u64" where
  "multihop_hops fl now current tokens [] = Inr ([], current)"
| "multihop_hops fl now current (token_in # token_out # tokens) (pool # pools) =
     and_then (if dp_token_a pool = token_in then ok_or Panic (quote_a_to_b fl now current pool)
       else if dp_token_b pool = token_in then ok_or Panic (quote_b_to_a fl now current pool)
       else Inr 0) (\<lambda>amount_out.
     and_then (guard_or Skip (amount_out \<noteq> 0)) (\<lambda>_.
     (let impact = (if dp_token_a pool = token_in then multihop_impact fl current (dp_reserve_a pool)
                    else multihop_impact fl current (dp_reserve_b pool)) in
      and_then (guard_or Skip (\<not> fl_lt fl (fl_lit fl ''10.0'') impact)) (\<lambda>_.
      and_then (multihop_hops fl now amount_out (token_out # tokens) pools) (\<lambda>(hops, last_amount).
        Inr (cross_hop pool token_in token_out amount_out impact # hops, last_amount))))))"
| "multihop_hops fl now current _ (pool # pools) = Inl Skip"

definition multihop_route :: "'f f64_ops \<Rightarrow> nat \<Rightarrow> pubkey list \<Rightarrow> dex_pool list \<Rightarrow> u64 \<Rightarrow> skip + 'f route_params" where
  "multihop_route fl now tokens pools borrow_amount =
     and_then (multihop_hops fl now borrow_amount tokens pools) (\<lambda>(hops, current).
     and_then (guard_or Skip (\<not> current \<le> borrow_amount)) (\<lambda>_.
     (let gross_profit = current - borrow_amount; tx_cost = wrap64 (5000 + 5000 * int (length hops));
          net_profit = wrap64 (sint gross_profit - tx_cost) in
      and_then (guard_or Skip (net_profit > 5000)) (\<lambda>_.
      (let max_impact = fold (\<lambda>h m. fl_max fl m (hop_price_impact h)) hops (fl_lit fl ''0.0'') in
        Inr \<lparr>rp_hops = hops, rp_borrow_amount = borrow_amount, rp_gross_profit = gross_profit,
             rp_net_profit = net_profit,
             rp_risk_factor = fl_min fl (fl_div fl max_impact (fl_lit fl ''100.0'')) (fl_lit fl ''1.0''),
             rp_strategy = ''hot-route'', rp_tier = 0\<rparr>)))))"

definition multihop_routes :: "'f f64_ops \<Rightarrow> nat \<Rightarrow> pool_cache \<Rightarrow> u64 list \<Rightarrow> 'f multi_hop_hot_route \<Rightarrow> skip + 'f route_params list" where
  "multihop_routes fl now pool_cache borrow_amounts hr =
     (let pools = List.map_filter (get_pool pool_cache) (mh_pools hr) in
      and_then (guard_or Skip (length pools = length (mh_pools hr))) (\<lambda>_.
        ok_or Panic (collect_kept (multihop_route fl now (mh_tokens hr) pools) borrow_amounts)))"

definition scan_multihop_hot_routes :: "'f f64_ops \<Rightarrow> nat \<Rightarrow> pool_cache \<Rightarrow> 'f multi_hop_hot_route list \<Rightarrow> u64 list
    \<Rightarrow> 'f route_params list option" where
  "scan_multihop_hot_routes fl now pool_cache hot_routes borrow_amounts = do {
     routes \<leftarrow> collect_concat (multihop_routes fl now pool_cache borrow_amounts) hot_routes;
     Some (ranked pool_cache routes) }"

end
