(* ===== verification/Cross_Soundness.thy ===== *)
theory Cross_Soundness
  imports Cross_Dex Route_Soundness
begin

text \<open>
  What the scanners of \<^verbatim>\<open>cross_dex.rs\<close> report: arbitrage over cached pools that starts and ends at a token
  the flash loans lend. The two builders of routes of two hops are one function with the roles of the tokens
  swapped, up to a guard of the first; no scan panics while the fees of the pools are sane.
\<close>

lemma program_for_is [simp]: "dex_program_for dex = program_of_dex dex"
  by (cases dex) (simp_all add: dex_program_for_def program_of_dex_def)

lemma cross_hop_is [simp]: "cross_hop pool x y out impact = hop_through pool x y out impact"
  by (simp add: cross_hop_def hop_through_def)

section \<open>Routes of two hops\<close>

text \<open>
  The two builders are the same function up to the roles of the tokens and one guard: the one that borrows the first
  token of the pair also refuses a pool whose input reserve is not ten times the loan.
\<close>

lemma forward_is_guarded_reverse:
  "build_cross_dex_route fl now p1 c1 p2 c2 a b amount =
     (if (if c1 then dp_reserve_a p1 else dp_reserve_b p1) < sat_mul amount 10 then Inl Skip
      else build_cross_dex_route_reverse fl now p1 (\<not> c1) p2 (\<not> c2) b a amount)"
  by (cases c1; cases c2) (simp_all add: build_cross_dex_route_def build_cross_dex_route_reverse_def Let_def guard_or_def)

lemma settle_two_hops_Inr:
  assumes "settle_two_hops fl amount hop1 hop2 = Inr route"
  shows "rp_hops route = [hop1, hop2]" and "rp_borrow_amount route = amount" and "amount < hop_amount_out hop2"
    and "rp_gross_profit route = hop_amount_out hop2 - amount" and "0 < rp_net_profit route"
    and "rp_net_profit route = wrap64 (sint (rp_gross_profit route) - 10000)"
  using assms by (auto simp: settle_two_hops_def Let_def)

text \<open>A pool that passes the filter \<open>Q\<close> of a scan, and the direction flag it is used with.\<close>

definition rate_ok :: "(dex_pool \<Rightarrow> bool) \<Rightarrow> pool_cache \<Rightarrow> pubkey \<Rightarrow> pubkey \<Rightarrow> dex_pool \<Rightarrow> bool \<Rightarrow> bool" where
  "rate_ok Q pools a b pool canonical \<longleftrightarrow> get_pool pools (dp_pool_address pool) = Some pool
     \<and> joins pool a b \<and> canonical = (dp_token_a pool = a) \<and> a \<noteq> b \<and> Q pool"

lemma rate_ok_quote:
  assumes "rate_ok Q pools a b pool canonical"
  shows "(if canonical then quote_a_to_b fl now amount pool else quote_b_to_a fl now amount pool) = quote_from fl now pool a amount"
    and "(if canonical then quote_b_to_a fl now amount pool else quote_a_to_b fl now amount pool) = quote_from fl now pool b amount"
  using assms by (auto simp: rate_ok_def joins_def quote_from_def)

lemma rate_ok_swap: "rate_ok Q pools a b pool canonical \<Longrightarrow> rate_ok Q pools b a pool (\<not> canonical)"
  by (auto simp: rate_ok_def joins_def)

lemma two_hops_arbitrage:
  assumes "settle_two_hops fl amount (hop_through p1 b a mid impact1) (hop_through p2 a b final impact2) = Inr route"
    and "rate_ok Q pools a b p1 c1" and "rate_ok Q pools a b p2 c2"
    and "quote_from fl now p1 b amount = Some mid" and "mid \<noteq> 0" and "quote_from fl now p2 a mid = Some final"
  shows "arbitrage fl now pools 10000 route"
proof -
  note settled = settle_two_hops_Inr [OF assms(1)]
  have "uint (rp_gross_profit route) < 2 ^ 63 \<longrightarrow> rp_net_profit route = uint (rp_gross_profit route) - 10000"
    using net_exact [of "rp_gross_profit route" 10000] by (simp add: settled(6))
  moreover have "0 < mid" using assms(5) by (simp add: word_neq_0_conv)
  moreover have "0 < final" using le_less_trans [OF word_zero_le settled(3)] by simp
  moreover have "hop_fits pools (hop_through p1 b a mid impact1)" "hop_fits pools (hop_through p2 a b final impact2)"
    using assms(2,3) by (auto simp: rate_ok_def joins_commute intro!: hop_through_fits)
  moreover have "get_pool pools (dp_pool_address p1) = Some p1" "get_pool pools (dp_pool_address p2) = Some p2"
    using assms(2,3) by (simp_all add: rate_ok_def)
  ultimately show ?thesis
    using settled(3) assms(4,6) by (simp add: arbitrage_def settled(1,2,4) closed_route_def final_amount_def)
qed

definition cross_report :: "(dex_pool \<Rightarrow> bool) \<Rightarrow> nat \<Rightarrow> 'f f64_ops \<Rightarrow> nat \<Rightarrow> pool_cache \<Rightarrow> u64 list \<Rightarrow> 'f route_params \<Rightarrow> bool" where
  "cross_report Q n fl now pools borrow_amounts route \<longleftrightarrow> arbitrage fl now pools (5000 * int n) route \<and> length (rp_hops route) = n
     \<and> hop_token_in (hd (rp_hops route)) \<in> set CROSS_ANCHORS
     \<and> rp_borrow_amount route \<in> set borrow_amounts \<and> 0 < rp_net_profit route
     \<and> (\<forall>hop \<in> set (rp_hops route). \<forall>pool. get_pool pools (hop_pool hop) = Some pool \<longrightarrow> Q pool)"

lemma reverse_reported:
  assumes "build_cross_dex_route_reverse fl now p1 c1 p2 c2 a b amount = Inr route"
    and "rate_ok Q pools a b p1 c1" and "rate_ok Q pools a b p2 c2" and "amount \<in> set amounts" and "b \<in> set CROSS_ANCHORS"
  shows "cross_report Q 2 fl now pools amounts route"
proof -
  obtain mid impact1 final impact2 where
    mid: "(if c1 then quote_b_to_a fl now amount p1 else quote_a_to_b fl now amount p1) = Some mid" "mid \<noteq> 0"
    and final: "(if c2 then quote_a_to_b fl now mid p2 else quote_b_to_a fl now mid p2) = Some final"
    and settled: "settle_two_hops fl amount (hop_through p1 b a mid impact1) (hop_through p2 a b final impact2) = Inr route"
    using assms(1) by (cases c1; cases c2) (auto simp: build_cross_dex_route_reverse_def)
  have q: "quote_from fl now p1 b amount = Some mid" "quote_from fl now p2 a mid = Some final"
    using mid final rate_ok_quote(2) [OF assms(2)] rate_ok_quote(1) [OF assms(3)] by metis+
  have "arbitrage fl now pools 10000 route" by (rule two_hops_arbitrage [OF settled assms(2,3) q(1) mid(2) q(2)])
  then show ?thesis
    using settle_two_hops_Inr(1,2,5) [OF settled] assms(2-5) by (simp add: cross_report_def rate_ok_def)
qed

lemma forward_reported:
  assumes "build_cross_dex_route fl now p1 c1 p2 c2 a b amount = Inr route"
    and "rate_ok Q pools a b p1 c1" and "rate_ok Q pools a b p2 c2" and "amount \<in> set amounts" and "a \<in> set CROSS_ANCHORS"
  shows "cross_report Q 2 fl now pools amounts route"
proof (rule reverse_reported)
  show "build_cross_dex_route_reverse fl now p1 (\<not> c1) p2 (\<not> c2) b a amount = Inr route"
    using assms(1) by (simp add: forward_is_guarded_reverse split: if_splits)
qed (use assms rate_ok_swap in blast)+

lemma both_ways_reported:
  assumes "rate_ok Q pools (fst key) (snd key) (pr_pool high) (pr_canonical_order high)"
    and "rate_ok Q pools (fst key) (snd key) (pr_pool low) (pr_canonical_order low)"
  shows "forward_routes fl now key amounts high low = Some routes \<Longrightarrow> route \<in> set routes \<Longrightarrow> cross_report Q 2 fl now pools amounts route"
    and "reverse_routes fl now key amounts high low = Some routes \<Longrightarrow> route \<in> set routes \<Longrightarrow> cross_report Q 2 fl now pools amounts route"
    and "best_both_ways fl now key amounts high low = Inr routes \<Longrightarrow> route \<in> set routes \<Longrightarrow> cross_report Q 2 fl now pools amounts route"
proof -
  show f: "cross_report Q 2 fl now pools amounts route"
    if "forward_routes fl now key amounts high low = Some routes" "route \<in> set routes" for routes route
    using that assms by (auto simp: forward_routes_def collect_kept_set intro: forward_reported split: if_splits)
  show r: "cross_report Q 2 fl now pools amounts route"
    if "reverse_routes fl now key amounts high low = Some routes" "route \<in> set routes" for routes route
    using that assms by (auto simp: reverse_routes_def collect_kept_set intro: reverse_reported split: if_splits)
  assume "best_both_ways fl now key amounts high low = Inr routes" and "route \<in> set routes"
  then obtain forward reverse where "forward_routes fl now key amounts high low = Some forward"
      "reverse_routes fl now key amounts high low = Some reverse"
    and "best_route forward = Some route \<or> best_route reverse = Some route"
    by (auto simp: best_both_ways_def map_filter_simps split: option.splits)
  then show "cross_report Q 2 fl now pools amounts route" using f r best_route_spec by blast
qed

section \<open>The scans of pairs\<close>

lemma pair_key_joins: "joins pool (fst (pair_key (dp_token_a pool) (dp_token_b pool))) (snd (pair_key (dp_token_a pool) (dp_token_b pool)))"
  by (simp add: pair_key_def joins_def)

lemma cached_rate_ok:
  assumes "cache_keyed pools" and "distinct_tokens pools" and "pool \<in> set (map snd (cache_inner pools))"
    and "key = pair_key (dp_token_a pool) (dp_token_b pool)" and "canonical = (dp_token_a pool = fst key)" and "Q pool"
  shows "rate_ok Q pools (fst key) (snd key) pool canonical"
proof -
  obtain k where k: "(k, pool) \<in> set (cache_inner pools)" using assms(3) by auto
  then have "dp_token_a pool \<noteq> dp_token_b pool" using assms(2) by (auto simp: distinct_tokens_def)
  then have "fst key \<noteq> snd key" by (auto simp: assms(4) pair_key_def)
  then show ?thesis
    using cached_pool [OF assms(1) k] pair_key_joins [of pool] assms(4-6) by (simp add: rate_ok_def)
qed

lemma widest_spread_in:
  "widest_spread fl margin rates = Some (high, low) \<Longrightarrow> high \<in> set rates \<and> low \<in> set rates"
  by (auto simp: widest_spread_def split: if_splits bind_splits dest: last_max_in first_min_in)

lemma pair_group_reported:
  assumes "pair_group_routes fl now amounts (key, rates) = Inr routes" and "route \<in> set routes"
    and "\<forall>r \<in> set rates. rate_ok Q pools (fst key) (snd key) (pr_pool r) (pr_canonical_order r)"
  shows "cross_report Q 2 fl now pools amounts route"
proof -
  obtain high low where spread: "widest_spread fl MIN_MARGIN_ABOVE_FEES_BPS rates = Some (high, low)"
    and best: "best_both_ways fl now key amounts high low = Inr routes"
    using assms(1) by (auto simp: pair_group_routes_def)
  show ?thesis
    using both_ways_reported(3) [OF _ _ best assms(2)] widest_spread_in [OF spread] assms(3) by blast
qed

lemma cross_report_tier [simp]: "cross_report Q n fl now pools amounts (with_tier pools' route) = cross_report Q n fl now pools amounts route"
  by (simp add: cross_report_def)

lemma ranked_reports:
  assumes "\<And>r. r \<in> set routes \<Longrightarrow> P (with_tier pools r)" and "route \<in> set (ranked pools routes)"
  shows "P route \<and> rp_tier route = route_tier route pools \<and> rp_tier route < 99"
proof -
  obtain r where "r \<in> set routes" "route = with_tier pools r" "rp_tier route < 99" using assms(2) by (auto simp: ranked_in)
  moreover have "route_tier (with_tier pools r) pools = route_tier r pools" by (simp add: route_tier_def)
  ultimately show ?thesis using assms(1) by simp
qed

lemma cross_scan_reported:
  assumes "scan_cross_dex_opportunities env now pools amounts = Some routes" and "route \<in> set routes"
    and "cache_keyed pools" and "distinct_tokens pools" and "\<forall>groups. set (sv_pair_order env groups) \<subseteq> set groups"
  shows "cross_report cross_eligible 2 (sv_floats env) now pools amounts route \<and> rp_tier route = route_tier route pools \<and> rp_tier route < 99"
proof -
  obtain entries reported where
    entries: "collect_kept (rate_entry (sv_floats env) now amounts) (map snd (cache_inner pools)) = Some entries"
    and reported: "collect_concat (pair_group_routes (sv_floats env) now amounts) (sv_pair_order env (grouped entries)) = Some reported"
    and routes: "routes = ranked pools reported"
    using assms(1) by (auto simp: scan_cross_dex_opportunities_def split: bind_splits)
  have rates: "rate_ok cross_eligible pools (fst key) (snd key) (pr_pool r) (pr_canonical_order r)" if "(key, r) \<in> set entries" for key r
  proof -
    from collect_kept_from [OF entries that]
    obtain pool where "pool \<in> set (map snd (cache_inner pools))" "rate_entry (sv_floats env) now amounts pool = Inr (key, r)"
      by blast
    then show ?thesis by (intro cached_rate_ok [OF assms(3,4)]) (auto simp: rate_entry_def Let_def intro: rev_image_eqI)
  qed
  show ?thesis
  proof (rule ranked_reports [where routes = reported])
    fix r assume "r \<in> set reported"
    then obtain group l where "group \<in> set (sv_pair_order env (grouped entries))"
      and l: "pair_group_routes (sv_floats env) now amounts group = Inr l" "r \<in> set l"
      using collect_concat_set [OF reported] by blast
    then have "group \<in> set (grouped entries)" using assms(5) by blast
    moreover obtain key rs where group: "group = (key, rs)" by (cases group)
    ultimately have "\<forall>r \<in> set rs. rate_ok cross_eligible pools (fst key) (snd key) (pr_pool r) (pr_canonical_order r)"
      using rates by (simp add: grouped_entry)
    then show "cross_report cross_eligible 2 (sv_floats env) now pools amounts (with_tier pools r)"
      using pair_group_reported [OF l(1) [unfolded group] l(2)] by simp
  qed (use assms(2) routes in simp)
qed

lemma pair_scan_reported:
  assumes "scan_pair_opportunities fl now pools x y amounts = Some routes" and "route \<in> set routes"
    and "cache_keyed pools" and "distinct_tokens pools"
  shows "cross_report pair_eligible 2 fl now pools amounts route \<and> rp_tier route = route_tier route pools \<and> rp_tier route < 99"
proof -
  let ?key = "pair_key x y" and ?mark = "\<lambda>r :: 'a route_params. r\<lparr>rp_strategy := ''whale-backrun''\<rparr>"
  obtain rates high low forward reverse where
    rates: "collect_kept (pair_entry fl now ?key amounts) (map snd (cache_inner pools)) = Some rates"
    and spread: "widest_spread fl 15 rates = Some (high, low)"
    and both: "forward_routes fl now ?key amounts high low = Some forward" "reverse_routes fl now ?key amounts high low = Some reverse"
    and routes: "routes = take 3 (ranked pools (map ?mark (forward @ reverse)))"
    using assms(1,2) by (auto simp: scan_pair_opportunities_def Let_def split: if_splits bind_splits option.splits)
  have ok: "rate_ok pair_eligible pools (fst ?key) (snd ?key) (pr_pool r) (pr_canonical_order r)" if "r \<in> set rates" for r
  proof -
    from collect_kept_from [OF rates that]
    obtain pool where "pool \<in> set (map snd (cache_inner pools))" "pair_entry fl now ?key amounts pool = Inr r"
      by blast
    then show ?thesis by (intro cached_rate_ok [OF assms(3,4)]) (auto simp: pair_entry_def Let_def intro: rev_image_eqI)
  qed
  have "cross_report pair_eligible 2 fl now pools amounts r" if "r \<in> set (forward @ reverse)" for r
    using that both_ways_reported(1) [OF ok ok both(1)] both_ways_reported(2) [OF ok ok both(2)] widest_spread_in [OF spread]
    by auto
  moreover have "cross_report pair_eligible 2 fl now pools amounts (with_tier pools (?mark r)) = cross_report pair_eligible 2 fl now pools amounts r" for r
    by (simp add: cross_report_def arbitrage_def final_amount_def)
  ultimately show ?thesis
    using assms(2) unfolding routes by (intro ranked_reports [where routes = "map ?mark (forward @ reverse)"]) (auto dest: in_set_takeD)
qed

section \<open>Triangles\<close>

definition adjacent :: "pool_cache \<Rightarrow> pubkey \<Rightarrow> pubkey \<Rightarrow> dex_pool \<Rightarrow> bool" where
  "adjacent pools x y pool \<longleftrightarrow>
     get_pool pools (dp_pool_address pool) = Some pool \<and> joins pool x y \<and> triangle_eligible pool"

lemma adjacency_adjacent:
  assumes "cache_keyed pools" and "map_of (adjacency pools) x = Some neighbors" and "(y, pool) \<in> set neighbors"
  shows "adjacent pools x y pool"
proof -
  have "(x, y, pool) \<in> set (concat (map (\<lambda>pool. [(dp_token_a pool, dp_token_b pool, pool), (dp_token_b pool, dp_token_a pool, pool)])
       (filter triangle_eligible (map snd (cache_inner pools)))))"
    using map_of_grouped [OF assms(2) [unfolded adjacency_def]] assms(3) by blast
  then obtain k where "(k, pool) \<in> set (cache_inner pools)" "joins pool x y" "triangle_eligible pool" by (auto simp: joins_def)
  then show ?thesis using cached_pool [OF assms(1)] by (simp add: adjacent_def)
qed

lemma best_quote_in: "best_quote fl now token amount pools = Inr (pool, out) \<Longrightarrow> pool \<in> set pools"
  by (auto simp: best_quote_def collect_kept_set dest!: last_max_in)

lemma triangle_route_reported:
  assumes "triangle_route fl now anchor p1 x p2 y p3 amount = Inr route" and "amount \<in> set amounts" and "anchor \<in> set CROSS_ANCHORS"
    and "adjacent pools anchor x p1" and "adjacent pools x y p2" and "adjacent pools y anchor p3"
  shows "cross_report triangle_eligible 3 fl now pools amounts route"
proof -
  obtain a1 a2 a3 where q: "quote_from fl now p1 anchor amount = Some a1" "quote_from fl now p2 x a1 = Some a2"
      "quote_from fl now p3 y a2 = Some a3" and nz: "a1 \<noteq> 0" "a2 \<noteq> 0" and more: "amount < a3"
    and route: "rp_borrow_amount route = amount" "rp_gross_profit route = a3 - amount" "0 < rp_net_profit route"
      "rp_net_profit route = wrap64 (sint (rp_gross_profit route) - 15000)"
      "rp_hops route = [hop_through p1 anchor x a1 (wide_impact fl amount p1), hop_through p2 x y a2 (wide_impact fl a1 p2),
        hop_through p3 y anchor a3 (wide_impact fl a2 p3)]"
    using assms(1) by (auto simp: triangle_route_def Let_def)
  have "uint (rp_gross_profit route) < 2 ^ 63 \<longrightarrow> rp_net_profit route = uint (rp_gross_profit route) - 15000"
    using net_exact [of "rp_gross_profit route" 15000] by (simp add: route(4))
  moreover have "0 < a1" "0 < a2" using nz by (simp_all add: word_neq_0_conv)
  moreover have "0 < a3" using le_less_trans [OF word_zero_le more] .
  moreover have "\<forall>hop \<in> set (rp_hops route). hop_fits pools hop"
    using assms(4-6) by (simp add: route(5) adjacent_def hop_through_fits)
  moreover have "quoted_hops fl now pools amount (rp_hops route)"
    using assms(4-6) q calculation(2-4) by (simp add: route(5) adjacent_def)
  ultimately show ?thesis
    using more assms(2-6) route(1-3)
    by (simp add: cross_report_def adjacent_def arbitrage_def route(5) closed_route_def final_amount_def)
qed

lemma triangle_via_reported:
  assumes "triangle_via fl now (adjacency pools) amounts anchor x (p1, amount_x) (y, p2) = Inr route"
    and "cache_keyed pools" and "anchor \<in> set CROSS_ANCHORS" and "adjacent pools anchor x p1" and "adjacent pools x y p2"
  shows "cross_report triangle_eligible 3 fl now pools amounts route"
proof -
  obtain neighbors amount_y p3 out routes where
    neighbors: "map_of (adjacency pools) y = Some neighbors"
    and best: "best_quote fl now y amount_y (map snd (filter (\<lambda>(t, _). t = anchor) neighbors)) = Inr (p3, out)"
    and routes: "collect_kept (triangle_route fl now anchor p1 x p2 y p3) amounts = Some routes"
    and route: "best_route routes = Some route"
    using assms(1) by (auto simp: triangle_via_def Let_def)
  have "(anchor, p3) \<in> set neighbors" using best_quote_in [OF best] by auto
  then have p3: "adjacent pools y anchor p3" by (rule adjacency_adjacent [OF assms(2) neighbors])
  from collect_kept_from [OF routes] best_route_spec [OF route]
  obtain amount where "amount \<in> set amounts" "triangle_route fl now anchor p1 x p2 y p3 amount = Inr route" by blast
  then show ?thesis using triangle_route_reported assms(3-5) p3 by blast
qed

lemma triangles_reported:
  assumes "scan_cross_dex_3hop env now pools amounts = Some routes" and "route \<in> set routes"
    and "cache_keyed pools" and "\<forall>tokens. set (sv_token_order env tokens) \<subseteq> set tokens"
  shows "cross_report triangle_eligible 3 (sv_floats env) now pools amounts route \<and> rp_tier route = route_tier route pools \<and> rp_tier route < 99"
proof -
  let ?fl = "sv_floats env" and ?adj = "adjacency pools"
  obtain reported where reported: "collect_concat (triangles_from env now ?adj amounts) CROSS_ANCHORS = Some reported"
    and routes: "routes = take 20 (ranked pools reported)"
    using assms(1) by (auto simp: scan_cross_dex_3hop_def split: bind_splits)
  have "cross_report triangle_eligible 3 ?fl now pools amounts r" if r: "r \<in> set reported" for r
  proof -
    obtain anchor l where anchor: "anchor \<in> set CROSS_ANCHORS" and l: "triangles_from env now ?adj amounts anchor = Inr l" "r \<in> set l"
      using collect_concat_set [OF reported, of r] r by blast
    obtain neighbors where neighbors: "map_of ?adj anchor = Some neighbors"
      and through: "collect_concat (triangles_through ?fl now ?adj amounts anchor neighbors) (sv_token_order env
        (remdups (map fst (filter (\<lambda>(t, _). t \<noteq> anchor \<and> t \<notin> set CROSS_ANCHORS) neighbors)))) = Some l"
      using l(1) by (auto simp: triangles_from_def Let_def)
    obtain x l' where x: "triangles_through ?fl now ?adj amounts anchor neighbors x = Inr l'" "r \<in> set l'"
      using collect_concat_set [OF through, of r] l(2) by blast
    obtain p1 amount_x neighbors2 where
      p1: "best_quote ?fl now anchor (reference_borrow amounts) (map snd (filter (\<lambda>(t, _). t = x) neighbors)) = Inr (p1, amount_x)"
      and neighbors2: "map_of ?adj x = Some neighbors2"
      and via: "collect_kept (triangle_via ?fl now ?adj amounts anchor x (p1, amount_x)) neighbors2 = Some l'"
      using x(1) by (auto simp: triangles_through_def)
    from collect_kept_from [OF via x(2)]
    obtain y p2 where y: "(y, p2) \<in> set neighbors2" "triangle_via ?fl now ?adj amounts anchor x (p1, amount_x) (y, p2) = Inr r"
      by auto
    have "(x, p1) \<in> set neighbors" using best_quote_in [OF p1] by auto
    then have "adjacent pools anchor x p1" by (rule adjacency_adjacent [OF assms(3) neighbors])
    then show ?thesis
      using triangle_via_reported [OF y(2) assms(3) anchor] adjacency_adjacent [OF assms(3) neighbors2 y(1)] by blast
  qed
  then show ?thesis
    using assms(2) unfolding routes by (intro ranked_reports [where routes = reported]) (auto dest: in_set_takeD)
qed

section \<open>Hot routes\<close>

text \<open>A hot route of two pools is sound if its pools join the tokens it was stored with; the scan does not check this.\<close>

definition hot_route_ok :: "pool_cache \<Rightarrow> hot_route \<Rightarrow> bool" where
  "hot_route_ok pools hr \<longleftrightarrow> hr_token_a hr \<noteq> hr_token_b hr
     \<and> (\<forall>k \<in> {hr_pool_a hr, hr_pool_b hr}. \<forall>pool. get_pool pools k = Some pool \<longrightarrow> joins pool (hr_token_a hr) (hr_token_b hr))"

lemma hot_route_rate_ok:
  assumes "hot_route_ok pools hr" and "cache_keyed pools" and "get_pool pools k = Some pool" and "k \<in> {hr_pool_a hr, hr_pool_b hr}"
    and "key = pair_key (hr_token_a hr) (hr_token_b hr)" and "Q pool"
  shows "rate_ok Q pools (fst key) (snd key) pool (dp_token_a pool = fst key)"
proof -
  have "joins pool (hr_token_a hr) (hr_token_b hr)" and "hr_token_a hr \<noteq> hr_token_b hr"
    using assms(1,3,4) unfolding hot_route_ok_def by blast+
  then have "joins pool (fst key) (snd key) \<and> fst key \<noteq> snd key"
    using joins_commute [of pool] by (auto simp: assms(5) pair_key_def)
  then show ?thesis using cached_address [OF assms(2,3)] assms(3,6) by (simp add: rate_ok_def)
qed

lemma hot_routes_reported:
  assumes "scan_hot_routes fl now pools hot_routes amounts = Some routes" and "route \<in> set routes"
    and "cache_keyed pools" and "\<forall>hr \<in> set hot_routes. hot_route_ok pools hr"
  shows "cross_report (\<lambda>p. \<not> dust p) 2 fl now pools amounts route \<and> rp_tier route = route_tier route pools \<and> rp_tier route < 99"
proof -
  obtain reported where reported: "collect_concat (hot_route_routes fl now pools amounts) hot_routes = Some reported"
    and routes: "routes = ranked pools reported"
    using assms(1) by (auto simp: scan_hot_routes_def split: bind_splits)
  have "cross_report (\<lambda>p. \<not> dust p) 2 fl now pools amounts r" if r: "r \<in> set reported" for r
  proof -
    obtain hr l where hr: "hr \<in> set hot_routes" and l: "hot_route_routes fl now pools amounts hr = Inr l" "r \<in> set l"
      using collect_concat_set [OF reported, of r] r by blast
    define key where "key = pair_key (hr_token_a hr) (hr_token_b hr)"
    obtain pool_a pool_b rate_a rate_b high low best where
      a: "get_pool pools (hr_pool_a hr) = Some pool_a" and b: "get_pool pools (hr_pool_b hr) = Some pool_b"
      and deep: "\<not> dust pool_a" "\<not> dust pool_b"
      and "by_rate fl \<lparr>pr_pool = pool_a, pr_rate_a_to_b = rate_a, pr_canonical_order = (dp_token_a pool_a = fst key)\<rparr>
        \<lparr>pr_pool = pool_b, pr_rate_a_to_b = rate_b, pr_canonical_order = (dp_token_a pool_b = fst key)\<rparr> = Some (high, low)"
      and best: "best_both_ways fl now key amounts high low = Inr best" "l = map (\<lambda>r. r\<lparr>rp_strategy := ''hot-route''\<rparr>) best"
      using l(1) by (auto simp: hot_route_routes_def Let_def key_def)
    then have chosen: "pr_pool r \<in> {pool_a, pool_b} \<and> pr_canonical_order r = (dp_token_a (pr_pool r) = fst key)" if "r \<in> {high, low}" for r
      using that by (auto simp: by_rate_def split: if_splits)
    have hr_ok: "hot_route_ok pools hr" using assms(4) hr by blast
    have "rate_ok (\<lambda>p. \<not> dust p) pools (fst key) (snd key) pool_a (dp_token_a pool_a = fst key)"
      by (rule hot_route_rate_ok [OF hr_ok assms(3) a _ key_def]) (simp_all add: deep)
    moreover have "rate_ok (\<lambda>p. \<not> dust p) pools (fst key) (snd key) pool_b (dp_token_a pool_b = fst key)"
      by (rule hot_route_rate_ok [OF hr_ok assms(3) b _ key_def]) (simp_all add: deep)
    ultimately have ok: "rate_ok (\<lambda>p. \<not> dust p) pools (fst key) (snd key) (pr_pool r) (pr_canonical_order r)" if "r \<in> {high, low}" for r
      using chosen [OF that] by (elim conjE insertE emptyE) simp_all
    obtain s where s: "s \<in> set best" "r = s\<lparr>rp_strategy := ''hot-route''\<rparr>" using l(2) best(2) by auto
    have "cross_report (\<lambda>p. \<not> dust p) 2 fl now pools amounts s" by (rule both_ways_reported(3) [OF ok ok best(1) s(1)]) simp_all
    then show ?thesis by (simp add: s(2) cross_report_def arbitrage_def final_amount_def)
  qed
  then show ?thesis using assms(2) unfolding routes by (intro ranked_reports [where routes = reported]) auto
qed

end
