(* ===== verification/Cross_Answers.thy ===== *)
theory Cross_Answers
  imports Cross_Soundness
begin

text \<open>
  The scanners of \<^verbatim>\<open>cross_dex.rs\<close> always answer, the tier of their routes, the hot routes of more than two
  hops, and their contract with the transaction builder.
\<close>

section \<open>No scan panics\<close>

abbreviation sane_fee :: "dex_pool \<Rightarrow> bool" where
  "sane_fee pool \<equiv> dp_fee_bps pool \<le> 10000"

lemma sane_quotes:
  assumes "sane_fee pool"
  shows "quote_a_to_b fl now amount pool \<noteq> None" and "quote_b_to_a fl now amount pool \<noteq> None"
    and "quote_from fl now pool token amount \<noteq> None"
  using pool_quotes_return [OF assms, of fl now amount] by (auto simp: quote_from_def)

lemma fees_sane_cached: "fees_sane pools \<Longrightarrow> pool \<in> set (map snd (cache_inner pools)) \<Longrightarrow> sane_fee pool"
  by (auto simp: fees_sane_def)

lemma fees_sane_get: "fees_sane pools \<Longrightarrow> get_pool pools k = Some pool \<Longrightarrow> sane_fee pool"
  by (auto simp: fees_sane_def get_pool_def dest!: map_of_SomeD)

lemmas cross_intros = no_panic_intros sane_quotes

lemma quoted_rate_no_panic: "sane_fee pool \<Longrightarrow> no_panic (quoted_rate fl now amount canonical pool)"
  unfolding quoted_rate_def by (intro cross_intros)

lemma settle_no_panic: "no_panic (settle_two_hops fl amount hop1 hop2)"
  unfolding settle_two_hops_def by (intro cross_intros)

lemma reverse_no_panic:
  "sane_fee p1 \<Longrightarrow> sane_fee p2 \<Longrightarrow> no_panic (build_cross_dex_route_reverse fl now p1 c1 p2 c2 a b amount)"
  unfolding build_cross_dex_route_reverse_def by (intro cross_intros settle_no_panic)

lemma forward_no_panic:
  "sane_fee p1 \<Longrightarrow> sane_fee p2 \<Longrightarrow> no_panic (build_cross_dex_route fl now p1 c1 p2 c2 a b amount)"
  unfolding forward_is_guarded_reverse by (intro cross_intros reverse_no_panic)

lemma directions_return:
  assumes "sane_fee (pr_pool high)" and "sane_fee (pr_pool low)"
  shows "forward_routes fl now key amounts high low \<noteq> None" and "reverse_routes fl now key amounts high low \<noteq> None"
  unfolding forward_routes_def reverse_routes_def by (intro cross_intros forward_no_panic reverse_no_panic assms)+

lemma best_both_ways_no_panic:
  "sane_fee (pr_pool high) \<Longrightarrow> sane_fee (pr_pool low) \<Longrightarrow> no_panic (best_both_ways fl now key amounts high low)"
  unfolding best_both_ways_def by (intro cross_intros directions_return)

lemma rate_entry_no_panic: "sane_fee pool \<Longrightarrow> no_panic (rate_entry fl now amounts pool)"
  unfolding rate_entry_def by (intro cross_intros quoted_rate_no_panic)

lemma pair_entry_no_panic: "sane_fee pool \<Longrightarrow> no_panic (pair_entry fl now key amounts pool)"
  unfolding pair_entry_def by (intro cross_intros quoted_rate_no_panic)

lemma rate_entry_pool: "rate_entry fl now amounts pool = Inr (key, r) \<Longrightarrow> pr_pool r = pool"
  by (auto simp: rate_entry_def Let_def)

lemma pair_entry_pool: "pair_entry fl now key amounts pool = Inr r \<Longrightarrow> pr_pool r = pool"
  by (auto simp: pair_entry_def Let_def)

lemma pair_group_no_panic:
  assumes "\<forall>r \<in> set rates. sane_fee (pr_pool r)" shows "no_panic (pair_group_routes fl now amounts (key, rates))"
  unfolding pair_group_routes_def prod.case
  by (intro cross_intros best_both_ways_no_panic) (use assms in \<open>auto dest!: widest_spread_in\<close>)

lemma cross_scan_returns:
  assumes "fees_sane pools" and "\<forall>groups. set (sv_pair_order env groups) \<subseteq> set groups"
  shows "scan_cross_dex_opportunities env now pools amounts \<noteq> None"
  unfolding scan_cross_dex_opportunities_def
proof (intro cross_intros rate_entry_no_panic fees_sane_cached [OF assms(1)])
  fix entries group
  assume entries: "collect_kept (rate_entry (sv_floats env) now amounts) (map snd (cache_inner pools)) = Some entries"
    and "group \<in> set (sv_pair_order env (grouped entries))"
  then have group: "group \<in> set (grouped entries)" using assms(2) by blast
  obtain key rates where g: "group = (key, rates)" by (cases group)
  have "sane_fee (pr_pool r)" if "r \<in> set rates" for r
  proof -
    have "(key, r) \<in> set entries" using group that by (simp add: g grouped_entry)
    from collect_kept_from [OF entries this] obtain pool where pool: "pool \<in> set (map snd (cache_inner pools))"
      and "rate_entry (sv_floats env) now amounts pool = Inr (key, r)" by blast
    then have "pr_pool r = pool" by (intro rate_entry_pool)
    then show ?thesis using fees_sane_cached [OF assms(1) pool] by simp
  qed
  then show "no_panic (pair_group_routes (sv_floats env) now amounts group)" by (simp add: g pair_group_no_panic)
qed

lemma pair_scan_returns:
  assumes "fees_sane pools" shows "scan_pair_opportunities fl now pools x y amounts \<noteq> None"
  unfolding scan_pair_opportunities_def
proof (intro cross_intros pair_entry_no_panic fees_sane_cached [OF assms])
  fix rates spread high low
  assume rates: "collect_kept (pair_entry fl now (pair_key x y) amounts) (map snd (cache_inner pools)) = Some rates"
    and "widest_spread fl 15 rates = Some spread" and "spread = (high, low)"
  then have "high \<in> set rates" "low \<in> set rates" by (auto dest: widest_spread_in)
  moreover have "sane_fee (pr_pool r)" if "r \<in> set rates" for r
  proof -
    from collect_kept_from [OF rates that] obtain pool where pool: "pool \<in> set (map snd (cache_inner pools))"
      and "pair_entry fl now (pair_key x y) amounts pool = Inr r" by blast
    then have "pr_pool r = pool" by (intro pair_entry_pool)
    then show ?thesis using fees_sane_cached [OF assms pool] by simp
  qed
  ultimately have "sane_fee (pr_pool high)" "sane_fee (pr_pool low)" by blast+
  then show "forward_routes fl now (pair_key x y) amounts high low \<noteq> None"
    "reverse_routes fl now (pair_key x y) amounts high low \<noteq> None"
    by (rule directions_return)+
qed

lemma hot_scan_returns:
  assumes "fees_sane pools" shows "scan_hot_routes fl now pools hot_routes amounts \<noteq> None"
  unfolding scan_hot_routes_def hot_route_routes_def
  by (intro cross_intros quoted_rate_no_panic best_both_ways_no_panic)
    (use fees_sane_get [OF assms] in \<open>auto simp: by_rate_def split: if_splits\<close>)

lemma best_quote_no_panic: "(\<And>p. p \<in> set pools \<Longrightarrow> sane_fee p) \<Longrightarrow> no_panic (best_quote fl now token amount pools)"
  unfolding best_quote_def by (intro cross_intros)

lemma triangle_route_no_panic:
  "sane_fee p1 \<Longrightarrow> sane_fee p2 \<Longrightarrow> sane_fee p3 \<Longrightarrow> no_panic (triangle_route fl now anchor p1 x p2 y p3 amount)"
  unfolding triangle_route_def by (intro cross_intros)

definition sane_adjacency :: "(pubkey \<times> (pubkey \<times> dex_pool) list) list \<Rightarrow> bool" where
  "sane_adjacency adj \<longleftrightarrow> (\<forall>x neighbors y pool. map_of adj x = Some neighbors \<longrightarrow> (y, pool) \<in> set neighbors \<longrightarrow> sane_fee pool)"

lemma sane_adjacency_picked:
  "sane_adjacency adj \<Longrightarrow> map_of adj x = Some neighbors \<Longrightarrow> pool \<in> set (map snd (filter P neighbors)) \<Longrightarrow> sane_fee pool"
  unfolding sane_adjacency_def by auto

lemma triangle_via_no_panic:
  assumes "sane_adjacency adj" and "sane_fee p1" and "sane_fee p2"
  shows "no_panic (triangle_via fl now adj amounts anchor x (p1, amount_x) (y, p2))"
  unfolding triangle_via_def prod.case
  by (intro cross_intros triangle_route_no_panic best_quote_no_panic assms)
    (use assms(1) in \<open>auto simp: sane_adjacency_def dest!: best_quote_in\<close>)

lemma adjacency_sane: "fees_sane pools \<Longrightarrow> sane_adjacency (adjacency pools)"
  unfolding sane_adjacency_def
proof (intro allI impI)
  fix x neighbors y pool
  assume sane: "fees_sane pools" and n: "map_of (adjacency pools) x = Some neighbors" and e: "(y, pool) \<in> set neighbors"
  have "(x, y, pool) \<in> set (concat (map (\<lambda>pool. [(dp_token_a pool, dp_token_b pool, pool), (dp_token_b pool, dp_token_a pool, pool)])
     (filter triangle_eligible (map snd (cache_inner pools)))))"
    using map_of_grouped [OF n [unfolded adjacency_def]] e by blast
  then show "sane_fee pool" using sane by (auto simp: fees_sane_def)
qed

lemma triangles_scan_returns:
  assumes "fees_sane pools" shows "scan_cross_dex_3hop env now pools amounts \<noteq> None"
  unfolding scan_cross_dex_3hop_def triangles_from_def triangles_through_def
proof (intro cross_intros best_quote_no_panic)
  note adj = adjacency_sane [OF assms]
  fix anchor neighbors x best_hop1 neighbors2 entry
  assume n: "ok_or Skip (map_of (adjacency pools) anchor) = Inr neighbors"
  then show "pool \<in> set (map snd (filter (\<lambda>(t, _). t = x) neighbors)) \<Longrightarrow> sane_fee pool" for pool
    using sane_adjacency_picked [OF adj] by simp
  assume best: "best_quote (sv_floats env) now anchor (reference_borrow amounts) (map snd (filter (\<lambda>(t, _). t = x) neighbors)) = Inr best_hop1"
    and n2: "ok_or Skip (map_of (adjacency pools) x) = Inr neighbors2" and entry: "entry \<in> set neighbors2"
  obtain p1 a1 y p2 where pairs: "best_hop1 = (p1, a1)" "entry = (y, p2)" by (cases best_hop1, cases entry)
  have "sane_fee p1" using best_quote_in [OF best [unfolded pairs]] sane_adjacency_picked [OF adj] n by simp
  moreover have "sane_fee p2" using adj n2 entry by (auto simp: sane_adjacency_def pairs)
  ultimately show "no_panic (triangle_via (sv_floats env) now (adjacency pools) amounts anchor x best_hop1 entry)"
    by (simp add: pairs triangle_via_no_panic [OF adj])
qed

lemma multihop_no_panic:
  "(\<And>pool. pool \<in> set pools \<Longrightarrow> sane_fee pool) \<Longrightarrow> no_panic (multihop_hops fl now amount tokens pools)"
proof (induction fl now amount tokens pools rule: multihop_hops.induct)
  case (2 fl now current token_in token_out tokens pool pools)
  then show ?case unfolding multihop_hops.simps by (intro cross_intros) simp_all
qed (simp_all add: no_panic_simple)

lemma multihop_scan_returns:
  assumes "fees_sane pools" shows "scan_multihop_hot_routes fl now pools hot_routes amounts \<noteq> None"
  unfolding scan_multihop_hot_routes_def multihop_routes_def multihop_route_def
  by (intro cross_intros multihop_no_panic) (auto simp: map_filter_def fees_sane_get [OF assms])

section \<open>Hot routes of more hops\<close>

definition through :: "'f hop \<Rightarrow> dex_pool \<Rightarrow> bool" where
  "through hop pool \<longleftrightarrow> hop_pool hop = dp_pool_address pool \<and> hop_dex_program hop = program_of_dex (dp_dex_type pool)"

lemma through_hop [simp]: "through (hop_through pool x y out impact) pool"
  by (simp add: through_def)

lemma multihop_hops_spec:
  assumes "multihop_hops fl now amount tokens pools = Inr (hops, final)"
    and "\<forall>pool \<in> set pools. get_pool cache (dp_pool_address pool) = Some pool"
  shows "map hop_token_in hops = take (length pools) tokens \<and> map hop_token_out hops = take (length pools) (tl tokens)
    \<and> (pools \<noteq> [] \<longrightarrow> length pools < length tokens)
    \<and> quoted_hops fl now cache amount hops \<and> list_all2 through hops pools
    \<and> final = (if hops = [] then amount else hop_amount_out (last hops))"
  using assms
proof (induction fl now amount tokens pools arbitrary: hops final rule: multihop_hops.induct)
  case (2 fl now current token_in token_out tokens pool pools)
  obtain amount_out impact rest where
    quote: "(if dp_token_a pool = token_in then ok_or Panic (quote_a_to_b fl now current pool)
       else if dp_token_b pool = token_in then ok_or Panic (quote_b_to_a fl now current pool) else Inr 0) = Inr amount_out"
    and nz: "amount_out \<noteq> 0"
    and rest: "multihop_hops fl now amount_out (token_out # tokens) pools = Inr (rest, final)"
    and hops: "hops = hop_through pool token_in token_out amount_out impact # rest"
    using "2.prems"(1) by (auto simp: Let_def)
  have q: "quote_from fl now pool token_in current = Some amount_out"
    using quote nz by (auto simp: quote_from_def split: if_splits)
  have "0 < amount_out" using nz by (simp add: word_neq_0_conv)
  have IH: "map hop_token_in rest = take (length pools) (token_out # tokens) \<and> map hop_token_out rest = take (length pools) tokens
    \<and> (pools \<noteq> [] \<longrightarrow> length pools < Suc (length tokens))
    \<and> quoted_hops fl now cache amount_out rest \<and> list_all2 through rest pools
    \<and> final = (if rest = [] then amount_out else hop_amount_out (last rest))"
    using "2.IH" rest "2.prems"(2) quote nz by simp
  then show ?case using q \<open>0 < amount_out\<close> "2.prems"(2) by (auto simp: hops)
qed auto

lemma multihop_route_Inr:
  assumes "multihop_route fl now tokens pools amount = Inr route"
  shows "multihop_hops fl now amount tokens pools = Inr (rp_hops route, rp_gross_profit route + amount)
    \<and> amount < rp_gross_profit route + amount \<and> rp_borrow_amount route = amount
    \<and> 5000 < rp_net_profit route
    \<and> rp_net_profit route = wrap64 (sint (rp_gross_profit route) - wrap64 (5000 + 5000 * int (length (rp_hops route))))"
  using assms by (auto simp: multihop_route_def Let_def)

text \<open>A hot route of more hops whose pools join its tokens, in their order, and whose tokens close a cycle.\<close>

definition multihop_ok :: "pool_cache \<Rightarrow> 'f multi_hop_hot_route \<Rightarrow> bool" where
  "multihop_ok pools hr \<longleftrightarrow> length (mh_tokens hr) = Suc (length (mh_pools hr)) \<and> last (mh_tokens hr) = hd (mh_tokens hr)
     \<and> (\<forall>i < length (mh_pools hr). \<forall>pool. get_pool pools (mh_pools hr ! i) = Some pool
          \<longrightarrow> joins pool (mh_tokens hr ! i) (mh_tokens hr ! Suc i))"

lemma map_filter_all:
  "length (List.map_filter f xs) = length xs \<Longrightarrow> list_all2 (\<lambda>x y. f x = Some y) xs (List.map_filter f xs)"
proof (induction xs)
  case (Cons x xs)
  have "length (List.map_filter f xs) \<le> length xs" by (simp add: map_filter_def)
  then show ?case using Cons by (cases "f x") (auto simp: map_filter_simps)
qed (simp add: map_filter_simps)

lemma rotate1_tokens:
  assumes "length tokens = Suc n" and "last tokens = hd tokens" and "0 < n"
  shows "take n (tl tokens) = rotate1 (take n tokens)"
proof -
  obtain t rest where tokens: "tokens = t # rest" using assms(1) by (cases tokens) auto
  have n: "length rest = n" "rest \<noteq> []" using assms(1,3) by (auto simp: tokens)
  then have "last rest = t" using assms(2) by (simp add: tokens)
  then have "rest = butlast rest @ [t]" using append_butlast_last_id [OF n(2)] by simp
  moreover have "take (n - 1) rest = butlast rest" using n by (simp add: butlast_conv_take)
  ultimately show ?thesis using assms(3) n by (cases n) (simp_all add: tokens)
qed

lemma multihop_net_exact:
  fixes gross :: u64
  assumes "uint gross < 2 ^ 63" and "n < 1000"
  shows "wrap64 (sint gross - wrap64 (5000 + 5000 * int n)) = uint gross - (5000 + 5000 * int n)"
proof -
  have "wrap64 (5000 + 5000 * int n) = 5000 + 5000 * int n" using assms(2) by (intro wrap64_in) linarith+
  moreover have "5000 + 5000 * int n < 2 ^ 62" using assms(2) by simp
  ultimately show ?thesis using net_exact [OF assms(1), of "5000 + 5000 * int n"] by simp
qed

lemma multihop_reported:
  assumes "scan_multihop_hot_routes fl now pools hot_routes amounts = Some routes" and "route \<in> set routes"
    and "cache_keyed pools" and "\<forall>hr \<in> set hot_routes. multihop_ok pools hr" and "length (rp_hops route) < 1000"
  shows "arbitrage fl now pools (5000 + 5000 * int (length (rp_hops route))) route
    \<and> rp_borrow_amount route \<in> set amounts \<and> 5000 < rp_net_profit route"
proof -
  obtain reported where reported: "collect_concat (multihop_routes fl now pools amounts) hot_routes = Some reported"
    and routes: "routes = ranked pools reported"
    using assms(1) by (auto simp: scan_multihop_hot_routes_def split: bind_splits)
  obtain r where r: "r \<in> set reported" "route = with_tier pools r" using assms(2) routes by (auto simp: ranked_in)
  obtain hr l where hr: "hr \<in> set hot_routes" and l: "multihop_routes fl now pools amounts hr = Inr l" "r \<in> set l"
    using collect_concat_set [OF reported, of r] r(1) by blast
  define found where "found = List.map_filter (get_pool pools) (mh_pools hr)"
  have len: "length found = length (mh_pools hr)"
    and kept: "collect_kept (multihop_route fl now (mh_tokens hr) found) amounts = Some l"
    using l(1) by (auto simp: multihop_routes_def found_def Let_def)
  from collect_kept_from [OF kept l(2)] obtain amount where amount: "amount \<in> set amounts"
    "multihop_route fl now (mh_tokens hr) found amount = Inr r" by blast
  note multi = multihop_route_Inr [OF amount(2)]
  have all: "list_all2 (\<lambda>k pool. get_pool pools k = Some pool) (mh_pools hr) found"
    using map_filter_all [of "get_pool pools" "mh_pools hr"] len by (simp add: found_def)
  have cached: "\<forall>pool \<in> set found. get_pool pools (dp_pool_address pool) = Some pool"
  proof (intro ballI)
    fix pool assume "pool \<in> set found"
    then obtain k where k: "get_pool pools k = Some pool" using all by (auto simp: list_all2_conv_all_nth in_set_conv_nth)
    from cached_address [OF assms(3) k] k show "get_pool pools (dp_pool_address pool) = Some pool" by simp
  qed
  note hops = multihop_hops_spec [OF multi [THEN conjunct1] cached]
  have ok: "multihop_ok pools hr" using assms(4) hr by blast
  have n: "length (rp_hops r) = length found" using hops by (auto dest: list_all2_lengthD)
  have "rp_hops r \<noteq> []" using hops multi by auto
  then have "0 < length found" by (simp flip: n)
  then have "take (length found) (tl (mh_tokens hr)) = rotate1 (take (length found) (mh_tokens hr))"
    using ok len by (intro rotate1_tokens) (simp_all add: multihop_ok_def)
  then have "closed_route (rp_hops r)"
    using hops \<open>rp_hops r \<noteq> []\<close> by (simp add: closed_route_def)
  moreover have "hop_fits pools hop" if hop: "hop \<in> set (rp_hops r)" for hop
  proof -
    obtain i where i: "i < length found" "hop = rp_hops r ! i" using hop n by (auto simp: in_set_conv_nth)
    have pool: "get_pool pools (mh_pools hr ! i) = Some (found ! i)" using all i(1) by (simp add: list_all2_conv_all_nth)
    have "through hop (found ! i)" using hops i by (simp add: list_all2_conv_all_nth)
    moreover have "hop_token_in hop = mh_tokens hr ! i \<and> hop_token_out hop = mh_tokens hr ! Suc i"
    proof -
      have "map hop_token_in (rp_hops r) ! i = mh_tokens hr ! i \<and> map hop_token_out (rp_hops r) ! i = tl (mh_tokens hr) ! i"
        using hops i(1) by simp
      moreover have "tl (mh_tokens hr) ! i = mh_tokens hr ! Suc i"
        using ok i(1) len by (intro nth_tl) (simp add: multihop_ok_def)
      ultimately show ?thesis using i n by simp
    qed
    moreover have "joins (found ! i) (mh_tokens hr ! i) (mh_tokens hr ! Suc i)"
      using ok pool i(1) len by (simp add: multihop_ok_def)
    ultimately show ?thesis
      using cached i(1) by (auto simp: hop_fits_def through_def joins_def)
  qed
  moreover have final: "final_amount r = rp_gross_profit r + amount"
    using hops \<open>rp_hops r \<noteq> []\<close> by (simp add: final_amount_def)
  moreover have "rp_gross_profit r = final_amount r - rp_borrow_amount r"
    unfolding final multi [THEN conjunct2, THEN conjunct2, THEN conjunct1] by simp
  moreover have "rp_borrow_amount r < final_amount r" using multi unfolding final by metis
  moreover have "quoted_hops fl now pools (rp_borrow_amount r) (rp_hops r)" using hops multi by metis
  moreover have "uint (rp_gross_profit r) < 2 ^ 63
      \<longrightarrow> rp_net_profit r = uint (rp_gross_profit r) - (5000 + 5000 * int (length (rp_hops r)))"
    using multi multihop_net_exact [of "rp_gross_profit r" "length (rp_hops r)"] assms(5) r(2) by simp
  ultimately have "arbitrage fl now pools (5000 + 5000 * int (length (rp_hops r))) r"
    unfolding arbitrage_def by blast
  then show ?thesis using amount(1) multi by (simp add: r(2))
qed

section \<open>Tiers\<close>

text \<open>A route through a whirlpool without enough liquidity is only let through if it also has a PumpSwap hop.\<close>

lemma fragile_tier:
  assumes "hop \<in> set (rp_hops route)" and "get_pool pools (hop_pool hop) = Some pool" and "fragile_orca pool"
  shows "route_tier route pools = 99 \<longleftrightarrow>
    (\<forall>h \<in> set (rp_hops route). \<forall>p. get_pool pools (hop_pool h) = Some p \<longrightarrow> dp_dex_type p \<noteq> PumpSwap)"
proof -
  let ?pools = "List.map_filter (\<lambda>h. get_pool pools (hop_pool h)) (rp_hops route)"
  have set: "set ?pools = {p. \<exists>h \<in> set (rp_hops route). get_pool pools (hop_pool h) = Some p}"
    by (force simp: map_filter_def)
  have pool: "pool \<in> set ?pools" "dp_dex_type pool = OrcaWhirlpool" using assms by (auto simp: set fragile_orca_def)
  then have "\<not> list_all (\<lambda>d. d = RaydiumAmmV4) (map dp_dex_type ?pools)"
    "\<not> list_all (\<lambda>d. d \<in> {RaydiumAmmV4, MeteoraDlmm}) (map dp_dex_type ?pools)"
    by (auto simp: list_all_iff intro!: bexI [of _ pool])
  moreover have "list_ex (\<lambda>d. d = OrcaWhirlpool) (map dp_dex_type ?pools)" "list_ex fragile_orca ?pools"
    using pool assms(3) by (auto simp: list_ex_iff intro!: rev_image_eqI [of pool])
  moreover have "list_ex (\<lambda>d. d = PumpSwap) (map dp_dex_type ?pools)
      \<longleftrightarrow> \<not> (\<forall>h \<in> set (rp_hops route). \<forall>p. get_pool pools (hop_pool h) = Some p \<longrightarrow> dp_dex_type p \<noteq> PumpSwap)"
  proof -
    have "list_ex (\<lambda>d. d = PumpSwap) (map dp_dex_type ?pools) \<longleftrightarrow> (\<exists>p \<in> set ?pools. dp_dex_type p = PumpSwap)"
      by (force simp: list_ex_iff)
    then show ?thesis unfolding set by blast
  qed
  ultimately show ?thesis by (simp add: route_tier_def Let_def)
qed

section \<open>The contract with the transaction builder\<close>

definition cross_reported :: "'f f64_ops \<Rightarrow> nat \<Rightarrow> pool_cache \<Rightarrow> 'f route_params \<Rightarrow> bool" where
  "cross_reported fl now pools route \<longleftrightarrow> cache_keyed pools \<and> distinct_tokens pools
     \<and> (\<exists>env amounts routes. sv_floats env = fl \<and> (\<forall>groups. set (sv_pair_order env groups) \<subseteq> set groups)
          \<and> (\<forall>tokens. set (sv_token_order env tokens) \<subseteq> set tokens) \<and> route \<in> set routes
          \<and> (scan_cross_dex_opportunities env now pools amounts = Some routes
              \<or> (\<exists>x y. scan_pair_opportunities fl now pools x y amounts = Some routes)
              \<or> scan_cross_dex_3hop env now pools amounts = Some routes
              \<or> (\<exists>hot_routes. (\<forall>hr \<in> set hot_routes. hot_route_ok pools hr)
                  \<and> scan_hot_routes fl now pools hot_routes amounts = Some routes)))"

lemma cross_reported_arbitrage:
  assumes "cross_reported fl now pools route" shows "\<exists>cost. arbitrage fl now pools cost route"
proof -
  obtain env amounts routes where env: "sv_floats env = fl" "\<forall>groups. set (sv_pair_order env groups) \<subseteq> set groups"
      "\<forall>tokens. set (sv_token_order env tokens) \<subseteq> set tokens" and cache: "cache_keyed pools" "distinct_tokens pools"
    and route: "route \<in> set routes" and scans: "scan_cross_dex_opportunities env now pools amounts = Some routes
      \<or> (\<exists>x y. scan_pair_opportunities fl now pools x y amounts = Some routes)
      \<or> scan_cross_dex_3hop env now pools amounts = Some routes
      \<or> (\<exists>hot_routes. (\<forall>hr \<in> set hot_routes. hot_route_ok pools hr)
          \<and> scan_hot_routes fl now pools hot_routes amounts = Some routes)"
    using assms unfolding cross_reported_def by (elim exE conjE) blast
  have "\<exists>Q n. cross_report Q n fl now pools amounts route"
    using scans
  proof (elim disjE exE conjE)
    assume "scan_cross_dex_opportunities env now pools amounts = Some routes"
    from cross_scan_reported [OF this route cache env(2)] show ?thesis unfolding env(1) by blast
  next
    fix x y assume "scan_pair_opportunities fl now pools x y amounts = Some routes"
    from pair_scan_reported [OF this route cache] show ?thesis by blast
  next
    assume "scan_cross_dex_3hop env now pools amounts = Some routes"
    from triangles_reported [OF this route cache(1) env(3)] show ?thesis unfolding env(1) by blast
  next
    fix hot_routes assume "\<forall>hr \<in> set hot_routes. hot_route_ok pools hr"
      and "scan_hot_routes fl now pools hot_routes amounts = Some routes"
    from hot_routes_reported [OF this(2) route cache(1) this(1)] show ?thesis by blast
  qed
  then show ?thesis unfolding cross_report_def by blast
qed

interpretation cross_dex: route_source cross_reported
proof
  fix fl :: "'a f64_ops" and now pools route hop
  assume reported: "cross_reported fl now pools route"
  obtain cost where "arbitrage fl now pools cost route" using cross_reported_arbitrage [OF reported] by blast
  then show "closed_route (rp_hops route)" "quoted_hops fl now pools (rp_borrow_amount route) (rp_hops route)"
    "hop \<in> set (rp_hops route) \<Longrightarrow> hop_fits pools hop"
    by (simp_all add: arbitrage_def)
qed

text \<open>What can still fail for a route of the full scan, which only takes pools with complete metadata.\<close>

definition build_failure :: "tx_error \<Rightarrow> bool" where
  "build_failure e \<longleftrightarrow> e \<in> {RaydiumIncomplete, DeriveFailed, IndexPanic, DexUnsupported Fluxbeam, DexUnsupported Saber}"

lemma eligible_pool_error: "cross_eligible pool \<Longrightarrow> pool_error pool e \<Longrightarrow> build_failure e"
  by (cases "dp_dex_type pool")
    (auto simp: cross_eligible_def metadata_complete_def pool_error_def build_failure_def split: option.splits)

lemma cross_scan_builds:
  assumes "scan_cross_dex_opportunities env now pools amounts = Some routes" and "route \<in> set routes"
    and "cache_keyed pools" and "distinct_tokens pools" and "\<forall>groups. set (sv_pair_order env groups) \<subseteq> set groups"
    and "build_hops fl tx payer pools programs 0 (rp_borrow_amount route) (rp_hops route) = Inl e"
  shows "build_failure e"
proof -
  have report: "cross_report cross_eligible 2 (sv_floats env) now pools amounts route"
    using cross_scan_reported [OF assms(1-5)] by blast
  then have "\<forall>hop \<in> set (rp_hops route). hop_fits pools hop" by (simp add: cross_report_def arbitrage_def)
  from build_hops_error [OF assms(6) this assms(4)]
  obtain hop pool where "hop \<in> set (rp_hops route)" "get_pool pools (hop_pool hop) = Some pool" "pool_error pool e" by blast
  then show ?thesis using report eligible_pool_error unfolding cross_report_def by blast
qed

end
