(* ===== verification/Cross_Reports.thy ===== *)
theory Cross_Reports
  imports Complex_Main Cross_Answers Route_Reports
begin

text \<open>
  The properties of \<^verbatim>\<open>cross_dex.rs\<close>, with an example market whose two pools differ by four percent. The
  doubles of the example are rational numbers.
\<close>

section \<open>An example market\<close>

definition rational_floats :: "rat f64_ops" where
  "rational_floats = \<lparr>fl_lit = \<lambda>s. if s = ''0.0'' then 0 else if s = ''1.0'' then 1 else if s = ''1.05'' then 105 / 100
       else if s = ''5.0'' then 5 else if s = ''10.0'' then 10 else if s = ''10'' then 10 else if s = ''2.0'' then 2
       else if s = ''1.02'' then 102 / 100 else if s = ''100.0'' then 100 else if s = ''10000.0'' then 10000
       else if s = ''0.95'' then 95 / 100 else if s = ''1.03'' then 103 / 100 else if s = ''0.5'' then 1 / 2
       else if s = ''0.7'' then 7 / 10 else if s = ''2000.0'' then 2000 else if s = ''0.15'' then 15 / 100 else 0,
     fl_epsilon = 0, fl_of_int = of_int, fl_to_u64 = \<lambda>x. word_of_int \<lfloor>x\<rfloor>, fl_to_i128 = floor,
     fl_add = (+), fl_sub = (-), fl_mul = (*), fl_div = (/), fl_max = max, fl_powf = \<lambda>x _. x, fl_powi = \<lambda>x n. x ^ nat n,
     fl_lt = (<), fl_le = (\<le>), fl_finite = \<lambda>_. True, fl_min = min, fl_neg = uminus, fl_abs = abs, fl_ln = \<lambda>x. x,
     fl_exp = \<lambda>x. x, fl_sqrt = \<lambda>x. x, fl_floor = \<lambda>x. of_int \<lfloor>x\<rfloor>, fl_to_i32 = floor, fl_to_i64 = floor, fl_to_u128 = \<lambda>x. word_of_int \<lfloor>x\<rfloor>\<rparr>"

lemma rational_simps [simp]:
  "fl_of_int rational_floats i = of_int i" "fl_mul rational_floats = (*)" "fl_div rational_floats = (/)"
  "fl_sub rational_floats = (-)" "fl_add rational_floats = (+)" "fl_lt rational_floats = (<)" "fl_le rational_floats = (\<le>)"
  "fl_finite rational_floats x = True" "fl_max rational_floats = max" "fl_min rational_floats = min"
  "fl_to_u64 rational_floats x = word_of_int \<lfloor>x\<rfloor>"
  "fl_lit rational_floats ''0.0'' = 0" "fl_lit rational_floats ''1.0'' = 1" "fl_lit rational_floats ''1.05'' = 105 / 100"
  "fl_lit rational_floats ''5.0'' = 5" "fl_lit rational_floats ''100.0'' = 100" "fl_lit rational_floats ''10000.0'' = 10000"
  "fl_lit rational_floats ''0.95'' = 95 / 100" "fl_lit rational_floats ''10.0'' = 10"
  "fl_lit rational_floats ''10'' = 10" "fl_lit rational_floats ''2.0'' = 2" "fl_lit rational_floats ''1.02'' = 102 / 100"
  "fl_lit rational_floats ''1.03'' = 103 / 100" "fl_lit rational_floats ''0.5'' = 1 / 2" "fl_lit rational_floats ''0.7'' = 7 / 10"
  "fl_lit rational_floats ''2000.0'' = 2000" "fl_lit rational_floats ''0.15'' = 15 / 100"
  "fl_powi rational_floats x i = x ^ nat i"
  by (simp_all add: rational_floats_def)

definition spread_market :: pool_cache where
  "spread_market = upsert (example_pool 13 1040000000) (upsert (example_pool 11 1000000000) new_pool_cache)"

definition example_scan :: "rat scan_env" where
  "example_scan = \<lparr>sv_floats = rational_floats, sv_pair_order = \<lambda>gs. gs, sv_token_order = \<lambda>ts. ts\<rparr>"

lemma spread_market_pools: "cache_inner spread_market = [(11, example_pool 11 1000000000), (13, example_pool 13 1040000000)]"
  by (simp add: spread_market_def upsert_def new_pool_cache_def Let_def example_pool_def)

lemma spread_get [simp]: "get_pool spread_market 11 = Some (example_pool 11 1000000000)"
    "get_pool spread_market 13 = Some (example_pool 13 1040000000)"
  by (simp_all add: get_pool_def spread_market_pools)

lemma spread_curve:
  "xyk_quote 1000000000 1000000000 10000000 0 = Some 9900990"
  "xyk_quote 1000000000 1040000000 10000000 0 = Some 10297029"
  "xyk_quote 1000000000 1040000000 9900990 0 = Some 10196078"
  by (simp_all add: xyk_quote_def Let_def)

lemma spread_eligible: "cross_eligible (example_pool k 1000000000)" "cross_eligible (example_pool k 1040000000)"
  by (simp_all add: cross_eligible_def dust_def metadata_complete_def phantom_raydium_def)

lemma spread_key: "pair_key 12 SOL_MINT = (12, SOL_MINT)"
  by (simp add: pair_key_def)

abbreviation low_rate :: "rat pool_rate" where
  "low_rate \<equiv> \<lparr>pr_pool = example_pool 11 1000000000, pr_rate_a_to_b = 990099 / 1000000, pr_canonical_order = True\<rparr>"

abbreviation high_rate :: "rat pool_rate" where
  "high_rate \<equiv> \<lparr>pr_pool = example_pool 13 1040000000, pr_rate_a_to_b = 10297029 / 10000000, pr_canonical_order = True\<rparr>"

lemma spread_entries:
  "rate_entry rational_floats 0 [10000000] (example_pool 11 1000000000) = Inr ((12, SOL_MINT), low_rate)"
  "rate_entry rational_floats 0 [10000000] (example_pool 13 1040000000) = Inr ((12, SOL_MINT), high_rate)"
  by (simp_all add: rate_entry_def spread_eligible spread_key quoted_rate_def reference_borrow_def usable_rate_def
      example_quote_a spread_curve Let_def del: SOL_MINT_def)

lemma spread_groups: "grouped [((12, SOL_MINT), low_rate), ((12, SOL_MINT), high_rate)] = [((12, SOL_MINT), [low_rate, high_rate])]"
  by (simp add: grouped_def push_to_def)

lemma spread_widest: "widest_spread rational_floats 30 [low_rate, high_rate] = Some (high_rate, low_rate)"
proof -
  have "\<lfloor>132013000 / 330033 :: rat\<rfloor> = 399" by (simp add: floor_eq_iff)
  then show ?thesis by (simp add: widest_spread_def last_max_def first_min_def divergence_bps_def dex_fee_bps_def)
qed

definition spread_route :: "rat route_params" where
  "spread_route = \<lparr>rp_hops =
     [hop_through (example_pool 11 1000000000) SOL_MINT 12 9900990 1,
      hop_through (example_pool 13 1040000000) 12 SOL_MINT 10196078 (990099 / 1000000)],
     rp_borrow_amount = 10000000, rp_gross_profit = 196078, rp_net_profit = 186078, rp_risk_factor = 1 / 100,
     rp_strategy = ''cross-dex'', rp_tier = 0\<rparr>"

lemma spread_build:
  "build_cross_dex_route_reverse rational_floats 0 (example_pool 11 1000000000) True (example_pool 13 1040000000) True
    12 SOL_MINT 10000000 = Inr spread_route"
  by (simp add: build_cross_dex_route_reverse_def example_quote_a example_quote_b spread_curve impact_of_def
      MAX_IMPACT_PCT_def MAX_RETURN_MULTIPLIER_def settle_two_hops_def spread_route_def Let_def wrap64_in del: SOL_MINT_def)

lemma spread_tier: "with_tier spread_market spread_route = spread_route\<lparr>rp_tier := 3\<rparr>"
  by (simp add: with_tier_def route_tier_def spread_route_def map_filter_simps Let_def del: SOL_MINT_def)

lemma spread_scan:
  "scan_cross_dex_opportunities example_scan 0 spread_market [10000000] = Some [spread_route\<lparr>rp_tier := 3\<rparr>]"
proof -
  have anchors: "12 \<notin> set CROSS_ANCHORS" "SOL_MINT \<in> set CROSS_ANCHORS" "lendable_pair (12, SOL_MINT)"
    by (simp_all add: CROSS_ANCHORS_def lendable_pair_def example_mints del: SOL_MINT_def)
  have "best_both_ways rational_floats 0 (12, SOL_MINT) [10000000] high_rate low_rate = Inr [spread_route]"
    by (simp add: best_both_ways_def forward_routes_def reverse_routes_def anchors spread_build map_filter_simps
        best_route_def keep_better_def del: SOL_MINT_def)
  then have "pair_group_routes rational_floats 0 [10000000] ((12, SOL_MINT), [low_rate, high_rate]) = Inr [spread_route]"
    by (simp add: pair_group_routes_def anchors spread_widest del: SOL_MINT_def)
  moreover have "ranked spread_market [spread_route] = [spread_route\<lparr>rp_tier := 3\<rparr>]"
    by (simp add: ranked_def spread_tier by_profit_def)
  ultimately show ?thesis
    by (simp add: scan_cross_dex_opportunities_def example_scan_def spread_market_pools spread_entries spread_groups
        collect_concat_def del: SOL_MINT_def)
qed

section \<open>Properties\<close>

lemma spread_keyed: "cache_keyed spread_market"
  by (simp add: cache_keyed_def spread_market_pools)

lemma spread_distinct: "distinct_tokens spread_market"
  by (simp add: distinct_tokens_def spread_market_pools)

lemma spread_sane: "fees_sane spread_market"
  by (simp add: fees_sane_def spread_market_pools)

lemma example_orders: "set (sv_pair_order example_scan groups) \<subseteq> set groups" "set (sv_token_order example_scan tokens) \<subseteq> set tokens"
  by (simp_all add: example_scan_def)

text \<open>
  Property C30. Every route of the full scan is an arbitrage between two cached pools that pass the filters of the
  scan: it borrows a lendable token and one of the given amounts, closes over the quotes of the two pools, ends
  with more than it borrows and with a positive net profit, exact below \<open>2^63\<close>; its tier is the one of its
  pools and below 99; and the routes come in descending order of net profit.
\<close>

theorem cross_scan_sound:
  assumes "scan_cross_dex_opportunities env now pools amounts = Some routes"
    and "cache_keyed pools" and "distinct_tokens pools" and "\<forall>groups. set (sv_pair_order env groups) \<subseteq> set groups"
  shows "sorted_wrt (\<lambda>r s. rp_net_profit s \<le> rp_net_profit r) routes
    \<and> (\<forall>route \<in> set routes. cross_report cross_eligible 2 (sv_floats env) now pools amounts route
        \<and> rp_tier route = route_tier route pools \<and> rp_tier route < 99)"
proof -
  have "sorted_wrt (\<lambda>r s. rp_net_profit s \<le> rp_net_profit r) routes"
    using assms(1) by (auto simp: scan_cross_dex_opportunities_def ranked_sorted split: bind_splits)
  then show ?thesis using cross_scan_reported [OF assms(1) _ assms(2-4)] by blast
qed

theorem cross_scan_sound_witness:
  "\<exists>route. scan_cross_dex_opportunities example_scan 0 spread_market [10000000] = Some [route]
    \<and> cross_report cross_eligible 2 rational_floats 0 spread_market [10000000] route \<and> rp_net_profit route = 186078"
  using cross_scan_sound [OF spread_scan spread_keyed spread_distinct] spread_scan
  by (auto simp: example_orders example_scan_def spread_route_def)

text \<open>
  Property C31. No scan of \<^verbatim>\<open>cross_dex.rs\<close> panics, whatever tokens, hot routes and borrow amounts it is given, as
  long as no cached pool has a fee above 10000 basis points.
\<close>

theorem cross_scans_answer:
  assumes "fees_sane pools" and "\<forall>groups. set (sv_pair_order env groups) \<subseteq> set groups"
  shows "scan_cross_dex_opportunities env now pools amounts \<noteq> None \<and> scan_pair_opportunities fl now pools x y amounts \<noteq> None
    \<and> scan_cross_dex_3hop env now pools amounts \<noteq> None \<and> scan_hot_routes fl now pools hot_routes amounts \<noteq> None
    \<and> scan_multihop_hot_routes fl now pools long_routes amounts \<noteq> None"
  using cross_scan_returns [OF assms] pair_scan_returns [OF assms(1)] triangles_scan_returns [OF assms(1)]
    hot_scan_returns [OF assms(1)] multihop_scan_returns [OF assms(1)]
  by (intro conjI)

theorem cross_scans_answer_witness:
  "\<exists>routes. scan_cross_dex_3hop example_scan 0 spread_market [10000000] = Some routes"
  using cross_scans_answer [OF spread_sane, of example_scan 0 "[10000000]" rational_floats 12 SOL_MINT "[]" "[]"] example_orders
  by blast



text \<open>
  Property C33. The hot routes are sound where their stored tokens are those of their pools: then a hot route of two
  pools is reported as an arbitrage between them, and one of more pools as an arbitrage along its tokens,
  if these return to where they start. Neither condition is checked by the code.
\<close>

theorem hot_routes_sound:
  assumes "cache_keyed pools"
  shows "(\<forall>hot_routes routes. (\<forall>hr \<in> set hot_routes. hot_route_ok pools hr)
        \<longrightarrow> scan_hot_routes fl now pools hot_routes amounts = Some routes
        \<longrightarrow> (\<forall>route \<in> set routes. cross_report (\<lambda>pool. \<not> dust pool) 2 fl now pools amounts route))
    \<and> (\<forall>hot_routes routes. (\<forall>hr \<in> set hot_routes. multihop_ok pools hr)
        \<longrightarrow> scan_multihop_hot_routes fl now pools hot_routes amounts = Some routes
        \<longrightarrow> (\<forall>route \<in> set routes. length (rp_hops route) < 1000
            \<longrightarrow> arbitrage fl now pools (5000 + 5000 * int (length (rp_hops route))) route \<and> 5000 < rp_net_profit route))"
  using hot_routes_reported [OF _ _ assms] multihop_reported [OF _ _ assms] by blast

theorem hot_routes_sound_witness:
  "\<exists>routes. scan_hot_routes rational_floats 0 spread_market
      [\<lparr>hr_pool_a = 11, hr_pool_b = 13, hr_token_a = 12, hr_token_b = SOL_MINT, hr_freq = 5, hr_avg_profit = 0, hr_max_profit = 0\<rparr>]
      [10000000] = Some routes
    \<and> (\<forall>route \<in> set routes. cross_report (\<lambda>pool. \<not> dust pool) 2 rational_floats 0 spread_market [10000000] route)"
proof -
  let ?hr = "\<lparr>hr_pool_a = 11, hr_pool_b = 13, hr_token_a = 12, hr_token_b = SOL_MINT, hr_freq = 5, hr_avg_profit = 0, hr_max_profit = 0\<rparr>"
  have ok: "\<forall>hr \<in> set [?hr]. hot_route_ok spread_market hr"
    by (simp add: hot_route_ok_def joins_def example_mints del: SOL_MINT_def)
  obtain routes where routes: "scan_hot_routes rational_floats 0 spread_market [?hr] [10000000] = Some routes"
    using hot_scan_returns [OF spread_sane] by blast
  note sound = hot_routes_sound [OF spread_keyed, of rational_floats 0 "[10000000]", THEN conjunct1]
  have "\<forall>route \<in> set routes. cross_report (\<lambda>pool. \<not> dust pool) 2 rational_floats 0 spread_market [10000000] route"
    using sound ok routes by blast
  with routes show ?thesis by blast
qed

text \<open>
  Property C34. The transaction builder can refuse a route of the full scan only for an incomplete Raydium market, an
  address it cannot derive, a tick array index out of range, or a FluxBeam or Saber pool: the metadata filter of
  the scan rules out the other failures.
\<close>

theorem cross_routes_build:
  assumes "scan_cross_dex_opportunities env now pools amounts = Some routes" and "route \<in> set routes"
    and "cache_keyed pools" and "distinct_tokens pools" and "\<forall>groups. set (sv_pair_order env groups) \<subseteq> set groups"
  shows "\<forall>e. build_hops fl tx payer pools programs 0 (rp_borrow_amount route) (rp_hops route) = Inl e
    \<longrightarrow> e \<in> {RaydiumIncomplete, DeriveFailed, IndexPanic, DexUnsupported Fluxbeam, DexUnsupported Saber}"
  using cross_scan_builds [OF assms, unfolded build_failure_def] by blast

theorem cross_routes_build_witness:
  "\<forall>(fl :: rat f64_ops) (tx :: (rat, unit, unit) tx_env) payer programs.
    \<not> (\<exists>e. build_hops fl tx payer spread_market programs 0 10000000 (rp_hops spread_route) = Inl e
      \<and> e \<notin> {RaydiumIncomplete, DeriveFailed, IndexPanic, DexUnsupported Fluxbeam, DexUnsupported Saber})"
proof -
  let ?route = "spread_route\<lparr>rp_tier := 3\<rparr>"
  have "?route \<in> set [?route]" by simp
  note builds = cross_routes_build [OF spread_scan this spread_keyed spread_distinct]
  have "rp_borrow_amount ?route = 10000000" "rp_hops ?route = rp_hops spread_route" by (simp_all add: spread_route_def)
  with builds show ?thesis using example_orders by metis
qed

end
