(* ===== verification/Cyclic_Arb.thy ===== *)
theory Cyclic_Arb
  imports Cross_Answers
begin

text \<open>
  Cycles of three hops over three exchanges, \<^verbatim>\<open>market-engine/src/cyclic_arb.rs\<close>. The scanner is the cache it
  holds; the iteration orders of its hash sets are those of the scan environment. The order of its hash map of
  pools per exchange is of no consequence, since every later map has the exchange in its key. The fee per hop, the
  least reserve and the lendable tokens are the constants of \<^verbatim>\<open>cross_dex.rs\<close>, which have the same values.
\<close>

section \<open>The scanner\<close>

definition CYCLIC_MARGIN_BPS :: u64 where [simp]: "CYCLIC_MARGIN_BPS = 30"
definition MAX_BORROW_LAMPORTS :: u64 where [simp]: "MAX_BORROW_LAMPORTS = 2000000000"
definition CYCLIC_MAX_RETURN :: "'f f64_ops \<Rightarrow> 'f" where "CYCLIC_MAX_RETURN fl = fl_lit fl ''1.05''"
definition CYCLIC_MAX_IMPACT :: "'f f64_ops \<Rightarrow> 'f" where "CYCLIC_MAX_IMPACT fl = fl_lit fl ''10.0''"

definition VENUE_COMBOS :: "(dex_type \<times> dex_type \<times> dex_type) list" where
  "VENUE_COMBOS =
     [(RaydiumAmmV4, OrcaWhirlpool, MeteoraDlmm),
      (RaydiumAmmV4, MeteoraDlmm, OrcaWhirlpool),
      (OrcaWhirlpool, RaydiumAmmV4, MeteoraDlmm),
      (OrcaWhirlpool, MeteoraDlmm, RaydiumAmmV4),
      (MeteoraDlmm, RaydiumAmmV4, OrcaWhirlpool),
      (PumpSwap, RaydiumAmmV4, OrcaWhirlpool),
      (PumpSwap, MeteoraDlmm, RaydiumAmmV4),
      (Fluxbeam, MeteoraDlmm, OrcaWhirlpool),
      (Saber, OrcaWhirlpool, RaydiumAmmV4),
      (RaydiumCpmm, RaydiumAmmV4, OrcaWhirlpool)]"

definition cyclic_pool :: "dex_pool \<Rightarrow> bool" where
  "cyclic_pool pool \<longleftrightarrow> dp_dex_type pool \<notin> {Unknown, RaydiumClmm, RaydiumCpmm} \<and> \<not> dust pool \<and> \<not> phantom_raydium pool"

type_synonym dex_pair_index = "((dex_type \<times> pubkey \<times> pubkey) \<times> dex_pool list) list"

definition dex_pools :: "pool_cache \<Rightarrow> (dex_type \<times> dex_pool list) list" where
  "dex_pools pool_cache = grouped (map (\<lambda>p. (dp_dex_type p, p)) (filter cyclic_pool (map snd (cache_inner pool_cache))))"

definition dex_pair_index_of :: "(dex_type \<times> dex_pool list) list \<Rightarrow> dex_pair_index" where
  "dex_pair_index_of pools_of_dex =
     grouped (concat (map (\<lambda>(dex, pools). map (\<lambda>p. ((dex, pair_key (dp_token_a p) (dp_token_b p)), p)) pools) pools_of_dex))"

definition token_neighbors :: "dex_pool list \<Rightarrow> (pubkey \<times> pubkey list) list" where
  "token_neighbors pools =
     map (\<lambda>(token, others). (token, remdups others))
       (grouped (concat (map (\<lambda>p. [(dp_token_a p, dp_token_b p), (dp_token_b p, dp_token_a p)]) pools)))"

definition best_pool_for_pair :: "dex_pair_index \<Rightarrow> dex_type \<Rightarrow> pubkey \<Rightarrow> pubkey \<Rightarrow> dex_pool option" where
  "best_pool_for_pair index dex token_in token_out =
     Option.bind (map_of index (dex, pair_key token_in token_out))
       (last_max (\<lambda>y x. sat_add (dp_reserve_a y) (dp_reserve_b y) < sat_add (dp_reserve_a x) (dp_reserve_b x)))"

definition quote_hop :: "'f f64_ops \<Rightarrow> nat \<Rightarrow> dex_pool \<Rightarrow> pubkey \<Rightarrow> u64 \<Rightarrow> skip + u64 \<times> 'f" where
  "quote_hop fl now pool token_in amount_in =
     and_then (if dp_token_a pool = token_in
         then and_then (ok_or Panic (quote_a_to_b fl now amount_in pool)) (\<lambda>out. Inr (out, dp_reserve_a pool))
       else if dp_token_b pool = token_in
         then and_then (ok_or Panic (quote_b_to_a fl now amount_in pool)) (\<lambda>out. Inr (out, dp_reserve_b pool))
       else Inl Skip) (\<lambda>(amount_out, reserve_in).
     and_then (guard_or Skip (amount_out \<noteq> 0)) (\<lambda>_.
     and_then (guard_or Skip (\<not> reserve_in < sat_mul amount_in 2)) (\<lambda>_.
       Inr (amount_out, impact_of fl amount_in reserve_in))))"

definition quote_3leg_cycle :: "'f f64_ops \<Rightarrow> nat \<Rightarrow> dex_pool \<Rightarrow> pubkey \<Rightarrow> dex_pool \<Rightarrow> pubkey \<Rightarrow> dex_pool \<Rightarrow> pubkey
    \<Rightarrow> u64 \<Rightarrow> skip + 'f route_params" where
  "quote_3leg_cycle fl now pool1 token1 pool2 token2 pool3 token3 borrow_amount =
     and_then (quote_hop fl now pool1 token1 borrow_amount) (\<lambda>(out1, impact1).
     and_then (guard_or Skip (\<not> fl_lt fl (CYCLIC_MAX_IMPACT fl) impact1)) (\<lambda>_.
     and_then (quote_hop fl now pool2 token2 out1) (\<lambda>(out2, impact2).
     and_then (guard_or Skip (\<not> fl_lt fl (CYCLIC_MAX_IMPACT fl) impact2)) (\<lambda>_.
     and_then (quote_hop fl now pool3 token3 out2) (\<lambda>(out3, impact3).
     and_then (guard_or Skip (\<not> fl_lt fl (CYCLIC_MAX_IMPACT fl) impact3)) (\<lambda>_.
     and_then (guard_or Skip (\<not> out3 \<le> borrow_amount)) (\<lambda>_.
     and_then (guard_or Skip (\<not> fl_lt fl (fl_mul fl (fl_of_int fl (uint borrow_amount)) (CYCLIC_MAX_RETURN fl))
       (fl_of_int fl (uint out3)))) (\<lambda>_.
     (let gross_profit = out3 - borrow_amount; net_profit = wrap64 (sint gross_profit - sint (CROSS_FEE_PER_HOP * 3)) in
      and_then (guard_or Skip (\<not> net_profit \<le> 0)) (\<lambda>_.
      (let total_fee_bps = dex_fee_bps (dp_dex_type pool1) + dex_fee_bps (dp_dex_type pool2) + dex_fee_bps (dp_dex_type pool3);
           profit_bps = fl_to_u64 fl (fl_mul fl (fl_div fl (fl_of_int fl (uint gross_profit)) (fl_of_int fl (uint borrow_amount)))
             (fl_lit fl ''10000.0'')) in
       and_then (guard_or Skip (\<not> profit_bps < total_fee_bps + CYCLIC_MARGIN_BPS)) (\<lambda>_.
       (let max_impact = fl_max fl (fl_max fl impact1 impact2) impact3 in
        Inr \<lparr>rp_hops = [cross_hop pool1 token1 token2 out1 impact1, cross_hop pool2 token2 token3 out2 impact2,
               cross_hop pool3 token3 token1 out3 impact3],
             rp_borrow_amount = borrow_amount, rp_gross_profit = gross_profit, rp_net_profit = net_profit,
             rp_risk_factor = fl_min fl (fl_div fl max_impact (fl_lit fl ''100.0'')) (fl_lit fl ''0.95''),
             rp_strategy = ''cyclic_3leg'', rp_tier = 0\<rparr>)))))))))))))"

text \<open>The four loops: over the third token, the second token, the lendable tokens, and the combinations.\<close>

definition cycle_via :: "'f f64_ops \<Rightarrow> nat \<Rightarrow> dex_pair_index \<Rightarrow> (pubkey \<times> pubkey list) list \<Rightarrow> dex_type \<times> dex_type \<times> dex_type
    \<Rightarrow> u64 list \<Rightarrow> pubkey \<Rightarrow> pubkey \<Rightarrow> pubkey \<Rightarrow> skip + 'f route_params" where
  "cycle_via fl now index adj3 = (\<lambda>(dex1, dex2, dex3) borrow_amounts anchor token_b token_c.
     and_then (guard_or Skip (\<not> (token_c = anchor \<or> token_c = token_b))) (\<lambda>_.
     and_then (guard_or Skip (case map_of adj3 token_c of None \<Rightarrow> False | Some n \<Rightarrow> anchor \<in> set n)) (\<lambda>_.
     and_then (ok_or Skip (best_pool_for_pair index dex1 anchor token_b)) (\<lambda>p1.
     and_then (ok_or Skip (best_pool_for_pair index dex2 token_b token_c)) (\<lambda>p2.
     and_then (ok_or Skip (best_pool_for_pair index dex3 token_c anchor)) (\<lambda>p3.
     and_then (ok_or Panic (collect_kept (\<lambda>amount.
       quote_3leg_cycle fl now p1 anchor p2 token_b p3 token_c (min amount MAX_BORROW_LAMPORTS)) borrow_amounts)) (\<lambda>routes.
       ok_or Skip (best_route routes))))))))"

definition cycles_through :: "'f scan_env \<Rightarrow> nat \<Rightarrow> dex_pair_index \<Rightarrow> (pubkey \<times> pubkey list) list \<Rightarrow> (pubkey \<times> pubkey list) list
    \<Rightarrow> dex_type \<times> dex_type \<times> dex_type \<Rightarrow> u64 list \<Rightarrow> pubkey \<Rightarrow> pubkey \<Rightarrow> skip + 'f route_params list" where
  "cycles_through env now index adj2 adj3 combo borrow_amounts anchor token_b =
     and_then (guard_or Skip (\<not> (token_b \<in> set CROSS_ANCHORS \<and> token_b \<noteq> anchor))) (\<lambda>_.
     and_then (ok_or Skip (map_of adj2 token_b)) (\<lambda>neighbors_2.
       ok_or Panic (collect_kept (cycle_via (sv_floats env) now index adj3 combo borrow_amounts anchor token_b)
         (sv_token_order env neighbors_2))))"

definition cycles_from :: "'f scan_env \<Rightarrow> nat \<Rightarrow> dex_pair_index \<Rightarrow> (pubkey \<times> pubkey list) list \<Rightarrow> (pubkey \<times> pubkey list) list
    \<Rightarrow> (pubkey \<times> pubkey list) list \<Rightarrow> dex_type \<times> dex_type \<times> dex_type \<Rightarrow> u64 list \<Rightarrow> pubkey \<Rightarrow> skip + 'f route_params list" where
  "cycles_from env now index adj1 adj2 adj3 combo borrow_amounts anchor =
     and_then (ok_or Skip (map_of adj1 anchor)) (\<lambda>neighbors_1.
       ok_or Panic (collect_concat (cycles_through env now index adj2 adj3 combo borrow_amounts anchor)
         (sv_token_order env neighbors_1)))"

definition combo_cycles :: "'f scan_env \<Rightarrow> nat \<Rightarrow> (dex_type \<times> dex_pool list) list \<Rightarrow> u64 list
    \<Rightarrow> dex_type \<times> dex_type \<times> dex_type \<Rightarrow> skip + 'f route_params list" where
  "combo_cycles env now pools_of_dex borrow_amounts = (\<lambda>(dex1, dex2, dex3).
     and_then (ok_or Skip (map_of pools_of_dex dex1)) (\<lambda>pools1.
     and_then (ok_or Skip (map_of pools_of_dex dex2)) (\<lambda>pools2.
     and_then (ok_or Skip (map_of pools_of_dex dex3)) (\<lambda>pools3.
       ok_or Panic (collect_concat (cycles_from env now (dex_pair_index_of pools_of_dex) (token_neighbors pools1)
         (token_neighbors pools2) (token_neighbors pools3) (dex1, dex2, dex3) borrow_amounts)
         (sv_token_order env CROSS_ANCHORS))))))"

definition scan_cyclic_opportunities :: "'f scan_env \<Rightarrow> nat \<Rightarrow> pool_cache \<Rightarrow> u64 list \<Rightarrow> 'f route_params list option" where
  "scan_cyclic_opportunities env now pool_cache borrow_amounts = do {
     routes \<leftarrow> collect_concat (combo_cycles env now (dex_pools pool_cache) borrow_amounts) VENUE_COMBOS;
     Some (by_profit routes) }"

section \<open>Reported cycles\<close>

definition leg_ok :: "pool_cache \<Rightarrow> dex_type \<Rightarrow> pubkey \<Rightarrow> pubkey \<Rightarrow> dex_pool \<Rightarrow> bool" where
  "leg_ok pools dex x y pool \<longleftrightarrow> get_pool pools (dp_pool_address pool) = Some pool \<and> joins pool x y
     \<and> dp_dex_type pool = dex \<and> cyclic_pool pool"

lemma pair_key_eq: "pair_key a b = pair_key c d \<longleftrightarrow> {a, b} = {c, d}"
  unfolding pair_key_def doubleton_eq_iff by (auto split: if_splits)

lemma dex_pools_entry:
  "(dex, pools) \<in> set (dex_pools cache) \<Longrightarrow> pool \<in> set pools \<longleftrightarrow> (pool \<in> set (map snd (cache_inner cache)) \<and> cyclic_pool pool \<and> dp_dex_type pool = dex)"
  unfolding dex_pools_def by (subst grouped_entry) (assumption, force)

lemma best_pool_leg:
  assumes "best_pool_for_pair (dex_pair_index_of (dex_pools cache)) dex x y = Some pool" and "cache_keyed cache"
  shows "leg_ok cache dex x y pool"
proof -
  obtain ps where ps: "map_of (dex_pair_index_of (dex_pools cache)) (dex, pair_key x y) = Some ps" and "pool \<in> set ps"
    using assms(1) by (auto simp: best_pool_for_pair_def bind_eq_Some_conv dest: last_max_in)
  then have "((dex, pair_key x y), pool) \<in> set (concat (map (\<lambda>(dex, pools).
      map (\<lambda>p. ((dex, pair_key (dp_token_a p) (dp_token_b p)), p)) pools) (dex_pools cache)))"
    using map_of_grouped [OF ps [unfolded dex_pair_index_of_def]] by blast
  then obtain pools where "(dex, pools) \<in> set (dex_pools cache)" "pool \<in> set pools"
    and key: "pair_key (dp_token_a pool) (dp_token_b pool) = pair_key x y" by auto
  then have pool: "pool \<in> set (map snd (cache_inner cache))" "cyclic_pool pool" "dp_dex_type pool = dex"
    using dex_pools_entry by blast+
  then obtain k where "(k, pool) \<in> set (cache_inner cache)" by auto
  moreover have "joins pool x y" using key unfolding pair_key_eq by (auto simp: joins_def doubleton_eq_iff)
  ultimately show ?thesis using cached_pool [OF assms(2)] pool by (simp add: leg_ok_def)
qed

lemma quote_hop_Inr:
  assumes "quote_hop fl now pool x amount = Inr (out, impact)"
  shows "quote_from fl now pool x amount = Some out" and "0 < out" and "sat_mul amount 2 \<le> reserve_from pool x"
proof -
  have "out \<noteq> 0" using assms by (auto simp: quote_hop_def split: if_splits)
  then show "0 < out" by (simp add: word_neq_0_conv)
  show "quote_from fl now pool x amount = Some out" "sat_mul amount 2 \<le> reserve_from pool x"
    using assms by (auto simp: quote_hop_def quote_from_def reserve_from_def split: if_splits)
qed

definition cyclic_report :: "'f f64_ops \<Rightarrow> nat \<Rightarrow> pool_cache \<Rightarrow> u64 list \<Rightarrow> 'f route_params \<Rightarrow> bool" where
  "cyclic_report fl now pools borrow_amounts route \<longleftrightarrow> arbitrage fl now pools 15000 route
     \<and> hop_token_in (hd (rp_hops route)) \<in> set CROSS_ANCHORS
     \<and> (\<exists>amount \<in> set borrow_amounts. rp_borrow_amount route = min amount MAX_BORROW_LAMPORTS)
     \<and> 0 < rp_net_profit route
     \<and> (\<exists>(dex1, dex2, dex3) \<in> set VENUE_COMBOS.
          list_all2 (\<lambda>hop dex. \<exists>pool. get_pool pools (hop_pool hop) = Some pool \<and> dp_dex_type pool = dex \<and> cyclic_pool pool)
            (rp_hops route) [dex1, dex2, dex3])"

lemma quote_3leg_reported:
  assumes "quote_3leg_cycle fl now p1 x p2 y p3 z amount = Inr route"
    and "leg_ok pools dex1 x y p1" and "leg_ok pools dex2 y z p2" and "leg_ok pools dex3 z x p3"
    and "(dex1, dex2, dex3) \<in> set VENUE_COMBOS" and "x \<in> set CROSS_ANCHORS"
    and "a \<in> set amounts" and "amount = min a MAX_BORROW_LAMPORTS"
  shows "cyclic_report fl now pools amounts route"
proof -
  obtain out1 impact1 out2 impact2 out3 impact3 where
    q: "quote_hop fl now p1 x amount = Inr (out1, impact1)" "quote_hop fl now p2 y out1 = Inr (out2, impact2)"
      "quote_hop fl now p3 z out2 = Inr (out3, impact3)" and more: "amount < out3"
    and route: "rp_borrow_amount route = amount" "rp_gross_profit route = out3 - amount" "0 < rp_net_profit route"
      "rp_net_profit route = wrap64 (sint (rp_gross_profit route) - 15000)"
      "rp_hops route = [hop_through p1 x y out1 impact1, hop_through p2 y z out2 impact2, hop_through p3 z x out3 impact3]"
    using assms(1) by (auto simp: quote_3leg_cycle_def Let_def)
  have "uint (rp_gross_profit route) < 2 ^ 63 \<longrightarrow> rp_net_profit route = uint (rp_gross_profit route) - 15000"
    using net_exact [of "rp_gross_profit route" 15000] by (simp add: route(4))
  moreover have "\<forall>hop \<in> set (rp_hops route). hop_fits pools hop"
    using assms(2-4) by (simp add: route(5) leg_ok_def hop_through_fits)
  moreover have "quoted_hops fl now pools amount (rp_hops route)"
    using assms(2-4) quote_hop_Inr(1,2) [OF q(1)] quote_hop_Inr(1,2) [OF q(2)] quote_hop_Inr(1,2) [OF q(3)]
    by (simp add: route(5) leg_ok_def)
  ultimately have "arbitrage fl now pools 15000 route"
    using more route(1,2) by (simp add: arbitrage_def route(5) closed_route_def final_amount_def)
  moreover have "list_all2 (\<lambda>hop dex. \<exists>pool. get_pool pools (hop_pool hop) = Some pool \<and> dp_dex_type pool = dex \<and> cyclic_pool pool)
    (rp_hops route) [dex1, dex2, dex3]"
    using assms(2-4) by (simp add: route(5) leg_ok_def)
  ultimately show ?thesis
    using assms(5-8) route(1,3) unfolding cyclic_report_def by (force simp: route(5))
qed

lemma cyclic_scan_reported:
  assumes "scan_cyclic_opportunities env now pools amounts = Some routes" and "route \<in> set routes"
    and "cache_keyed pools" and "\<forall>tokens. set (sv_token_order env tokens) \<subseteq> set tokens"
  shows "cyclic_report (sv_floats env) now pools amounts route"
proof -
  let ?fl = "sv_floats env" and ?index = "dex_pair_index_of (dex_pools pools)"
  obtain reported where reported: "collect_concat (combo_cycles env now (dex_pools pools) amounts) VENUE_COMBOS = Some reported"
    and routes: "routes = by_profit reported"
    using assms(1) by (auto simp: scan_cyclic_opportunities_def split: bind_splits)
  have route: "route \<in> set reported" using assms(2) by (simp add: routes)
  from collect_concat_set [OF reported, of route] route
  obtain combo l1 where combo: "combo \<in> set VENUE_COMBOS" and l1: "combo_cycles env now (dex_pools pools) amounts combo = Inr l1" "route \<in> set l1"
    by blast
  obtain dex1 dex2 dex3 where dexes: "combo = (dex1, dex2, dex3)" by (cases combo)
  obtain pools1 pools2 pools3 where anchors: "collect_concat (cycles_from env now ?index (token_neighbors pools1)
      (token_neighbors pools2) (token_neighbors pools3) combo amounts) (sv_token_order env CROSS_ANCHORS) = Some l1"
    using l1(1) by (auto simp: combo_cycles_def dexes)
  from collect_concat_set [OF anchors, of route] l1(2)
  obtain anchor l2 where "anchor \<in> set (sv_token_order env CROSS_ANCHORS)" and l2: "cycles_from env now ?index (token_neighbors pools1)
      (token_neighbors pools2) (token_neighbors pools3) combo amounts anchor = Inr l2" "route \<in> set l2" by blast
  then have anchor: "anchor \<in> set CROSS_ANCHORS" using assms(4) by blast
  obtain neighbors1 where through: "collect_concat (cycles_through env now ?index (token_neighbors pools2) (token_neighbors pools3)
      combo amounts anchor) (sv_token_order env neighbors1) = Some l2"
    using l2(1) by (auto simp: cycles_from_def)
  from collect_concat_set [OF through, of route] l2(2)
  obtain y l3 where l3: "cycles_through env now ?index (token_neighbors pools2) (token_neighbors pools3) combo amounts anchor y = Inr l3"
    "route \<in> set l3" by blast
  obtain neighbors2 where via: "collect_kept (cycle_via ?fl now ?index (token_neighbors pools3) combo amounts anchor y)
      (sv_token_order env neighbors2) = Some l3"
    using l3(1) by (auto simp: cycles_through_def)
  from collect_kept_from [OF via l3(2)]
  obtain z where "cycle_via ?fl now ?index (token_neighbors pools3) combo amounts anchor y z = Inr route" by blast
  then obtain p1 p2 p3 quotes where legs: "best_pool_for_pair ?index dex1 anchor y = Some p1"
      "best_pool_for_pair ?index dex2 y z = Some p2" "best_pool_for_pair ?index dex3 z anchor = Some p3"
    and quotes: "collect_kept (\<lambda>amount. quote_3leg_cycle ?fl now p1 anchor p2 y p3 z (min amount MAX_BORROW_LAMPORTS)) amounts = Some quotes"
    and best: "best_route quotes = Some route"
    by (auto simp: cycle_via_def dexes)
  from collect_kept_from [OF quotes] best_route_spec [OF best]
  obtain a where "a \<in> set amounts" "quote_3leg_cycle ?fl now p1 anchor p2 y p3 z (min a MAX_BORROW_LAMPORTS) = Inr route" by blast
  then show ?thesis
    using quote_3leg_reported best_pool_leg [OF legs(1) assms(3)] best_pool_leg [OF legs(2) assms(3)] best_pool_leg [OF legs(3) assms(3)]
      combo anchor dexes by blast
qed

section \<open>The scan answers\<close>

lemma quote_hop_no_panic: "sane_fee pool \<Longrightarrow> no_panic (quote_hop fl now pool x amount)"
  unfolding quote_hop_def by (intro cross_intros)

lemma quote_3leg_no_panic:
  "sane_fee p1 \<Longrightarrow> sane_fee p2 \<Longrightarrow> sane_fee p3 \<Longrightarrow> no_panic (quote_3leg_cycle fl now p1 x p2 y p3 z amount)"
  unfolding quote_3leg_cycle_def by (intro cross_intros quote_hop_no_panic)

lemma best_pool_sane:
  assumes "fees_sane cache" and "ok_or Skip (best_pool_for_pair (dex_pair_index_of (dex_pools cache)) dex x y) = Inr pool"
    and "cache_keyed cache"
  shows "sane_fee pool"
  using best_pool_leg [of cache dex x y pool] fees_sane_get [OF assms(1)] assms(2,3) by (auto simp: leg_ok_def)

lemma cycle_via_no_panic:
  assumes "fees_sane pools" and "cache_keyed pools"
  shows "no_panic (cycle_via fl now (dex_pair_index_of (dex_pools pools)) adj3 (dex1, dex2, dex3) amounts anchor y z)"
  unfolding cycle_via_def prod.case
  by (intro cross_intros quote_3leg_no_panic) (elim best_pool_sane [OF assms(1) _ assms(2)])+

lemma cyclic_scan_returns:
  assumes "fees_sane pools" and "cache_keyed pools"
  shows "scan_cyclic_opportunities env now pools amounts \<noteq> None"
  unfolding scan_cyclic_opportunities_def combo_cycles_def cycles_from_def cycles_through_def
  by (intro cross_intros cycle_via_no_panic assms)

text \<open>The last combination is listed but never taken: its first exchange is filtered out.\<close>

lemma cpmm_combo_idle: "combo_cycles env now (dex_pools cache) amounts (RaydiumCpmm, d2, d3) = Inl Skip"
proof (cases "map_of (dex_pools cache) RaydiumCpmm")
  case (Some pools)
  have entry: "(RaydiumCpmm, pools) \<in> set (dex_pools cache)" using Some by (rule map_of_SomeD)
  have "pools \<noteq> []"
    using grouped_inv [of "map (\<lambda>p. (dp_dex_type p, p)) (filter cyclic_pool (map snd (cache_inner cache)))"] entry
    by (auto simp: group_inv_def dex_pools_def)
  then show ?thesis using dex_pools_entry [OF entry, of "hd pools"] by (auto simp: cyclic_pool_def)
qed (simp add: combo_cycles_def)

section \<open>The contract with the transaction builder\<close>

definition cyclic_reported :: "'f f64_ops \<Rightarrow> nat \<Rightarrow> pool_cache \<Rightarrow> 'f route_params \<Rightarrow> bool" where
  "cyclic_reported fl now pools route \<longleftrightarrow> cache_keyed pools
     \<and> (\<exists>env amounts routes. sv_floats env = fl \<and> (\<forall>tokens. set (sv_token_order env tokens) \<subseteq> set tokens)
          \<and> scan_cyclic_opportunities env now pools amounts = Some routes \<and> route \<in> set routes)"

lemma cyclic_reported_arbitrage: "cyclic_reported fl now pools route \<Longrightarrow> arbitrage fl now pools 15000 route"
proof -
  assume "cyclic_reported fl now pools route"
  then obtain env amounts routes where "sv_floats env = fl" "scan_cyclic_opportunities env now pools amounts = Some routes"
      "route \<in> set routes" "cache_keyed pools" "\<forall>tokens. set (sv_token_order env tokens) \<subseteq> set tokens"
    unfolding cyclic_reported_def by blast
  then show ?thesis using cyclic_scan_reported unfolding cyclic_report_def by blast
qed

interpretation cyclic_arb: route_source cyclic_reported
  by unfold_locales (auto simp: arbitrage_def dest!: cyclic_reported_arbitrage)

end
