(* ===== verification/Stablecoin_Arb.thy ===== *)
theory Stablecoin_Arb
  imports Cross_Answers Pool_Cache
begin

text \<open>
  Arbitrage between the SOL pools of one stablecoin, \<^verbatim>\<open>market-engine/src/stablecoin_arb.rs\<close>. The scanner is
  the cache it holds and finds its pools through the pair index of the cache. The constants \<^verbatim>\<open>SOL_DECIMALS\<close> and
  \<^verbatim>\<open>STABLE_DECIMALS\<close> of the source are never used.
\<close>

section \<open>The scanner\<close>

definition MIN_SPREAD_BPS :: u64 where [simp]: "MIN_SPREAD_BPS = 30"
definition MIN_POOL_LIQUIDITY :: u64 where [simp]: "MIN_POOL_LIQUIDITY = 1000000000"
definition STABLE_MAX_IMPACT :: "'f f64_ops \<Rightarrow> 'f" where "STABLE_MAX_IMPACT fl = fl_lit fl ''5.0''"
definition STABLE_MAX_RETURN :: "'f f64_ops \<Rightarrow> 'f" where "STABLE_MAX_RETURN fl = fl_lit fl ''1.02''"

definition is_eligible_pool :: "dex_pool \<Rightarrow> bool" where
  "is_eligible_pool pool \<longleftrightarrow>
     \<not> (dp_reserve_a pool < MIN_POOL_LIQUIDITY \<or> dp_reserve_b pool < MIN_POOL_LIQUIDITY)
     \<and> dp_dex_type pool \<notin> {Unknown, RaydiumCpmm}
     \<and> (dp_dex_type pool = RaydiumAmmV4 \<longrightarrow> (case dp_raydium_meta pool of
          Some meta \<Rightarrow> 0 \<notin> {rm_vault_a meta, rm_vault_b meta, rm_market_id meta, rm_market_bids meta, rm_market_asks meta}
        | None \<Rightarrow> False))
     \<and> (dp_dex_type pool = OrcaWhirlpool \<longrightarrow> (case dp_orca_meta pool of
          Some m \<Rightarrow> \<not> (om_tick_spacing m = 0 \<or> om_token_vault_a m = 0) | None \<Rightarrow> False))
     \<and> (dp_dex_type pool = MeteoraDlmm \<longrightarrow> (case dp_meteora_meta pool of
          Some m \<Rightarrow> mm_token_vault_a m \<noteq> 0 | None \<Rightarrow> False))"

definition implied_sol_price :: "'f f64_ops \<Rightarrow> nat \<Rightarrow> pubkey \<Rightarrow> dex_pool \<Rightarrow> 'f" where
  "implied_sol_price fl now wsol pool =
     (let (ra, rb) = effective_reserves now pool; zero = fl_lit fl ''0.0'';
          price = (\<lambda>sol_reserve sol_decimals stable_reserve stable_decimals.
            let sol_ui = fl_div fl (fl_of_int fl (uint (sol_reserve :: u64))) (fl_powi fl (fl_lit fl ''10'') (uint (sol_decimals :: u8)));
                stable_ui = fl_div fl (fl_of_int fl (uint (stable_reserve :: u64))) (fl_powi fl (fl_lit fl ''10'') (uint (stable_decimals :: u8))) in
            if fl_le fl sol_ui zero then zero else fl_div fl stable_ui sol_ui) in
      if ra = 0 \<or> rb = 0 then zero
      else if dp_token_a pool = wsol then price ra (dp_decimals_a pool) rb (dp_decimals_b pool)
      else if dp_token_b pool = wsol then price rb (dp_decimals_b pool) ra (dp_decimals_a pool)
      else zero)"

definition build_stablecoin_route :: "'f f64_ops \<Rightarrow> nat \<Rightarrow> dex_pool \<Rightarrow> dex_pool \<Rightarrow> pubkey \<Rightarrow> pubkey \<Rightarrow> u64
    \<Rightarrow> skip + 'f route_params" where
  "build_stablecoin_route fl now buy_pool sell_pool borrow_token mid_token borrow_amount =
     (let buy_a_is_borrow = (dp_token_a buy_pool = borrow_token);
          buy_reserve_in = (if buy_a_is_borrow then dp_reserve_a buy_pool else dp_reserve_b buy_pool) in
      and_then (guard_or Skip (\<not> buy_reserve_in < sat_mul borrow_amount 5)) (\<lambda>_.
      and_then (if buy_a_is_borrow
        then and_then (ok_or Panic (quote_a_to_b fl now borrow_amount buy_pool)) (\<lambda>out.
          Inr (out, impact_of fl borrow_amount (dp_reserve_a buy_pool)))
        else and_then (ok_or Panic (quote_b_to_a fl now borrow_amount buy_pool)) (\<lambda>out.
          Inr (out, impact_of fl borrow_amount (dp_reserve_b buy_pool)))) (\<lambda>(mid_amount, impact_1).
      and_then (guard_or Skip (\<not> (mid_amount = 0 \<or> fl_lt fl (STABLE_MAX_IMPACT fl) impact_1))) (\<lambda>_.
      (let sell_a_is_mid = (dp_token_a sell_pool = mid_token) in
       and_then (if sell_a_is_mid
         then and_then (ok_or Panic (quote_a_to_b fl now mid_amount sell_pool)) (\<lambda>out.
           Inr (out, impact_of fl mid_amount (dp_reserve_a sell_pool)))
         else and_then (ok_or Panic (quote_b_to_a fl now mid_amount sell_pool)) (\<lambda>out.
           Inr (out, impact_of fl mid_amount (dp_reserve_b sell_pool)))) (\<lambda>(final_amount, impact_2).
       and_then (guard_or Skip (\<not> (final_amount = 0 \<or> fl_lt fl (STABLE_MAX_IMPACT fl) impact_2))) (\<lambda>_.
       and_then (guard_or Skip (\<not> final_amount \<le> borrow_amount)) (\<lambda>_.
       and_then (guard_or Skip (\<not> fl_lt fl (fl_mul fl (fl_of_int fl (uint borrow_amount)) (STABLE_MAX_RETURN fl))
         (fl_of_int fl (uint final_amount)))) (\<lambda>_.
       (let gross_profit = final_amount - borrow_amount;
            net_profit = wrap64 (sint gross_profit - sint (CROSS_FEE_PER_HOP * 2)) in
        and_then (guard_or Skip (\<not> net_profit \<le> 0)) (\<lambda>_.
        (let max_impact = fl_max fl impact_1 impact_2;
             risk_factor = fl_min fl (fl_div fl max_impact (fl_lit fl ''100.0'')) (fl_lit fl ''0.95'') in
         Inr \<lparr>rp_hops = [cross_hop buy_pool borrow_token mid_token mid_amount impact_1,
                cross_hop sell_pool mid_token borrow_token final_amount impact_2],
              rp_borrow_amount = borrow_amount, rp_gross_profit = gross_profit, rp_net_profit = net_profit,
              rp_risk_factor = risk_factor, rp_strategy = ''stablecoin_arb'', rp_tier = 0\<rparr>))))))))))))"

definition priced_pools :: "'f f64_ops \<Rightarrow> nat \<Rightarrow> pubkey \<Rightarrow> dex_pool list \<Rightarrow> (dex_pool \<times> 'f) list" where
  "priced_pools fl now wsol eligible =
     filter (\<lambda>(_, price). fl_lt fl (fl_lit fl ''0.0'') price \<and> fl_finite fl price)
       (map (\<lambda>pool. (pool, implied_sol_price fl now wsol pool)) eligible)"

text \<open>The cheap and the expensive pool, if the spread between them exceeds their fees.\<close>

definition stable_spread :: "'f f64_ops \<Rightarrow> (dex_pool \<times> 'f) list \<Rightarrow> (dex_pool \<times> dex_pool) option" where
  "stable_spread fl priced = do {
     (max_idx, expensive_pool, max_price) \<leftarrow> last_max (\<lambda>(_, _, y) (_, _, x). fl_lt fl y x) (enumerate 0 priced);
     (min_idx, cheap_pool, min_price) \<leftarrow> first_min (\<lambda>(_, _, y) (_, _, x). fl_lt fl y x) (enumerate 0 priced);
     if max_idx = min_idx then None
     else let avg_price = fl_div fl (fl_add fl max_price min_price) (fl_lit fl ''2.0'');
              spread_bps = fl_to_u64 fl (fl_mul fl (fl_div fl (fl_sub fl max_price min_price) avg_price) (fl_lit fl ''10000.0''));
              combined_fee_bps = dex_fee_bps (dp_dex_type cheap_pool) + dex_fee_bps (dp_dex_type expensive_pool) in
       if spread_bps < combined_fee_bps + MIN_SPREAD_BPS then None else Some (cheap_pool, expensive_pool) }"

definition scan_stablecoin_pair :: "'f f64_ops \<Rightarrow> nat \<Rightarrow> pool_cache \<Rightarrow> pubkey \<Rightarrow> pubkey \<Rightarrow> u64 list \<Rightarrow> 'f route_params list option" where
  "scan_stablecoin_pair fl now pool_cache wsol stable_mint borrow_amounts =
     (let eligible = filter is_eligible_pool (pools_for_pair pool_cache wsol stable_mint) in
      if length eligible < 2 then Some []
      else let priced = priced_pools fl now wsol eligible in
        if length priced < 2 then Some []
        else case stable_spread fl priced of
            None \<Rightarrow> Some []
          | Some (cheap_pool, expensive_pool) \<Rightarrow> do {
              buys \<leftarrow> collect_kept (build_stablecoin_route fl now cheap_pool expensive_pool stable_mint wsol) borrow_amounts;
              sells \<leftarrow> collect_kept (build_stablecoin_route fl now expensive_pool cheap_pool wsol stable_mint) borrow_amounts;
              Some (take 3 (by_profit (buys @ sells))) })"

definition scan_stablecoins :: "'f f64_ops \<Rightarrow> nat \<Rightarrow> pool_cache \<Rightarrow> u64 list \<Rightarrow> 'f route_params list option" where
  "scan_stablecoins fl now pool_cache borrow_amounts = do {
     usdc_routes \<leftarrow> scan_stablecoin_pair fl now pool_cache SOL_MINT USDC_MINT borrow_amounts;
     usdt_routes \<leftarrow> scan_stablecoin_pair fl now pool_cache SOL_MINT USDT_MINT borrow_amounts;
     Some (by_profit (usdc_routes @ usdt_routes)) }"

section \<open>Reported routes\<close>

text \<open>The pools of a pair, as the invariant of the cache has them.\<close>

lemma cache_inv_keyed: "cache_inv s \<Longrightarrow> cache_keyed s"
  unfolding cache_inv_def cache_keyed_def by (auto simp del: map_of_eq_Some_iff dest!: map_of_is_SomeI [rotated])

definition pair_pool :: "pool_cache \<Rightarrow> pubkey \<Rightarrow> pubkey \<Rightarrow> dex_pool \<Rightarrow> bool" where
  "pair_pool pools x y pool \<longleftrightarrow> get_pool pools (dp_pool_address pool) = Some pool \<and> joins pool x y \<and> x \<noteq> y"

lemma pair_pool_commute: "pair_pool pools x y pool \<longleftrightarrow> pair_pool pools y x pool"
  using joins_commute [of pool] by (auto simp: pair_pool_def)

lemma indexed_pair_pool:
  assumes "stable_inv pair_of pools" and "pool \<in> set (pools_for_pair pools x y)" and "x \<noteq> y"
  shows "pair_pool pools x y pool"
proof -
  have keyed: "cache_keyed pools" using assms(1) by (simp add: stable_inv_def cache_inv_keyed)
  obtain addr where addr: "get_pool pools addr = Some pool" and pair: "pair_of_pool pool = canonical_pair x y"
    using assms(2) unfolding stable_inv_pools [OF assms(1)] cached_of_pair_def by blast
  have "get_pool pools (dp_pool_address pool) = Some pool" using cached_address [OF keyed addr] addr by simp
  moreover have "joins pool x y" using pair by (auto simp: joins_def pair_of_pool_def canonical_pair_def split: if_splits)
  ultimately show ?thesis using assms(3) by (simp add: pair_pool_def)
qed

definition stable_report :: "'f f64_ops \<Rightarrow> nat \<Rightarrow> pool_cache \<Rightarrow> u64 list \<Rightarrow> 'f route_params \<Rightarrow> bool" where
  "stable_report fl now pools borrow_amounts route \<longleftrightarrow> arbitrage fl now pools 10000 route \<and> length (rp_hops route) = 2
     \<and> hop_token_in (hd (rp_hops route)) \<in> {SOL_MINT, USDC_MINT, USDT_MINT}
     \<and> rp_borrow_amount route \<in> set borrow_amounts \<and> 0 < rp_net_profit route
     \<and> (\<forall>hop \<in> set (rp_hops route). \<forall>pool. get_pool pools (hop_pool hop) = Some pool \<longrightarrow> is_eligible_pool pool)"

text \<open>There and back through two pools of a pair, each quoted from the token it receives.\<close>

lemma two_pools_back:
  assumes "pair_pool pools x y p1" and "pair_pool pools x y p2" and "mid \<noteq> 0" and "amount < final"
    and "(if dp_token_a p1 = x then quote_a_to_b fl now amount p1 else quote_b_to_a fl now amount p1) = Some mid"
    and "(if dp_token_a p2 = y then quote_a_to_b fl now mid p2 else quote_b_to_a fl now mid p2) = Some final"
    and "rp_borrow_amount route = amount" and "rp_gross_profit route = final - amount"
    and "rp_net_profit route = wrap64 (sint (rp_gross_profit route) - 10000)"
    and "rp_hops route = [hop_through p1 x y mid impact1, hop_through p2 y x final impact2]"
  shows "arbitrage fl now pools 10000 route"
proof -
  have q: "quote_from fl now p1 x amount = Some mid" "quote_from fl now p2 y mid = Some final"
    using assms(5,6) unfolding quote_from_def by (simp_all only: eq_commute [of x] eq_commute [of y])
  have "0 < mid" using assms(3) by (simp add: word_neq_0_conv)
  have "0 < final" using assms(4) by (rule le_less_trans [OF word_zero_le])
  have "uint (rp_gross_profit route) < 2 ^ 63 \<longrightarrow> rp_net_profit route = uint (rp_gross_profit route) - 10000"
    using net_exact [of "rp_gross_profit route" 10000] by (simp add: assms(9))
  moreover have "\<forall>hop \<in> set (rp_hops route). hop_fits pools hop"
    using assms(1,2) joins_commute [of p2] by (simp add: assms(10) pair_pool_def hop_through_fits)
  moreover have "quoted_hops fl now pools amount (rp_hops route)"
    using assms(1,2) q \<open>0 < mid\<close> \<open>0 < final\<close> by (simp add: assms(10) pair_pool_def)
  ultimately show ?thesis
    using assms(4,7,8) by (simp add: arbitrage_def assms(10) closed_route_def final_amount_def)
qed

lemma stablecoin_route_reported:
  assumes "build_stablecoin_route fl now p1 p2 x y amount = Inr route" and "amount \<in> set amounts"
    and "pair_pool pools x y p1" and "pair_pool pools x y p2" and "is_eligible_pool p1" and "is_eligible_pool p2"
    and "x \<in> {SOL_MINT, USDC_MINT, USDT_MINT}"
  shows "stable_report fl now pools amounts route"
proof -
  obtain mid impact1 final impact2 where
    mid: "(if dp_token_a p1 = x then quote_a_to_b fl now amount p1 else quote_b_to_a fl now amount p1) = Some mid" "mid \<noteq> 0"
    and final: "(if dp_token_a p2 = y then quote_a_to_b fl now mid p2 else quote_b_to_a fl now mid p2) = Some final"
    and more: "amount < final" and route: "rp_borrow_amount route = amount" "rp_gross_profit route = final - amount"
      "0 < rp_net_profit route" "rp_net_profit route = wrap64 (sint (rp_gross_profit route) - 10000)"
      "rp_hops route = [hop_through p1 x y mid impact1, hop_through p2 y x final impact2]"
    using assms(1) by (cases "dp_token_a p1 = x"; cases "dp_token_a p2 = y") (auto simp: build_stablecoin_route_def Let_def)
  have "arbitrage fl now pools 10000 route" by (rule two_pools_back [OF assms(3,4) mid(2) more mid(1) final route(1,2,4,5)])
  then show ?thesis using assms(2-7) route(1,3) by (simp add: stable_report_def route(5) pair_pool_def)
qed

lemma enumerated: "(i, x) \<in> set (enumerate 0 xs) \<Longrightarrow> x \<in> set xs"
  by (auto simp: in_set_enumerate_eq)

lemma stable_spread_in:
  assumes "stable_spread fl priced = Some (cheap, expensive)"
  shows "cheap \<in> fst ` set priced" and "expensive \<in> fst ` set priced"
proof -
  obtain i j max_price min_price where "(i, expensive, max_price) \<in> set (enumerate 0 priced)"
    and "(j, cheap, min_price) \<in> set (enumerate 0 priced)"
    using assms by (auto simp: stable_spread_def Let_def bind_eq_Some_conv split: if_splits dest!: last_max_in first_min_in)
  then have "(expensive, max_price) \<in> set priced" "(cheap, min_price) \<in> set priced" by (blast intro: enumerated)+
  then show "cheap \<in> fst ` set priced" "expensive \<in> fst ` set priced" by force+
qed

lemma priced_pools_in: "pool \<in> fst ` set (priced_pools fl now wsol eligible) \<Longrightarrow> pool \<in> set eligible"
  by (auto simp: priced_pools_def)

lemma stablecoin_pair_reported:
  assumes "scan_stablecoin_pair fl now pools SOL_MINT stable_mint amounts = Some routes" and "route \<in> set routes"
    and "stable_inv pair_of pools" and "stable_mint \<in> {USDC_MINT, USDT_MINT}"
  shows "stable_report fl now pools amounts route"
proof -
  let ?eligible = "filter is_eligible_pool (pools_for_pair pools SOL_MINT stable_mint)"
  obtain cheap expensive buys sells where spread: "stable_spread fl (priced_pools fl now SOL_MINT ?eligible) = Some (cheap, expensive)"
    and buys: "collect_kept (build_stablecoin_route fl now cheap expensive stable_mint SOL_MINT) amounts = Some buys"
    and sells: "collect_kept (build_stablecoin_route fl now expensive cheap SOL_MINT stable_mint) amounts = Some sells"
    and routes: "routes = take 3 (by_profit (buys @ sells))"
    using assms(1,2) by (auto simp: scan_stablecoin_pair_def Let_def simp del: SOL_MINT_def split: if_splits option.splits bind_splits)
  have distinct: "SOL_MINT \<noteq> stable_mint" using assms(4) by auto
  have ok: "pair_pool pools SOL_MINT stable_mint p \<and> is_eligible_pool p" if "p \<in> {cheap, expensive}" for p
  proof -
    have "p \<in> set ?eligible" using that priced_pools_in [OF stable_spread_in(1) [OF spread]]
        priced_pools_in [OF stable_spread_in(2) [OF spread]] by blast
    then show ?thesis using indexed_pair_pool [OF assms(3) _ distinct] by simp
  qed
  have tokens: "stable_mint \<in> {SOL_MINT, USDC_MINT, USDT_MINT}" "SOL_MINT \<in> {SOL_MINT, USDC_MINT, USDT_MINT}"
    using assms(4) by blast+
  have "route \<in> set (buys @ sells)" using assms(2) routes by (auto dest: in_set_takeD)
  then consider "route \<in> set buys" | "route \<in> set sells" by auto
  then show ?thesis
  proof cases
    case 1
    from collect_kept_from [OF buys 1] obtain a where a: "a \<in> set amounts"
      "build_stablecoin_route fl now cheap expensive stable_mint SOL_MINT a = Inr route" by blast
    show ?thesis
      using stablecoin_route_reported [OF a(2,1) _ _ _ _ tokens(1)] ok pair_pool_commute by blast
  next
    case 2
    from collect_kept_from [OF sells 2] obtain a where a: "a \<in> set amounts"
      "build_stablecoin_route fl now expensive cheap SOL_MINT stable_mint a = Inr route" by blast
    show ?thesis
      using stablecoin_route_reported [OF a(2,1) _ _ _ _ tokens(2)] ok by blast
  qed
qed

lemma stablecoins_reported:
  assumes "scan_stablecoins fl now pools amounts = Some routes" and "stable_inv pair_of pools"
  shows "\<forall>route \<in> set routes. stable_report fl now pools amounts route"
proof -
  obtain usdc usdt where scans: "scan_stablecoin_pair fl now pools SOL_MINT USDC_MINT amounts = Some usdc"
      "scan_stablecoin_pair fl now pools SOL_MINT USDT_MINT amounts = Some usdt"
    and routes: "routes = by_profit (usdc @ usdt)"
    using assms(1) by (auto simp: scan_stablecoins_def simp del: SOL_MINT_def USDC_MINT_def USDT_MINT_def split: bind_splits)
  show ?thesis
    using stablecoin_pair_reported [OF scans(1) _ assms(2)] stablecoin_pair_reported [OF scans(2) _ assms(2)]
    by (auto simp: routes simp del: SOL_MINT_def USDC_MINT_def USDT_MINT_def)
qed

section \<open>The scan answers\<close>

lemma stablecoin_route_no_panic:
  "sane_fee p1 \<Longrightarrow> sane_fee p2 \<Longrightarrow> no_panic (build_stablecoin_route fl now p1 p2 x y amount)"
  unfolding build_stablecoin_route_def by (intro cross_intros)

lemma stablecoin_pair_returns:
  assumes "fees_sane pools" shows "scan_stablecoin_pair fl now pools wsol stable_mint amounts \<noteq> None"
proof -
  let ?priced = "priced_pools fl now wsol (filter is_eligible_pool (pools_for_pair pools wsol stable_mint))"
  have sane: "sane_fee cheap \<and> sane_fee expensive" if "stable_spread fl ?priced = Some spread" "spread = (cheap, expensive)"
    for spread cheap expensive
  proof -
    note in_set = stable_spread_in [OF that(1) [unfolded that(2)]]
    have "cheap \<in> set (pools_for_pair pools wsol stable_mint) \<and> expensive \<in> set (pools_for_pair pools wsol stable_mint)"
      using priced_pools_in [OF in_set(1)] priced_pools_in [OF in_set(2)] by simp
    then show ?thesis using fees_sane_get [OF assms] by (auto simp: set_pools_for_pair)
  qed
  show ?thesis
    unfolding scan_stablecoin_pair_def
    by (intro cross_intros stablecoin_route_no_panic) (blast dest: sane)+
qed

lemma stablecoins_return: "fees_sane pools \<Longrightarrow> scan_stablecoins fl now pools amounts \<noteq> None"
  unfolding scan_stablecoins_def by (intro cross_intros stablecoin_pair_returns)

section \<open>The contract with the transaction builder\<close>

definition stable_reported :: "'f f64_ops \<Rightarrow> nat \<Rightarrow> pool_cache \<Rightarrow> 'f route_params \<Rightarrow> bool" where
  "stable_reported fl now pools route \<longleftrightarrow>
     (\<exists>pair_of amounts routes. stable_inv pair_of pools \<and> scan_stablecoins fl now pools amounts = Some routes \<and> route \<in> set routes)"

lemma stable_reported_arbitrage: "stable_reported fl now pools route \<Longrightarrow> arbitrage fl now pools 10000 route"
  unfolding stable_reported_def using stablecoins_reported by (fastforce simp: stable_report_def)

interpretation stablecoin_arb: route_source stable_reported
  by unfold_locales (auto simp: arbitrage_def dest!: stable_reported_arbitrage)

end
