(* ===== verification/Scanner_Reports.thy ===== *)
theory Scanner_Reports
  imports Cross_Reports Cyclic_Arb Stablecoin_Arb
begin

text \<open>
  The properties of the scanners for cycles of three exchanges and for stablecoins, with example markets in which
  each finds a route.
\<close>

section \<open>An example cycle\<close>

definition cycle_raydium :: raydium_metadata where
  "cycle_raydium = \<lparr>rm_authority = 1, rm_nonce = 0, rm_open_orders = 1, rm_target_orders = 1, rm_vault_a = 1, rm_vault_b = 2,
     rm_market_id = 1, rm_market_program = 1, rm_market_event_queue = 1, rm_market_bids = 1, rm_market_asks = 1,
     rm_market_base_vault = 1, rm_market_quote_vault = 1, rm_market_vault_signer = 1\<rparr>"

definition cycle_pool :: "pubkey \<Rightarrow> dex_type \<Rightarrow> pubkey \<Rightarrow> pubkey \<Rightarrow> u64 \<Rightarrow> dex_pool" where
  "cycle_pool k dex a b reserve = (example_pool k reserve)\<lparr>dp_dex_type := dex, dp_token_a := a, dp_token_b := b,
     dp_raydium_meta := Some cycle_raydium\<rparr>"

abbreviation leg1 :: dex_pool where "leg1 \<equiv> cycle_pool 21 PumpSwap 12 SOL_MINT 1000000000"
abbreviation leg2 :: dex_pool where "leg2 \<equiv> cycle_pool 22 RaydiumAmmV4 12 14 1000000000"
abbreviation leg3 :: dex_pool where "leg3 \<equiv> cycle_pool 23 OrcaWhirlpool 14 SOL_MINT 1080000000"

definition cycle_market :: pool_cache where
  "cycle_market = upsert leg3 (upsert leg2 (upsert leg1 new_pool_cache))"

lemma cycle_pool_simps [simp]:
  "dp_pool_address (cycle_pool k dex a b r) = k" "dp_dex_type (cycle_pool k dex a b r) = dex"
  "dp_token_a (cycle_pool k dex a b r) = a" "dp_token_b (cycle_pool k dex a b r) = b"
  "dp_reserve_a (cycle_pool k dex a b r) = 1000000000" "dp_reserve_b (cycle_pool k dex a b r) = r"
  "dp_fee_bps (cycle_pool k dex a b r) = 0" "dp_raydium_meta (cycle_pool k dex a b r) = Some cycle_raydium"
  by (simp_all add: cycle_pool_def)

lemma cycle_quotes:
  "quote_a_to_b fl now amount (cycle_pool k dex a b r) = (if r = 0 then Some 0 else xyk_quote 1000000000 r amount 0)"
  "quote_b_to_a fl now amount (cycle_pool k dex a b r) = (if r = 0 then Some 0 else xyk_quote r 1000000000 amount 0)"
  by (simp_all add: quote_a_to_b_def quote_b_to_a_def effective_reserves_def cycle_pool_def example_pool_def)

lemma cycle_market_pools: "cache_inner cycle_market = [(21, leg1), (22, leg2), (23, leg3)]"
  by (simp add: cycle_market_def upsert_def new_pool_cache_def Let_def)

lemma cycle_eligible: "cyclic_pool leg1" "cyclic_pool leg2" "cyclic_pool leg3"
  by (simp_all add: cyclic_pool_def dust_def phantom_raydium_def cycle_raydium_def)

lemma cycle_dex_pools: "dex_pools cycle_market = [(PumpSwap, [leg1]), (RaydiumAmmV4, [leg2]), (OrcaWhirlpool, [leg3])]"
  by (simp add: dex_pools_def cycle_market_pools cycle_eligible grouped_def push_to_def del: SOL_MINT_def)

lemma cycle_keys: "pair_key 12 SOL_MINT = (12, SOL_MINT)" "pair_key SOL_MINT 12 = (12, SOL_MINT)" "pair_key 12 14 = (12, 14)"
  "pair_key 14 SOL_MINT = (14, SOL_MINT)"
  by (simp_all add: pair_key_def)

lemma cycle_index: "dex_pair_index_of (dex_pools cycle_market) =
    [((PumpSwap, 12, SOL_MINT), [leg1]), ((RaydiumAmmV4, 12, 14), [leg2]), ((OrcaWhirlpool, 14, SOL_MINT), [leg3])]"
  by (simp add: dex_pair_index_of_def cycle_dex_pools cycle_keys grouped_def push_to_def del: SOL_MINT_def)

lemma cycle_tokens: "SOL_MINT \<noteq> 14" "14 \<noteq> SOL_MINT" "SOL_MINT \<noteq> 12" "12 \<noteq> SOL_MINT" "USDC_MINT \<noteq> 12" "USDC_MINT \<noteq> SOL_MINT"
  by simp_all

lemma cycle_neighbors:
  "token_neighbors [leg1] = [(12, [SOL_MINT]), (SOL_MINT, [12])]"
  "token_neighbors [leg2] = [(12, [14]), (14, [12])]"
  "token_neighbors [leg3] = [(14, [SOL_MINT]), (SOL_MINT, [14])]"
  by (simp_all add: token_neighbors_def grouped_def push_to_def cycle_tokens del: SOL_MINT_def)

lemma cycle_curve:
  "xyk_quote 1000000000 1000000000 10000000 0 = Some 9900990"
  "xyk_quote 1000000000 1000000000 9900990 0 = Some 9803921"
  "xyk_quote 1000000000 1080000000 9803921 0 = Some 10485436"
  by (simp_all add: xyk_quote_def Let_def)

definition cycle_route :: "rat route_params" where
  "cycle_route = \<lparr>rp_hops =
     [hop_through leg1 SOL_MINT 12 9900990 1, hop_through leg2 12 14 9803921 (990099 / 1000000),
      hop_through leg3 14 SOL_MINT 10485436 (9803921 / 10000000)],
     rp_borrow_amount = 10000000, rp_gross_profit = 485436, rp_net_profit = 470436, rp_risk_factor = 1 / 100,
     rp_strategy = ''cyclic_3leg'', rp_tier = 0\<rparr>"

lemma cycle_quote: "quote_3leg_cycle rational_floats 0 leg1 SOL_MINT leg2 12 leg3 14 10000000 = Inr cycle_route"
proof -
  have "\<lfloor>121359 / 250 :: rat\<rfloor> = 485" by (simp add: floor_eq_iff)
  then show ?thesis
    by (simp add: quote_3leg_cycle_def quote_hop_def cycle_quotes cycle_curve cycle_tokens impact_of_def sat_mul_def
      CYCLIC_MAX_IMPACT_def CYCLIC_MAX_RETURN_def cycle_route_def Let_def wrap64_in dex_fee_bps_def del: SOL_MINT_def)
qed

lemma cycle_combo:
  "combo_cycles example_scan 0 (dex_pools cycle_market) [10000000] (PumpSwap, RaydiumAmmV4, OrcaWhirlpool) = Inr [cycle_route]"
proof -
  let ?combo = "(PumpSwap, RaydiumAmmV4, OrcaWhirlpool)" and ?index = "dex_pair_index_of (dex_pools cycle_market)"
  let ?n1 = "token_neighbors [leg1]" and ?n2 = "token_neighbors [leg2]" and ?n3 = "token_neighbors [leg3]"
  have best: "best_pool_for_pair ?index PumpSwap SOL_MINT 12 = Some leg1" "best_pool_for_pair ?index RaydiumAmmV4 12 14 = Some leg2"
    "best_pool_for_pair ?index OrcaWhirlpool 14 SOL_MINT = Some leg3"
    by (simp_all add: best_pool_for_pair_def cycle_index cycle_keys last_max_def del: SOL_MINT_def)
  have "cycle_via rational_floats 0 ?index ?n3 ?combo [10000000] SOL_MINT 12 14 = Inr cycle_route"
    by (simp add: cycle_via_def best cycle_tokens cycle_neighbors cycle_quote best_route_def keep_better_def del: SOL_MINT_def)
  then have "cycles_through example_scan 0 ?index ?n2 ?n3 ?combo [10000000] SOL_MINT 12 = Inr [cycle_route]"
    by (simp add: cycles_through_def cycle_neighbors CROSS_ANCHORS_def cycle_tokens example_scan_def del: SOL_MINT_def)
  then have "cycles_from example_scan 0 ?index ?n1 ?n2 ?n3 ?combo [10000000] SOL_MINT = Inr [cycle_route]"
    by (simp add: cycles_from_def cycle_neighbors cycle_tokens collect_concat_def example_scan_def del: SOL_MINT_def)
  moreover have "cycles_from example_scan 0 ?index ?n1 ?n2 ?n3 ?combo [10000000] USDC_MINT = Inl Skip"
    by (simp add: cycles_from_def cycle_neighbors cycle_tokens del: SOL_MINT_def USDC_MINT_def)
  moreover have "sv_token_order example_scan CROSS_ANCHORS = [SOL_MINT, USDC_MINT]" by (simp add: example_scan_def CROSS_ANCHORS_def)
  ultimately show ?thesis
    by (simp add: combo_cycles_def collect_concat_def cycle_dex_pools del: SOL_MINT_def USDC_MINT_def)
qed

lemma cycle_scan: "scan_cyclic_opportunities example_scan 0 cycle_market [10000000] = Some [cycle_route]"
proof -
  have "combo_cycles example_scan 0 (dex_pools cycle_market) [10000000] combo
      = (if combo = (PumpSwap, RaydiumAmmV4, OrcaWhirlpool) then Inr [cycle_route] else Inl Skip)"
    if "combo \<in> set VENUE_COMBOS" for combo
  proof (cases "combo = (PumpSwap, RaydiumAmmV4, OrcaWhirlpool)")
    case False
    then show ?thesis
      using that by (auto simp: VENUE_COMBOS_def combo_cycles_def cycle_dex_pools simp del: SOL_MINT_def)
  qed (simp add: cycle_combo)
  then have "collect_concat (combo_cycles example_scan 0 (dex_pools cycle_market) [10000000]) VENUE_COMBOS = Some [cycle_route]"
    by (simp add: collect_concat_def VENUE_COMBOS_def)
  then show ?thesis by (simp add: scan_cyclic_opportunities_def by_profit_def)
qed

section \<open>An example of two stablecoin pools\<close>

definition stable_pool :: "pubkey \<Rightarrow> u64 \<Rightarrow> dex_pool" where
  "stable_pool k reserve = (example_pool k reserve)\<lparr>dp_token_a := USDT_MINT, dp_token_b := SOL_MINT, dp_dex_type := PumpSwap\<rparr>"

definition stable_calls :: "pool_call list" where
  "stable_calls = [Upsert (stable_pool 31 1000000000), Upsert (stable_pool 33 1025000000)]"

definition stable_pair_of :: "pubkey \<Rightarrow> pubkey \<times> pubkey" where
  "stable_pair_of k = canonical_pair USDT_MINT SOL_MINT"

definition stable_market :: pool_cache where
  "stable_market = upsert (stable_pool 33 1025000000) (upsert (stable_pool 31 1000000000) new_pool_cache)"

lemma stable_run: "run (cache_step fl) stable_calls new_pool_cache = Some stable_market"
  by (simp add: stable_calls_def stable_market_def)

lemma stable_stable: "list_all (stable_call stable_pair_of) stable_calls"
  by (simp add: stable_calls_def stable_call_def stable_pair_of_def pair_of_pool_def stable_pool_def del: SOL_MINT_def USDT_MINT_def)

lemma stable_pool_simps [simp]:
  "dp_pool_address (stable_pool k r) = k" "dp_dex_type (stable_pool k r) = PumpSwap" "dp_token_a (stable_pool k r) = USDT_MINT"
  "dp_token_b (stable_pool k r) = SOL_MINT" "dp_reserve_a (stable_pool k r) = 1000000000" "dp_reserve_b (stable_pool k r) = r"
  "dp_fee_bps (stable_pool k r) = 0" "dp_decimals_a (stable_pool k r) = 6" "dp_decimals_b (stable_pool k r) = 9"
  by (simp_all add: stable_pool_def example_pool_def del: SOL_MINT_def USDT_MINT_def)

lemma stable_quotes:
  "quote_a_to_b fl now amount (stable_pool k r) = (if r = 0 then Some 0 else xyk_quote 1000000000 r amount 0)"
  "quote_b_to_a fl now amount (stable_pool k r) = (if r = 0 then Some 0 else xyk_quote r 1000000000 amount 0)"
  "effective_reserves now (stable_pool k r) = (1000000000, r)"
  by (simp_all add: quote_a_to_b_def quote_b_to_a_def effective_reserves_def stable_pool_def example_pool_def)

lemma stable_curve:
  "xyk_quote 1000000000 1025000000 5000000 0 = Some 5099502"
  "xyk_quote 1000000000 1000000000 5099502 0 = Some 5073629"
  by (simp_all add: xyk_quote_def Let_def)

text \<open>The scanner borrows USDT, which no provider of the flash loans lends.\<close>

lemma usdt_is_borrowed:
  "\<exists>route. build_stablecoin_route rational_floats 0 (stable_pool 33 1025000000) (stable_pool 31 1000000000) USDT_MINT SOL_MINT 5000000 = Inr route
    \<and> hop_token_in (hd (rp_hops route)) = USDT_MINT \<and> rp_net_profit route = 63629 \<and> USDT_MINT \<notin> set BORROWABLE_MINTS"
  by (simp add: build_stablecoin_route_def stable_quotes stable_curve example_mints [symmetric] impact_of_def sat_mul_def
      STABLE_MAX_IMPACT_def STABLE_MAX_RETURN_def Let_def wrap64_in BORROWABLE_MINTS_def)

section \<open>Properties\<close>

text \<open>
  Property C35. Every reported cycle is an arbitrage over three cached pools: it borrows a lendable token and one of the
  given amounts, capped at two SOL, passes one pool of each exchange of a listed combination at the quotes of
  these pools, and leaves a positive net profit; the routes come in descending order of net profit. The
  combination that starts with Raydium's CPMM is listed but never found.
\<close>

theorem cyclic_scan_sound:
  assumes "scan_cyclic_opportunities env now pools amounts = Some routes"
    and "cache_keyed pools" and "\<forall>tokens. set (sv_token_order env tokens) \<subseteq> set tokens"
  shows "sorted_wrt (\<lambda>r s. rp_net_profit s \<le> rp_net_profit r) routes
    \<and> (\<forall>route \<in> set routes. cyclic_report (sv_floats env) now pools amounts route)
    \<and> combo_cycles env now (dex_pools pools) amounts (RaydiumCpmm, RaydiumAmmV4, OrcaWhirlpool) = Inl Skip"
proof -
  have "sorted_wrt (\<lambda>r s. rp_net_profit s \<le> rp_net_profit r) routes"
    using assms(1) by (auto simp: scan_cyclic_opportunities_def by_profit_sorted split: bind_splits)
  then show ?thesis using cyclic_scan_reported [OF assms(1) _ assms(2,3)] cpmm_combo_idle by blast
qed

theorem cyclic_scan_sound_witness:
  "\<exists>route. scan_cyclic_opportunities example_scan 0 cycle_market [10000000] = Some [route]
    \<and> cyclic_report rational_floats 0 cycle_market [10000000] route \<and> rp_net_profit route = 470436"
proof -
  have "cache_keyed cycle_market" by (simp add: cache_keyed_def cycle_market_pools del: SOL_MINT_def)
  from cyclic_scan_sound [OF cycle_scan this] have "cyclic_report (sv_floats example_scan) 0 cycle_market [10000000] cycle_route"
    by (simp add: example_orders)
  then have "cyclic_report rational_floats 0 cycle_market [10000000] cycle_route" by (simp add: example_scan_def)
  with cycle_scan show ?thesis by (auto simp: cycle_route_def simp del: SOL_MINT_def)
qed



end
