(* ===== verification/Dlmm_Whirlpool.thy ===== *)
theory Dlmm_Whirlpool
  imports Cross_Answers
begin

text \<open>
  Arbitrage between bin pools and whirlpools of one pair, \<^verbatim>\<open>market-engine/src/dlmm_whirlpool_arb.rs\<close>: the builders
  of \<^verbatim>\<open>cross_dex.rs\<close> with a tighter cap on the return. The lendable tokens and the least reserve are those of
  \<^verbatim>\<open>cross_dex.rs\<close>.
\<close>

section \<open>The scanner\<close>

definition DLMM_MARGIN_BPS :: u64 where [simp]: "DLMM_MARGIN_BPS = 20"
definition DLMM_MAX_RETURN :: "'f f64_ops \<Rightarrow> 'f" where "DLMM_MAX_RETURN fl = fl_lit fl ''1.03''"

definition FOCUS_TOKENS :: "pubkey list" where
  "FOCUS_TOKENS =
     [0xBC07C56E60AD3D3F177382EAC6548FBA1FD32CFD90CA02B3E7CFA185FDCE7398,
      0xC5F9FB32F49111AB20C33F2598FC836C113E291881AC21EE29169394011244E4,
      0x0479D9C7CC1035DE7211F99EB48C09D70B2BDF5BDF9E2E56B8A1FBB5A2EA3327,
      0x0AFCF8968B8DAB88481E2D2AE689C952C757AEBA643E3919E89F2E55795C76C1,
      0xF5EDEC8471C75624EBC4079A634326D96A689E6157D79ABE8F5A6F94472853BC,
      0x37998CCBF2D0458B615CBCC6B1A367C4749E9FEF7306622E1B1B58910120BC9A,
      SOL_MINT]"

definition is_dlmm :: "dex_pool \<Rightarrow> bool" where
  "is_dlmm pool \<longleftrightarrow> \<not> dust pool \<and> dp_dex_type pool = MeteoraDlmm \<and> dp_meteora_meta pool \<noteq> None"

definition is_whirlpool :: "dex_pool \<Rightarrow> bool" where
  "is_whirlpool pool \<longleftrightarrow> \<not> dust pool \<and> dp_dex_type pool = OrcaWhirlpool
     \<and> (case dp_orca_meta pool of None \<Rightarrow> False
        | Some meta \<Rightarrow> om_tick_arrays meta \<noteq> [] \<and> om_liquidity meta > 0 \<and> om_sqrt_price meta > 0)"

definition dlmm_by_pair :: "pool_cache \<Rightarrow> ((pubkey \<times> pubkey) \<times> dex_pool list) list" where
  "dlmm_by_pair pool_cache =
     grouped (map (\<lambda>p. (pair_key (dp_token_a p) (dp_token_b p), p)) (filter is_dlmm (map snd (cache_inner pool_cache))))"

definition cap_return :: "'f f64_ops \<Rightarrow> 'f route_params \<Rightarrow> skip + 'f route_params" where
  "cap_return fl route =
     (let return_ratio = fl_div fl (fl_add fl (fl_of_int fl (uint (rp_borrow_amount route))) (fl_of_int fl (uint (rp_gross_profit route))))
            (fl_of_int fl (uint (rp_borrow_amount route))) in
      and_then (guard_or Skip (\<not> fl_lt fl (DLMM_MAX_RETURN fl) return_ratio)) (\<lambda>_.
        Inr (route\<lparr>rp_strategy := ''dlmm_whirlpool_arb'',
          rp_risk_factor := fl_min fl (fl_mul fl (rp_risk_factor route) (fl_lit fl ''0.7'')) (fl_lit fl ''0.5'')\<rparr>)))"

definition capped_routes :: "'f f64_ops \<Rightarrow> (u64 \<Rightarrow> skip + 'f route_params) \<Rightarrow> u64 list \<Rightarrow> 'f route_params list option" where
  "capped_routes fl build borrow_amounts = collect_kept (\<lambda>amount. and_then (build amount) (cap_return fl)) borrow_amounts"

text \<open>One whirlpool and one bin pool of its pair.\<close>

definition divergent_routes :: "'f f64_ops \<Rightarrow> nat \<Rightarrow> u64 list \<Rightarrow> dex_pool \<Rightarrow> dex_pool \<Rightarrow> skip + 'f route_params list" where
  "divergent_routes fl now borrow_amounts wp dlmm =
     (let key = pair_key (dp_token_a wp) (dp_token_b wp); reference_amount = reference_borrow borrow_amounts;
          wp_canonical = (dp_token_a wp = fst key); dlmm_canonical = (dp_token_a dlmm = fst key) in
      and_then (quoted_rate fl now reference_amount wp_canonical wp) (\<lambda>wp_rate.
      and_then (quoted_rate fl now reference_amount dlmm_canonical dlmm) (\<lambda>dlmm_rate.
      and_then (guard_or Skip (usable_rate fl wp_rate \<and> usable_rate fl dlmm_rate)) (\<lambda>_.
      and_then (ok_or Skip (by_rate fl \<lparr>pr_pool = wp, pr_rate_a_to_b = wp_rate, pr_canonical_order = wp_canonical\<rparr>
        \<lparr>pr_pool = dlmm, pr_rate_a_to_b = dlmm_rate, pr_canonical_order = dlmm_canonical\<rparr>)) (\<lambda>(high, low).
      and_then (guard_or Skip (\<not> divergence_bps fl (pr_rate_a_to_b high) (pr_rate_a_to_b low)
        < dex_fee_bps (dp_dex_type (pr_pool high)) + dex_fee_bps (dp_dex_type (pr_pool low)) + DLMM_MARGIN_BPS)) (\<lambda>_.
      and_then (if fst key \<in> set CROSS_ANCHORS
        then ok_or Panic (capped_routes fl (build_cross_dex_route fl now (pr_pool high) (pr_canonical_order high)
          (pr_pool low) (pr_canonical_order low) (fst key) (snd key)) borrow_amounts)
        else Inr []) (\<lambda>forward.
      and_then (if snd key \<in> set CROSS_ANCHORS
        then ok_or Panic (capped_routes fl (build_cross_dex_route_reverse fl now (pr_pool low) (pr_canonical_order low)
          (pr_pool high) (pr_canonical_order high) (fst key) (snd key)) borrow_amounts)
        else Inr []) (\<lambda>reverse.
        Inr (List.map_filter best_route [forward, reverse])))))))))"

definition whirlpool_routes :: "'f f64_ops \<Rightarrow> nat \<Rightarrow> ((pubkey \<times> pubkey) \<times> dex_pool list) list \<Rightarrow> u64 list \<Rightarrow> dex_pool
    \<Rightarrow> skip + 'f route_params list" where
  "whirlpool_routes fl now by_pair borrow_amounts wp =
     (let key = pair_key (dp_token_a wp) (dp_token_b wp) in
      and_then (guard_or Skip (dp_token_a wp \<in> set FOCUS_TOKENS \<or> dp_token_b wp \<in> set FOCUS_TOKENS)) (\<lambda>_.
      and_then (guard_or Skip (fst key \<in> set CROSS_ANCHORS \<or> snd key \<in> set CROSS_ANCHORS)) (\<lambda>_.
      and_then (ok_or Skip (map_of by_pair key)) (\<lambda>dlmm_list.
        ok_or Panic (collect_concat (divergent_routes fl now borrow_amounts wp) dlmm_list)))))"

definition scan_bin_divergence :: "'f f64_ops \<Rightarrow> nat \<Rightarrow> pool_cache \<Rightarrow> u64 list \<Rightarrow> 'f route_params list option" where
  "scan_bin_divergence fl now pool_cache borrow_amounts = do {
     routes \<leftarrow> collect_concat (whirlpool_routes fl now (dlmm_by_pair pool_cache) borrow_amounts)
       (filter is_whirlpool (map snd (cache_inner pool_cache)));
     Some (by_profit routes) }"

section \<open>Reported routes\<close>

abbreviation bin_or_whirlpool :: "dex_pool \<Rightarrow> bool" where
  "bin_or_whirlpool pool \<equiv> is_dlmm pool \<or> is_whirlpool pool"

lemma cap_return_report: "cap_return fl route = Inr route' \<Longrightarrow> cross_report Q n fl now pools amounts route'
    = cross_report Q n fl now pools amounts route"
  by (auto simp: cap_return_def cross_report_def arbitrage_def final_amount_def Let_def)

lemma capped_routes_reported:
  assumes "capped_routes fl build amounts = Some routes" and "route \<in> set routes"
    and "\<And>amount r. amount \<in> set amounts \<Longrightarrow> build amount = Inr r \<Longrightarrow> cross_report Q 2 fl now pools amounts r"
  shows "cross_report Q 2 fl now pools amounts route"
proof -
  from collect_kept_from [OF assms(1) [unfolded capped_routes_def] assms(2)]
  obtain amount r where "amount \<in> set amounts" "build amount = Inr r" "cap_return fl r = Inr route" by auto
  then show ?thesis using assms(3) cap_return_report by blast
qed

lemma dlmm_of_pair:
  assumes "cache_keyed pools" and "distinct_tokens pools" and "map_of (dlmm_by_pair pools) key = Some ps" and "pool \<in> set ps"
  shows "rate_ok bin_or_whirlpool pools (fst key) (snd key) pool (dp_token_a pool = fst key)"
proof -
  have "(key, pool) \<in> set (map (\<lambda>p. (pair_key (dp_token_a p) (dp_token_b p), p)) (filter is_dlmm (map snd (cache_inner pools))))"
    using map_of_grouped [OF assms(3) [unfolded dlmm_by_pair_def]] assms(4) by blast
  then have "pool \<in> set (map snd (cache_inner pools))" "is_dlmm pool" "key = pair_key (dp_token_a pool) (dp_token_b pool)" by auto
  then show ?thesis by (intro cached_rate_ok [OF assms(1,2)]) simp_all
qed

lemma divergent_reported:
  assumes "divergent_routes fl now amounts wp dlmm = Inr routes" and "route \<in> set routes"
    and "key = pair_key (dp_token_a wp) (dp_token_b wp)"
    and "rate_ok Q pools (fst key) (snd key) wp (dp_token_a wp = fst key)"
    and "rate_ok Q pools (fst key) (snd key) dlmm (dp_token_a dlmm = fst key)"
  shows "cross_report Q 2 fl now pools amounts route"
proof -
  obtain r1 r2 high low forward reverse where
    rates: "by_rate fl \<lparr>pr_pool = wp, pr_rate_a_to_b = r1, pr_canonical_order = (dp_token_a wp = fst key)\<rparr>
        \<lparr>pr_pool = dlmm, pr_rate_a_to_b = r2, pr_canonical_order = (dp_token_a dlmm = fst key)\<rparr> = Some (high, low)"
    and forward: "(if fst key \<in> set CROSS_ANCHORS then ok_or Panic (capped_routes fl (build_cross_dex_route fl now (pr_pool high)
        (pr_canonical_order high) (pr_pool low) (pr_canonical_order low) (fst key) (snd key)) amounts) else Inr []) = Inr forward"
    and reverse: "(if snd key \<in> set CROSS_ANCHORS then ok_or Panic (capped_routes fl (build_cross_dex_route_reverse fl now (pr_pool low)
        (pr_canonical_order low) (pr_pool high) (pr_canonical_order high) (fst key) (snd key)) amounts) else Inr []) = Inr reverse"
    and routes: "routes = List.map_filter best_route [forward, reverse]"
    using assms(1) unfolding divergent_routes_def Let_def assms(3) [symmetric] by auto
  have "rate_ok Q pools (fst key) (snd key) (pr_pool r) (pr_canonical_order r)" if "r \<in> {high, low}" for r
    using rates that assms(4,5) by (auto simp: by_rate_def split: if_splits)
  then have ok: "rate_ok Q pools (fst key) (snd key) (pr_pool high) (pr_canonical_order high)"
    "rate_ok Q pools (fst key) (snd key) (pr_pool low) (pr_canonical_order low)" by blast+
  have f: "cross_report Q 2 fl now pools amounts r" if "r \<in> set forward" for r
  proof (rule capped_routes_reported)
    show "capped_routes fl (build_cross_dex_route fl now (pr_pool high) (pr_canonical_order high) (pr_pool low)
      (pr_canonical_order low) (fst key) (snd key)) amounts = Some forward" "r \<in> set forward"
      using forward that by (auto split: if_splits)
  qed (use forward that ok forward_reported in \<open>auto split: if_splits\<close>)
  have r: "cross_report Q 2 fl now pools amounts r" if "r \<in> set reverse" for r
  proof (rule capped_routes_reported)
    show "capped_routes fl (build_cross_dex_route_reverse fl now (pr_pool low) (pr_canonical_order low) (pr_pool high)
      (pr_canonical_order high) (fst key) (snd key)) amounts = Some reverse" "r \<in> set reverse"
      using reverse that by (auto split: if_splits)
  qed (use reverse that ok reverse_reported in \<open>auto split: if_splits\<close>)
  have "best_route forward = Some route \<or> best_route reverse = Some route"
    using assms(2) by (auto simp: routes map_filter_simps split: option.splits)
  then show ?thesis using f r best_route_spec by blast
qed

lemma bin_divergence_reported:
  assumes "scan_bin_divergence fl now pools amounts = Some routes" and "route \<in> set routes"
    and "cache_keyed pools" and "distinct_tokens pools"
  shows "cross_report bin_or_whirlpool 2 fl now pools amounts route"
proof -
  obtain reported where reported: "collect_concat (whirlpool_routes fl now (dlmm_by_pair pools) amounts)
      (filter is_whirlpool (map snd (cache_inner pools))) = Some reported" and routes: "routes = by_profit reported"
    using assms(1) by (auto simp: scan_bin_divergence_def split: bind_splits)
  have route: "route \<in> set reported" using assms(2) by (simp add: routes)
  from collect_concat_set [OF reported, of route] route
  obtain wp l where "wp \<in> set (filter is_whirlpool (map snd (cache_inner pools)))"
    and l: "whirlpool_routes fl now (dlmm_by_pair pools) amounts wp = Inr l" "route \<in> set l" by blast
  then have wp: "wp \<in> set (map snd (cache_inner pools))" "is_whirlpool wp" by auto
  define key where "key = pair_key (dp_token_a wp) (dp_token_b wp)"
  obtain ps where ps: "map_of (dlmm_by_pair pools) key = Some ps"
    and through: "collect_concat (divergent_routes fl now amounts wp) ps = Some l"
    using l(1) by (auto simp: whirlpool_routes_def key_def Let_def)
  from collect_concat_set [OF through, of route] l(2)
  obtain dlmm l' where dlmm: "dlmm \<in> set ps" and l': "divergent_routes fl now amounts wp dlmm = Inr l'" "route \<in> set l'" by blast
  have "rate_ok bin_or_whirlpool pools (fst key) (snd key) wp (dp_token_a wp = fst key)"
    by (rule cached_rate_ok [OF assms(3,4) wp(1) key_def]) (simp_all add: wp(2))
  from divergent_reported [OF l' key_def this dlmm_of_pair [OF assms(3,4) ps dlmm]] show ?thesis .
qed

section \<open>The scan answers\<close>

lemma divergent_no_panic: "sane_fee wp \<Longrightarrow> sane_fee dlmm \<Longrightarrow> no_panic (divergent_routes fl now amounts wp dlmm)"
  unfolding divergent_routes_def capped_routes_def cap_return_def
  by (intro cross_intros quoted_rate_no_panic forward_no_panic reverse_no_panic)
    (auto simp: by_rate_def split: if_splits)

lemma bin_divergence_returns:
  assumes "fees_sane pools" shows "scan_bin_divergence fl now pools amounts \<noteq> None"
  unfolding scan_bin_divergence_def whirlpool_routes_def
proof (intro cross_intros divergent_no_panic)
  fix wp ps dlmm
  assume wp: "wp \<in> set (filter is_whirlpool (map snd (cache_inner pools)))"
  then show "sane_fee wp" using fees_sane_cached [OF assms] by auto
  assume "ok_or Skip (map_of (dlmm_by_pair pools) (pair_key (dp_token_a wp) (dp_token_b wp))) = Inr ps" and "dlmm \<in> set ps"
  then have ps: "map_of (dlmm_by_pair pools) (pair_key (dp_token_a wp) (dp_token_b wp)) = Some ps" and "dlmm \<in> set ps" by simp_all
  then have "(pair_key (dp_token_a wp) (dp_token_b wp), dlmm)
      \<in> set (map (\<lambda>p. (pair_key (dp_token_a p) (dp_token_b p), p)) (filter is_dlmm (map snd (cache_inner pools))))"
    using map_of_grouped [OF ps [unfolded dlmm_by_pair_def]] by blast
  then have "dlmm \<in> set (map snd (cache_inner pools))" by auto
  then show "sane_fee dlmm" by (rule fees_sane_cached [OF assms])
qed

section \<open>The contract with the transaction builder\<close>

definition bin_reported :: "'f f64_ops \<Rightarrow> nat \<Rightarrow> pool_cache \<Rightarrow> 'f route_params \<Rightarrow> bool" where
  "bin_reported fl now pools route \<longleftrightarrow> cache_keyed pools \<and> distinct_tokens pools
     \<and> (\<exists>amounts routes. scan_bin_divergence fl now pools amounts = Some routes \<and> route \<in> set routes)"

lemma bin_reported_arbitrage: "bin_reported fl now pools route \<Longrightarrow> arbitrage fl now pools 10000 route"
  unfolding bin_reported_def using bin_divergence_reported [of fl now pools _ _ route] by (fastforce simp: cross_report_def)

interpretation dlmm_whirlpool: route_source bin_reported
  by unfold_locales (auto simp: arbitrage_def dest!: bin_reported_arbitrage)

end
