(* ===== verification/Opportunity_Scanner.thy ===== *)
theory Opportunity_Scanner
  imports Cross_Answers
begin

text \<open>
  The scanner that runs on every vault update, \<^verbatim>\<open>market-engine/src/opportunity_scanner.rs\<close>: an index from each
  pool to the other pools of its pair, rebuilt every minute, and one look at the counterparts of the updated pool.
  The cache and the clock, in nanoseconds, are arguments of each call; log output is left out.
\<close>

section \<open>The scanner\<close>

definition MAX_SPREAD_BPS :: "'f f64_ops \<Rightarrow> 'f" where "MAX_SPREAD_BPS fl = fl_lit fl ''2000.0''"
definition BORROWS :: "u64 list" where "BORROWS = [50000000, 100000000, 500000000]"

record opp_scanner =
  os_counterpart_index :: "(pubkey \<times> pubkey list) list"
  os_checks :: u64
  os_opportunities :: u64
  os_last_log :: nat

definition new_opportunity_scanner :: "nat \<Rightarrow> opp_scanner" where
  "new_opportunity_scanner now = \<lparr>os_counterpart_index = [], os_checks = 0, os_opportunities = 0, os_last_log = now\<rparr>"

text \<open>The program ids of the scanner; its Meteora id is not the one of \<^verbatim>\<open>types.rs\<close>.\<close>

definition OPP_METEORA :: pubkey where \<comment> \<open>LBUZKhRxPF3XUpBCjp4YzTKgLLjgGmGuiVkdseHQcpS\<close>
  "OPP_METEORA = 0x04E9E12FBC84E826C932CCE9E2640CCE15590B5DBA0A635C5C8F8382C3E7CAE3"

definition opp_dex_program :: "dex_type \<Rightarrow> pubkey" where
  "opp_dex_program dex =
     (case dex of
        RaydiumAmmV4 \<Rightarrow> RAYDIUM_AMM_V4
      | PumpSwap \<Rightarrow> PUMPSWAP
      | OrcaWhirlpool \<Rightarrow> ORCA_WHIRLPOOL
      | MeteoraDlmm \<Rightarrow> OPP_METEORA
      | RaydiumClmm \<Rightarrow> RAYDIUM_CLMM
      | _ \<Rightarrow> 0)"

definition counterparts_of :: "pubkey list \<Rightarrow> (pubkey \<times> pubkey list) list" where
  "counterparts_of addrs =
     (if length addrs < 2 then []
      else filter (\<lambda>(_, others). others \<noteq> []) (map (\<lambda>addr. (addr, filter (\<lambda>p. p \<noteq> addr) addrs)) addrs))"

definition rebuild_index :: "pool_cache \<Rightarrow> opp_scanner \<Rightarrow> opp_scanner" where
  "rebuild_index pools scanner =
     (let pair_pools = grouped (map (\<lambda>p. (pair_key (dp_token_a p) (dp_token_b p), dp_pool_address p))
            (filter (\<lambda>p. \<not> dust p) (map snd (cache_inner pools)))) in
      scanner\<lparr>os_counterpart_index :=
        fold (\<lambda>(addr, others). AList.update addr others) (concat (map (\<lambda>(_, addrs). counterparts_of addrs) pair_pools)) []\<rparr>)"

definition anchor_and_meme :: "dex_pool \<Rightarrow> (pubkey \<times> pubkey) option" where
  "anchor_and_meme pool =
     (if dp_token_a pool = SOL_MINT then Some (SOL_MINT, dp_token_b pool)
      else if dp_token_b pool = SOL_MINT then Some (SOL_MINT, dp_token_a pool)
      else if dp_token_a pool = USDC_MINT then Some (USDC_MINT, dp_token_b pool)
      else if dp_token_b pool = USDC_MINT then Some (USDC_MINT, dp_token_a pool)
      else None)"

definition quote_buy :: "'f f64_ops \<Rightarrow> nat \<Rightarrow> dex_pool \<Rightarrow> pubkey \<Rightarrow> u64 \<Rightarrow> u64 option" where
  "quote_buy fl now pool anchor amount =
     (if dp_token_a pool = anchor then quote_a_to_b fl now amount pool else quote_b_to_a fl now amount pool)"

definition quote_sell :: "'f f64_ops \<Rightarrow> nat \<Rightarrow> dex_pool \<Rightarrow> pubkey \<Rightarrow> u64 \<Rightarrow> u64 option" where
  "quote_sell fl now pool anchor amount =
     (if dp_token_a pool = anchor then quote_b_to_a fl now amount pool else quote_a_to_b fl now amount pool)"

definition opp_hop :: "dex_pool \<Rightarrow> pubkey \<Rightarrow> pubkey \<Rightarrow> u64 \<Rightarrow> 'f \<Rightarrow> 'f hop" where
  "opp_hop pool token_in token_out amount_out impact =
     \<lparr>hop_pool = dp_pool_address pool, hop_dex_program = opp_dex_program (dp_dex_type pool), hop_token_in = token_in,
      hop_token_out = token_out, hop_amount_out = amount_out, hop_price_impact = impact\<rparr>"

definition buy_and_sell :: "dex_pool \<Rightarrow> dex_pool \<Rightarrow> u64 \<Rightarrow> u64 \<Rightarrow> (dex_pool \<times> dex_pool \<times> u64) option" where
  "buy_and_sell pool cp out_this out_cp =
     (if out_this > out_cp then Some (pool, cp, out_this) else if out_cp > out_this then Some (cp, pool, out_cp) else None)"

definition opp_route :: "'f f64_ops \<Rightarrow> nat \<Rightarrow> dex_pool \<Rightarrow> dex_pool \<Rightarrow> pubkey \<Rightarrow> pubkey \<Rightarrow> u64 \<Rightarrow> skip + 'f route_params" where
  "opp_route fl now pool cp anchor meme borrow =
     and_then (ok_or Panic (quote_buy fl now pool anchor borrow)) (\<lambda>out_this.
     and_then (ok_or Panic (quote_buy fl now cp anchor borrow)) (\<lambda>out_cp.
     and_then (guard_or Skip (\<not> (out_this = 0 \<or> out_cp = 0))) (\<lambda>_.
     and_then (ok_or Skip (buy_and_sell pool cp out_this out_cp)) (\<lambda>(buy_pool, sell_pool, buy_out).
     and_then (ok_or Panic (quote_sell fl now sell_pool anchor buy_out)) (\<lambda>sell_out.
     and_then (guard_or Skip (\<not> sell_out \<le> borrow)) (\<lambda>_.
     (let gross = sell_out - borrow; net = wrap64 (sint gross - 15000) in
      and_then (guard_or Skip (\<not> net < 5000)) (\<lambda>_.
      (let spread = fl_mul fl (fl_sub fl (fl_div fl (fl_of_int fl (uint sell_out)) (fl_of_int fl (uint borrow))) (fl_lit fl ''1.0''))
             (fl_lit fl ''10000.0'');
           combined_fees = pool_fee_bps buy_pool + pool_fee_bps sell_pool;
           min_spread = fl_add fl (fl_of_int fl (uint combined_fees)) (fl_lit fl ''10.0'') in
       and_then (guard_or Skip (\<not> (fl_lt fl spread min_spread \<or> fl_lt fl (MAX_SPREAD_BPS fl) spread))) (\<lambda>_.
         Inr \<lparr>rp_hops = [opp_hop buy_pool anchor meme buy_out (impact_of fl borrow (dp_reserve_a buy_pool)),
                opp_hop sell_pool meme anchor sell_out (fl_lit fl ''0.0'')],
              rp_borrow_amount = borrow, rp_gross_profit = gross, rp_net_profit = net,
              rp_risk_factor = fl_lit fl ''0.15'', rp_strategy = ''shred_opp_scan'', rp_tier = 1\<rparr>))))))))))"

text \<open>The first of the borrow amounts that gives a route; \<open>None\<close> is a panic.\<close>

fun first_kept :: "('a \<Rightarrow> skip + 'b) \<Rightarrow> 'a list \<Rightarrow> skip + 'b" where
  "first_kept f [] = Inl Skip"
| "first_kept f (x # xs) = (case f x of Inl Skip \<Rightarrow> first_kept f xs | Inl Panic \<Rightarrow> Inl Panic | Inr y \<Rightarrow> Inr y)"

definition counterpart_route :: "'f f64_ops \<Rightarrow> nat \<Rightarrow> pool_cache \<Rightarrow> dex_pool \<Rightarrow> pubkey \<Rightarrow> pubkey \<Rightarrow> pubkey \<Rightarrow> skip + 'f route_params" where
  "counterpart_route fl now pools pool anchor meme cp_addr =
     and_then (ok_or Skip (get_pool pools cp_addr)) (\<lambda>cp.
     and_then (guard_or Skip (\<not> dust cp)) (\<lambda>_.
       first_kept (opp_route fl now pool cp anchor meme) BORROWS))"

definition refresh_stats :: "nat \<Rightarrow> pool_cache \<Rightarrow> opp_scanner \<Rightarrow> opp_scanner" where
  "refresh_stats now pools scanner =
     (if (now - os_last_log scanner) div 1000000000 \<ge> 60
      then (rebuild_index pools (scanner\<lparr>os_checks := 0, os_opportunities := 0\<rparr>))\<lparr>os_last_log := now\<rparr>
      else scanner)"

definition on_vault_update :: "'f f64_ops \<Rightarrow> nat \<Rightarrow> pool_cache \<Rightarrow> pubkey \<Rightarrow> opp_scanner
    \<Rightarrow> ('f route_params list \<times> opp_scanner) option" where
  "on_vault_update fl now pools pool_addr scanner =
     (let scanner = scanner\<lparr>os_checks := os_checks scanner + 1\<rparr> in
      case map_of (os_counterpart_index scanner) pool_addr of
        None \<Rightarrow> Some ([], scanner)
      | Some counterparts \<Rightarrow>
          case get_pool pools pool_addr of
            None \<Rightarrow> Some ([], scanner)
          | Some pool \<Rightarrow>
              if dust pool then Some ([], scanner)
              else case anchor_and_meme pool of
                  None \<Rightarrow> Some ([], scanner)
                | Some (anchor, meme) \<Rightarrow> do {
                    routes \<leftarrow> collect_kept (counterpart_route fl now pools pool anchor meme) counterparts;
                    Some (take 3 (by_profit routes), refresh_stats now pools
                      (scanner\<lparr>os_opportunities := os_opportunities scanner + word_of_nat (length routes)\<rparr>)) })"

section \<open>The scanner as a machine\<close>

datatype opp_call = RebuildIndex pool_cache | VaultUpdate nat pool_cache pubkey

fun opp_step :: "'f f64_ops \<Rightarrow> opp_call \<Rightarrow> opp_scanner \<Rightarrow> opp_scanner option" where
  "opp_step fl (RebuildIndex pools) scanner = Some (rebuild_index pools scanner)"
| "opp_step fl (VaultUpdate now pools addr) scanner = map_option snd (on_vault_update fl now pools addr scanner)"

text \<open>A cache whose pools have the pair of tokens that belongs to their address.\<close>

definition pairs_known :: "(pubkey \<Rightarrow> pubkey \<times> pubkey) \<Rightarrow> pool_cache \<Rightarrow> bool" where
  "pairs_known pair_of pools \<longleftrightarrow> cache_keyed pools
     \<and> (\<forall>(k, pool) \<in> set (cache_inner pools). pair_key (dp_token_a pool) (dp_token_b pool) = pair_of k)"

definition index_ok :: "(pubkey \<Rightarrow> pubkey \<times> pubkey) \<Rightarrow> (pubkey \<times> pubkey list) list \<Rightarrow> bool" where
  "index_ok pair_of index \<longleftrightarrow> (\<forall>addr others. map_of index addr = Some others
     \<longrightarrow> others \<noteq> [] \<and> (\<forall>other \<in> set others. other \<noteq> addr \<and> pair_of other = pair_of addr))"

definition opp_call_ok :: "(pubkey \<Rightarrow> pubkey \<times> pubkey) \<Rightarrow> opp_call \<Rightarrow> bool" where
  "opp_call_ok pair_of call =
     (case call of RebuildIndex pools \<Rightarrow> pairs_known pair_of pools
      | VaultUpdate now pools addr \<Rightarrow> pairs_known pair_of pools \<and> fees_sane pools)"

lemma map_of_fold_update:
  "map_of (fold (\<lambda>(k, v). AList.update k v) entries m) k = Some v
    \<Longrightarrow> (k, v) \<in> set entries \<or> map_of m k = Some v"
proof (induction entries arbitrary: m)
  case (Cons entry entries)
  obtain k' v' where entry: "entry = (k', v')" by (cases entry)
  have "(k, v) \<in> set entries \<or> map_of (AList.update k' v' m) k = Some v"
    using Cons.IH [of "AList.update k' v' m"] Cons.prems by (simp add: entry)
  then show ?case by (auto simp: entry update_conv' split: if_splits)
qed simp

lemma rebuilt_index_ok:
  assumes "pairs_known pair_of pools" shows "index_ok pair_of (os_counterpart_index (rebuild_index pools scanner))"
  unfolding index_ok_def
proof (intro allI impI)
  let ?entries = "map (\<lambda>p. (pair_key (dp_token_a p) (dp_token_b p), dp_pool_address p)) (filter (\<lambda>p. \<not> dust p) (map snd (cache_inner pools)))"
  fix addr others assume "map_of (os_counterpart_index (rebuild_index pools scanner)) addr = Some others"
  then have "(addr, others) \<in> set (concat (map (\<lambda>(_, addrs). counterparts_of addrs) (grouped ?entries)))"
    by (auto simp: rebuild_index_def dest!: map_of_fold_update)
  then obtain key addrs where group: "(key, addrs) \<in> set (grouped ?entries)" and others: "(addr, others) \<in> set (counterparts_of addrs)" by auto
  then have o: "addr \<in> set addrs" "others = filter (\<lambda>p. p \<noteq> addr) addrs" "others \<noteq> []"
    by (auto simp: counterparts_of_def split: if_splits)
  have "pair_of a = key" if "a \<in> set addrs" for a
  proof -
    have "(key, a) \<in> set ?entries" using that grouped_entry [OF group] by blast
    then obtain k p where "(k, p) \<in> set (cache_inner pools)" "a = dp_pool_address p" "key = pair_key (dp_token_a p) (dp_token_b p)" by auto
    then show ?thesis using assms unfolding pairs_known_def cache_keyed_def by fastforce
  qed
  then show "others \<noteq> [] \<and> (\<forall>other \<in> set others. other \<noteq> addr \<and> pair_of other = pair_of addr)" using o by auto
qed

lemma refreshed_index_ok:
  "pairs_known pair_of pools \<Longrightarrow> index_ok pair_of (os_counterpart_index scanner)
    \<Longrightarrow> index_ok pair_of (os_counterpart_index (refresh_stats now pools scanner))"
  using rebuilt_index_ok by (simp add: refresh_stats_def)

lemma on_vault_update_index_ok:
  assumes "on_vault_update fl now pools addr scanner = Some (routes, scanner')" and "pairs_known pair_of pools"
    and "index_ok pair_of (os_counterpart_index scanner)"
  shows "index_ok pair_of (os_counterpart_index scanner')"
  using assms refreshed_index_ok [OF assms(2)]
  by (auto simp: on_vault_update_def Let_def split: option.splits if_splits bind_splits)

lemma first_kept_Inr: "first_kept f xs = Inr y \<Longrightarrow> \<exists>x \<in> set xs. f x = Inr y"
  by (induction xs) (auto split: sum.splits skip.splits)

lemma first_kept_no_panic: "(\<And>x. x \<in> set xs \<Longrightarrow> no_panic (f x)) \<Longrightarrow> no_panic (first_kept f xs)"
proof (induction xs)
  case (Cons x xs)
  then show ?case using Cons.prems [of x] by (auto simp: no_panic_def split: sum.splits skip.splits)
qed (simp add: no_panic_def)

lemma buy_and_sell_cases:
  "buy_and_sell p1 p2 o1 o2 = Some (buy, sell, out) \<Longrightarrow> buy = p1 \<and> sell = p2 \<and> out = o1 \<or> buy = p2 \<and> sell = p1 \<and> out = o2"
  by (auto simp: buy_and_sell_def split: if_splits)

lemma opp_route_no_panic: "sane_fee p1 \<Longrightarrow> sane_fee p2 \<Longrightarrow> no_panic (opp_route fl now p1 p2 anchor meme borrow)"
  unfolding opp_route_def quote_buy_def quote_sell_def
  by (intro cross_intros) (auto split: if_splits dest!: buy_and_sell_cases)

lemma on_vault_update_returns:
  assumes "fees_sane pools" shows "on_vault_update fl now pools addr scanner \<noteq> None"
  unfolding on_vault_update_def counterpart_route_def
  by (intro cross_intros first_kept_no_panic opp_route_no_panic) (auto intro: fees_sane_get [OF assms])

interpretation opportunity_scanner: total_machine "new_opportunity_scanner t0" "opp_step fl" "opp_call_ok pair_of"
    "\<lambda>s :: opp_scanner. index_ok pair_of (os_counterpart_index s)" for t0 fl pair_of
proof
  show "index_ok pair_of (os_counterpart_index (new_opportunity_scanner t0))"
    by (simp add: index_ok_def new_opportunity_scanner_def)
next
  fix s :: opp_scanner and call s'
  assume "index_ok pair_of (os_counterpart_index s)" "opp_call_ok pair_of call" "opp_step fl call s = Some s'"
  then show "index_ok pair_of (os_counterpart_index s')"
    using rebuilt_index_ok on_vault_update_index_ok by (cases call) (auto simp: opp_call_ok_def)
next
  fix s :: opp_scanner and call
  assume "index_ok pair_of (os_counterpart_index s)" "opp_call_ok pair_of call"
  then show "\<exists>s'. opp_step fl call s = Some s'"
    using on_vault_update_returns [of _ fl _ _ s] by (cases call) (fastforce simp: opp_call_ok_def)+
qed

section \<open>Reported routes\<close>

definition opp_report :: "'f f64_ops \<Rightarrow> nat \<Rightarrow> pool_cache \<Rightarrow> pubkey \<Rightarrow> 'f route_params \<Rightarrow> bool" where
  "opp_report fl now pools addr route \<longleftrightarrow> closed_route (rp_hops route) \<and> quoted_hops fl now pools (rp_borrow_amount route) (rp_hops route)
     \<and> addr \<in> hop_pool ` set (rp_hops route) \<and> distinct (map hop_pool (rp_hops route)) \<and> length (rp_hops route) = 2
     \<and> hop_token_in (hd (rp_hops route)) \<in> {SOL_MINT, USDC_MINT} \<and> rp_borrow_amount route \<in> set BORROWS
     \<and> rp_borrow_amount route < final_amount route \<and> rp_gross_profit route = final_amount route - rp_borrow_amount route
     \<and> (uint (rp_gross_profit route) < 2 ^ 63 \<longrightarrow> rp_net_profit route = uint (rp_gross_profit route) - 15000)
     \<and> 5000 \<le> rp_net_profit route
     \<and> (\<forall>hop \<in> set (rp_hops route). \<exists>pool. get_pool pools (hop_pool hop) = Some pool \<and> \<not> dust pool
          \<and> joins pool (hop_token_in hop) (hop_token_out hop) \<and> hop_dex_program hop = opp_dex_program (dp_dex_type pool))"

lemma quote_buy_from: "quote_buy fl now pool anchor amount = quote_from fl now pool anchor amount"
  by (auto simp: quote_buy_def quote_from_def)

lemma quote_sell_from:
  "joins pool anchor meme \<Longrightarrow> anchor \<noteq> meme \<Longrightarrow> quote_sell fl now pool anchor amount = quote_from fl now pool meme amount"
  by (auto simp: quote_sell_def quote_from_def joins_def)

lemma anchor_and_meme_joins:
  "anchor_and_meme pool = Some (anchor, meme) \<Longrightarrow> joins pool anchor meme \<and> anchor \<in> {SOL_MINT, USDC_MINT}"
  by (auto simp: anchor_and_meme_def joins_def simp del: SOL_MINT_def USDC_MINT_def split: if_splits)

lemma opp_route_reported:
  assumes "opp_route fl now p1 p2 anchor meme borrow = Inr route" and "borrow \<in> set BORROWS"
    and "get_pool pools (dp_pool_address p1) = Some p1" and "get_pool pools (dp_pool_address p2) = Some p2"
    and "joins p1 anchor meme" and "joins p2 anchor meme" and "anchor \<noteq> meme" and "anchor \<in> {SOL_MINT, USDC_MINT}"
    and "dp_pool_address p1 \<noteq> dp_pool_address p2" and "\<not> dust p1" and "\<not> dust p2"
  shows "opp_report fl now pools (dp_pool_address p1) route"
proof -
  obtain buy sell out out' o1 o2 where o: "quote_buy fl now p1 anchor borrow = Some o1" "quote_buy fl now p2 anchor borrow = Some o2"
      "o1 \<noteq> 0" "o2 \<noteq> 0" "buy_and_sell p1 p2 o1 o2 = Some (buy, sell, out)"
    and sell: "quote_sell fl now sell anchor out = Some out'" and more: "borrow < out'"
    and route: "rp_borrow_amount route = borrow" "rp_gross_profit route = out' - borrow" "5000 \<le> rp_net_profit route"
      "rp_net_profit route = wrap64 (sint (rp_gross_profit route) - 15000)"
      "rp_hops route = [opp_hop buy anchor meme out (impact_of fl borrow (dp_reserve_a buy)), opp_hop sell meme anchor out' (fl_lit fl ''0.0'')]"
    using assms(1) by (auto simp: opp_route_def Let_def not_less)
  have pools: "(buy, sell) \<in> {(p1, p2), (p2, p1)}" and nz: "out \<noteq> 0" and buy: "quote_buy fl now buy anchor borrow = Some out"
    using buy_and_sell_cases [OF o(5)] o(1-4) by auto
  have both: "get_pool pools (dp_pool_address p) = Some p \<and> joins p anchor meme \<and> joins p meme anchor \<and> \<not> dust p" if "p \<in> {buy, sell}" for p
    using that pools assms(3-6,10,11) joins_commute by blast
  have quotes: "quote_from fl now buy anchor borrow = Some out" "quote_from fl now sell meme out = Some out'"
    using buy sell quote_sell_from [OF _ assms(7), of sell fl now out] both [of sell] by (simp_all add: quote_buy_from)
  have "0 < out" using nz by (simp add: word_neq_0_conv)
  have "0 < out'" using more by (rule le_less_trans [OF word_zero_le])
  have "uint (rp_gross_profit route) < 2 ^ 63 \<longrightarrow> rp_net_profit route = uint (rp_gross_profit route) - 15000"
    using net_exact [of "rp_gross_profit route" 15000] by (simp add: route(4))
  then show ?thesis
    using pools both quotes \<open>0 < out\<close> \<open>0 < out'\<close> more assms(2,8,9) route(1-3)
    unfolding opp_report_def route(5) by (auto simp: opp_hop_def closed_route_def final_amount_def route(5))
qed

lemma on_vault_update_reported:
  assumes "on_vault_update fl now pools addr scanner = Some (routes, scanner')" and "route \<in> set routes"
    and "pairs_known pair_of pools" and "distinct_tokens pools" and "index_ok pair_of (os_counterpart_index scanner)"
  shows "opp_report fl now pools addr route"
proof -
  obtain counterparts pool anchor meme found where index: "map_of (os_counterpart_index scanner) addr = Some counterparts"
    and pool: "get_pool pools addr = Some pool" "\<not> dust pool" "anchor_and_meme pool = Some (anchor, meme)"
    and found: "collect_kept (counterpart_route fl now pools pool anchor meme) counterparts = Some found"
    and routes: "routes = take 3 (by_profit found)"
    using assms(1,2) by (auto simp: on_vault_update_def Let_def split: option.splits if_splits bind_splits)
  have "route \<in> set found" using assms(2) by (auto simp: routes dest: in_set_takeD)
  from collect_kept_from [OF found this] obtain other where other: "other \<in> set counterparts"
    "counterpart_route fl now pools pool anchor meme other = Inr route" by blast
  then obtain cp where cp: "get_pool pools other = Some cp" "\<not> dust cp" and first: "first_kept (opp_route fl now pool cp anchor meme) BORROWS = Inr route"
    by (auto simp: counterpart_route_def)
  obtain borrow where borrow: "borrow \<in> set BORROWS" "opp_route fl now pool cp anchor meme borrow = Inr route"
    using first_kept_Inr [OF first] by blast
  have keyed: "cache_keyed pools" using assms(3) by (simp add: pairs_known_def)
  note address = cached_address [OF keyed pool(1)] cached_address [OF keyed cp(1)]
  have linked: "other \<noteq> addr" "pair_of other = pair_of addr" using assms(5) index other(1) unfolding index_ok_def by blast+
  have pair: "pair_key (dp_token_a p) (dp_token_b p) = pair_of k" "dp_token_a p \<noteq> dp_token_b p" if "get_pool pools k = Some p" for k p
  proof -
    have "(k, p) \<in> set (cache_inner pools)" using that by (simp add: get_pool_def map_of_SomeD)
    then show "pair_key (dp_token_a p) (dp_token_b p) = pair_of k" "dp_token_a p \<noteq> dp_token_b p"
      using assms(3,4) unfolding pairs_known_def distinct_tokens_def by blast+
  qed
  have joined: "joins pool anchor meme" "anchor \<in> {SOL_MINT, USDC_MINT}" using anchor_and_meme_joins [OF pool(3)] by blast+
  have "pair_key (dp_token_a cp) (dp_token_b cp) = pair_key (dp_token_a pool) (dp_token_b pool)"
    using pair(1) [OF pool(1)] pair(1) [OF cp(1)] linked(2) by simp
  then have "joins cp anchor meme" using joined(1) by (auto simp: joins_def pair_key_def split: if_splits)
  moreover have "anchor \<noteq> meme" using joined(1) pair(2) [OF pool(1)] by (auto simp: joins_def)
  ultimately show ?thesis
    using opp_route_reported [OF borrow(2,1), of pools] pool(1,2) cp joined address linked(1) by simp
qed

text \<open>Until the index is built by the caller, updates report nothing and never build it.\<close>

lemma idle_until_indexed:
  assumes "os_counterpart_index scanner = []"
  shows "on_vault_update fl now pools addr scanner = Some ([], scanner\<lparr>os_checks := os_checks scanner + 1\<rparr>)"
  using assms by (simp add: on_vault_update_def)

text \<open>The hops carry the program of the exchange except for four exchanges.\<close>

lemma opp_program: "opp_dex_program dex = program_of_dex dex \<longleftrightarrow> dex \<notin> {MeteoraDlmm, Fluxbeam, Saber, RaydiumCpmm}"
  by (cases dex) (simp_all add: opp_dex_program_def program_of_dex_def OPP_METEORA_def)

lemma opp_report_fits:
  assumes "opp_report fl now pools addr route" and "hop \<in> set (rp_hops route)"
  shows "hop_fits pools hop \<longleftrightarrow>
    (\<forall>pool. get_pool pools (hop_pool hop) = Some pool \<longrightarrow> dp_dex_type pool \<notin> {MeteoraDlmm, Fluxbeam, Saber, RaydiumCpmm})"
proof -
  obtain pool where pool: "get_pool pools (hop_pool hop) = Some pool" "joins pool (hop_token_in hop) (hop_token_out hop)"
    "hop_dex_program hop = opp_dex_program (dp_dex_type pool)" using assms unfolding opp_report_def by blast
  then have "hop_fits pools hop \<longleftrightarrow> opp_dex_program (dp_dex_type pool) = program_of_dex (dp_dex_type pool)"
    by (simp add: hop_fits_def joins_def)
  then show ?thesis using pool(1) unfolding opp_program by simp
qed

end
