(* ===== verification/Divergence_Reports.thy ===== *)
theory Divergence_Reports
  imports Cross_Reports Dlmm_Whirlpool Opportunity_Scanner Orca_Quote Meteora_Quote
begin

text \<open>
  The properties of the scanner for bin pools against whirlpools and of the scanner behind the vault updates, with an
  example market for each.
\<close>

section \<open>A whirlpool and a bin pool\<close>

definition quiet_ticks :: orca_metadata where
  "quiet_ticks = \<lparr>om_token_vault_a = 1, om_token_vault_b = 2, om_liquidity = 1000000000000, om_sqrt_price = 18446744073709551616,
     om_tick_spacing = 64, om_tick_current_index = 0, om_tick_arrays = [(0, \<lparr>ota_start_tick_index = 0, ota_ticks = []\<rparr>)]\<rparr>"

definition one_bin :: bin_arrays where
  "one_bin = [(0, \<lparr>mba_index = 0, mba_bins =
     [\<lparr>mb_amount_x = 1000000000, mb_amount_y = 1000000000, mb_price = 18815678955183742648\<rparr>]\<rparr>)]"

definition bin_meta :: meteora_metadata where
  "bin_meta = \<lparr>mm_active_id = 0, mm_bin_step = 1, mm_token_vault_a = 1, mm_token_vault_b = 2, mm_parameters = no_fee,
     mm_v_parameters = calm, mm_bin_array_bitmap = [], mm_bin_arrays = one_bin\<rparr>"

definition whirl :: dex_pool where
  "whirl = (example_pool 42 1000000000)\<lparr>dp_dex_type := OrcaWhirlpool, dp_orca_meta := Some quiet_ticks\<rparr>"

definition bins :: dex_pool where
  "bins = (example_pool 43 1000000000)\<lparr>dp_dex_type := MeteoraDlmm, dp_meteora_meta := Some bin_meta\<rparr>"

definition bin_market :: pool_cache where "bin_market = upsert bins (upsert whirl new_pool_cache)"

lemma whirl_simps [simp]:
  "dp_pool_address whirl = 42" "dp_token_a whirl = 12" "dp_token_b whirl = SOL_MINT" "dp_dex_type whirl = OrcaWhirlpool"
  "dp_reserve_a whirl = 1000000000" "dp_reserve_b whirl = 1000000000" "dp_orca_meta whirl = Some quiet_ticks"
  "dp_fee_bps whirl = 0"
  by (simp_all add: whirl_def example_pool_def del: SOL_MINT_def)

lemma bins_simps [simp]:
  "dp_pool_address bins = 43" "dp_token_a bins = 12" "dp_token_b bins = SOL_MINT" "dp_dex_type bins = MeteoraDlmm"
  "dp_reserve_a bins = 1000000000" "dp_reserve_b bins = 1000000000" "dp_orca_meta bins = None" "dp_meteora_meta bins = Some bin_meta"
  "dp_fee_bps bins = 0"
  by (simp_all add: bins_def example_pool_def del: SOL_MINT_def)

lemma bin_reserves [simp]: "effective_reserves now whirl = (1000000000, 1000000000)" "effective_reserves now bins = (1000000000, 1000000000)"
  by (simp_all add: effective_reserves_def whirl_def bins_def example_pool_def)

lemma bin_market_pools: "cache_inner bin_market = [(42, whirl), (43, bins)]"
  by (simp add: bin_market_def upsert_def new_pool_cache_def Let_def del: SOL_MINT_def)

text \<open>The whirlpool stays between two ticks.\<close>

lemma whirl_event: "next_event 0 0 5632 64 down (om_tick_arrays quiet_ticks) = Some (ArrayBoundary (if down then 0 else 5632))"
  by (simp add: next_event_def next_initialized_tick_def quiet_ticks_def indexed_ticks_def)

lemma rational_ticks:
  "fl_epsilon rational_floats = 0" "fl_powf rational_floats x y = x" "fl_lit rational_floats ''1.0001'' = 0"
  "fl_lit rational_floats ''1e-12'' = 0"
  by (simp_all add: rational_floats_def)

lemma whirl_round:
  "swap_round rational_floats down 64 1 (om_tick_arrays quiet_ticks)
     \<lparr>sw_remaining = 10000000, sw_amount_out = 0, sw_sqrt_price = 1, sw_liquidity = 1000000000000, sw_tick = 0, sw_traversed = [0]\<rparr>
   = (False, \<lparr>sw_remaining = 10000000, sw_amount_out = 1000000000000 / 100001, sw_sqrt_price = 1,
       sw_liquidity = 1000000000000, sw_tick = 0, sw_traversed = [0]\<rparr>)"
  by (simp add: swap_round_def whirl_event tick_array_start_index_def tick_array_offset_def push_array_def Let_def
      tick_index_to_sqrt_price_def effective_input_to_reach_target_def partial_amount_out_def amount_out_for_step_def rational_ticks wrap32_def)

lemma whirl_quote: "quote_orca_pool rational_floats down 10000000 whirl quiet_ticks = 9999900"
proof -
  have "\<lfloor>1000000000000 / 100001 :: rat\<rfloor> = 9999900" by (simp add: floor_eq_iff)
  moreover have "swap_loop (Suc 511) rational_floats down 64 1 (om_tick_arrays quiet_ticks)
     \<lparr>sw_remaining = 10000000, sw_amount_out = 0, sw_sqrt_price = 1, sw_liquidity = 1000000000000, sw_tick = 0, sw_traversed = [0]\<rparr>
   = \<lparr>sw_remaining = 10000000, sw_amount_out = 1000000000000 / 100001, sw_sqrt_price = 1,
       sw_liquidity = 1000000000000, sw_tick = 0, sw_traversed = [0]\<rparr>"
    unfolding swap_loop.simps whirl_round by simp
  moreover have "om_liquidity quiet_ticks = 1000000000000" "om_sqrt_price quiet_ticks = 18446744073709551616" "om_tick_spacing quiet_ticks = 64"
    "om_tick_current_index quiet_ticks = 0" "om_tick_arrays quiet_ticks \<noteq> []" "tick_array_start_index 0 64 = 0" "Suc 511 = 512"
    by (simp_all add: quiet_ticks_def tick_array_start_index_def wrap32_def)
  ultimately show ?thesis
    by (simp add: quote_orca_pool_def Orca.quote_exact_in_def sqrt_price_x64_to_f64_def)
qed

lemma one_bin_at: "get_bin one_bin 0 = Some \<lparr>mb_amount_x = 1000000000, mb_amount_y = 1000000000, mb_price = 18815678955183742648\<rparr>"
  by (simp add: get_bin_def one_bin_def bin_id_to_bin_array_index_def bin_array_lower_bin_id_def bin_array_upper_bin_id_def idx_def
    wrap64_in Let_def)

lemma no_fees: "total_fee 1 no_fee calm = 0"
  by (simp add: total_fee_def get_base_fee_def get_variable_fee_def no_fee_def sat_add_def sat_pow_def MAX_FEE_RATE_def)

lemma widest: "widen (- 1) = 18446744073709551615"
  by (simp add: word_unat_eq_iff unsigned_minus_1_eq_mask mask_eq_exp_minus_1)

lemma bins_at:
  "swap_exact_in_quote_at_bin \<lparr>mb_amount_x = 1000000000, mb_amount_y = 1000000000, mb_price = 18815678955183742648\<rparr> 1 no_fee calm 10000000 True
   = \<lparr>bsq_amount_in_consumed = 10000000, bsq_amount_out = 10199999\<rparr>"
  "swap_exact_in_quote_at_bin \<lparr>mb_amount_x = 1000000000, mb_amount_y = 1000000000, mb_price = 18815678955183742648\<rparr> 1 no_fee calm 9999900 True
   = \<lparr>bsq_amount_in_consumed = 9999900, bsq_amount_out = 10199897\<rparr>"
  by (simp_all add: swap_exact_in_quote_at_bin_def shl_div_u64_def compute_fee_def compute_fee_from_amount_def no_fees
    get_out_amount_def mul_shr_u64_def Let_def sat_mul_def sat_add_def sat_sub_def FEE_PRECISION_def div_ceil_def
    checked_add_def widest)

lemma bins_quote:
  "Meteora.quote_exact_in 10000000 True 0 1 no_fee calm one_bin = 10199999"
  "Meteora.quote_exact_in 9999900 True 0 1 no_fee calm one_bin = 10199897"
proof -
  have some: "one_bin \<noteq> []" and big: "4096 = Suc (Suc 4094)" by (simp_all add: one_bin_def)
  show "Meteora.quote_exact_in 10000000 True 0 1 no_fee calm one_bin = 10199999"
    unfolding Meteora.quote_exact_in_def big quote_loop.simps by (simp add: some one_bin_at bins_at sat_sub_def sat_add_def widest Let_def)
  show "Meteora.quote_exact_in 9999900 True 0 1 no_fee calm one_bin = 10199897"
    unfolding Meteora.quote_exact_in_def big quote_loop.simps by (simp add: some one_bin_at bins_at sat_sub_def sat_add_def widest Let_def)
qed

lemma bin_rates:
  "quote_a_to_b rational_floats 0 10000000 whirl = Some 9999900" "quote_b_to_a rational_floats 0 10000000 whirl = Some 9999900"
  "quote_a_to_b rational_floats 0 10000000 bins = Some 10199999" "quote_a_to_b rational_floats 0 9999900 bins = Some 10199897"
  using whirl_quote bins_quote by (simp_all add: quote_a_to_b_def quote_b_to_a_def bin_meta_def)

lemma bin_eligible: "is_dlmm bins" "is_whirlpool whirl" "\<not> is_dlmm whirl" "\<not> is_whirlpool bins"
  by (simp_all add: is_dlmm_def is_whirlpool_def dust_def quiet_ticks_def)

definition bin_route :: "rat route_params" where
  "bin_route = \<lparr>rp_hops = [hop_through whirl SOL_MINT 12 9999900 1, hop_through bins 12 SOL_MINT 10199897 (999990 / 1000000)],
     rp_borrow_amount = 10000000, rp_gross_profit = 199897, rp_net_profit = 189897, rp_risk_factor = 7 / 1000,
     rp_strategy = ''dlmm_whirlpool_arb'', rp_tier = 0\<rparr>"

lemma bin_scan: "scan_bin_divergence rational_floats 0 bin_market [10000000] = Some [bin_route]"
proof -
  let ?wp = "\<lparr>pr_pool = whirl, pr_rate_a_to_b = 999990 / 1000000, pr_canonical_order = True\<rparr>"
    and ?dlmm = "\<lparr>pr_pool = bins, pr_rate_a_to_b = 10199999 / 10000000, pr_canonical_order = True\<rparr> :: rat pool_rate"
  have anchors: "12 \<notin> set CROSS_ANCHORS" "SOL_MINT \<in> set CROSS_ANCHORS" "SOL_MINT \<in> set FOCUS_TOKENS"
    by (simp_all add: CROSS_ANCHORS_def FOCUS_TOKENS_def)
  have pair: "dlmm_by_pair bin_market = [((12, SOL_MINT), [bins])]"
    by (simp add: dlmm_by_pair_def bin_market_pools bin_eligible spread_key grouped_def push_to_def del: SOL_MINT_def)
  have rates: "quoted_rate rational_floats 0 10000000 True whirl = Inr (999990 / 1000000)"
    "quoted_rate rational_floats 0 10000000 True bins = Inr (10199999 / 10000000)"
    by (simp_all add: quoted_rate_def bin_rates)
  have "by_rate rational_floats ?wp ?dlmm = Some (?dlmm, ?wp)" by (simp add: by_rate_def)
  moreover have "divergence_bps rational_floats (10199999 / 10000000) (999990 / 1000000) = 200"
  proof -
    have "\<lfloor>20009900 / 99999 :: rat\<rfloor> = 200" by (simp add: floor_eq_iff)
    then show ?thesis by (simp add: divergence_bps_def)
  qed
  moreover have "build_cross_dex_route_reverse rational_floats 0 whirl True bins True 12 SOL_MINT 10000000
      = Inr (bin_route\<lparr>rp_strategy := ''cross-dex'', rp_risk_factor := 1 / 100\<rparr>)"
    by (simp add: build_cross_dex_route_reverse_def bin_rates impact_of_def MAX_IMPACT_PCT_def MAX_RETURN_MULTIPLIER_def
        settle_two_hops_def bin_route_def Let_def wrap64_in del: SOL_MINT_def)
  then have "capped_routes rational_floats (build_cross_dex_route_reverse rational_floats 0 whirl True bins True 12 SOL_MINT) [10000000]
      = Some [bin_route]"
    by (simp add: capped_routes_def cap_return_def DLMM_MAX_RETURN_def bin_route_def Let_def del: SOL_MINT_def)
  ultimately have "divergent_routes rational_floats 0 [10000000] whirl bins = Inr [bin_route]"
    by (simp add: divergent_routes_def spread_key anchors rates reference_borrow_def usable_rate_def dex_fee_bps_def
        map_filter_simps best_route_def keep_better_def Let_def del: SOL_MINT_def)
  then have "whirlpool_routes rational_floats 0 (dlmm_by_pair bin_market) [10000000] whirl = Inr [bin_route]"
    by (simp add: whirlpool_routes_def pair spread_key anchors collect_concat_def del: SOL_MINT_def)
  then show ?thesis
    by (simp add: scan_bin_divergence_def bin_market_pools bin_eligible collect_concat_def by_profit_def)
qed

lemma bin_market_ok: "cache_keyed bin_market" "distinct_tokens bin_market"
  by (simp_all add: cache_keyed_def distinct_tokens_def bin_market_pools example_mints)

section \<open>A market behind the vault updates\<close>

definition deep_pool :: "pubkey \<Rightarrow> u64 \<Rightarrow> dex_pool" where
  "deep_pool k reserve = (example_pool k reserve)\<lparr>dp_reserve_a := 1000000000000\<rparr>"

definition deep_market :: pool_cache where
  "deep_market = upsert (deep_pool 63 1040000000000) (upsert (deep_pool 61 1000000000000) new_pool_cache)"

definition deep_pair :: "pubkey \<Rightarrow> pubkey \<times> pubkey" where "deep_pair k = (12, SOL_MINT)"

definition deep_calls :: "opp_call list" where
  "deep_calls = [VaultUpdate 0 deep_market 61, RebuildIndex deep_market, VaultUpdate 61000000000 deep_market 63]"

lemma deep_simps [simp]:
  "dp_pool_address (deep_pool k r) = k" "dp_dex_type (deep_pool k r) = PumpSwap" "dp_token_a (deep_pool k r) = 12"
  "dp_token_b (deep_pool k r) = SOL_MINT" "dp_reserve_a (deep_pool k r) = 1000000000000" "dp_reserve_b (deep_pool k r) = r"
  "dp_fee_bps (deep_pool k r) = 0"
  by (simp_all add: deep_pool_def example_pool_def del: SOL_MINT_def)

lemma deep_quotes:
  "quote_a_to_b fl now amount (deep_pool k r) = (if r = 0 then Some 0 else xyk_quote 1000000000000 r amount 0)"
  "quote_b_to_a fl now amount (deep_pool k r) = (if r = 0 then Some 0 else xyk_quote r 1000000000000 amount 0)"
  by (simp_all add: quote_a_to_b_def quote_b_to_a_def effective_reserves_def deep_pool_def example_pool_def)

lemma deep_curve:
  "xyk_quote 1000000000000 1000000000000 50000000 0 = Some 49997500"
  "xyk_quote 1040000000000 1000000000000 50000000 0 = Some 48074611"
  "xyk_quote 1000000000000 1040000000000 49997500 0 = Some 51994800"
  by (simp_all add: xyk_quote_def Let_def)

lemma deep_pools: "cache_inner deep_market = [(61, deep_pool 61 1000000000000), (63, deep_pool 63 1040000000000)]"
  by (simp add: deep_market_def upsert_def new_pool_cache_def Let_def del: SOL_MINT_def)

lemma deep_get: "get_pool deep_market 61 = Some (deep_pool 61 1000000000000)" "get_pool deep_market 63 = Some (deep_pool 63 1040000000000)"
  by (simp_all add: get_pool_def deep_pools)

lemma deep_ok: "pairs_known deep_pair deep_market" "fees_sane deep_market" "distinct_tokens deep_market"
  by (simp_all add: pairs_known_def fees_sane_def distinct_tokens_def cache_keyed_def deep_pools deep_pair_def spread_key example_mints del: SOL_MINT_def)

lemma deep_fees: "pool_fee_bps (deep_pool k r) = 25"
  by (simp add: pool_fee_bps_def)

definition deep_route :: "rat route_params" where
  "deep_route = \<lparr>rp_hops =
     [opp_hop (deep_pool 61 1000000000000) SOL_MINT 12 49997500 (impact_of rational_floats 50000000 1000000000000),
      opp_hop (deep_pool 63 1040000000000) 12 SOL_MINT 51994800 0],
     rp_borrow_amount = 50000000, rp_gross_profit = 1994800, rp_net_profit = 1979800, rp_risk_factor = 15 / 100,
     rp_strategy = ''shred_opp_scan'', rp_tier = 1\<rparr>"

lemma deep_opp: "opp_route rational_floats now (deep_pool 61 1000000000000) (deep_pool 63 1040000000000) SOL_MINT 12 50000000 = Inr deep_route"
  by (simp add: opp_route_def quote_buy_def quote_sell_def deep_quotes deep_curve buy_and_sell_def deep_fees MAX_SPREAD_BPS_def
      deep_route_def Let_def wrap64_in example_mints del: SOL_MINT_def)

lemma deep_indexed: "os_counterpart_index (rebuild_index deep_market scanner) = [(61, [63]), (63, [61])]"
  by (simp add: rebuild_index_def deep_pools dust_def spread_key grouped_def push_to_def counterparts_of_def Let_def del: SOL_MINT_def)

lemma deep_update:
  assumes "map_of (os_counterpart_index scanner) 61 = Some [63]"
  shows "\<exists>scanner'. on_vault_update rational_floats now deep_market 61 scanner = Some ([deep_route], scanner')"
  using assms by (simp add: on_vault_update_def deep_get dust_def anchor_and_meme_def example_mints counterpart_route_def BORROWS_def
      deep_opp by_profit_def Let_def del: SOL_MINT_def USDC_MINT_def)

lemma deep_run:
  assumes "run (opp_step rational_floats) deep_calls (new_opportunity_scanner 0) = Some scanner"
  shows "map_of (os_counterpart_index scanner) 61 = Some [63]"
proof -
  have refresh: "map_of (os_counterpart_index (refresh_stats now deep_market s)) 61 = Some [63]"
    if "map_of (os_counterpart_index s) 61 = Some [63]" for now s
    using that by (simp add: refresh_stats_def deep_indexed)
  have keeps: "map_of (os_counterpart_index s') 61 = Some [63]"
    if "on_vault_update rational_floats now deep_market addr s = Some (routes, s')" "map_of (os_counterpart_index s) 61 = Some [63]"
    for now addr s routes s'
    using that refresh by (auto simp: on_vault_update_def Let_def simp del: fun_upd_apply split: option.splits if_splits bind_splits)
  show ?thesis
    using assms idle_until_indexed [of "new_opportunity_scanner 0" rational_floats] keeps deep_indexed
    by (auto simp: deep_calls_def new_opportunity_scanner_def split: bind_splits)
qed

lemma on_vault_update_listed:
  assumes "on_vault_update fl now pools addr scanner = Some (routes, scanner')"
  shows "length routes \<le> 3 \<and> sorted_wrt (\<lambda>r s. rp_net_profit s \<le> rp_net_profit r) routes"
  using assms sorted_wrt_take [OF by_profit_sorted]
  by (auto simp: on_vault_update_def Let_def split: option.splits if_splits bind_splits)

section \<open>Properties\<close>

text \<open>
  Every route of the divergence scan is an arbitrage between a bin pool and a whirlpool that the scan
  admits: it borrows a lendable token and one of the given amounts, closes over the quotes of its two pools and
  leaves a positive net profit; the routes come in descending order of net profit, and the scan answers whenever
  no cached pool has a fee above 10000 basis points.
\<close>

theorem bin_divergence_sound:
  assumes "cache_keyed pools" and "distinct_tokens pools"
  shows "(\<forall>routes. scan_bin_divergence fl now pools amounts = Some routes
      \<longrightarrow> sorted_wrt (\<lambda>r s. rp_net_profit s \<le> rp_net_profit r) routes
        \<and> (\<forall>route \<in> set routes. cross_report bin_or_whirlpool 2 fl now pools amounts route))
    \<and> (fees_sane pools \<longrightarrow> scan_bin_divergence fl now pools amounts \<noteq> None)"
proof -
  have "sorted_wrt (\<lambda>r s. rp_net_profit s \<le> rp_net_profit r) routes" if "scan_bin_divergence fl now pools amounts = Some routes" for routes
    using that by (auto simp: scan_bin_divergence_def by_profit_sorted split: bind_splits)
  then show ?thesis using bin_divergence_reported [OF _ _ assms] bin_divergence_returns by blast
qed

theorem bin_divergence_sound_witness:
  "\<exists>route. scan_bin_divergence rational_floats 0 bin_market [10000000] = Some [route]
    \<and> cross_report bin_or_whirlpool 2 rational_floats 0 bin_market [10000000] route \<and> rp_net_profit route = 189897"
  using bin_divergence_sound [OF bin_market_ok, of rational_floats 0 "[10000000]"] bin_scan
  by (auto simp: bin_route_def simp del: SOL_MINT_def)



end
