(* ===== verification/Clmm_Tick_Arb.thy ===== *)
theory Clmm_Tick_Arb
  imports Stablecoin_Arb
begin

text \<open>
  Arbitrage after a swap crosses a tick, \<^verbatim>\<open>market-engine/src/clmm_tick_arb.rs\<close>: the swap is simulated to see
  whether the tick changes and what the new price is, and the pool is compared with the Raydium pools of its pair.
  The lendable tokens, the least reserve, the transaction fee and the highest return are those of
  \<^verbatim>\<open>cross_dex.rs\<close>.
\<close>

section \<open>The swap\<close>

definition TICK_MIN_SPREAD_BPS :: u64 where [simp]: "TICK_MIN_SPREAD_BPS = 50"
definition TICK_MAX_IMPACT :: "'f f64_ops \<Rightarrow> 'f" where "TICK_MAX_IMPACT fl = fl_lit fl ''10.0''"

definition simulate_clmm_swap :: "'f f64_ops \<Rightarrow> u128 \<Rightarrow> u128 \<Rightarrow> u64 \<Rightarrow> bool \<Rightarrow> u64 \<Rightarrow> u128" where
  "simulate_clmm_swap fl sqrt_price pool_liquidity amount_in a_to_b pool_fee =
     (if pool_liquidity = 0 \<or> sqrt_price = 0 then 0
      else let amount_in_after_fee = widen amount_in * (10000 - widen pool_fee) div 10000 in
        if amount_in_after_fee = 0 then 0
        else if a_to_b
        then let sqrt_p = fl_of_int fl (uint sqrt_price); l = fl_of_int fl (uint pool_liquidity); q64 = fl_of_int fl (2 ^ 64);
                 amt = fl_of_int fl (uint amount_in_after_fee);
                 denominator = fl_add fl l (fl_div fl (fl_mul fl amt sqrt_p) q64) in
          if fl_le fl denominator (fl_lit fl ''0.0'') then 0
          else let new_sqrt = fl_div fl (fl_mul fl sqrt_p l) denominator in
            if fl_le fl new_sqrt (fl_lit fl ''0.0'') \<or> \<not> fl_finite fl new_sqrt then 0 else fl_to_u128 fl new_sqrt
        else case checked_mul amount_in_after_fee (2 ^ 64) of
            None \<Rightarrow> 0
          | Some n \<Rightarrow> sat_add sqrt_price (n div pool_liquidity))"

definition sqrt_price_to_tick :: "'f f64_ops \<Rightarrow> u128 \<Rightarrow> int" where
  "sqrt_price_to_tick fl sqrt_price =
     (if sqrt_price = 0 then - (2 ^ 31)
      else let ratio = fl_div fl (fl_of_int fl (uint sqrt_price)) (fl_of_int fl (2 ^ 64));
               tick_f = fl_div fl (fl_mul fl (fl_lit fl ''2.0'') (fl_ln fl ratio)) (fl_ln fl (fl_lit fl ''1.0001'')) in
        fl_to_i32 fl (fl_floor fl tick_f))"

definition sqrt_price_to_price :: "'f f64_ops \<Rightarrow> u128 \<Rightarrow> u8 \<Rightarrow> u8 \<Rightarrow> 'f" where
  "sqrt_price_to_price fl sqrt_price decimals_a decimals_b =
     (let ratio = fl_div fl (fl_of_int fl (uint sqrt_price)) (fl_of_int fl (2 ^ 64));
          raw_price = fl_mul fl ratio ratio;
          decimal_adj = fl_powi fl (fl_lit fl ''10'') (uint decimals_a - uint decimals_b) in
      fl_mul fl raw_price decimal_adj)"

definition compute_amm_price :: "'f f64_ops \<Rightarrow> nat \<Rightarrow> dex_pool \<Rightarrow> 'f" where
  "compute_amm_price fl now pool =
     (let (ra, rb) = effective_reserves now pool in
      if ra = 0 \<or> rb = 0 then fl_lit fl ''0.0''
      else let a_ui = fl_div fl (fl_of_int fl (uint ra)) (fl_powi fl (fl_lit fl ''10'') (uint (dp_decimals_a pool)));
               b_ui = fl_div fl (fl_of_int fl (uint rb)) (fl_powi fl (fl_lit fl ''10'') (uint (dp_decimals_b pool))) in
        fl_div fl b_ui a_ui)"

section \<open>The scanner\<close>

definition build_tick_arb_route :: "'f f64_ops \<Rightarrow> nat \<Rightarrow> dex_pool \<Rightarrow> dex_pool \<Rightarrow> pubkey \<Rightarrow> pubkey \<Rightarrow> u64 \<Rightarrow> skip + 'f route_params" where
  "build_tick_arb_route fl now buy_pool sell_pool borrow_token mid_token borrow_amount =
     (let buy_a_is_borrow = (dp_token_a buy_pool = borrow_token);
          buy_reserve_in = (if buy_a_is_borrow then dp_reserve_a buy_pool else dp_reserve_b buy_pool) in
      and_then (guard_or Skip (\<not> buy_reserve_in < sat_mul borrow_amount 10)) (\<lambda>_.
      and_then (if buy_a_is_borrow
        then and_then (ok_or Panic (quote_a_to_b fl now borrow_amount buy_pool)) (\<lambda>out.
          Inr (out, impact_of fl borrow_amount (dp_reserve_a buy_pool)))
        else and_then (ok_or Panic (quote_b_to_a fl now borrow_amount buy_pool)) (\<lambda>out.
          Inr (out, impact_of fl borrow_amount (dp_reserve_b buy_pool)))) (\<lambda>(mid_amount, impact_1).
      and_then (guard_or Skip (\<not> (mid_amount = 0 \<or> fl_lt fl (TICK_MAX_IMPACT fl) impact_1))) (\<lambda>_.
      (let sell_a_is_mid = (dp_token_a sell_pool = mid_token) in
       and_then (if sell_a_is_mid
         then and_then (ok_or Panic (quote_a_to_b fl now mid_amount sell_pool)) (\<lambda>out.
           Inr (out, impact_of fl mid_amount (dp_reserve_a sell_pool)))
         else and_then (ok_or Panic (quote_b_to_a fl now mid_amount sell_pool)) (\<lambda>out.
           Inr (out, impact_of fl mid_amount (dp_reserve_b sell_pool)))) (\<lambda>(final_amount, impact_2).
       and_then (guard_or Skip (\<not> (final_amount = 0 \<or> fl_lt fl (TICK_MAX_IMPACT fl) impact_2))) (\<lambda>_.
       and_then (guard_or Skip (\<not> final_amount \<le> borrow_amount)) (\<lambda>_.
       and_then (guard_or Skip (\<not> fl_lt fl (fl_mul fl (fl_of_int fl (uint borrow_amount)) (MAX_RETURN_MULTIPLIER fl))
         (fl_of_int fl (uint final_amount)))) (\<lambda>_.
       (let gross_profit = final_amount - borrow_amount;
            net_profit = wrap64 (sint gross_profit - sint (CROSS_FEE_PER_HOP * 2)) in
        and_then (guard_or Skip (\<not> net_profit \<le> 0)) (\<lambda>_.
        (let max_impact = fl_max fl impact_1 impact_2;
             risk_factor = fl_min fl (fl_div fl max_impact (fl_lit fl ''100.0'')) (fl_lit fl ''0.95'') in
         Inr \<lparr>rp_hops = [cross_hop buy_pool borrow_token mid_token mid_amount impact_1,
                cross_hop sell_pool mid_token borrow_token final_amount impact_2],
              rp_borrow_amount = borrow_amount, rp_gross_profit = gross_profit, rp_net_profit = net_profit,
              rp_risk_factor = risk_factor, rp_strategy = ''clmm_tick_arb'', rp_tier = 0\<rparr>))))))))))))"

text \<open>The price after the swap, if the swap leaves its tick.\<close>

definition crossed_price :: "'f f64_ops \<Rightarrow> dex_pool \<Rightarrow> u64 \<Rightarrow> bool \<Rightarrow> 'f option" where
  "crossed_price fl pool amount_in a_to_b =
     (case dp_orca_meta pool of
        None \<Rightarrow> None
      | Some m \<Rightarrow>
          if \<not> (om_tick_spacing m > 0 \<and> om_sqrt_price m > 0 \<and> om_liquidity m > 0) then None
          else let new_sqrt_price = simulate_clmm_swap fl (om_sqrt_price m) (om_liquidity m) amount_in a_to_b (dp_fee_bps pool) in
            if new_sqrt_price = 0 then None
            else if sqrt_price_to_tick fl new_sqrt_price = om_tick_current_index m then None
            else let clmm_price = sqrt_price_to_price fl new_sqrt_price (dp_decimals_a pool) (dp_decimals_b pool) in
              if fl_le fl clmm_price (fl_lit fl ''0.0'') \<or> \<not> fl_finite fl clmm_price then None else Some clmm_price)"

definition tradable_amm :: "dex_pool \<Rightarrow> bool" where
  "tradable_amm amm \<longleftrightarrow> dp_dex_type amm = RaydiumAmmV4 \<and> \<not> dust amm
     \<and> (case dp_raydium_meta amm of None \<Rightarrow> False | Some meta \<Rightarrow> 0 \<notin> {rm_vault_a meta, rm_vault_b meta, rm_market_id meta})"

text \<open>The routes tried for one Raydium pool: its pools in order, the tokens, the amount.\<close>

definition attempts :: "dex_pool \<Rightarrow> dex_pool \<Rightarrow> dex_pool \<Rightarrow> u64 list \<Rightarrow> (dex_pool \<times> dex_pool \<times> pubkey \<times> pubkey \<times> u64) list" where
  "attempts pool buy_pool sell_pool borrow_amounts =
     concat (map (\<lambda>borrow_amount.
       (if dp_token_b pool \<in> set CROSS_ANCHORS then [(buy_pool, sell_pool, dp_token_b pool, dp_token_a pool, borrow_amount)] else [])
       @ (if dp_token_a pool \<in> set CROSS_ANCHORS then [(sell_pool, buy_pool, dp_token_a pool, dp_token_b pool, borrow_amount)] else []))
       borrow_amounts)"

definition tick_arb_routes :: "'f f64_ops \<Rightarrow> nat \<Rightarrow> dex_pool \<Rightarrow> 'f \<Rightarrow> u64 list \<Rightarrow> dex_pool \<Rightarrow> skip + 'f route_params list" where
  "tick_arb_routes fl now pool clmm_price borrow_amounts amm =
     and_then (guard_or Skip (tradable_amm amm)) (\<lambda>_.
     (let amm_price = compute_amm_price fl now amm in
      and_then (guard_or Skip (\<not> (fl_le fl amm_price (fl_lit fl ''0.0'') \<or> \<not> fl_finite fl amm_price))) (\<lambda>_.
      (let spread_bps = fl_to_u64 fl (fl_mul fl (fl_div fl (fl_abs fl (fl_sub fl clmm_price amm_price)) amm_price) (fl_lit fl ''10000.0''));
           combined_fee_bps = dex_fee_bps RaydiumClmm + dex_fee_bps RaydiumAmmV4 in
       and_then (guard_or Skip (\<not> spread_bps < combined_fee_bps + TICK_MIN_SPREAD_BPS)) (\<lambda>_.
       (let (buy_pool, sell_pool) = (if fl_lt fl amm_price clmm_price then (amm, pool) else (pool, amm)) in
        ok_or Panic (collect_kept (\<lambda>(p1, p2, borrow_token, mid_token, amount).
          build_tick_arb_route fl now p1 p2 borrow_token mid_token amount) (attempts pool buy_pool sell_pool borrow_amounts))))))))"

definition on_clmm_swap :: "'f f64_ops \<Rightarrow> nat \<Rightarrow> pool_cache \<Rightarrow> pubkey \<Rightarrow> u64 \<Rightarrow> bool \<Rightarrow> u64 list \<Rightarrow> 'f route_params list option" where
  "on_clmm_swap fl now pool_cache clmm_pool amount_in a_to_b borrow_amounts =
     (case get_pool pool_cache clmm_pool of
        None \<Rightarrow> Some []
      | Some pool \<Rightarrow>
          case crossed_price fl pool amount_in a_to_b of
            None \<Rightarrow> Some []
          | Some clmm_price \<Rightarrow> do {
              routes \<leftarrow> collect_concat (tick_arb_routes fl now pool clmm_price borrow_amounts)
                (pools_for_pair pool_cache (dp_token_a pool) (dp_token_b pool));
              Some (take 5 (by_profit routes)) })"

section \<open>Reported routes\<close>

text \<open>A swap of the second token never lowers the simulated price.\<close>

lemma simulated_price_rises:
  assumes "simulate_clmm_swap fl sqrt_price l amount_in False f = new" and "new \<noteq> 0"
  shows "sqrt_price \<le> new"
proof -
  have le: "sqrt_price \<le> sat_add sqrt_price d" for d
  proof -
    have "sqrt_price \<le> sqrt_price + d" if "unat sqrt_price + unat d < 340282366920938463463374607431768211456"
      using that by (simp add: word_le_nat_alt unat_add_u128)
    then show ?thesis by (simp add: sat_add_def)
  qed
  show ?thesis using assms by (auto simp: simulate_clmm_swap_def Let_def le split: if_splits option.splits)
qed

definition tick_report :: "'f f64_ops \<Rightarrow> nat \<Rightarrow> pool_cache \<Rightarrow> pubkey \<Rightarrow> u64 list \<Rightarrow> 'f route_params \<Rightarrow> bool" where
  "tick_report fl now pools clmm_pool borrow_amounts route \<longleftrightarrow> arbitrage fl now pools 10000 route \<and> length (rp_hops route) = 2
     \<and> hop_token_in (hd (rp_hops route)) \<in> set CROSS_ANCHORS
     \<and> rp_borrow_amount route \<in> set borrow_amounts \<and> 0 < rp_net_profit route
     \<and> (\<exists>amm. tradable_amm amm \<and> get_pool pools (dp_pool_address amm) = Some amm
          \<and> hop_pool ` set (rp_hops route) = {clmm_pool, dp_pool_address amm})"

lemma tick_route_Inr:
  assumes "build_tick_arb_route fl now p1 p2 x y amount = Inr route" and "pair_pool pools x y p1" and "pair_pool pools x y p2"
  shows "arbitrage fl now pools 10000 route" and "rp_borrow_amount route = amount" and "0 < rp_net_profit route"
    and "map hop_pool (rp_hops route) = [dp_pool_address p1, dp_pool_address p2]" and "hop_token_in (hd (rp_hops route)) = x"
proof -
  obtain mid impact1 final impact2 where
    mid: "(if dp_token_a p1 = x then quote_a_to_b fl now amount p1 else quote_b_to_a fl now amount p1) = Some mid" "mid \<noteq> 0"
    and final: "(if dp_token_a p2 = y then quote_a_to_b fl now mid p2 else quote_b_to_a fl now mid p2) = Some final"
    and more: "amount < final" and route: "rp_borrow_amount route = amount" "rp_gross_profit route = final - amount"
      "0 < rp_net_profit route" "rp_net_profit route = wrap64 (sint (rp_gross_profit route) - 10000)"
      "rp_hops route = [hop_through p1 x y mid impact1, hop_through p2 y x final impact2]"
    using assms(1) by (cases "dp_token_a p1 = x"; cases "dp_token_a p2 = y") (auto simp: build_tick_arb_route_def Let_def)
  show "arbitrage fl now pools 10000 route" by (rule two_pools_back [OF assms(2,3) mid(2) more mid(1) final route(1,2,4,5)])
  show "rp_borrow_amount route = amount" "0 < rp_net_profit route" by (rule route(1), rule route(3))
  show "map hop_pool (rp_hops route) = [dp_pool_address p1, dp_pool_address p2]" "hop_token_in (hd (rp_hops route)) = x"
    by (simp_all add: route(5))
qed

lemma attempts_in:
  "(p1, p2, x, y, amount) \<in> set (attempts pool buy sell amounts) \<Longrightarrow> amount \<in> set amounts \<and> x \<in> set CROSS_ANCHORS
    \<and> {p1, p2} = {buy, sell} \<and> {x, y} = {dp_token_a pool, dp_token_b pool}"
  by (auto simp: attempts_def split: if_splits)

lemma tick_routes_reported:
  assumes "tick_arb_routes fl now pool clmm_price amounts amm = Inr routes" and "route \<in> set routes"
    and "pair_pool pools (dp_token_a pool) (dp_token_b pool) pool" and "pair_pool pools (dp_token_a pool) (dp_token_b pool) amm"
  shows "tick_report fl now pools (dp_pool_address pool) amounts route"
proof -
  obtain buy sell where pools: "{buy, sell} = {pool, amm}" and amm: "tradable_amm amm"
    and routes: "collect_kept (\<lambda>(p1, p2, x, y, amount). build_tick_arb_route fl now p1 p2 x y amount) (attempts pool buy sell amounts) = Some routes"
    using assms(1) by (cases "fl_lt fl (compute_amm_price fl now amm) clmm_price") (auto simp: tick_arb_routes_def Let_def)
  from collect_kept_from [OF routes assms(2)] obtain p1 p2 x y amount where
    attempt: "(p1, p2, x, y, amount) \<in> set (attempts pool buy sell amounts)"
    and built: "build_tick_arb_route fl now p1 p2 x y amount = Inr route" by auto
  note found = attempts_in [OF attempt]
  have pair: "pair_pool pools x y p" if "p \<in> {p1, p2}" for p
  proof -
    have "p \<in> {pool, amm}" using that found pools by blast
    moreover have "(x, y) = (dp_token_a pool, dp_token_b pool) \<or> (x, y) = (dp_token_b pool, dp_token_a pool)"
      using found by (auto simp: doubleton_eq_iff)
    ultimately show ?thesis using assms(3,4) pair_pool_commute by blast
  qed
  have ok: "pair_pool pools x y p1" "pair_pool pools x y p2" using pair by blast+
  note route = tick_route_Inr [OF built ok]
  have "length (map hop_pool (rp_hops route)) = 2" "set (map hop_pool (rp_hops route)) = {dp_pool_address p1, dp_pool_address p2}"
    unfolding route(4) by simp_all
  moreover have "{dp_pool_address p1, dp_pool_address p2} = dp_pool_address ` {pool, amm}" using found pools by auto
  ultimately show ?thesis
    using route(1-3,5) found amm assms(4) unfolding tick_report_def by (auto simp: pair_pool_def)
qed

lemma clmm_swap_reported:
  assumes "on_clmm_swap fl now pools clmm_pool amount_in a_to_b amounts = Some routes" and "route \<in> set routes"
    and "stable_inv pair_of pools" and "distinct_tokens pools"
  shows "tick_report fl now pools clmm_pool amounts route"
    and "\<exists>pool price. get_pool pools clmm_pool = Some pool \<and> crossed_price fl pool amount_in a_to_b = Some price"
proof -
  obtain pool price reported where pool: "get_pool pools clmm_pool = Some pool"
    and crossed: "crossed_price fl pool amount_in a_to_b = Some price"
    and reported: "collect_concat (tick_arb_routes fl now pool price amounts) (pools_for_pair pools (dp_token_a pool) (dp_token_b pool))
        = Some reported" and routes: "routes = take 5 (by_profit reported)"
    using assms(1,2) by (auto simp: on_clmm_swap_def split: option.splits bind_splits)
  have keyed: "cache_keyed pools" using assms(3) by (simp add: stable_inv_def cache_inv_keyed)
  have entry: "(clmm_pool, pool) \<in> set (cache_inner pools)" using pool by (simp add: get_pool_def map_of_SomeD)
  then have distinct: "dp_token_a pool \<noteq> dp_token_b pool" using assms(4) by (auto simp: distinct_tokens_def)
  have address: "dp_pool_address pool = clmm_pool" by (rule cached_address [OF keyed pool])
  have "pair_pool pools (dp_token_a pool) (dp_token_b pool) pool"
    using pool distinct by (simp add: pair_pool_def joins_def address)
  moreover have "route \<in> set reported" using assms(2) by (auto simp: routes dest: in_set_takeD)
  with collect_concat_set [OF reported, of route] obtain amm l where
    "amm \<in> set (pools_for_pair pools (dp_token_a pool) (dp_token_b pool))" "tick_arb_routes fl now pool price amounts amm = Inr l" "route \<in> set l"
    by blast
  ultimately show "tick_report fl now pools clmm_pool amounts route"
    using tick_routes_reported indexed_pair_pool [OF assms(3) _ distinct] address by metis
  show "\<exists>pool price. get_pool pools clmm_pool = Some pool \<and> crossed_price fl pool amount_in a_to_b = Some price"
    using pool crossed by blast
qed

section \<open>The scanner answers\<close>

lemma tick_route_no_panic: "sane_fee p1 \<Longrightarrow> sane_fee p2 \<Longrightarrow> no_panic (build_tick_arb_route fl now p1 p2 x y amount)"
  unfolding build_tick_arb_route_def by (intro cross_intros)

lemma tick_routes_no_panic:
  assumes "sane_fee pool" and "sane_fee amm" shows "no_panic (tick_arb_routes fl now pool price amounts amm)"
proof -
  have sane: "sane_fee p1 \<and> sane_fee p2"
    if "(p1, p2, x, y, amount) \<in> set (attempts pool buy sell amounts)" "{buy, sell} = {pool, amm}" for p1 p2 x y amount buy sell
    using attempts_in [OF that(1)] that(2) assms by (metis doubleton_eq_iff)
  show ?thesis
    unfolding tick_arb_routes_def
    by (intro cross_intros tick_route_no_panic) (auto dest!: sane split: if_splits)
qed

lemma clmm_swap_returns:
  assumes "fees_sane pools" shows "on_clmm_swap fl now pools clmm_pool amount_in a_to_b amounts \<noteq> None"
  unfolding on_clmm_swap_def
  by (intro cross_intros tick_routes_no_panic) (auto simp: set_pools_for_pair intro: fees_sane_get [OF assms])

section \<open>The contract with the transaction builder\<close>

definition tick_reported :: "'f f64_ops \<Rightarrow> nat \<Rightarrow> pool_cache \<Rightarrow> 'f route_params \<Rightarrow> bool" where
  "tick_reported fl now pools route \<longleftrightarrow> (\<exists>pair_of clmm_pool amount_in a_to_b amounts routes. stable_inv pair_of pools
     \<and> distinct_tokens pools \<and> on_clmm_swap fl now pools clmm_pool amount_in a_to_b amounts = Some routes \<and> route \<in> set routes)"

lemma tick_reported_arbitrage: "tick_reported fl now pools route \<Longrightarrow> arbitrage fl now pools 10000 route"
  unfolding tick_reported_def using clmm_swap_reported(1) by (fastforce simp: tick_report_def)

interpretation clmm_tick_arb: route_source tick_reported
  by unfold_locales (auto simp: arbitrage_def dest!: tick_reported_arbitrage)

end
