(* ===== verification/Graduation_Arb.thy ===== *)
theory Graduation_Arb
  imports Cross_Answers
begin

text \<open>
  Arbitrage on the pools of a graduated token, \<^verbatim>\<open>market-engine/src/pump_graduation_arb.rs\<close>: every pair of pools
  of one pair of tokens is compared with the builders of \<^verbatim>\<open>cross_dex.rs\<close>. The order in which the hash map of the
  pairs is iterated is the argument \<open>pair_order\<close>. The lendable tokens and \<^verbatim>\<open>MIN_RESERVE\<close> are those of
  \<^verbatim>\<open>cross_dex.rs\<close>; the argument \<^verbatim>\<open>_pump_pool\<close> is not used.
\<close>

section \<open>The scanner\<close>

definition GRADUATION_MARGIN_BPS :: u64 where [simp]: "GRADUATION_MARGIN_BPS = 20"
definition MIN_RESERVE_SOL :: u64 where [simp]: "MIN_RESERVE_SOL = 5000000000"
definition ESTIMATED_RESERVE :: u64 where [simp]: "ESTIMATED_RESERVE = 79000000000"

definition graduation_eligible :: "dex_pool \<Rightarrow> bool" where
  "graduation_eligible pool \<longleftrightarrow> dp_dex_type pool \<notin> {Unknown, RaydiumClmm} \<and> \<not> dust pool \<and> \<not> phantom_raydium pool
     \<and> (dp_token_a pool \<in> set CROSS_ANCHORS \<or> dp_token_b pool \<in> set CROSS_ANCHORS)
     \<and> \<not> (dp_token_a pool = SOL_MINT \<and> dp_reserve_a pool < MIN_RESERVE_SOL)
     \<and> \<not> (dp_token_b pool = SOL_MINT \<and> dp_reserve_b pool < MIN_RESERVE_SOL)"

definition graduation_rate :: "'f f64_ops \<Rightarrow> nat \<Rightarrow> u64 list \<Rightarrow> pubkey \<times> pubkey \<Rightarrow> dex_pool \<Rightarrow> skip + 'f pool_rate" where
  "graduation_rate fl now borrow_amounts key pool =
     (let canonical_order = (dp_token_a pool = fst key) in
      and_then (quoted_rate fl now (reference_borrow borrow_amounts) canonical_order pool) (\<lambda>rate.
      and_then (guard_or Skip (usable_rate fl rate)) (\<lambda>_.
        Inr \<lparr>pr_pool = pool, pr_rate_a_to_b = rate, pr_canonical_order = canonical_order\<rparr>)))"

text \<open>A pool that still has the reserves it was inserted with.\<close>

definition estimated :: "dex_pool \<Rightarrow> bool" where
  "estimated pool \<longleftrightarrow> dp_reserve_a pool = ESTIMATED_RESERVE \<or> dp_reserve_b pool = ESTIMATED_RESERVE"

definition mark_graduation :: "'f route_params \<Rightarrow> 'f route_params" where
  "mark_graduation route = route\<lparr>rp_strategy := ''pump_graduation_arb''\<rparr>"

text \<open>The best route of each direction; the mark does not affect which is the best.\<close>

definition pair_of_rates_routes :: "'f f64_ops \<Rightarrow> nat \<Rightarrow> u64 list \<Rightarrow> pubkey \<times> pubkey \<Rightarrow> 'f pool_rate \<times> 'f pool_rate
    \<Rightarrow> skip + 'f route_params list" where
  "pair_of_rates_routes fl now borrow_amounts key = (\<lambda>(ri, rj).
     (let pool_i = pr_pool ri; pool_j = pr_pool rj in
      and_then (guard_or Skip (dp_pool_address pool_i \<noteq> dp_pool_address pool_j)) (\<lambda>_.
      and_then (guard_or Skip (\<not> (dp_dex_type pool_i = dp_dex_type pool_j \<and> (estimated pool_i \<or> estimated pool_j)))) (\<lambda>_.
      and_then (ok_or Skip (by_rate fl ri rj)) (\<lambda>(high, low).
      and_then (guard_or Skip (\<not> divergence_bps fl (pr_rate_a_to_b high) (pr_rate_a_to_b low)
        < dex_fee_bps (dp_dex_type (pr_pool high)) + dex_fee_bps (dp_dex_type (pr_pool low)) + GRADUATION_MARGIN_BPS)) (\<lambda>_.
      and_then (best_both_ways fl now key borrow_amounts high low) (\<lambda>routes.
        Inr (map mark_graduation routes))))))))"

fun all_pairs :: "'a list \<Rightarrow> ('a \<times> 'a) list" where
  "all_pairs [] = []"
| "all_pairs (x # xs) = map (Pair x) xs @ all_pairs xs"

definition graduation_group_routes :: "'f f64_ops \<Rightarrow> nat \<Rightarrow> u64 list \<Rightarrow> (pubkey \<times> pubkey) \<times> dex_pool list
    \<Rightarrow> skip + 'f route_params list" where
  "graduation_group_routes fl now borrow_amounts = (\<lambda>(key, pools).
     and_then (guard_or Skip (\<not> length pools < 2)) (\<lambda>_.
     and_then (guard_or Skip (fst key \<in> set CROSS_ANCHORS \<or> snd key \<in> set CROSS_ANCHORS)) (\<lambda>_.
     and_then (ok_or Panic (collect_kept (graduation_rate fl now borrow_amounts key) pools)) (\<lambda>pool_rates.
     and_then (guard_or Skip (\<not> length pool_rates < 2)) (\<lambda>_.
       ok_or Panic (collect_concat (pair_of_rates_routes fl now borrow_amounts key) (all_pairs pool_rates)))))))"

definition scan_graduation_arb :: "'f f64_ops \<Rightarrow> nat
    \<Rightarrow> (((pubkey \<times> pubkey) \<times> dex_pool list) list \<Rightarrow> ((pubkey \<times> pubkey) \<times> dex_pool list) list)
    \<Rightarrow> pool_cache \<Rightarrow> pubkey \<Rightarrow> u64 list \<Rightarrow> 'f route_params list option" where
  "scan_graduation_arb fl now pair_order pool_cache token_mint borrow_amounts =
     (let all_pools = pools_for_token pool_cache token_mint; eligible = filter graduation_eligible all_pools in
      if length all_pools < 2 \<or> length eligible < 2 then Some []
      else do {
        routes \<leftarrow> collect_concat (graduation_group_routes fl now borrow_amounts)
          (pair_order (grouped (map (\<lambda>pool. (pair_key (dp_token_a pool) (dp_token_b pool), pool)) eligible)));
        Some (by_profit routes) })"

section \<open>Reported routes\<close>

definition graduated :: "pubkey \<Rightarrow> dex_pool \<Rightarrow> bool" where
  "graduated token_mint pool \<longleftrightarrow> graduation_eligible pool \<and> token_mint \<in> {dp_token_a pool, dp_token_b pool}"

lemma all_pairs_in: "(x, y) \<in> set (all_pairs xs) \<Longrightarrow> x \<in> set xs \<and> y \<in> set xs"
  by (induction xs) auto

lemma pair_of_rates_reported:
  assumes "pair_of_rates_routes fl now amounts key (ri, rj) = Inr routes" and "route \<in> set routes"
    and "rate_ok Q pools (fst key) (snd key) (pr_pool ri) (pr_canonical_order ri)"
    and "rate_ok Q pools (fst key) (snd key) (pr_pool rj) (pr_canonical_order rj)"
  shows "cross_report Q 2 fl now pools amounts route"
proof -
  obtain high low routes' where rates: "by_rate fl ri rj = Some (high, low)"
    and best: "best_both_ways fl now key amounts high low = Inr routes'" and routes: "routes = map mark_graduation routes'"
    using assms(1) by (auto simp: pair_of_rates_routes_def Let_def)
  obtain r where r: "r \<in> set routes'" "route = mark_graduation r" using assms(2) by (auto simp: routes)
  have "cross_report Q 2 fl now pools amounts r"
    by (rule both_ways_reported(3) [OF _ _ best r(1)]) (use rates assms(3,4) in \<open>auto simp: by_rate_def split: if_splits\<close>)
  then show ?thesis by (simp add: r(2) mark_graduation_def cross_report_def arbitrage_def final_amount_def)
qed

lemma graduation_reported:
  assumes "scan_graduation_arb fl now pair_order pools token_mint amounts = Some routes" and "route \<in> set routes"
    and "cache_keyed pools" and "distinct_tokens pools" and "\<forall>groups. set (pair_order groups) \<subseteq> set groups"
  shows "cross_report (graduated token_mint) 2 fl now pools amounts route"
proof -
  let ?eligible = "filter graduation_eligible (pools_for_token pools token_mint)"
  let ?entries = "map (\<lambda>pool. (pair_key (dp_token_a pool) (dp_token_b pool), pool)) ?eligible"
  obtain reported where reported: "collect_concat (graduation_group_routes fl now amounts) (pair_order (grouped ?entries)) = Some reported"
    and routes: "routes = by_profit reported"
    using assms(1,2) by (auto simp: scan_graduation_arb_def Let_def split: if_splits bind_splits)
  have "route \<in> set reported" using assms(2) by (simp add: routes)
  with collect_concat_set [OF reported, of route] obtain group l where "group \<in> set (pair_order (grouped ?entries))"
    and l: "graduation_group_routes fl now amounts group = Inr l" "route \<in> set l" by blast
  then have group: "group \<in> set (grouped ?entries)" using assms(5) by blast
  obtain key ps where g: "group = (key, ps)" by (cases group)
  obtain rates where rates: "collect_kept (graduation_rate fl now amounts key) ps = Some rates"
    and found: "collect_concat (pair_of_rates_routes fl now amounts key) (all_pairs rates) = Some l"
    using l(1) by (auto simp: graduation_group_routes_def g)
  from collect_concat_set [OF found, of route] l(2) obtain ri rj l' where pair: "(ri, rj) \<in> set (all_pairs rates)"
    and l': "pair_of_rates_routes fl now amounts key (ri, rj) = Inr l'" "route \<in> set l'" by auto
  have ok: "rate_ok (graduated token_mint) pools (fst key) (snd key) (pr_pool r) (pr_canonical_order r)" if "r \<in> set rates" for r
  proof -
    from collect_kept_from [OF rates that] obtain pool where pool: "pool \<in> set ps" "graduation_rate fl now amounts key pool = Inr r" by blast
    then have "(key, pool) \<in> set ?entries" using group by (simp only: g grouped_entry)
    then have "pool \<in> set (map snd (cache_inner pools))" "graduated token_mint pool" "key = pair_key (dp_token_a pool) (dp_token_b pool)"
      by (auto simp: pools_for_token_def graduated_def)
    then show ?thesis
      using pool(2) by (intro cached_rate_ok [OF assms(3,4)]) (auto simp: graduation_rate_def Let_def intro: rev_image_eqI)
  qed
  show ?thesis by (rule pair_of_rates_reported [OF l']) (use all_pairs_in [OF pair] ok in blast)+
qed

section \<open>The scan answers\<close>

lemma graduation_rate_no_panic: "sane_fee pool \<Longrightarrow> no_panic (graduation_rate fl now amounts key pool)"
  unfolding graduation_rate_def by (intro cross_intros quoted_rate_no_panic)

lemma pair_of_rates_no_panic:
  "sane_fee (pr_pool ri) \<Longrightarrow> sane_fee (pr_pool rj) \<Longrightarrow> no_panic (pair_of_rates_routes fl now amounts key (ri, rj))"
  unfolding pair_of_rates_routes_def prod.case
  by (intro cross_intros best_both_ways_no_panic) (auto simp: by_rate_def split: if_splits)

lemma graduation_group_no_panic:
  assumes "\<forall>pool \<in> set ps. sane_fee pool" shows "no_panic (graduation_group_routes fl now amounts (key, ps))"
  unfolding graduation_group_routes_def prod.case
proof (intro cross_intros graduation_rate_no_panic)
  show "sane_fee pool" if "pool \<in> set ps" for pool using assms that by blast
  fix rates pair
  assume "ok_or Panic (collect_kept (graduation_rate fl now amounts key) ps) = Inr rates" and pair: "pair \<in> set (all_pairs rates)"
  then have rates: "collect_kept (graduation_rate fl now amounts key) ps = Some rates" by simp
  have sane: "sane_fee (pr_pool r)" if "r \<in> set rates" for r
    using collect_kept_from [OF rates that] assms by (auto simp: graduation_rate_def Let_def)
  obtain ri rj where "pair = (ri, rj)" by (cases pair)
  then show "no_panic (pair_of_rates_routes fl now amounts key pair)"
    using all_pairs_in [of ri rj rates] pair sane by (simp add: pair_of_rates_no_panic)
qed

lemma graduation_returns:
  assumes "fees_sane pools" and "\<forall>groups. set (pair_order groups) \<subseteq> set groups"
  shows "scan_graduation_arb fl now pair_order pools token_mint amounts \<noteq> None"
  unfolding scan_graduation_arb_def
proof (intro cross_intros)
  fix group
  let ?entries = "map (\<lambda>pool. (pair_key (dp_token_a pool) (dp_token_b pool), pool)) (filter graduation_eligible (pools_for_token pools token_mint))"
  assume "group \<in> set (pair_order (grouped ?entries))"
  then have group: "group \<in> set (grouped ?entries)" using assms(2) by blast
  obtain key ps where g: "group = (key, ps)" by (cases group)
  have "sane_fee pool" if "pool \<in> set ps" for pool
  proof -
    have "(key, pool) \<in> set ?entries" using group that by (simp only: g grouped_entry)
    then show ?thesis using assms(1) by (auto simp: pools_for_token_def fees_sane_def)
  qed
  then show "no_panic (graduation_group_routes fl now amounts group)" by (simp add: g graduation_group_no_panic)
qed

section \<open>The contract with the transaction builder\<close>

definition graduation_reported_by :: "'f f64_ops \<Rightarrow> nat \<Rightarrow> pool_cache \<Rightarrow> 'f route_params \<Rightarrow> bool" where
  "graduation_reported_by fl now pools route \<longleftrightarrow> cache_keyed pools \<and> distinct_tokens pools
     \<and> (\<exists>pair_order token_mint amounts routes. (\<forall>groups. set (pair_order groups) \<subseteq> set groups)
          \<and> scan_graduation_arb fl now pair_order pools token_mint amounts = Some routes \<and> route \<in> set routes)"

lemma graduation_arbitrage: "graduation_reported_by fl now pools route \<Longrightarrow> arbitrage fl now pools 10000 route"
  unfolding graduation_reported_by_def
  using graduation_reported [of fl now _ pools _ _ _ route] by (fastforce simp: cross_report_def)

interpretation pump_graduation: route_source graduation_reported_by
  by unfold_locales (auto simp: arbitrage_def dest!: graduation_arbitrage)

end
