(* ===== verification/Liquidity_Events.thy ===== *)
theory Liquidity_Events
  imports Swap_Decoder
begin

text \<open>
  Deposits and withdrawals of liquidity in transactions: the detector of \<^verbatim>\<open>market-engine/src/liquidity_events.rs\<close>,
  which the signal processor uses, and the one of the liquidity strategy in \<^verbatim>\<open>market-engine/src/strategies.rs\<close>.
  The two read different accounts of the same Raydium instruction.
\<close>

section \<open>liquidity\_events.rs\<close>

definition RAYDIUM_ADD_LIQ :: u8 where [simp]: "RAYDIUM_ADD_LIQ = 3"
definition RAYDIUM_REMOVE_LIQ :: u8 where [simp]: "RAYDIUM_REMOVE_LIQ = 4"
definition PUMPSWAP_DEPOSIT :: bytes where "PUMPSWAP_DEPOSIT = [242, 35, 198, 137, 82, 225, 242, 182]"
definition PUMPSWAP_WITHDRAW :: bytes where "PUMPSWAP_WITHDRAW = [183, 18, 70, 156, 148, 109, 161, 34]"

record lp_event =
  lp_pool :: pubkey
  lp_is_remove :: bool
  lp_estimated_amount :: u64

definition lp_amount :: "bytes \<Rightarrow> nat \<Rightarrow> u64" where
  "lp_amount data off = (if length data \<ge> off + 8 then unwrap_or 0 (read_u64 data off) else 0)"

definition lp_found :: "pubkey option \<Rightarrow> bool \<Rightarrow> u64 \<Rightarrow> lp_event list" where
  "lp_found pool is_remove amount =
     (case pool of
        None \<Rightarrow> []
      | Some p \<Rightarrow> [\<lparr>lp_pool = p, lp_is_remove = is_remove, lp_estimated_amount = amount\<rparr>])"

definition raydium_lp :: "pubkey list \<Rightarrow> pubkey \<Rightarrow> bytes \<Rightarrow> u8 list \<Rightarrow> lp_event list" where
  "raydium_lp keys pid data accs =
     (if pid = RAYDIUM_AMM_V4 \<and> data \<noteq> []
      then let disc = hd data in
        if disc = RAYDIUM_ADD_LIQ \<or> disc = RAYDIUM_REMOVE_LIQ
        then lp_found (account_at accs keys 1) (disc = RAYDIUM_REMOVE_LIQ) (lp_amount data 1)
        else []
      else [])"

definition pumpswap_lp :: "pubkey list \<Rightarrow> pubkey \<Rightarrow> bytes \<Rightarrow> u8 list \<Rightarrow> lp_event list" where
  "pumpswap_lp keys pid data accs =
     (if pid = PUMPSWAP \<and> length data \<ge> 8
      then let disc = take 8 data; is_deposit = (disc = PUMPSWAP_DEPOSIT); is_withdraw = (disc = PUMPSWAP_WITHDRAW) in
        if is_deposit \<or> is_withdraw
        then lp_found (account_at accs keys 0) is_withdraw (lp_amount data 8)
        else []
      else [])"

definition lp_events_of :: "pubkey list \<Rightarrow> nat \<times> bytes \<times> u8 list \<Rightarrow> lp_event list" where
  "lp_events_of keys = (\<lambda>(program, data, accs).
     (case idx keys program of
        None \<Rightarrow> []
      | Some pid \<Rightarrow> raydium_lp keys pid data accs @ pumpswap_lp keys pid data accs))"

definition detect_lp_events :: "versioned_message \<Rightarrow> lp_event list" where
  "detect_lp_events msg = concat (map (lp_events_of (static_accounts msg)) (instructions_with_data msg))"

section \<open>strategies.rs\<close>

definition ORCA_INCREASE_LIQ_DISC :: bytes where "ORCA_INCREASE_LIQ_DISC = [46, 156, 243, 118, 13, 205, 251, 178]"
definition ORCA_DECREASE_LIQ_DISC :: bytes where "ORCA_DECREASE_LIQ_DISC = [160, 38, 208, 111, 104, 91, 202, 187]"

datatype liquidity_event_kind = AddLiquidity | RemoveLiquidity | ClmmRangeCross

record liquidity_event =
  le_pool :: pubkey
  le_kind :: liquidity_event_kind
  le_slot :: u64

definition liquidity_kind :: "pubkey \<Rightarrow> bytes \<Rightarrow> liquidity_event_kind option" where
  "liquidity_kind prog data =
     (if prog = RAYDIUM_AMM_V4 \<and> data \<noteq> []
      then (if hd data = RAYDIUM_ADD_LIQ then Some AddLiquidity
            else if hd data = RAYDIUM_REMOVE_LIQ then Some RemoveLiquidity else None)
      else if prog = ORCA_WHIRLPOOL \<and> length data \<ge> 8
      then (if take 8 data = ORCA_INCREASE_LIQ_DISC then Some AddLiquidity
            else if take 8 data = ORCA_DECREASE_LIQ_DISC then Some RemoveLiquidity else None)
      else None)"

text \<open>The loop over the instructions; the question marks on the first account leave the function.\<close>

fun liquidity_loop :: "pubkey list \<Rightarrow> u64 \<Rightarrow> (nat \<times> bytes \<times> u8 list) list \<Rightarrow> liquidity_event option" where
  "liquidity_loop accounts slot [] = None"
| "liquidity_loop accounts slot ((prog_idx, data, accs) # instructions) =
     (case idx accounts prog_idx of
        None \<Rightarrow> liquidity_loop accounts slot instructions
      | Some prog \<Rightarrow> do {
          first \<leftarrow> idx accs 0;
          pool_pk \<leftarrow> idx accounts (unat first);
          case liquidity_kind prog data of
            None \<Rightarrow> liquidity_loop accounts slot instructions
          | Some kind \<Rightarrow> Some \<lparr>le_pool = pool_pk, le_kind = kind, le_slot = slot\<rparr> })"

definition detect_liquidity_event :: "versioned_message \<Rightarrow> u64 \<Rightarrow> liquidity_event option" where
  "detect_liquidity_event msg slot = liquidity_loop (static_accounts msg) slot (instructions_with_data msg)"

section \<open>What the detectors find\<close>

text \<open>The instructions the strategy's detector passes, reads, or gives up at.\<close>

definition resolves :: "pubkey list \<Rightarrow> nat \<times> bytes \<times> u8 list \<Rightarrow> bool" where
  "resolves accounts = (\<lambda>(prog_idx, data, accs). idx accounts prog_idx = None \<or> account_at accs accounts 0 \<noteq> None)"

definition liquidity_of :: "pubkey list \<Rightarrow> nat \<times> bytes \<times> u8 list \<Rightarrow> (pubkey \<times> liquidity_event_kind) option" where
  "liquidity_of accounts = (\<lambda>(prog_idx, data, accs). do {
     prog \<leftarrow> idx accounts prog_idx;
     kind \<leftarrow> liquidity_kind prog data;
     pool \<leftarrow> account_at accs accounts 0;
     Some (pool, kind) })"

lemma liquidity_loop_append:
  "\<forall>ix \<in> set before. resolves accounts ix \<and> liquidity_of accounts ix = None
    \<Longrightarrow> liquidity_loop accounts slot (before @ instructions) = liquidity_loop accounts slot instructions"
proof (induction before)
  case (Cons ix before)
  obtain prog_idx data accs where "ix = (prog_idx, data, accs)" by (cases ix)
  then show ?case using Cons by (auto simp: resolves_def liquidity_of_def account_at_def split: option.splits bind_splits)
qed simp

lemma first_liquidity:
  assumes "\<forall>ix \<in> set before. resolves accounts ix \<and> liquidity_of accounts ix = None"
    and "liquidity_of accounts ix = Some (pool, kind)"
  shows "liquidity_loop accounts slot (before @ ix # after) = Some \<lparr>le_pool = pool, le_kind = kind, le_slot = slot\<rparr>"
proof -
  obtain prog_idx data accs where "ix = (prog_idx, data, accs)" by (cases ix)
  then have "liquidity_loop accounts slot (ix # after) = Some \<lparr>le_pool = pool, le_kind = kind, le_slot = slot\<rparr>"
    using assms(2) by (auto simp: liquidity_of_def account_at_def split: bind_splits)
  then show ?thesis using liquidity_loop_append [OF assms(1)] by simp
qed

lemma gives_up_before:
  assumes "\<forall>ix \<in> set before. liquidity_of accounts ix = None" and "\<not> (\<forall>ix \<in> set before. resolves accounts ix)"
  shows "liquidity_loop accounts slot (before @ instructions) = None"
  using assms
proof (induction before)
  case (Cons ix before)
  obtain prog_idx data accs where ix: "ix = (prog_idx, data, accs)" by (cases ix)
  show ?case
  proof (cases "resolves accounts ix")
    case True
    then show ?thesis
      using Cons by (auto simp: ix resolves_def liquidity_of_def account_at_def split: option.splits bind_splits)
  next
    case False
    then show ?thesis by (auto simp: ix resolves_def account_at_def split: option.splits bind_splits)
  qed
qed simp

text \<open>The detector of the signal processor loses nothing to its neighbours.\<close>

lemma lp_events_append:
  "instructions_with_data msg = before @ ix # after \<Longrightarrow> detect_lp_events msg
    = concat (map (lp_events_of (static_accounts msg)) before) @ lp_events_of (static_accounts msg) ix
      @ concat (map (lp_events_of (static_accounts msg)) after)"
  by (simp add: detect_lp_events_def)

lemma raydium_lp_at:
  assumes "idx keys program = Some RAYDIUM_AMM_V4" and "disc \<in> {3, 4}" and "account_at accs keys 1 = Some pool"
  shows "lp_events_of keys (program, disc # u64_to_le amount @ rest, accs)
    = [\<lparr>lp_pool = pool, lp_is_remove = (disc = 4), lp_estimated_amount = amount\<rparr>]"
  using assms by (auto simp: lp_events_of_def raydium_lp_def pumpswap_lp_def lp_found_def lp_amount_def PUMPSWAP_def
    read_in unwrap_or_def)

lemma pumpswap_lp_at:
  assumes "idx keys program = Some PUMPSWAP" and "account_at accs keys 0 = Some pool"
  shows "lp_events_of keys (program, (if remove then PUMPSWAP_WITHDRAW else PUMPSWAP_DEPOSIT) @ u64_to_le amount @ rest, accs)
    = [\<lparr>lp_pool = pool, lp_is_remove = remove, lp_estimated_amount = amount\<rparr>]"
  using assms by (auto simp: lp_events_of_def raydium_lp_def pumpswap_lp_def lp_found_def lp_amount_def PUMPSWAP_DEPOSIT_def
    PUMPSWAP_WITHDRAW_def read_in unwrap_or_def)

end
