(* ===== verification/Strategies.thy ===== *)
theory Strategies
  imports Liquidity_Events Opportunity_Scanner
begin

text \<open>
  The event strategies of \<^verbatim>\<open>market-engine/src/strategies.rs\<close>: arbitrage after a liquidity event, and arbitrage against
  an oracle price. Both compare the cached reserves and quote by \<^verbatim>\<open>quote_a_to_b\<close> and \<^verbatim>\<open>quote_b_to_a\<close>. The
  equality of doubles is written with the two comparisons of the float parameter. Of the results, \<^verbatim>\<open>Inl Skip\<close> is
  \<^verbatim>\<open>None\<close> and \<^verbatim>\<open>Inl Panic\<close> the panic of a quote.
\<close>

section \<open>The strategies\<close>

definition E4_MIN_DIVERGENCE_BPS :: int where [simp]: "E4_MIN_DIVERGENCE_BPS = 50"
definition E5_MIN_ORACLE_LAG_BPS :: int where [simp]: "E5_MIN_ORACLE_LAG_BPS = 30"

definition fl_eq :: "'f f64_ops \<Rightarrow> 'f \<Rightarrow> 'f \<Rightarrow> bool" where
  "fl_eq fl x y \<longleftrightarrow> fl_le fl x y \<and> fl_le fl y x"

definition dex_program_id :: "dex_type \<Rightarrow> pubkey" where
  "dex_program_id dex =
     (case dex of
        RaydiumAmmV4 \<Rightarrow> RAYDIUM_AMM_V4
      | RaydiumClmm \<Rightarrow> RAYDIUM_CLMM
      | OrcaWhirlpool \<Rightarrow> ORCA_WHIRLPOOL
      | MeteoraDlmm \<Rightarrow> METEORA_DLMM
      | PumpSwap \<Rightarrow> PUMPSWAP
      | Fluxbeam \<Rightarrow> FLUXBEAM
      | Saber \<Rightarrow> SABER
      | RaydiumCpmm \<Rightarrow> RAYDIUM_CPMM
      | Unknown \<Rightarrow> 0)"

definition spot_rate :: "'f f64_ops \<Rightarrow> dex_pool \<Rightarrow> bool \<Rightarrow> 'f" where
  "spot_rate fl pool a_to_b =
     (if dp_reserve_a pool = 0 \<or> dp_reserve_b pool = 0 then fl_lit fl ''0.0''
      else if a_to_b then fl_div fl (fl_of_int fl (uint (dp_reserve_b pool))) (fl_of_int fl (uint (dp_reserve_a pool)))
      else fl_div fl (fl_of_int fl (uint (dp_reserve_a pool))) (fl_of_int fl (uint (dp_reserve_b pool))))"

definition strategy_hop :: "dex_pool \<Rightarrow> pubkey \<Rightarrow> pubkey \<Rightarrow> u64 \<Rightarrow> 'f \<Rightarrow> 'f hop" where
  "strategy_hop pool token_in token_out amount_out impact =
     \<lparr>hop_pool = dp_pool_address pool, hop_dex_program = dex_program_id (dp_dex_type pool), hop_token_in = token_in,
      hop_token_out = token_out, hop_amount_out = amount_out, hop_price_impact = impact\<rparr>"

text \<open>Both strategies buy in one pool from \<^verbatim>\<open>token_a\<close> to \<^verbatim>\<open>token_b\<close> and sell in the other back to \<^verbatim>\<open>token_a\<close>.\<close>

definition buy_then_sell :: "'f f64_ops \<Rightarrow> nat \<Rightarrow> int \<Rightarrow> string \<Rightarrow> string \<Rightarrow> dex_pool \<Rightarrow> dex_pool \<Rightarrow> u64 \<Rightarrow> skip + 'f route_params" where
  "buy_then_sell fl now fees risk strategy buy_pool sell_pool borrow_amount =
     and_then (ok_or Panic (quote_a_to_b fl now borrow_amount buy_pool)) (\<lambda>mid.
     and_then (ok_or Panic (quote_b_to_a fl now mid sell_pool)) (\<lambda>out.
     and_then (guard_or Skip (\<not> out \<le> borrow_amount)) (\<lambda>_.
     (let gross_profit = out - borrow_amount; net_profit = wrap64 (sint gross_profit - fees) in
      and_then (guard_or Skip (\<not> net_profit \<le> 0)) (\<lambda>_.
        Inr \<lparr>rp_hops =
               [strategy_hop buy_pool (dp_token_a buy_pool) (dp_token_b buy_pool) mid (impact_of fl borrow_amount (dp_reserve_a buy_pool)),
                strategy_hop sell_pool (dp_token_b sell_pool) (dp_token_a sell_pool) out (impact_of fl mid (dp_reserve_b sell_pool))],
             rp_borrow_amount = borrow_amount, rp_gross_profit = gross_profit, rp_net_profit = net_profit,
             rp_risk_factor = fl_lit fl risk, rp_strategy = strategy, rp_tier = 0\<rparr>)))))"

definition same_pair_pools :: "pool_cache \<Rightarrow> dex_pool \<Rightarrow> dex_pool list" where
  "same_pair_pools pools affected =
     filter (\<lambda>e. dp_pool_address e \<noteq> dp_pool_address affected \<and> dp_dex_type e \<noteq> dp_dex_type affected
       \<and> ((dp_token_a e = dp_token_a affected \<and> dp_token_b e = dp_token_b affected)
         \<or> (dp_token_a e = dp_token_b affected \<and> dp_token_b e = dp_token_a affected))) (map snd (cache_inner pools))"

definition e4_divergence :: "'f f64_ops \<Rightarrow> 'f \<Rightarrow> 'f \<Rightarrow> int" where
  "e4_divergence fl price_a price_b =
     fl_to_i64 fl (fl_mul fl (fl_abs fl (fl_sub fl (fl_div fl price_b price_a) (fl_lit fl ''1.0''))) (fl_lit fl ''10000.0''))"

definition e4_route :: "'f f64_ops \<Rightarrow> nat \<Rightarrow> u64 \<Rightarrow> dex_pool \<Rightarrow> dex_pool \<Rightarrow> skip + 'f route_params" where
  "e4_route fl now borrow_amount affected alt =
     (let price_a = spot_rate fl affected True; price_b = spot_rate fl alt True; zero = fl_lit fl ''0.0'' in
      and_then (guard_or Skip (\<not> (fl_eq fl price_a zero \<or> fl_eq fl price_b zero))) (\<lambda>_.
      and_then (guard_or Skip (\<not> e4_divergence fl price_a price_b < E4_MIN_DIVERGENCE_BPS)) (\<lambda>_.
      (let (buy_pool, sell_pool) = (if fl_lt fl price_a price_b then (affected, alt) else (alt, affected)) in
       buy_then_sell fl now 15000 ''0.3'' ''liquidity-event'' buy_pool sell_pool borrow_amount))))"

definition e4_opportunity :: "'f f64_ops \<Rightarrow> nat \<Rightarrow> pool_cache \<Rightarrow> liquidity_event \<Rightarrow> u64 \<Rightarrow> skip + 'f route_params" where
  "e4_opportunity fl now pools event borrow_amount =
     and_then (ok_or Skip (get_pool pools (le_pool event))) (\<lambda>affected.
       first_kept (e4_route fl now borrow_amount affected) (same_pair_pools pools affected))"

record 'f oracle_lag =
  ol_pool :: pubkey
  ol_spot_price :: 'f
  ol_oracle_price :: 'f
  ol_lag_bps :: int
  ol_direction :: bool

text \<open>\<^verbatim>\<open>i64::abs\<close> wraps on the least integer.\<close>

definition detect_oracle_lag :: "'f f64_ops \<Rightarrow> dex_pool \<Rightarrow> (pubkey \<times> 'f) list \<Rightarrow> 'f oracle_lag option" where
  "detect_oracle_lag fl pool oracle_prices =
     (if dp_reserve_a pool = 0 \<or> dp_reserve_b pool = 0 then None
      else let spot = fl_div fl (fl_of_int fl (uint (dp_reserve_b pool))) (fl_of_int fl (uint (dp_reserve_a pool))) in do {
        oracle_a \<leftarrow> map_of oracle_prices (dp_token_a pool);
        oracle_b \<leftarrow> map_of oracle_prices (dp_token_b pool);
        if fl_eq fl oracle_b (fl_lit fl ''0.0'') then None
        else let oracle_price = fl_div fl oracle_a oracle_b;
                 lag_bps = fl_to_i64 fl (fl_mul fl (fl_sub fl (fl_div fl spot oracle_price) (fl_lit fl ''1.0'')) (fl_lit fl ''10000.0'')) in
          if wrap64 \<bar>lag_bps\<bar> < E5_MIN_ORACLE_LAG_BPS then None
          else Some \<lparr>ol_pool = dp_pool_address pool, ol_spot_price = spot, ol_oracle_price = oracle_price,
                  ol_lag_bps = lag_bps, ol_direction = fl_lt fl spot oracle_price\<rparr> })"

text \<open>\<^verbatim>\<open>max_by_key\<close> keeps the last of several greatest.\<close>

definition reference_pool :: "pool_cache \<Rightarrow> dex_pool \<Rightarrow> dex_pool option" where
  "reference_pool pools lagging =
     last_max (\<lambda>y x. dp_reserve_a y < dp_reserve_a x)
       (filter (\<lambda>e. dp_pool_address e \<noteq> dp_pool_address lagging \<and> dp_token_a e = dp_token_a lagging
         \<and> dp_token_b e = dp_token_b lagging \<and> dp_reserve_a e > dp_reserve_a lagging) (map snd (cache_inner pools)))"

definition e5_opportunity :: "'f f64_ops \<Rightarrow> nat \<Rightarrow> pool_cache \<Rightarrow> 'f oracle_lag \<Rightarrow> u64 \<Rightarrow> skip + 'f route_params" where
  "e5_opportunity fl now pools lag borrow_amount =
     and_then (ok_or Skip (get_pool pools (ol_pool lag))) (\<lambda>lagging.
     and_then (ok_or Skip (reference_pool pools lagging)) (\<lambda>ref.
     (let (buy_pool, sell_pool) = (if ol_direction lag then (lagging, ref) else (ref, lagging)) in
      buy_then_sell fl now 10000 ''0.2'' ''stale-oracle'' buy_pool sell_pool borrow_amount)))"

section \<open>What a route of the strategies is\<close>

lemma program_id_is [simp]: "dex_program_id dex = program_of_dex dex"
  by (cases dex) (simp_all add: dex_program_id_def program_of_dex_def)

lemma strategy_hop_is [simp]: "strategy_hop pool x y out impact = hop_through pool x y out impact"
  by (simp add: strategy_hop_def hop_through_def)

lemma buy_then_sell_Inr:
  assumes "buy_then_sell fl now fees risk strategy buy sell borrow = Inr route"
  obtains mid out impact1 impact2 where "quote_a_to_b fl now borrow buy = Some mid" and "quote_b_to_a fl now mid sell = Some out"
    and "borrow < out" and "rp_borrow_amount route = borrow" and "rp_gross_profit route = out - borrow"
    and "rp_net_profit route = wrap64 (sint (rp_gross_profit route) - fees)" and "0 < rp_net_profit route"
    and "rp_hops route = [hop_through buy (dp_token_a buy) (dp_token_b buy) mid impact1,
      hop_through sell (dp_token_b sell) (dp_token_a sell) out impact2]"
  using assms by (auto simp: buy_then_sell_def Let_def not_le)

text \<open>Closed exactly where the two pools list their tokens in the same order.\<close>

lemma buy_then_sell_closed:
  assumes "buy_then_sell fl now fees risk strategy buy sell borrow = Inr route"
  shows "closed_route (rp_hops route) \<longleftrightarrow> dp_token_b buy = dp_token_b sell \<and> dp_token_a buy = dp_token_a sell"
  using assms by (rule buy_then_sell_Inr) (auto simp: closed_route_def)

lemma same_pair_in:
  "alt \<in> set (same_pair_pools pools affected) \<Longrightarrow> alt \<in> set (map snd (cache_inner pools))
    \<and> dp_pool_address alt \<noteq> dp_pool_address affected
    \<and> ((dp_token_a alt = dp_token_a affected \<and> dp_token_b alt = dp_token_b affected)
      \<or> (dp_token_a alt = dp_token_b affected \<and> dp_token_b alt = dp_token_a affected))"
  by (auto simp: same_pair_pools_def)

section \<open>The direction of the liquidity strategy\<close>

text \<open>
  What the argument needs of the doubles: on reserves below \<open>2^53\<close>, which are exact, the comparison of two quotients is
  never wrong (rounding is monotone), and two quotients of which neither is less differ by no basis point.
\<close>

definition rates_faithful :: "'f f64_ops \<Rightarrow> bool" where
  "rates_faithful fl \<longleftrightarrow> (\<forall>a b c d :: nat. 0 < a \<and> 0 < b \<and> 0 < c \<and> 0 < d \<and> a < 2 ^ 53 \<and> b < 2 ^ 53 \<and> c < 2 ^ 53 \<and> d < 2 ^ 53 \<longrightarrow>
     (let x = fl_div fl (fl_of_int fl (int b)) (fl_of_int fl (int a)); y = fl_div fl (fl_of_int fl (int d)) (fl_of_int fl (int c)) in
      (fl_lt fl x y \<longrightarrow> b * c < d * a) \<and> (fl_lt fl y x \<or> fl_lt fl x y \<or> e4_divergence fl x y = 0)))"

text \<open>A pool whose quotes are the constant-product formula on its cached reserves.\<close>

definition plain_pool :: "nat \<Rightarrow> dex_pool \<Rightarrow> bool" where
  "plain_pool now pool \<longleftrightarrow> dp_orca_meta pool = None \<and> dp_meteora_meta pool = None
     \<and> effective_reserves now pool = (dp_reserve_a pool, dp_reserve_b pool) \<and> dp_fee_bps pool \<le> 10000
     \<and> unat (dp_reserve_a pool) < 2 ^ 53 \<and> unat (dp_reserve_b pool) < 2 ^ 53"

lemma plain_quotes:
  assumes "plain_pool now pool" and "dp_reserve_a pool \<noteq> 0" and "dp_reserve_b pool \<noteq> 0" and "unat amount < 2 ^ 53"
  shows "quote_a_to_b fl now amount pool = Some q \<Longrightarrow>
      unat q = ideal_out (unat (dp_reserve_a pool)) (unat (dp_reserve_b pool)) (unat amount) (unat (dp_fee_bps pool))"
    and "quote_b_to_a fl now amount pool = Some q \<Longrightarrow>
      unat q = ideal_out (unat (dp_reserve_b pool)) (unat (dp_reserve_a pool)) (unat amount) (unat (dp_fee_bps pool))"
proof -
  have fits: "product_fits ro amount (dp_fee_bps pool)" if "unat ro < 2 ^ 53" for ro :: u64
  proof -
    have "unat amount * (10000 - unat (dp_fee_bps pool)) \<le> 2 ^ 53 * 10000" using assms(4) by (intro mult_le_mono) simp_all
    then have "unat amount * (10000 - unat (dp_fee_bps pool)) * unat ro \<le> (2 ^ 53 * 10000) * 2 ^ 53"
      by (rule mult_le_mono) (use that in simp)
    also have "\<dots> < (2 :: nat) ^ 128" by simp
    finally show ?thesis by (simp add: product_fits_def)
  qed
  have a: "dp_fee_bps pool \<le> 10000" "unat (dp_reserve_a pool) < 2 ^ 53" "unat (dp_reserve_b pool) < 2 ^ 53"
    using assms(1) by (simp_all add: plain_pool_def)
  show "quote_a_to_b fl now amount pool = Some q \<Longrightarrow>
      unat q = ideal_out (unat (dp_reserve_a pool)) (unat (dp_reserve_b pool)) (unat amount) (unat (dp_fee_bps pool))"
    using xyk_quote_exact [OF assms(2,3) a(1) fits [OF a(3)]] assms(1-3) by (auto simp: plain_pool_def quote_a_to_b_def)
  show "quote_b_to_a fl now amount pool = Some q \<Longrightarrow>
      unat q = ideal_out (unat (dp_reserve_b pool)) (unat (dp_reserve_a pool)) (unat amount) (unat (dp_fee_bps pool))"
    using xyk_quote_exact [OF assms(3,2) a(1) fits [OF a(2)]] assms(1-3) by (auto simp: plain_pool_def quote_b_to_a_def)
qed

lemma ideal_out_worth: "0 < ri \<Longrightarrow> 0 < ro \<Longrightarrow> ideal_out ri ro a f * ri \<le> a * ro"
proof -
  assume "0 < ri" and "0 < ro"
  define q where "q = ideal_out ri ro a f"
  have "ri * ro \<le> (ri + a) * (ro - q)" using ideal_out_product [OF \<open>0 < ri\<close> \<open>0 < ro\<close>] by (simp add: q_def)
  moreover have "q < ro" using ideal_out_less [OF \<open>0 < ri\<close> \<open>0 < ro\<close>] by (simp add: q_def)
  then have "(ri + a) * (ro - q) + (ri + a) * q = (ri + a) * ro" by (simp flip: distrib_left)
  ultimately have "(ri + a) * q \<le> a * ro" by (simp add: algebra_simps)
  then show ?thesis by (simp add: q_def algebra_simps)
qed

text \<open>Buying where the price is no higher and selling where it is no lower loses, when the price is the one of \<^verbatim>\<open>token_a\<close>.\<close>

lemma dear_purchase:
  assumes "plain_pool now buy" and "plain_pool now sell" and "dp_reserve_a buy \<noteq> 0" and "dp_reserve_b buy \<noteq> 0"
    and "dp_reserve_a sell \<noteq> 0" and "dp_reserve_b sell \<noteq> 0" and "unat borrow < 2 ^ 53"
    and "unat (dp_reserve_b buy) * unat (dp_reserve_a sell) \<le> unat (dp_reserve_b sell) * unat (dp_reserve_a buy)"
    and "quote_a_to_b fl now borrow buy = Some mid" and "quote_b_to_a fl now mid sell = Some out"
  shows "out \<le> borrow"
proof -
  let ?a1 = "unat (dp_reserve_a buy)" and ?b1 = "unat (dp_reserve_b buy)" and ?a2 = "unat (dp_reserve_a sell)" and ?b2 = "unat (dp_reserve_b sell)"
  have pos: "0 < ?a1" "0 < ?b1" "0 < ?a2" "0 < ?b2" using assms(3-6) by (simp_all add: unat_gt_0)
  have mid: "unat mid = ideal_out ?a1 ?b1 (unat borrow) (unat (dp_fee_bps buy))"
    by (rule plain_quotes(1) [OF assms(1,3,4,7,9)])
  have "unat mid < ?b1" using ideal_out_less [OF pos(1,2)] by (simp add: mid)
  then have small: "unat mid < 2 ^ 53" using assms(1) by (simp add: plain_pool_def)
  have out: "unat out = ideal_out ?b2 ?a2 (unat mid) (unat (dp_fee_bps sell))"
    by (rule plain_quotes(2) [OF assms(2,5,6) small assms(10)])
  have "unat out * ?b2 * ?a1 \<le> unat mid * ?a2 * ?a1" using ideal_out_worth [OF pos(4,3)] by (simp add: out)
  also have "\<dots> = unat mid * ?a1 * ?a2" by (simp only: ac_simps)
  also have "\<dots> \<le> unat borrow * ?b1 * ?a2" using ideal_out_worth [OF pos(1,2)] by (simp add: mid)
  also have "\<dots> \<le> unat borrow * (?b2 * ?a1)" using assms(8) by (simp add: mult.assoc)
  finally have "unat out * (?b2 * ?a1) \<le> unat borrow * (?b2 * ?a1)" by (simp only: ac_simps)
  then show ?thesis using pos(1,4) by (simp add: word_le_nat_alt)
qed

lemma dear_route:
  assumes "plain_pool now buy \<and> dp_reserve_a buy \<noteq> 0 \<and> dp_reserve_b buy \<noteq> 0"
    and "plain_pool now sell \<and> dp_reserve_a sell \<noteq> 0 \<and> dp_reserve_b sell \<noteq> 0" and "unat borrow < 2 ^ 53"
    and "unat (dp_reserve_b buy) * unat (dp_reserve_a sell) \<le> unat (dp_reserve_b sell) * unat (dp_reserve_a buy)"
  shows "buy_then_sell fl now fees risk strategy buy sell borrow \<noteq> Inr route"
proof
  assume "buy_then_sell fl now fees risk strategy buy sell borrow = Inr route"
  then obtain mid out where quotes: "quote_a_to_b fl now borrow buy = Some mid" "quote_b_to_a fl now mid sell = Some out"
    and more: "borrow < out" by (rule buy_then_sell_Inr)
  have "out \<le> borrow" using dear_purchase [OF _ _ _ _ _ _ assms(3,4) quotes] assms(1,2) by blast
  then show False using more by simp
qed

text \<open>So between plain pools the strategy finds nothing, whichever of them is dearer.\<close>

lemma e4_plain:
  assumes "rates_faithful fl" and "plain_pool now affected" and "plain_pool now alt"
    and "dp_reserve_a affected \<noteq> 0" and "dp_reserve_b affected \<noteq> 0" and "dp_reserve_a alt \<noteq> 0" and "dp_reserve_b alt \<noteq> 0"
    and "unat borrow < 2 ^ 53"
  shows "e4_route fl now borrow affected alt \<noteq> Inr route"
proof
  assume route: "e4_route fl now borrow affected alt = Inr route"
  let ?x = "spot_rate fl affected True" and ?y = "spot_rate fl alt True"
  define buy sell where "buy = (if fl_lt fl ?x ?y then affected else alt)" and "sell = (if fl_lt fl ?x ?y then alt else affected)"
  have built: "buy_then_sell fl now 15000 ''0.3'' ''liquidity-event'' buy sell borrow = Inr route"
    and apart: "e4_divergence fl ?x ?y \<noteq> 0"
    using route by (auto simp: e4_route_def Let_def buy_def sell_def split: if_splits)
  have rates: "?x = fl_div fl (fl_of_int fl (int (unat (dp_reserve_b affected)))) (fl_of_int fl (int (unat (dp_reserve_a affected))))"
    "?y = fl_div fl (fl_of_int fl (int (unat (dp_reserve_b alt)))) (fl_of_int fl (int (unat (dp_reserve_a alt))))"
    using assms(4-7) by (simp_all add: spot_rate_def)
  have pos: "0 < unat (dp_reserve_a p) \<and> 0 < unat (dp_reserve_b p) \<and> unat (dp_reserve_a p) < 2 ^ 53 \<and> unat (dp_reserve_b p) < 2 ^ 53"
    if "p \<in> {affected, alt}" for p using that assms(2-7) by (auto simp: plain_pool_def unat_gt_0)
  have faithful: "(fl_lt fl ?x ?y \<longrightarrow> unat (dp_reserve_b affected) * unat (dp_reserve_a alt) < unat (dp_reserve_b alt) * unat (dp_reserve_a affected))
    \<and> (fl_lt fl ?y ?x \<longrightarrow> unat (dp_reserve_b alt) * unat (dp_reserve_a affected) < unat (dp_reserve_b affected) * unat (dp_reserve_a alt))
    \<and> (fl_lt fl ?y ?x \<or> fl_lt fl ?x ?y)"
    using assms(1) pos [of affected] pos [of alt] apart unfolding rates_faithful_def Let_def rates by blast
  have "unat (dp_reserve_b buy) * unat (dp_reserve_a sell) \<le> unat (dp_reserve_b sell) * unat (dp_reserve_a buy)"
    using faithful by (auto simp: buy_def sell_def)
  moreover have "plain_pool now p \<and> dp_reserve_a p \<noteq> 0 \<and> dp_reserve_b p \<noteq> 0" if "p \<in> {buy, sell}" for p
    using that assms(2-7) by (auto simp: buy_def sell_def split: if_splits)
  ultimately show False using dear_route [of now buy sell borrow fl] assms(8) built by blast
qed

lemma e4_finds_nothing:
  assumes "rates_faithful fl" and "unat borrow < 2 ^ 53"
    and "\<forall>pool \<in> set (map snd (cache_inner pools)). plain_pool now pool \<and> dp_reserve_a pool \<noteq> 0 \<and> dp_reserve_b pool \<noteq> 0"
  shows "e4_opportunity fl now pools event borrow \<noteq> Inr route"
proof
  assume "e4_opportunity fl now pools event borrow = Inr route"
  then obtain affected where affected: "get_pool pools (le_pool event) = Some affected"
    and first: "first_kept (e4_route fl now borrow affected) (same_pair_pools pools affected) = Inr route"
    by (auto simp: e4_opportunity_def)
  obtain alt where alt: "alt \<in> set (same_pair_pools pools affected)" "e4_route fl now borrow affected alt = Inr route"
    using first_kept_Inr [OF first] by blast
  have "affected \<in> set (map snd (cache_inner pools))" "alt \<in> set (map snd (cache_inner pools))"
    using affected same_pair_in [OF alt(1)] by (auto simp: get_pool_def dest!: map_of_SomeD intro: rev_image_eqI)
  then show False using e4_plain [OF assms(1) _ _ _ _ _ _ assms(2)] assms(3) alt(2) by blast
qed

text \<open>Likewise the oracle strategy, whenever the reference pool is priced on the oracle's side of the lagging one.\<close>

lemma e5_finds_nothing:
  assumes "get_pool pools (ol_pool lag) = Some lagging" and "reference_pool pools lagging = Some ref" and "unat borrow < 2 ^ 53"
    and "plain_pool now lagging \<and> dp_reserve_a lagging \<noteq> 0 \<and> dp_reserve_b lagging \<noteq> 0"
    and "plain_pool now ref \<and> dp_reserve_a ref \<noteq> 0 \<and> dp_reserve_b ref \<noteq> 0"
    and "if ol_direction lag
      then unat (dp_reserve_b lagging) * unat (dp_reserve_a ref) \<le> unat (dp_reserve_b ref) * unat (dp_reserve_a lagging)
      else unat (dp_reserve_b ref) * unat (dp_reserve_a lagging) \<le> unat (dp_reserve_b lagging) * unat (dp_reserve_a ref)"
  shows "e5_opportunity fl now pools lag borrow \<noteq> Inr route"
proof
  assume "e5_opportunity fl now pools lag borrow = Inr route"
  then have built: "buy_then_sell fl now 10000 ''0.2'' ''stale-oracle'' (if ol_direction lag then lagging else ref)
      (if ol_direction lag then ref else lagging) borrow = Inr route"
    using assms(1,2) by (auto simp: e5_opportunity_def split: if_splits)
  then show False
    using dear_route [OF assms(4,5,3), of fl] dear_route [OF assms(5,4,3), of fl] assms(6) by (cases "ol_direction lag") auto
qed

section \<open>The routes of the oracle strategy\<close>

lemma reference_pool_in:
  "reference_pool pools lagging = Some ref \<Longrightarrow> ref \<in> set (map snd (cache_inner pools)) \<and> dp_token_a ref = dp_token_a lagging
    \<and> dp_token_b ref = dp_token_b lagging \<and> dp_reserve_a lagging < dp_reserve_a ref \<and> dp_pool_address ref \<noteq> dp_pool_address lagging"
  by (auto simp: reference_pool_def dest!: last_max_in)

lemma reference_pool_deepest:
  assumes "reference_pool pools lagging = Some ref" and "pool \<in> set (map snd (cache_inner pools))"
    and "dp_token_a pool = dp_token_a lagging" and "dp_token_b pool = dp_token_b lagging"
  shows "dp_reserve_a pool \<le> dp_reserve_a ref \<or> dp_pool_address pool = dp_pool_address lagging"
proof (cases "dp_pool_address pool = dp_pool_address lagging")
  case False
  show ?thesis
  proof (cases "dp_reserve_a lagging < dp_reserve_a pool")
    case True
    then show ?thesis using last_max_greatest [OF assms(1) [unfolded reference_pool_def], of pool] assms(2-4) False by simp
  next
    case False
    then show ?thesis using reference_pool_in [OF assms(1)] by (meson le_less_trans less_imp_le not_le)
  qed
qed simp

definition strategy_report :: "pool_cache \<Rightarrow> int \<Rightarrow> u64 \<Rightarrow> 'f route_params \<Rightarrow> bool" where
  "strategy_report pools fees borrow route \<longleftrightarrow> closed_route (rp_hops route) \<and> (\<forall>hop \<in> set (rp_hops route). hop_fits pools hop)
     \<and> rp_borrow_amount route = borrow \<and> borrow < final_amount route \<and> rp_gross_profit route = final_amount route - borrow
     \<and> 0 < rp_net_profit route \<and> (uint (rp_gross_profit route) < 2 ^ 63 \<longrightarrow> rp_net_profit route = uint (rp_gross_profit route) - fees)"

lemma e5_reported:
  assumes "e5_opportunity fl now pools lag borrow = Inr route" and "cache_keyed pools"
  shows "strategy_report pools 10000 borrow route"
proof -
  obtain lagging ref buy sell where lagging: "get_pool pools (ol_pool lag) = Some lagging"
    and ref: "reference_pool pools lagging = Some ref" and pools: "{buy, sell} = {lagging, ref}"
    and built: "buy_then_sell fl now 10000 ''0.2'' ''stale-oracle'' buy sell borrow = Inr route"
    using assms(1) by (cases "ol_direction lag") (auto simp: e5_opportunity_def)
  have cached: "get_pool pools (dp_pool_address p) = Some p" if "p \<in> {buy, sell}" for p
  proof -
    have "p \<in> {lagging, ref}" using that pools by blast
    then show ?thesis
      using cached_address [OF assms(2) lagging] lagging reference_pool_in [OF ref] cached_pool [OF assms(2)] by auto
  qed
  have tokens: "dp_token_a buy = dp_token_a sell" "dp_token_b buy = dp_token_b sell"
    using pools reference_pool_in [OF ref] by (metis doubleton_eq_iff)+
  from built obtain mid out impact1 impact2 where more: "borrow < out" and route: "rp_borrow_amount route = borrow"
      "rp_gross_profit route = out - borrow" "0 < rp_net_profit route"
      "rp_hops route = [hop_through buy (dp_token_a buy) (dp_token_b buy) mid impact1, hop_through sell (dp_token_b sell) (dp_token_a sell) out impact2]"
    and net: "rp_net_profit route = wrap64 (sint (rp_gross_profit route) - 10000)"
    by (rule buy_then_sell_Inr)
  have "uint (rp_gross_profit route) < 2 ^ 63 \<longrightarrow> rp_net_profit route = uint (rp_gross_profit route) - 10000"
    using net_exact [of "rp_gross_profit route" 10000] by (simp add: net)
  moreover have "\<forall>hop \<in> set (rp_hops route). hop_fits pools hop"
    using cached by (simp add: route(4) hop_through_fits joins_def)
  ultimately show ?thesis
    using more route(1-3) buy_then_sell_closed [OF built] tokens by (simp add: strategy_report_def final_amount_def route(4))
qed

section \<open>Neither panics\<close>

lemma buy_then_sell_no_panic: "sane_fee p1 \<Longrightarrow> sane_fee p2 \<Longrightarrow> no_panic (buy_then_sell fl now fees risk strategy p1 p2 borrow)"
  unfolding buy_then_sell_def by (intro cross_intros)

lemma e4_no_panic:
  assumes "fees_sane pools" shows "no_panic (e4_opportunity fl now pools event borrow)"
  unfolding e4_opportunity_def e4_route_def
  by (intro cross_intros first_kept_no_panic buy_then_sell_no_panic)
    (auto dest!: same_pair_in intro: fees_sane_get [OF assms] fees_sane_cached [OF assms] split: if_splits)

lemma e5_no_panic:
  assumes "fees_sane pools" shows "no_panic (e5_opportunity fl now pools lag borrow)"
  unfolding e5_opportunity_def
  by (intro cross_intros buy_then_sell_no_panic)
    (auto dest!: reference_pool_in intro: fees_sane_get [OF assms] fees_sane_cached [OF assms] split: if_splits)

end
