(* ===== verification/Orderbook_Backrun.thy ===== *)
theory Orderbook_Backrun
  imports Pool_State Swap_Decoder
begin

text \<open>
  Two readers of market state: the top of an OpenBook order book, \<^verbatim>\<open>market-engine/src/openbook_decoder.rs\<close>, and what a
  detected swap leaves to a transaction behind it, \<^verbatim>\<open>market-engine/src/backrun_calculator.rs\<close>.
\<close>

section \<open>The order book\<close>

record top_of_book =
  tob_best_bid_price :: u64
  tob_best_bid_size :: u64
  tob_best_ask_price :: u64
  tob_best_ask_size :: u64

text \<open>The price and the quantity of a leaf that can be the best, at one offset of the slab.\<close>

definition book_leaf :: "bytes \<Rightarrow> nat \<Rightarrow> (u64 \<times> u64) option option" where
  "book_leaf data offset = do {
     tag \<leftarrow> read_u32 data offset;
     if tag \<noteq> 2 then Some None
     else do {
       price \<leftarrow> read_u64 data (offset + 16);
       quantity \<leftarrow> read_u64 data (offset + 52);
       Some (if price = 0 \<or> quantity = 0 then None else Some (price, quantity)) } }"

definition better_leaf :: "bool \<Rightarrow> u64 \<times> u64 \<Rightarrow> (u64 \<times> u64) option \<Rightarrow> (u64 \<times> u64) option" where
  "better_leaf find_highest leaf best =
     (case best of
        None \<Rightarrow> Some leaf
      | Some (bp, _) \<Rightarrow> if (if find_highest then fst leaf > bp else fst leaf < bp) then Some leaf else best)"

fun leaf_loop :: "bytes \<Rightarrow> bool \<Rightarrow> nat list \<Rightarrow> (u64 \<times> u64) option \<Rightarrow> (u64 \<times> u64) option option" where
  "leaf_loop data find_highest [] best = Some best"
| "leaf_loop data find_highest (i # is') best =
     (let offset = 32 + i * 68 in
      if offset + 68 > length data then Some best
      else do {
        leaf \<leftarrow> book_leaf data offset;
        leaf_loop data find_highest is' (case leaf of None \<Rightarrow> best | Some l \<Rightarrow> better_leaf find_highest l best) })"

definition find_best_leaf :: "bytes \<Rightarrow> bool \<Rightarrow> (u64 \<times> u64) option option" where
  "find_best_leaf data find_highest =
     (if length data < 100 then Some None
      else leaf_loop data find_highest [0..<min ((length data - 32) div 68) 100] None)"

definition decode_top_of_book :: "bytes \<Rightarrow> bytes \<Rightarrow> top_of_book option" where
  "decode_top_of_book bids_data asks_data = do {
     bid \<leftarrow> find_best_leaf bids_data True;
     ask \<leftarrow> find_best_leaf asks_data False;
     let (bp, bs) = unwrap_or (0, 0) bid;
     let (ap, as') = unwrap_or (0, 0) ask;
     Some \<lparr>tob_best_bid_price = bp, tob_best_bid_size = bs, tob_best_ask_price = ap, tob_best_ask_size = as'\<rparr> }"

definition effective_price :: "'f f64_ops \<Rightarrow> top_of_book \<Rightarrow> u64 \<Rightarrow> u64 \<Rightarrow> bool \<Rightarrow> 'f option" where
  "effective_price fl tob base_lot_size quote_lot_size is_buy =
     (if base_lot_size = 0 \<or> quote_lot_size = 0 then None
      else let price = (if is_buy then tob_best_ask_price tob else tob_best_bid_price tob) in
        if price = 0 then None
        else Some (fl_div fl (fl_mul fl (fl_of_int fl (uint price)) (fl_of_int fl (uint quote_lot_size))) (fl_of_int fl (uint base_lot_size))))"

text \<open>The leaves among the first hundred nodes.\<close>

definition leaves :: "bytes \<Rightarrow> (u64 \<times> u64) list" where
  "leaves data = List.map_filter (\<lambda>i. Option.bind (book_leaf data (32 + i * 68)) id) [0..<min ((length data - 32) div 68) 100]"

definition best_of :: "bool \<Rightarrow> (u64 \<times> u64) list \<Rightarrow> (u64 \<times> u64) option" where
  "best_of find_highest ls = fold (better_leaf find_highest) ls None"

lemma book_leaf_reads: "offset + 68 \<le> length data \<Longrightarrow> book_leaf data offset \<noteq> None"
  by (simp add: book_leaf_def read_in)

lemma leaf_loop_folds:
  assumes "\<forall>i \<in> set ns. 32 + i * 68 + 68 \<le> length data"
  shows "leaf_loop data find_highest ns best =
    Some (fold (better_leaf find_highest) (List.map_filter (\<lambda>i. Option.bind (book_leaf data (32 + i * 68)) id) ns) best)"
  using assms
proof (induction ns arbitrary: best)
  case (Cons i ns)
  obtain leaf where "book_leaf data (32 + i * 68) = Some leaf" using Cons.prems book_leaf_reads [of "32 + i * 68"] by force
  then show ?case using Cons by (cases leaf) (simp_all add: map_filter_simps)
qed (simp add: map_filter_simps)

lemma nodes_inside:
  assumes "i < min ((length data - 32) div 68) 100" shows "32 + i * 68 + 68 \<le> length data"
proof -
  have "Suc i \<le> (length data - 32) div 68" using assms by simp
  then have "Suc i * 68 \<le> length data - 32" by (simp add: less_eq_div_iff_mult_less_eq)
  then show ?thesis by simp
qed

lemma find_best_leaf_is: "find_best_leaf data find_highest = Some (if length data < 100 then None else best_of find_highest (leaves data))"
proof -
  have "\<forall>i \<in> set [0..<min ((length data - 32) div 68) 100]. 32 + i * 68 + 68 \<le> length data"
    using nodes_inside by auto
  from leaf_loop_folds [OF this, of find_highest None] show ?thesis
    by (simp only: find_best_leaf_def best_of_def leaves_def) simp
qed

lemma best_of_fold:
  "fold (better_leaf find_highest) ls best = Some (p, q) \<Longrightarrow>
    ((p, q) \<in> set ls \<or> best = Some (p, q))
    \<and> (\<forall>(p', _) \<in> set ls. if find_highest then p' \<le> p else p \<le> p')
    \<and> (\<forall>p' q'. best = Some (p', q') \<longrightarrow> (if find_highest then p' \<le> p else p \<le> p'))"
proof (induction ls arbitrary: best)
  case (Cons l ls)
  obtain p' q' where l: "l = (p', q')" by (cases l)
  show ?case
    using Cons.IH [of "better_leaf find_highest l best"] Cons.prems
    by (auto simp: l better_leaf_def split: option.splits if_splits)
qed simp

lemma better_leaf_some: "better_leaf find_highest l best \<noteq> None"
  by (auto simp: better_leaf_def split: option.splits)

lemma best_of_None: "best_of find_highest ls = None \<longleftrightarrow> ls = []"
proof -
  have "fold (better_leaf find_highest) ks (Some l) \<noteq> None" for ks l
  proof (induction ks arbitrary: l)
    case (Cons k ks)
    obtain m where "better_leaf find_highest k (Some l) = Some m" using better_leaf_some [of find_highest k "Some l"] by blast
    then show ?case using Cons.IH [of m] by simp
  qed simp
  moreover have "better_leaf find_highest l None = Some l" for l by (simp add: better_leaf_def)
  ultimately show ?thesis by (cases ls) (simp_all add: best_of_def del: not_None_eq)
qed

lemma book_leaf_positive: "book_leaf data offset = Some (Some (p, q)) \<Longrightarrow> 0 < p \<and> 0 < q"
  by (auto simp: book_leaf_def bind_eq_Some_conv word_greater_zero_iff split: if_splits)

lemma leaves_in: "leaf \<in> set (leaves data) \<Longrightarrow> \<exists>i. book_leaf data (32 + i * 68) = Some (Some leaf)"
  unfolding leaves_def map_filter_def by (auto simp: bind_eq_Some_conv)

text \<open>The decoder never fails; the best bid is a leaf of the highest price, the best ask one of the lowest.\<close>

lemma best_leaf:
  "\<exists>best. find_best_leaf data find_highest = Some best
    \<and> (case best of
        None \<Rightarrow> length data < 100 \<or> leaves data = []
      | Some (p, q) \<Rightarrow> (p, q) \<in> set (leaves data) \<and> 0 < p \<and> 0 < q
          \<and> (\<forall>(p', _) \<in> set (leaves data). if find_highest then p' \<le> p else p \<le> p'))"
proof -
  have nonzero: "0 < p \<and> 0 < q" if "(p, q) \<in> set (leaves data)" for p q
  proof -
    from leaves_in [OF that] obtain i where "book_leaf data (32 + i * 68) = Some (Some (p, q))" by blast
    then show ?thesis by (rule book_leaf_positive)
  qed
  show ?thesis
  proof (cases "best_of find_highest (leaves data)")
    case None
    then show ?thesis using best_of_None [of find_highest "leaves data"] by (simp add: find_best_leaf_is)
  next
    case (Some leaf)
    obtain p q where leaf: "leaf = (p, q)" by (cases leaf)
    have "(p, q) \<in> set (leaves data) \<and> (\<forall>(p', _) \<in> set (leaves data). if find_highest then p' \<le> p else p \<le> p')"
      using best_of_fold [OF Some [unfolded best_of_def leaf]] by simp
    then show ?thesis using nonzero [of p q] by (simp add: find_best_leaf_is Some leaf)
  qed
qed

section \<open>What a swap leaves behind\<close>

record backrun_analysis =
  ba_profit_ceiling :: u64
  ba_slippage_bps :: u64
  ba_post_reserve_a :: u64
  ba_post_reserve_b :: u64
  ba_recommended_amount :: u64
  ba_is_profitable :: bool

text \<open>The output and the two reserves after the swap; sums of \<^verbatim>\<open>u64\<close> wrap, a zero divisor panics.\<close>

definition swap_effect :: "bool \<Rightarrow> u64 \<Rightarrow> u64 \<Rightarrow> u64 \<Rightarrow> u64 \<Rightarrow> (u64 \<times> u64 \<times> u64) option" where
  "swap_effect a_to_b ra rb amount_in fee_bps =
     (let fee_mult = widen (10000 - fee_bps); amount_after_fee = widen amount_in * fee_mult div 10000 in
      if a_to_b
      then if widen ra + amount_after_fee = 0 then None
        else let out = narrow ((widen rb * amount_after_fee) div (widen ra + amount_after_fee)) in
          Some (out, ra + amount_in, sat_sub rb out)
      else if widen rb + amount_after_fee = 0 then None
        else let out = narrow ((widen ra * amount_after_fee) div (widen rb + amount_after_fee)) in
          Some (out, sat_sub ra out, rb + amount_in))"

definition analyze_backrun :: "'f f64_ops \<Rightarrow> nat \<Rightarrow> detected_swap \<Rightarrow> dex_pool \<Rightarrow> backrun_analysis option" where
  "analyze_backrun fl now swap pool =
     (let (ra, rb) = effective_reserves now pool in
      if ra = 0 \<or> rb = 0 \<or> ds_amount_in swap = 0
      then Some \<lparr>ba_profit_ceiling = 0, ba_slippage_bps = 0, ba_post_reserve_a = ra, ba_post_reserve_b = rb,
             ba_recommended_amount = 0, ba_is_profitable = False\<rparr>
      else do {
        (actual_out, post_ra, post_rb) \<leftarrow> swap_effect (ds_a_to_b swap) ra rb (ds_amount_in swap) (pool_fee_bps pool);
        let min_out = ds_amount_out_min swap;
        let profit_ceiling = (if min_out > 0 \<and> actual_out > min_out then actual_out - min_out else 0);
        let slippage_bps = (if min_out > 0
          then fl_to_u64 fl (fl_mul fl (fl_sub fl (fl_div fl (fl_of_int fl (uint actual_out)) (fl_of_int fl (uint min_out))) (fl_lit fl ''1.0''))
            (fl_lit fl ''10000.0''))
          else 0);
        let recommended = (if profit_ceiling > 0
          then let reserve = (if ds_a_to_b swap then post_rb else post_ra) in
            fl_to_u64 fl (fl_mul fl (fl_sqrt fl (fl_mul fl (fl_of_int fl (uint profit_ceiling)) (fl_of_int fl (uint reserve)))) (fl_lit fl ''0.5''))
          else 0);
        let min_profit = 20000;
        Some \<lparr>ba_profit_ceiling = profit_ceiling, ba_slippage_bps = slippage_bps, ba_post_reserve_a = post_ra,
          ba_post_reserve_b = post_rb, ba_recommended_amount = min recommended profit_ceiling,
          ba_is_profitable = (profit_ceiling > min_profit \<and> slippage_bps > 10)\<rparr> })"

lemma exact_output:
  fixes rin rout amount fee :: u64
  assumes "rin \<noteq> 0" and "rout \<noteq> 0" and "fee \<le> 10000"
  defines "after \<equiv> widen amount * widen (10000 - fee) div 10000"
  shows "widen rin + after \<noteq> 0" and "unat after \<le> unat amount"
    and "unat (narrow ((widen rout * after) div (widen rin + after))) = unat rout * unat after div (unat rin + unat after)"
proof -
  have mult: "unat (10000 - fee) = 10000 - unat fee" using assms(3) by (simp add: unat_sub)
  have "unat (widen amount * widen (10000 - fee)) = unat amount * (10000 - unat fee)"
  proof -
    have "unat amount * (10000 - unat fee) \<le> 18446744073709551615 * 10000"
      using unat_u64_bound [of amount] by (intro mult_le_mono) linarith+
    then show ?thesis by (simp add: unat_mult_u128 mult)
  qed
  then have after: "unat after = unat amount * (10000 - unat fee) div 10000" by (simp add: after_def unat_div)
  also have "\<dots> \<le> unat amount * 10000 div 10000" by (intro div_le_mono mult_le_mono2) simp
  finally show le: "unat after \<le> unat amount" by simp
  have pos: "0 < unat rin" "0 < unat rout" using assms(1,2) by (simp_all add: unat_gt_0)
  have sum: "unat (widen rin + after) = unat rin + unat after"
  proof -
    have "unat rin + unat after < 340282366920938463463374607431768211456"
      using le unat_u64_bound [of rin] unat_u64_bound [of amount] by linarith
    then show ?thesis by (simp add: unat_add_u128)
  qed
  show "widen rin + after \<noteq> 0" using sum pos by (metis add_is_0 neq0_conv unat_0)
  have "unat (widen rout * after) = unat rout * unat after"
  proof -
    have "unat rout * unat after \<le> 18446744073709551615 * 18446744073709551615"
      using le unat_u64_bound [of rout] unat_u64_bound [of amount] by (intro mult_le_mono) linarith+
    then show ?thesis by (simp add: unat_mult_u128)
  qed
  then have q: "unat ((widen rout * after) div (widen rin + after)) = unat rout * unat after div (unat rin + unat after)"
    by (simp add: unat_div sum)
  have "unat rout * unat after div (unat rin + unat after) \<le> unat rout"
  proof -
    have "unat rout * unat after div (unat rin + unat after) \<le> unat rout * (unat rin + unat after) div (unat rin + unat after)"
      by (intro div_le_mono mult_le_mono2) simp
    then show ?thesis using pos by simp
  qed
  then show "unat (narrow ((widen rout * after) div (widen rin + after))) = unat rout * unat after div (unat rin + unat after)"
    using q unat_u64_bound [of rout] unat_narrow_small [of "(widen rout * after) div (widen rin + after)"] by linarith
qed

text \<open>
  On reserves that are not zero, with a fee of at most 100 percent, the output stays below the reserve it leaves, the new reserves
  are exact as long as the sum fits, and their product does not fall.
\<close>

definition kept :: "u64 \<Rightarrow> u64 \<Rightarrow> u64 \<Rightarrow> u64 \<Rightarrow> u64 \<Rightarrow> u64 \<Rightarrow> bool" where
  "kept rin rout amount out post_in post_out \<longleftrightarrow> out < rout \<and> unat post_out = unat rout - unat out
     \<and> (unat rin + unat amount < 2 ^ 64 \<longrightarrow> unat post_in = unat rin + unat amount
          \<and> unat rin * unat rout \<le> unat post_in * unat post_out)"

lemma one_way_kept:
  fixes rin rout amount fee :: u64
  assumes "rin \<noteq> 0" and "rout \<noteq> 0" and "fee \<le> 10000"
  defines "after \<equiv> widen amount * widen (10000 - fee) div 10000"
  defines "out \<equiv> narrow ((widen rout * after) div (widen rin + after))"
  shows "kept rin rout amount out (rin + amount) (sat_sub rout out)"
proof -
  note e = exact_output [OF assms(1-3), of amount, folded after_def, folded out_def]
  have pos: "0 < unat rin" "0 < unat rout" using assms(1,2) by (simp_all add: unat_gt_0)
  have lt: "unat out < unat rout"
    unfolding e(3) using pos by (simp add: div_less_iff_less_mult algebra_simps)
  have "unat out * (unat rin + unat after) \<le> unat rout * unat after" unfolding e(3) by simp
  then have "unat rin * unat rout \<le> (unat rin + unat after) * (unat rout - unat out)"
    using lt by (simp add: algebra_simps diff_mult_distrib2)
  also have "\<dots> \<le> (unat rin + unat amount) * (unat rout - unat out)" using e(2) by simp
  finally have product: "unat rin * unat rout \<le> (unat rin + unat amount) * (unat rout - unat out)" .
  have post: "unat (sat_sub rout out) = unat rout - unat out" using lt by (simp add: sat_sub_def word_le_nat_alt unat_sub)
  show ?thesis
    using lt product post by (auto simp: kept_def word_less_nat_alt unat_add_small)
qed

lemma swap_effect_kept:
  assumes "ra \<noteq> 0" and "rb \<noteq> 0" and "fee \<le> 10000"
  shows "\<exists>out post_a post_b. swap_effect a_to_b ra rb amount fee = Some (out, post_a, post_b)
    \<and> (if a_to_b then kept ra rb amount out post_a post_b else kept rb ra amount out post_b post_a)"
  using one_way_kept [OF assms, of amount] one_way_kept [OF assms(2,1,3), of amount]
    exact_output(1) [OF assms, of amount] exact_output(1) [OF assms(2,1,3), of amount]
  by (simp add: swap_effect_def Let_def)

text \<open>The backrun never plans for more than the swap can leave, and calls profitable only a swap with a minimum output.\<close>

lemma analyze_backrun_bounds:
  assumes "analyze_backrun fl now swap pool = Some a" and "effective_reserves now pool = (ra, rb)" and "pool_fee_bps pool \<le> 10000"
  shows "ba_recommended_amount a \<le> ba_profit_ceiling a
    \<and> (ba_is_profitable a \<longrightarrow> 20000 < ba_profit_ceiling a \<and> 0 < ds_amount_out_min swap)
    \<and> ba_profit_ceiling a \<le> (if ds_a_to_b swap then rb else ra)"
proof (cases "ra = 0 \<or> rb = 0 \<or> ds_amount_in swap = 0")
  case True
  then show ?thesis using assms(1,2) by (auto simp: analyze_backrun_def)
next
  case False
  then obtain out post_a post_b where effect: "swap_effect (ds_a_to_b swap) ra rb (ds_amount_in swap) (pool_fee_bps pool) = Some (out, post_a, post_b)"
    and kept: "if ds_a_to_b swap then kept ra rb (ds_amount_in swap) out post_a post_b else kept rb ra (ds_amount_in swap) out post_b post_a"
    using swap_effect_kept [OF _ _ assms(3), of ra rb "ds_a_to_b swap" "ds_amount_in swap"] by blast
  have out: "out \<le> (if ds_a_to_b swap then rb else ra)" using kept by (auto simp: kept_def split: if_splits)
  have ceiling: "ba_profit_ceiling a = (if ds_amount_out_min swap > 0 \<and> out > ds_amount_out_min swap then out - ds_amount_out_min swap else 0)"
    and rest: "ba_recommended_amount a \<le> ba_profit_ceiling a" "ba_is_profitable a \<Longrightarrow> 20000 < ba_profit_ceiling a"
    using assms(1,2) False effect by (auto simp: analyze_backrun_def Let_def)
  have "ba_profit_ceiling a \<le> out" unfolding ceiling by (auto simp: word_sub_le less_imp_le)
  then show ?thesis using out rest ceiling by (auto intro: order_trans split: if_splits)
qed

lemma analyze_backrun_answers:
  assumes "pool_fee_bps pool \<le> 10000" shows "analyze_backrun fl now swap pool \<noteq> None"
proof -
  obtain ra rb where reserves: "effective_reserves now pool = (ra, rb)" by (cases "effective_reserves now pool")
  show ?thesis
  proof (cases "ra = 0 \<or> rb = 0 \<or> ds_amount_in swap = 0")
    case False
    then show ?thesis
      using swap_effect_kept [OF _ _ assms, of ra rb "ds_a_to_b swap" "ds_amount_in swap"] by (auto simp: analyze_backrun_def reserves Let_def)
  qed (auto simp: analyze_backrun_def reserves)
qed

end
