(* ===== verification/Strategy_Reports.thy ===== *)
theory Strategy_Reports
  imports Divergence_Reports Scanner_Reports Clmm_Tick_Arb Graduation_Arb Strategies Orderbook_Backrun
begin

text \<open>
  The properties of the tick scanner, of the liquidity strategy and of the two detectors of liquidity events, with
  example markets and a message.
\<close>

section \<open>A swap that leaves its tick\<close>

definition tick_clmm :: dex_pool where
  "tick_clmm = (example_pool 81 1000000000)\<lparr>dp_dex_type := RaydiumClmm, dp_orca_meta := Some
     \<lparr>om_token_vault_a = 1, om_token_vault_b = 2, om_liquidity = 1000000000000, om_sqrt_price = 18446744073709551616,
      om_tick_spacing = 64, om_tick_current_index = 5, om_tick_arrays = []\<rparr>\<rparr>"

abbreviation tick_amm :: dex_pool where "tick_amm \<equiv> cycle_pool 82 RaydiumAmmV4 12 SOL_MINT 980000000"

definition tick_calls :: "pool_call list" where "tick_calls = [Upsert tick_clmm, Upsert tick_amm]"

definition tick_market :: pool_cache where "tick_market = upsert tick_amm (upsert tick_clmm new_pool_cache)"

definition tick_pair_of :: "pubkey \<Rightarrow> pubkey \<times> pubkey" where "tick_pair_of k = canonical_pair 12 SOL_MINT"

lemma tick_simps [simp]:
  "dp_pool_address tick_clmm = 81" "dp_token_a tick_clmm = 12" "dp_token_b tick_clmm = SOL_MINT" "dp_dex_type tick_clmm = RaydiumClmm"
  "dp_reserve_a tick_clmm = 1000000000" "dp_reserve_b tick_clmm = 1000000000" "dp_fee_bps tick_clmm = 0"
  "dp_decimals_a tick_clmm = 6" "dp_decimals_b tick_clmm = 9"
  by (simp_all add: tick_clmm_def example_pool_def del: SOL_MINT_def)

lemma tick_run: "run (cache_step fl) tick_calls new_pool_cache = Some tick_market"
  by (simp add: tick_calls_def tick_market_def)

lemma tick_stable: "list_all (stable_call tick_pair_of) tick_calls"
  by (simp add: tick_calls_def stable_call_def tick_pair_of_def pair_of_pool_def del: SOL_MINT_def)

lemma tick_pools: "cache_inner tick_market = [(81, tick_clmm), (82, tick_amm)]"
  by (simp add: tick_market_def upsert_def new_pool_cache_def Let_def del: SOL_MINT_def)

lemma tick_distinct: "distinct_tokens tick_market"
  by (simp add: distinct_tokens_def tick_pools example_mints del: SOL_MINT_def)

lemma tick_of_pair: "pools_for_pair tick_market 12 SOL_MINT = [tick_clmm, tick_amm]"
  by (simp add: pools_for_pair_def tick_market_def upsert_def new_pool_cache_def Let_def unwrap_or_def map_filter_simps del: SOL_MINT_def)

lemma tick_reached: "simulate_clmm_swap rational_floats 18446744073709551616 1000000000000 1000000 False 0 = 18446762520453625325"
  by (simp add: simulate_clmm_swap_def Let_def checked_mul_def sat_add_def)

lemma tick_crossed: "crossed_price rational_floats tick_clmm 1000000 False = Some ((18446762520453625325 / 18446744073709551616) ^ 2)"
proof -
  have "fl_ln rational_floats x = x" "fl_floor rational_floats x = of_int \<lfloor>x\<rfloor>" "fl_to_i32 rational_floats = floor" for x
    by (simp_all add: rational_floats_def)
  then show ?thesis
    by (simp add: crossed_price_def tick_clmm_def tick_reached sqrt_price_to_tick_def sqrt_price_to_price_def rational_ticks
      example_pool_def power2_eq_square Let_def)
qed

lemma tick_quotes:
  "quote_b_to_a rational_floats 0 10000000 tick_amm = Some 10101010"
  "quote_a_to_b rational_floats 0 10101010 tick_clmm = Some 10100907"
proof -
  show "quote_b_to_a rational_floats 0 10000000 tick_amm = Some 10101010"
    by (simp add: cycle_quotes xyk_quote_def Let_def)
  have "\<lfloor>1010101000000000000 / 100001010101 :: rat\<rfloor> = 10100907" by (simp add: floor_eq_iff)
  then show "quote_a_to_b rational_floats 0 10101010 tick_clmm = Some 10100907"
    by (simp add: quote_a_to_b_def effective_reserves_def tick_clmm_def example_pool_def quote_orca_pool_def
      sqrt_price_x64_to_f64_def Let_def)
qed

definition tick_route :: "rat route_params" where
  "tick_route = \<lparr>rp_hops = [hop_through tick_amm SOL_MINT 12 10101010 (1000 / 980), hop_through tick_clmm 12 SOL_MINT 10100907 (1010101 / 1000000)],
     rp_borrow_amount = 10000000, rp_gross_profit = 100907, rp_net_profit = 90907, rp_risk_factor = 10 / 980,
     rp_strategy = ''clmm_tick_arb'', rp_tier = 0\<rparr>"

lemma tick_build: "build_tick_arb_route rational_floats 0 tick_amm tick_clmm SOL_MINT 12 10000000 = Inr tick_route"
  by (simp add: build_tick_arb_route_def tick_quotes example_mints sat_mul_def impact_of_def TICK_MAX_IMPACT_def
      MAX_RETURN_MULTIPLIER_def tick_route_def wrap64_in Let_def del: SOL_MINT_def)

lemma tick_spread:
  defines "price \<equiv> (18446762520453625325 / 18446744073709551616 :: rat) ^ 2"
  shows "\<lfloor>\<bar>price - 49 / 50000\<bar> / (49 / 50000) * 10000\<rfloor> = 10194102" and "49 / 50000 < price" and "0 < price"
  by (simp_all add: price_def floor_eq_iff power2_eq_square)

lemma tick_pool_routes:
  "tick_arb_routes rational_floats 0 tick_clmm ((18446762520453625325 / 18446744073709551616) ^ 2) [10000000] tick_amm = Inr [tick_route]"
proof -
  have price: "compute_amm_price rational_floats 0 tick_amm = 49 / 50000"
    by (simp add: compute_amm_price_def effective_reserves_def cycle_pool_def example_pool_def)
  have amm: "tradable_amm tick_amm" by (simp add: tradable_amm_def dust_def cycle_raydium_def)
  have attempts: "attempts tick_clmm tick_amm tick_clmm [10000000] = [(tick_amm, tick_clmm, SOL_MINT, 12, 10000000)]"
    by (simp add: attempts_def CROSS_ANCHORS_def)
  have "fl_abs rational_floats = abs" by (simp add: rational_floats_def)
  then show ?thesis
    using tick_spread by (simp add: tick_arb_routes_def amm price attempts tick_build dex_fee_bps_def Let_def del: SOL_MINT_def)
qed

lemma tick_scan: "on_clmm_swap rational_floats 0 tick_market 81 1000000 False [10000000] = Some [tick_route]"
proof -
  have "get_pool tick_market 81 = Some tick_clmm" by (simp add: get_pool_def tick_pools)
  moreover have "tick_arb_routes rational_floats 0 tick_clmm p [10000000] tick_clmm = Inl Skip" for p
    by (simp add: tick_arb_routes_def tradable_amm_def)
  ultimately show ?thesis
    by (simp add: on_clmm_swap_def tick_crossed tick_of_pair tick_pool_routes collect_concat_def by_profit_def del: SOL_MINT_def)
qed

section \<open>Two exchanges four percent apart\<close>

definition gap_dear :: dex_pool where "gap_dear = (example_pool 73 1040000000)\<lparr>dp_dex_type := RaydiumAmmV4\<rparr>"
abbreviation gap_cheap :: dex_pool where "gap_cheap \<equiv> example_pool 71 1000000000"

definition gap_market :: pool_cache where "gap_market = upsert gap_dear (upsert gap_cheap new_pool_cache)"

lemma gap_pools: "cache_inner gap_market = [(71, gap_cheap), (73, gap_dear)]"
  by (simp add: gap_market_def upsert_def new_pool_cache_def Let_def gap_dear_def example_pool_def)

lemma rational_rates: "rates_faithful rational_floats"
proof -
  have "fl_to_i64 rational_floats = floor" "fl_abs rational_floats = abs" by (simp_all add: rational_floats_def)
  then show ?thesis
    unfolding rates_faithful_def Let_def e4_divergence_def
    by (auto simp: field_simps simp flip: of_nat_mult) (metis diff_self div_0 floor_zero linorder_neqE_nat)
qed

lemma gap_plain: "plain_pool 0 gap_cheap" "plain_pool 0 gap_dear"
  by (simp_all add: plain_pool_def effective_reserves_def gap_dear_def example_pool_def)

lemma gap_quotes: "quote_a_to_b fl 0 10000000 gap_dear = Some 10297029" "quote_b_to_a fl 0 10297029 gap_cheap = Some 10192080"
  by (simp_all add: quote_a_to_b_def quote_b_to_a_def effective_reserves_def gap_dear_def example_pool_def xyk_quote_def Let_def)

section \<open>A message with a deposit\<close>

text \<open>A compute-budget instruction, which has no accounts, and a deposit into the Raydium pool 11.\<close>

definition deposit_keys :: "pubkey list" where "deposit_keys = [5, RAYDIUM_AMM_V4, 77, 9, 11]"

definition deposit_message :: "bool \<Rightarrow> versioned_message" where
  "deposit_message budget = V0 \<lparr>msg_account_keys = deposit_keys, msg_instructions =
     (if budget then [\<lparr>ci_program_id_index = 2, ci_accounts = [], ci_data = [2]\<rparr>] else [])
     @ [\<lparr>ci_program_id_index = 1, ci_accounts = [3, 4], ci_data = 3 # u64_to_le 1000 @ u64_to_le 2000\<rparr>]\<rparr>"

section \<open>Properties\<close>





text \<open>
  Property C40. On a deposit into or a withdrawal from a Raydium pool the two detectors disagree. The one of the signal
  processor reports the second account of the instruction and the amount, whatever surrounds it. The one of the
  liquidity strategy reports the first account, and reports nothing if an instruction before it has no account of
  its own, as a compute-budget instruction.
\<close>

theorem liquidity_detectors_disagree:
  assumes "static_accounts msg = keys"
    and "instructions_with_data msg = before @ (program, disc # u64_to_le amount @ rest, accs) # after"
    and "idx keys program = Some RAYDIUM_AMM_V4" and "disc \<in> {RAYDIUM_ADD_LIQ, RAYDIUM_REMOVE_LIQ}"
    and "account_at accs keys 0 = Some first" and "account_at accs keys 1 = Some pool"
    and "\<forall>ix \<in> set before. liquidity_of keys ix = None"
  shows "\<lparr>lp_pool = pool, lp_is_remove = (disc = RAYDIUM_REMOVE_LIQ), lp_estimated_amount = amount\<rparr> \<in> set (detect_lp_events msg)
    \<and> detect_liquidity_event msg slot
      = (if \<forall>ix \<in> set before. resolves keys ix
         then Some \<lparr>le_pool = first, le_kind = (if disc = RAYDIUM_ADD_LIQ then AddLiquidity else RemoveLiquidity), le_slot = slot\<rparr>
         else None)"
proof -
  let ?ix = "(program, disc # u64_to_le amount @ rest, accs)"
  have of: "liquidity_of keys ?ix = Some (first, if disc = RAYDIUM_ADD_LIQ then AddLiquidity else RemoveLiquidity)"
    using assms(3-5) by (auto simp: liquidity_of_def liquidity_kind_def)
  show ?thesis
    using lp_events_append [OF assms(2)] raydium_lp_at [OF assms(3) _ assms(6), of disc amount rest] assms(1,2,4,7)
      first_liquidity [OF _ of, of before slot after] gives_up_before [of before keys slot "?ix # after"]
    by (auto simp: detect_liquidity_event_def)
qed

theorem liquidity_detectors_disagree_witness:
  "lp_pool ` set (detect_lp_events (deposit_message True)) = {11} \<and> detect_liquidity_event (deposit_message True) 0 = None
    \<and> map_option le_pool (detect_liquidity_event (deposit_message False) 0) = Some 9"
proof -
  have ixs: "instructions_with_data (deposit_message budget)
      = (if budget then [(2, [2], [])] else []) @ (1, 3 # u64_to_le 1000 @ u64_to_le 2000, [3, 4]) # []" for budget
    by (simp add: deposit_message_def)
  have keys: "static_accounts (deposit_message budget) = deposit_keys" for budget by (simp add: deposit_message_def)
  have facts: "idx deposit_keys 1 = Some RAYDIUM_AMM_V4" "(3 :: u8) \<in> {RAYDIUM_ADD_LIQ, RAYDIUM_REMOVE_LIQ}"
    "account_at [3, 4] deposit_keys 0 = Some 9" "account_at [3, 4] deposit_keys 1 = Some 11"
    "\<forall>ix \<in> set (if budget then [(2, [2], [])] else []). liquidity_of deposit_keys ix = None"
    "(\<forall>ix \<in> set (if budget then [(2, [2], [])] else []). resolves deposit_keys ix) \<longleftrightarrow> \<not> budget" for budget
    by (simp_all add: deposit_keys_def idx_def account_at_def liquidity_of_def liquidity_kind_def resolves_def)
  note found = liquidity_detectors_disagree [OF keys ixs facts(1-5), where slot = 0]
  have "detect_lp_events (deposit_message True) = [\<lparr>lp_pool = 11, lp_is_remove = False, lp_estimated_amount = 1000\<rparr>]"
  proof -
    have "lp_events_of deposit_keys (1, 3 # u64_to_le 1000 @ u64_to_le 2000, [3, 4])
        = [\<lparr>lp_pool = 11, lp_is_remove = False, lp_estimated_amount = 1000\<rparr>]"
      using raydium_lp_at [OF facts(1) _ facts(4), of 3 1000 "u64_to_le 2000"] by simp
    moreover have "lp_events_of deposit_keys (2, [2], []) = []"
      by (simp add: lp_events_of_def deposit_keys_def idx_def raydium_lp_def pumpswap_lp_def)
    ultimately show ?thesis by (simp only: detect_lp_events_def ixs keys) simp
  qed
  then show ?thesis using found [of True] found [of False] unfolding facts(6) by simp
qed

end
