(* ===== verification/Spec2Isabelle.thy ===== *)
theory Spec2Isabelle
  imports Shred_Parser Merkle_Tree Fec_Safety Fec_Recovery Helios_Arb Port_Receiver Flash_Provider Flash_Loans
    Amm Meteora_Quote Orca_Quote Saber_Quote Pool_Cache Swap_Detection Delta_Tracking
    Tx_Building Route_Reports Scanner_Reports Strategy_Reports
begin

text \<open>
  A verification library for the Helios Gold V2 Solana arbitrage bot.

  \<^bold>\<open>The program.\<close> The bot listens to the shreds of the Solana turbine network, rebuilds the blocks of
  entries from them, decodes swaps from the transactions, keeps the state of liquidity pools, looks for
  arbitrage routes, and sends transactions that borrow with a flash loan, swap along the route and repay. Two
  on-chain programs execute and guard the routes. The library follows that pipeline:

  \<^item> \<^verbatim>\<open>spy-node/src/shred_parser.rs\<close>: theory \<open>Shred_Parser\<close>. A packet becomes a \<open>parsed_shred\<close> with its
    coding header or data slice; the ledger crate's parser is a parameter. The lemmas give the result on every
    packet, the sizes on which the code panics, and the relation of its two decoders of the variant byte.
  \<^item> \<^verbatim>\<open>spy-node/src/fec_assembler.rs\<close>: theories \<open>Shred_Layout\<close> (offsets, capacities, the recovery variant, the
    builders of recovered payloads), \<open>Merkle_Tree\<close> (tree and proofs over the flat vector of hashes),
    \<open>Fec_Set\<close> (\<^verbatim>\<open>FecSet\<close> and its recovery), \<open>Fec_Assembler\<close> (\<^verbatim>\<open>FecAssembler\<close>: \<open>ingest\<close>,
    \<open>emit_ready_blocks\<close>, \<open>drain_complete\<close>, \<open>prune_old_slots\<close>, \<open>stats_snapshot\<close>), \<open>Fec_Safety\<close> (the invariant,
    panic freedom, completeness of what is emitted) and \<open>Fec_Recovery\<close> (what recovery returns). Hash-map
    order, Reed-Solomon, the hash, the ledger parser and the recovery of legacy shreds are fields of \<open>fec_ext\<close>.
  \<^item> \<^verbatim>\<open>programs/helios-arb\<close>: theories \<open>Onchain\<close> (accounts, instructions, the runtime as a parameter, program
    ids) and \<open>Helios_Arb\<close> (all four handlers). \<^verbatim>\<open>programs/port-flash-receiver\<close>: theory \<open>Port_Receiver\<close>, whose
    flash-loan handler calls the former.
  \<^item> \<^verbatim>\<open>market-engine/src/flash_selector.rs\<close> and the providers of \<^verbatim>\<open>types.rs\<close>: theory \<open>Flash_Provider\<close>;
    \<^verbatim>\<open>executor/src/flash_loans.rs\<close>: theories \<open>Flash_Config\<close> (environment and configuration files) and
    \<open>Flash_Loans\<close> (the instructions that wrap a route in a loan).
  \<^item> \<^verbatim>\<open>market-engine\<close>'s pool adapters: theories \<open>Account_Data\<close> (readers of account fields), \<open>Amm\<close>
    (\<^verbatim>\<open>raydium_cpmm.rs\<close>, \<^verbatim>\<open>fluxbeam.rs\<close> and the constant-product branch of \<^verbatim>\<open>pool_state.rs\<close>), \<open>Meteora\<close> and
    \<open>Meteora_Quote\<close> (\<^verbatim>\<open>meteora.rs\<close>), \<open>Floats\<close> (the \<^verbatim>\<open>f64\<close> operations, a parameter), \<open>Orca\<close> and
    \<open>Orca_Quote\<close> (\<^verbatim>\<open>orca.rs\<close>), \<open>Saber\<close> and \<open>Saber_Quote\<close> (\<^verbatim>\<open>saber.rs\<close>).
  \<^item> \<^verbatim>\<open>market-engine/src/pool_state.rs\<close> and \<^verbatim>\<open>fee_tiers.rs\<close>: theories \<open>Pool_State\<close> (pools, their quotes, the
    cache and its operations) and \<open>Pool_Cache\<close> (the cache as a machine, its indices, optimistic reserves).
  \<^item> \<^verbatim>\<open>market-engine/src/swap_decoder.rs\<close>: theories \<open>Swap_Decoder\<close> (decoders of swaps, graduations and pool
    creations) and \<open>Swap_Detection\<close> (what they recognise, and what hides later events).
    \<^verbatim>\<open>shred_delta_tracker.rs\<close>: theories \<open>Shred_Delta\<close> (the tracker that moves the reserves of the cached pools
    by the swaps and transfers of the shreds) and \<open>Delta_Tracking\<close> (tracker and cache as one machine, and
    the product of the reserves under a simulated swap).
  \<^item> \<^verbatim>\<open>executor/src/tx_builder.rs\<close>: theories \<open>Routes\<close> (the route records of \<^verbatim>\<open>types.rs\<close>), \<open>Tx_Builder\<close> (token
    programs, derived addresses, accounts and data of each hop, the instruction of the on-chain program),
    \<open>Tx_Transactions\<close> (token accounts, priority fee, the whole transaction, direct swaps) and \<open>Tx_Building\<close>,
    which joins the builder with \<open>Helios_Arb\<close>, \<open>Flash_Loans\<close>, \<open>Orca_Quote\<close> and \<open>Swap_Decoder\<close>: what it
    encodes is what the program on the chain runs. RPC, address derivation, borsh and signing are fields of
    \<open>tx_env\<close>.
  \<^item> \<^verbatim>\<open>market-engine/src/route_engine.rs\<close>: theories \<open>Pool_Quotes\<close> (quotes in the direction of a token, closed
    routes), \<open>Route_Engine\<close> (token graph, cycles to routes, the engine with its caches), \<open>Route_Contract\<close> (the
    contract of a route finder and what the transaction builder makes of it), \<open>Route_Soundness\<close> (invariant of
    the graph, soundness of the routes, panic freedom) and \<open>Route_Reports\<close> (the properties). The graph library
    with its search for negative cycles is the record \<open>route_env\<close>.
  \<^item> The scanners of \<^verbatim>\<open>market-engine\<close>: \<open>Scan_Support\<close> (loops whose body may continue or panic, grouping,
    tiers, what an arbitrage is); \<^verbatim>\<open>cross_dex.rs\<close> in \<open>Cross_Dex\<close> (pairs, triangles, hot routes),
    \<open>Cross_Soundness\<close> (what is reported), \<open>Cross_Answers\<close> (no scan panics, tiers, contract with the builder)
    and \<open>Cross_Reports\<close> (the properties); \<^verbatim>\<open>cyclic_arb.rs\<close> in \<open>Cyclic_Arb\<close>, \<^verbatim>\<open>stablecoin_arb.rs\<close> in
    \<open>Stablecoin_Arb\<close>, their properties in \<open>Scanner_Reports\<close>. Each scanner is an instance of \<open>route_source\<close>, as are
    \<open>Dlmm_Whirlpool\<close> (\<^verbatim>\<open>dlmm_whirlpool_arb.rs\<close>), \<open>Clmm_Tick_Arb\<close> (\<^verbatim>\<open>clmm_tick_arb.rs\<close>) and \<open>Graduation_Arb\<close>
    (\<^verbatim>\<open>pump_graduation_arb.rs\<close>).
  \<^item> What reacts to events: \<open>Opportunity_Scanner\<close> (\<^verbatim>\<open>opportunity_scanner.rs\<close>, a \<open>total_machine\<close> over rebuilds
    and vault updates), \<open>Liquidity_Events\<close> (\<^verbatim>\<open>liquidity_events.rs\<close> and the detector of \<^verbatim>\<open>strategies.rs\<close>),
    \<open>Strategies\<close> (its two strategies, and why they find nothing between constant-product pools),
    \<open>Orderbook_Backrun\<close> (\<^verbatim>\<open>openbook_decoder.rs\<close> and \<^verbatim>\<open>backrun_calculator.rs\<close>); the properties and examples are in
    \<open>Divergence_Reports\<close> and \<open>Strategy_Reports\<close>.
  \<^item> \<open>Machine\<close> and \<open>Prelude\<close> are the shared vocabulary: fixed-width words, checked and saturating arithmetic,
    byte ranges, results, sorted maps, and the contract of a machine whose steps keep an invariant.

  \<^bold>\<open>Conventions.\<close> Integers keep their width; arithmetic wraps as in the release profile. A panic is a
  value (\<open>None\<close> or an error constructor), so that its absence is a theorem. Code outside the repository is an
  argument of the definitions that call it.

  \<^bold>\<open>Loops.\<close> Loops that the code bounds by a counter are recursive on what is left of it (512 rounds in
  \<open>Orca.swap_loop\<close>, 4096 in \<open>Meteora.quote_loop\<close>, 32 in \<open>Saber.d_loop\<close> and \<open>Saber.y_loop\<close>); every other loop is total with a measure.

  \<^bold>\<open>Not modelled.\<close> The binaries, network and file input and output, the senders, Telegram, Redis, metrics
  and machine-learning modules, whose work is input and output or floating-point heuristics; the
  strategies that score in \<^verbatim>\<open>f64\<close>. The manifest gives a reason for each part.
\<close>

end
